(* ===== verification/Prelude.thy ===== *)
theory Prelude
  imports "HOL-Library.Word" "HOL-Library.Finite_Map" "HOL-Library.List_Lexorder"
    "HOL-Library.Char_ord" "HOL-Library.Multiset"
begin

text \<open>
  What the components share: Go's signed 64-bit integers as a type of their own with the signed
  order, Go errors as values, the result type of a fallible function, and generic facts on
  finite maps, options and lists. Unsigned 64-bit integers are \<open>64 word\<close> itself, whose
  order is the unsigned one and whose addition wraps. Go strings are byte sequences, so they are
  \<open>string\<close>, and Go's bytewise string order is the lexicographic order on \<open>char list\<close>.
\<close>

named_theorems riquet_defs \<open>definitions of the model that proofs unfold together\<close>
named_theorems codec \<open>round trip facts of encoders and decoders\<close>

text \<open>Evaluation of \<open>char_of\<close> at numerals.\<close>

lemmas char_of_eval = char_of_def bit_iff_odd

section \<open>Signed 64-bit integers\<close>

type_synonym u64 = "64 word"

datatype int64 = I64 (word_of: "64 word")

definition sint64 :: "int64 \<Rightarrow> int" where
  "sint64 x = sint (word_of x)"

definition int64_of :: "int \<Rightarrow> int64" where
  "int64_of i = I64 (word_of_int i)"

lemma sint64_inject: "sint64 x = sint64 y \<longleftrightarrow> x = y"
proof -
  have "word_of x = word_of y" if "sint64 x = sint64 y"
    using that by (simp add: sint64_def signed_word_eqI)
  then show ?thesis by (cases x; cases y) auto
qed

instantiation int64 :: linorder
begin
definition less_eq_int64 :: "int64 \<Rightarrow> int64 \<Rightarrow> bool" where
  "less_eq_int64 x y \<longleftrightarrow> sint64 x \<le> sint64 y"
definition less_int64 :: "int64 \<Rightarrow> int64 \<Rightarrow> bool" where
  "less_int64 x y \<longleftrightarrow> sint64 x < sint64 y"
instance
  by standard (auto simp: less_eq_int64_def less_int64_def sint64_inject [symmetric])
end

instantiation int64 :: "{zero, one, plus}"
begin
definition zero_int64 :: int64 where "zero_int64 = I64 0"
definition one_int64 :: int64 where "one_int64 = I64 1"
definition plus_int64 :: "int64 \<Rightarrow> int64 \<Rightarrow> int64" where
  "plus_int64 x y = I64 (word_of x + word_of y)"
instance ..
end

instance int64 :: semigroup_add
  by standard (simp add: plus_int64_def add.assoc)

instance int64 :: numeral ..

lemma numeral_int64: "numeral n = I64 (numeral n)"
proof (induction n)
  case One
  then show ?case by (simp add: one_int64_def)
next
  case (Bit0 n)
  have "(numeral (num.Bit0 n) :: int64) = numeral n + numeral n"
    by (rule numeral_Bit0)
  also have "\<dots> = I64 (numeral n + numeral n)"
    by (simp add: Bit0 plus_int64_def)
  finally show ?case by (simp add: numeral_Bit0)
next
  case (Bit1 n)
  have "(numeral (num.Bit1 n) :: int64) = numeral n + numeral n + 1"
    by (rule numeral_Bit1)
  also have "\<dots> = I64 (numeral n + numeral n + 1)"
    by (simp add: Bit1 plus_int64_def one_int64_def)
  finally show ?case by (simp add: numeral_Bit1)
qed

lemmas int64_eval = numeral_int64 zero_int64_def one_int64_def plus_int64_def less_int64_def
  less_eq_int64_def sint64_def

lemma sint64_0 [simp]: "sint64 0 = 0"
  by (simp add: sint64_def zero_int64_def)

lemma sint64_1 [simp]: "sint64 1 = 1"
  by (simp add: sint64_def one_int64_def)

lemma zero_neq_one_int64 [simp]: "(0::int64) \<noteq> 1" "(1::int64) \<noteq> 0"
  by (simp_all add: zero_int64_def one_int64_def)

lemma sint64_lower: "- (2 ^ 63) \<le> sint64 x"
  using sint_ge [of "word_of x"] by (simp add: sint64_def)

lemma sint64_upper: "sint64 x < 2 ^ 63"
  using sint_lt [of "word_of x"] by (simp add: sint64_def)

lemma int64_of_sint64 [simp]: "int64_of (sint64 x) = x"
  by (cases x) (simp add: int64_of_def sint64_def)

lemma sint64_int64_of:
  assumes "- (2 ^ 63) \<le> i" and "i < 2 ^ 63"
  shows "sint64 (int64_of i) = i"
  using assms by (simp add: sint64_def int64_of_def sint_sbintrunc' signed_take_bit_int_eq_self)

text \<open>Adding one is exact below the largest value and wraps to the smallest one there.\<close>

lemma sint64_plus1:
  "sint64 (x + 1) = (if sint64 x = 2 ^ 63 - 1 then - (2 ^ 63) else sint64 x + 1)"
proof (cases "sint64 x = 2 ^ 63 - 1")
  case True
  then have "x = int64_of (2 ^ 63 - 1)"
    using int64_of_sint64 [of x] by simp
  then show ?thesis
    using True by (simp add: int64_of_def plus_int64_def one_int64_def sint64_def)
next
  case False
  have "x + 1 = int64_of (sint64 x + 1)"
    by (cases x) (simp add: int64_of_def plus_int64_def one_int64_def sint64_def wi_hom_syms)
  moreover have "sint64 x + 1 < 2 ^ 63" and "- (2 ^ 63) \<le> sint64 x + 1"
    using False sint64_upper [of x] sint64_lower [of x] by auto
  ultimately show ?thesis
    using False sint64_int64_of [of "sint64 x + 1"] by simp
qed

lemma int64_ge1_iff: "(1::int64) \<le> x \<longleftrightarrow> 1 \<le> sint64 x"
  by (simp add: less_eq_int64_def)

lemma int64_plus1_greater: "1 \<le> x + 1 \<Longrightarrow> 0 \<le> x \<Longrightarrow> x < x + (1::int64)"
  by (auto simp: less_eq_int64_def less_int64_def sint64_plus1 split: if_splits)

section \<open>Sequence numbers\<close>

lemma unat_lt_2_64: "unat (x::u64) < 2 ^ 64"
  using unsigned_less [of x] by simp

lemma u64_plus1_greater:
  assumes "(s::u64) + 1 \<noteq> 0"
  shows "s < s + 1"
proof -
  have "unat (s + 1) = Suc (unat s)"
    using unatSuc [of s] assms by (simp add: add.commute)
  then show ?thesis by (simp add: word_less_nat_alt)
qed

lemma unat_of_nat_u64: "n < 2 ^ 64 \<Longrightarrow> unat (of_nat n :: u64) = n"
  by (simp add: unat_of_nat)

lemma u64_eq_of_nat: "unat (x :: u64) = n \<Longrightarrow> x = of_nat n"
  by (metis unat_lt_2_64 unat_of_nat_u64 unsigned_word_eqI)

section \<open>Errors of a sequence of checks\<close>

text \<open>\<open>if err := f(); err != nil { return err }\<close> followed by another check.\<close>

lemma check_seq_None [simp]:
  "(case x of None \<Rightarrow> y | Some e \<Rightarrow> Some e) = None \<longleftrightarrow> x = None \<and> y = None"
  by (cases x) simp_all

lemma check_seq_Some:
  "(case x of None \<Rightarrow> y | Some e \<Rightarrow> Some e) = Some r \<longleftrightarrow> x = Some r \<or> x = None \<and> y = Some r"
  by (cases x) auto

section \<open>Errors as values\<close>

lemma map_sum_InrE: "map_sum f g x = Inr y \<Longrightarrow> (\<And>z. x = Inr z \<Longrightarrow> y = g z \<Longrightarrow> P) \<Longrightarrow> P"
  by (cases x) auto

text \<open>Steps that change a state and may fail.\<close>

definition and_then :: "('s \<Rightarrow> ('e + 'a) \<times> 's) \<Rightarrow> ('a \<Rightarrow> 's \<Rightarrow> ('e + 'b) \<times> 's) \<Rightarrow> 's \<Rightarrow> ('e + 'b) \<times> 's" where
  "and_then f g s = (case f s of (Inl e, s') \<Rightarrow> (Inl e, s') | (Inr a, s') \<Rightarrow> g a s')"

lemma and_then_Inr:
  "and_then f g s = (Inr b, s'') \<Longrightarrow> (\<And>a s'. f s = (Inr a, s') \<Longrightarrow> g a s' = (Inr b, s'') \<Longrightarrow> P) \<Longrightarrow> P"
  by (auto simp: and_then_def split: prod.splits sum.splits)

section \<open>Sorting a slice\<close>

text \<open>\<open>sort.Slice\<close> with a less function. Which of several orders of equal items it returns
  is left open; \<open>sort_slice_unique\<close> covers the uses, where no two items are equal.\<close>

fun insert_slice :: "('a \<Rightarrow> 'a \<Rightarrow> bool) \<Rightarrow> 'a \<Rightarrow> 'a list \<Rightarrow> 'a list" where
  "insert_slice lt x [] = [x]"
| "insert_slice lt x (y # ys) = (if lt y x then y # insert_slice lt x ys else x # y # ys)"

definition sort_slice :: "('a \<Rightarrow> 'a \<Rightarrow> bool) \<Rightarrow> 'a list \<Rightarrow> 'a list" where
  "sort_slice lt xs = foldr (insert_slice lt) xs []"

lemma mset_sort_slice [simp]: "mset (sort_slice lt xs) = mset xs"
proof -
  have "mset (insert_slice lt x ys) = add_mset x (mset ys)" for x ys
    by (induction ys) auto
  then show ?thesis by (induction xs) (simp_all add: sort_slice_def)
qed

lemma set_sort_slice [simp]: "set (sort_slice lt xs) = set xs"
  by (metis mset_sort_slice set_mset_mset)

lemma sort_slice_Nil_iff: "sort_slice lt xs = [] \<longleftrightarrow> xs = []"
  by (metis mset_sort_slice mset_zero_iff)

definition strict_order_on :: "('a \<Rightarrow> 'a \<Rightarrow> bool) \<Rightarrow> 'a set \<Rightarrow> bool" where
  "strict_order_on lt A \<longleftrightarrow>
     (\<forall>x \<in> A. \<not> lt x x)
     \<and> (\<forall>x \<in> A. \<forall>y \<in> A. \<forall>z \<in> A. lt x y \<longrightarrow> lt y z \<longrightarrow> lt x z)
     \<and> (\<forall>x \<in> A. \<forall>y \<in> A. x \<noteq> y \<longrightarrow> lt x y \<or> lt y x)"

lemma insert_slice_sorted:
  assumes "strict_order_on lt A" and "x \<in> A" and "set ys \<subseteq> A" and "x \<notin> set ys"
    and "sorted_wrt lt ys"
  shows "sorted_wrt lt (insert_slice lt x ys)"
  using assms(3-5)
proof (induction ys)
  case (Cons y ys)
  have set: "set (insert_slice lt x ys) = insert x (set ys)"
    by (induction ys) auto
  show ?case
  proof (cases "lt y x")
    case True
    with Cons set show ?thesis by auto
  next
    case False
    have A: "y \<in> A" "x \<noteq> y" "\<And>z. z \<in> set ys \<Longrightarrow> z \<in> A \<and> lt y z"
      using Cons.prems by auto
    with assms(1,2) False have "lt x y" unfolding strict_order_on_def by blast
    moreover have "lt x z" if "z \<in> set ys" for z
      using A(1) A(3) [OF that] assms(1,2) \<open>lt x y\<close> unfolding strict_order_on_def by blast
    ultimately show ?thesis using False Cons.prems by auto
  qed
qed simp

lemma sort_slice_sorted:
  "strict_order_on lt (set xs) \<Longrightarrow> distinct xs \<Longrightarrow> sorted_wrt lt (sort_slice lt xs)"
proof -
  assume order: "strict_order_on lt (set xs)" and d: "distinct xs"
  have "sorted_wrt lt (sort_slice lt ys)" if "set ys \<subseteq> set xs" "distinct ys" for ys
    using that
  proof (induction ys)
    case (Cons y ys)
    then have "sorted_wrt lt (insert_slice lt y (sort_slice lt ys))"
      by (intro insert_slice_sorted [OF order]) auto
    then show ?case by (simp add: sort_slice_def)
  qed (simp add: sort_slice_def)
  with d show ?thesis by simp
qed

lemma sorted_wrt_mset_unique:
  assumes "strict_order_on lt A" and "set xs \<subseteq> A"
    and "sorted_wrt lt xs" and "sorted_wrt lt ys" and "mset xs = mset ys"
  shows "xs = ys"
  using assms(2-5)
proof (induction xs arbitrary: ys)
  case (Cons x xs)
  then obtain y zs where ys: "ys = y # zs" by (cases ys) auto
  have sets: "set (x # xs) = set ys" using Cons.prems(4) by (metis set_mset_mset)
  have "x = y"
  proof (rule ccontr)
    assume "x \<noteq> y"
    then have "lt x y" and "lt y x"
      using sets ys Cons.prems(2,3) by (auto simp: set_eq_iff)
    moreover have "x \<in> A" "y \<in> A" using sets ys Cons.prems(1) by auto
    ultimately show False using assms(1) unfolding strict_order_on_def by blast
  qed
  with Cons ys show ?case by auto
qed simp

text \<open>Any sorted arrangement of the same items is the one \<open>sort_slice\<close> gives.\<close>

lemma sort_slice_unique:
  assumes "strict_order_on lt (set xs)" and "distinct xs"
    and "mset ys = mset xs" and "sorted_wrt lt ys"
  shows "sort_slice lt xs = ys"
  using assms sort_slice_sorted [OF assms(1,2)]
  by (intro sorted_wrt_mset_unique [OF assms(1)]) auto

end
