(* ===== verification/Strconv.thy ===== *)
theory Strconv
  imports Prelude
begin

text \<open>
  The parts of Go's \<open>strconv\<close>, \<open>strings\<close> and \<open>fmt\<close> that the program calls: decimal
  formatting and parsing of signed and unsigned 64-bit integers, zero padding, prefixes,
  trimming and splitting. Every parser returns \<open>None\<close> where Go returns an error. The
  round trips hold for every machine integer.
\<close>

section \<open>Decimal digits\<close>

definition digit :: "nat \<Rightarrow> char" where
  "digit d = char_of (48 + d)"

definition is_digit :: "char \<Rightarrow> bool" where
  "is_digit c \<longleftrightarrow> 48 \<le> (of_char c :: nat) \<and> (of_char c :: nat) \<le> 57"

definition digit_val :: "char \<Rightarrow> nat" where
  "digit_val c = of_char c - 48"

lemma of_char_digit: "d < 10 \<Longrightarrow> (of_char (digit d) :: nat) = 48 + d"
  by (simp add: digit_def)

lemma is_digit_digit [simp]: "d < 10 \<Longrightarrow> is_digit (digit d)"
  by (simp add: is_digit_def of_char_digit)

lemma digit_val_digit [simp]: "d < 10 \<Longrightarrow> digit_val (digit d) = d"
  by (simp add: digit_val_def of_char_digit)

fun fmt_nat :: "nat \<Rightarrow> string" where
  "fmt_nat n = (if n < 10 then [digit n] else fmt_nat (n div 10) @ [digit (n mod 10)])"

declare fmt_nat.simps [simp del]

definition nat_of_digits :: "string \<Rightarrow> nat" where
  "nat_of_digits s = foldl (\<lambda>n c. 10 * n + digit_val c) 0 s"

lemma nat_of_digits_Nil [simp]: "nat_of_digits [] = 0"
  by (simp add: nat_of_digits_def)

lemma nat_of_digits_snoc [simp]: "nat_of_digits (s @ [c]) = 10 * nat_of_digits s + digit_val c"
  by (simp add: nat_of_digits_def)

lemma fmt_nat_digits: "list_all is_digit (fmt_nat n)"
proof (induction n rule: fmt_nat.induct)
  case (1 n)
  then show ?case by (cases "n < 10") (simp_all add: fmt_nat.simps [of n])
qed

lemma fmt_nat_nonempty [simp]: "fmt_nat n \<noteq> []"
  by (simp add: fmt_nat.simps [of n])

lemma nat_of_digits_fmt_nat [simp, codec]: "nat_of_digits (fmt_nat n) = n"
proof (induction n rule: fmt_nat.induct)
  case (1 n)
  then show ?case
    by (cases "n < 10") (simp_all add: fmt_nat.simps [of n] nat_of_digits_def)
qed

lemma fmt_nat_inject [simp]: "fmt_nat m = fmt_nat n \<longleftrightarrow> m = n"
  by (metis nat_of_digits_fmt_nat)

text \<open>A decimal numeral has no leading zero unless it is the numeral 0 itself.\<close>

lemma hd_fmt_nat: "fmt_nat n = CHR ''0'' # s \<Longrightarrow> n = 0 \<and> s = []"
proof (induction n arbitrary: s rule: fmt_nat.induct)
  case (1 n)
  show ?case
  proof (cases "n < 10")
    case True
    have "CHR ''0'' = digit 0" by code_simp
    with True "1.prems" show ?thesis
      by (metis digit_val_digit fmt_nat.simps list.inject zero_less_numeral)
  next
    case False
    with "1.prems" obtain t where t: "fmt_nat (n div 10) = CHR ''0'' # t"
      by (cases "fmt_nat (n div 10)") (auto simp: fmt_nat.simps [of n])
    with False "1.IH" have "n div 10 = 0" by blast
    with False show ?thesis by simp
  qed
qed

section \<open>strconv and fmt\<close>

definition fmt_int :: "int \<Rightarrow> string" where
  "fmt_int i = (if i < 0 then CHR ''-'' # fmt_nat (nat (- i)) else fmt_nat (nat i))"

definition fmt_i64 :: "int64 \<Rightarrow> string" where
  "fmt_i64 x = fmt_int (sint64 x)"

definition fmt_u64 :: "u64 \<Rightarrow> string" where
  "fmt_u64 x = fmt_nat (unat x)"

text \<open>\<open>%020d\<close>.\<close>

definition fmt_pad20 :: "u64 \<Rightarrow> string" where
  "fmt_pad20 x = (let s = fmt_u64 x in replicate (20 - length s) (CHR ''0'') @ s)"

definition parse_nat :: "string \<Rightarrow> nat option" where
  "parse_nat s = (if s \<noteq> [] \<and> list_all is_digit s then Some (nat_of_digits s) else None)"

definition ParseUint :: "string \<Rightarrow> u64 option" where
  "ParseUint s = (case parse_nat s of None \<Rightarrow> None
     | Some n \<Rightarrow> if n < 2 ^ 64 then Some (of_nat n) else None)"

definition ParseInt :: "string \<Rightarrow> int64 option" where
  "ParseInt s =
     (case s of [] \<Rightarrow> None
      | c # r \<Rightarrow>
          (case parse_nat (if c = CHR ''+'' \<or> c = CHR ''-'' then r else s) of
             None \<Rightarrow> None
           | Some n \<Rightarrow>
               if c = CHR ''-''
               then (if n \<le> 2 ^ 63 then Some (int64_of (- int n)) else None)
               else (if n < 2 ^ 63 then Some (int64_of (int n)) else None)))"

definition ParseBool :: "string \<Rightarrow> bool option" where
  "ParseBool s =
     (if s \<in> {''1'', ''t'', ''T'', ''true'', ''TRUE'', ''True''} then Some True
      else if s \<in> {''0'', ''f'', ''F'', ''false'', ''FALSE'', ''False''} then Some False
      else None)"

lemma parse_nat_fmt_nat [simp, codec]: "parse_nat (fmt_nat n) = Some n"
  by (simp add: parse_nat_def fmt_nat_digits)

lemma ParseUint_fmt_u64 [simp, codec]: "ParseUint (fmt_u64 x) = Some x"
  using unat_lt_2_64 [of x] by (simp add: ParseUint_def fmt_u64_def)

lemma fmt_nat_hd_not_sign:
  assumes "fmt_nat n = c # r"
  shows "c \<noteq> CHR ''-''" and "c \<noteq> CHR ''+''"
  using fmt_nat_digits [of n] assms by (auto simp: is_digit_def)

lemma ParseInt_fmt_i64 [simp, codec]: "ParseInt (fmt_i64 x) = Some x"
proof (cases "sint64 x < 0")
  case True
  have "nat (- sint64 x) \<le> 2 ^ 63"
    using sint64_lower [of x] by simp
  moreover have "int64_of (sint64 x) = x" by simp
  ultimately show ?thesis
    using True by (simp add: ParseInt_def fmt_i64_def fmt_int_def)
next
  case False
  obtain c r where cr: "fmt_nat (nat (sint64 x)) = c # r"
    using fmt_nat_nonempty [of "nat (sint64 x)"] by (cases "fmt_nat (nat (sint64 x))") auto
  have "parse_nat (c # r) = Some (nat (sint64 x))"
    by (simp flip: cr)
  moreover have "nat (sint64 x) < 2 ^ 63"
    using sint64_upper [of x] by simp
  ultimately show ?thesis
    using False fmt_nat_hd_not_sign [OF cr] by (simp add: ParseInt_def fmt_i64_def fmt_int_def cr)
qed

lemma fmt_i64_inject [simp]: "fmt_i64 x = fmt_i64 y \<longleftrightarrow> x = y"
  by (metis ParseInt_fmt_i64 option.inject)

lemma fmt_u64_inject [simp]: "fmt_u64 x = fmt_u64 y \<longleftrightarrow> x = y"
  by (metis ParseUint_fmt_u64 option.inject)

lemma length_fmt_nat: "n < 10 ^ k \<Longrightarrow> 0 < k \<Longrightarrow> length (fmt_nat n) \<le> k"
proof (induction n arbitrary: k rule: fmt_nat.induct)
  case (1 n)
  show ?case
  proof (cases "n < 10")
    case True
    with "1.prems" show ?thesis by (simp add: fmt_nat.simps [of n])
  next
    case False
    with "1.prems" obtain j where k: "k = Suc j" and j: "0 < j"
      by (metis One_nat_def gr0_conv_Suc neq0_conv power_one_right)
    have "n div 10 < 10 ^ j"
      using "1.prems"(1) k by (simp add: less_mult_imp_div_less mult.commute)
    with False j "1.IH" have "length (fmt_nat (n div 10)) \<le> j" by blast
    with False k show ?thesis by (simp add: fmt_nat.simps [of n])
  qed
qed

lemma nat_of_digits_zeros: "nat_of_digits (replicate k (CHR ''0'') @ s) = nat_of_digits s"
  by (induction k) (simp_all add: nat_of_digits_def digit_val_def)

lemma length_fmt_u64: "length (fmt_u64 x) \<le> 20"
proof -
  have "unat x < 2 ^ 64" by (rule unat_lt_2_64)
  also have "(2::nat) ^ 64 \<le> 10 ^ 20" by simp
  finally show ?thesis by (simp add: fmt_u64_def length_fmt_nat)
qed

lemma length_fmt_pad20 [simp]: "length (fmt_pad20 x) = 20"
  using length_fmt_u64 [of x] by (simp add: fmt_pad20_def Let_def)

lemma ParseUint_fmt_pad20 [simp, codec]: "ParseUint (fmt_pad20 x) = Some x"
proof -
  have "list_all is_digit (fmt_pad20 x)"
    using fmt_nat_digits [of "unat x"]
    by (auto simp: fmt_pad20_def Let_def fmt_u64_def list_all_iff is_digit_def)
  moreover have "nat_of_digits (fmt_pad20 x) = unat x"
    by (simp add: fmt_pad20_def Let_def nat_of_digits_zeros fmt_u64_def)
  moreover have "fmt_pad20 x \<noteq> []"
    by (metis length_fmt_pad20 list.size(3) zero_neq_numeral)
  ultimately show ?thesis
    using unat_lt_2_64 [of x] by (simp add: ParseUint_def parse_nat_def)
qed

section \<open>strings\<close>

definition HasPrefix :: "string \<Rightarrow> string \<Rightarrow> bool" where
  "HasPrefix s p \<longleftrightarrow> take (length p) s = p"

definition TrimPrefix :: "string \<Rightarrow> string \<Rightarrow> string" where
  "TrimPrefix s p = (if HasPrefix s p then drop (length p) s else s)"

lemma HasPrefix_append [simp]: "HasPrefix (p @ s) p"
  by (simp add: HasPrefix_def)

lemma TrimPrefix_append [simp]: "TrimPrefix (p @ s) p = s"
  by (simp add: TrimPrefix_def)

lemma HasPrefixD: "HasPrefix s p \<Longrightarrow> s = p @ TrimPrefix s p"
  by (metis HasPrefix_def TrimPrefix_def append_take_drop_id)

text \<open>The encodings of the runes \<open>unicode.IsSpace\<close> accepts, and \<open>strings.TrimSpace\<close>, which
  strips them at both ends.\<close>

definition space_runes :: "string list" where
  "space_runes = map (\<lambda>b. [char_of b]) [9, 10, 11, 12, 13, 32 :: nat]
     @ [[CHR 0xC2, CHR 0x85], [CHR 0xC2, CHR 0xA0], [CHR 0xE1, CHR 0x9A, CHR 0x80],
        [CHR 0xE2, CHR 0x80, CHR 0xA8], [CHR 0xE2, CHR 0x80, CHR 0xA9], [CHR 0xE2, CHR 0x80, CHR 0xAF],
        [CHR 0xE2, CHR 0x81, CHR 0x9F], [CHR 0xE3, CHR 0x80, CHR 0x80]]
     @ map (\<lambda>b. [CHR 0xE2, CHR 0x80, char_of b]) [128..<139 :: nat]"

function trim_runes :: "string list \<Rightarrow> string \<Rightarrow> string" where
  "trim_runes rs s =
     (case find (\<lambda>r. r \<noteq> [] \<and> HasPrefix s r) rs of None \<Rightarrow> s | Some r \<Rightarrow> trim_runes rs (drop (length r) s))"
  by pat_completeness auto
termination
proof (relation "measure (\<lambda>(rs, s). length s)", simp, clarsimp)
  fix rs :: "string list" and s r
  assume "find (\<lambda>r. r \<noteq> [] \<and> HasPrefix s r) rs = Some r"
  then have "r \<noteq> []" and "HasPrefix s r" by (auto simp: find_Some_iff)
  then show "length s - length r < length s"
    by (cases s) (auto simp: HasPrefix_def)
qed

declare trim_runes.simps [simp del]

definition TrimSpace :: "string \<Rightarrow> string" where
  "TrimSpace s = rev (trim_runes (map rev space_runes) (rev (trim_runes space_runes s)))"

fun Split :: "char \<Rightarrow> string \<Rightarrow> string list" where
  "Split d [] = [[]]"
| "Split d (c # s) = (if c = d then [] # Split d s else
     (case Split d s of [] \<Rightarrow> [[c]] | w # ws \<Rightarrow> (c # w) # ws))"

end
