(* ===== verification/Json.thy ===== *)
theory Json
  imports Strconv
begin

text \<open>
  The parts of Go's \<open>unicode/utf8\<close> and \<open>encoding/json\<close> that the program relies on: a JSON
  tree, the text \<open>json.Marshal\<close> writes for it (compact, with Go's escapes) and the parser
  behind \<open>json.Unmarshal\<close>. A tree keeps its string literals and keys as they are written
  (between their quotes, escapes included), so a \<open>json.RawMessage\<close> is the tree of its text
  and nothing of that text is lost but white space. A byte that is not UTF-8 is written as the
  escape \<open>\ufffd\<close>, so a string read back is \<open>coerce_utf8\<close> of the string written.
  Go's limit of 10000 nested values is not modelled.
\<close>

section \<open>UTF-8\<close>

abbreviation byte :: "char \<Rightarrow> nat" where
  "byte c \<equiv> of_char c"

definition cont_byte :: "char \<Rightarrow> bool" where
  "cont_byte c \<longleftrightarrow> 128 \<le> byte c \<and> byte c \<le> 191"

text \<open>The width in bytes of the rune a string starts with, 0 where the bytes are no UTF-8:
  the lead byte fixes the width and the range of the second byte.\<close>

definition lead_width :: "char \<Rightarrow> nat" where
  "lead_width c =
     (if byte c < 128 then 1
      else if 194 \<le> byte c \<and> byte c \<le> 223 then 2
      else if 224 \<le> byte c \<and> byte c \<le> 239 then 3
      else if 240 \<le> byte c \<and> byte c \<le> 244 then 4
      else 0)"

definition second_ok :: "char \<Rightarrow> char \<Rightarrow> bool" where
  "second_ok c d \<longleftrightarrow>
     (if byte c = 224 then 160 else if byte c = 240 then 144 else 128) \<le> byte d
     \<and> byte d \<le> (if byte c = 237 then 159 else if byte c = 244 then 143 else 191)"

definition tail_ok :: "char \<Rightarrow> string \<Rightarrow> bool" where
  "tail_ok c t \<longleftrightarrow>
     (case t of [] \<Rightarrow> lead_width c = 1
      | d # r \<Rightarrow> Suc (length t) = lead_width c \<and> second_ok c d \<and> list_all cont_byte r)"

definition rune_width :: "string \<Rightarrow> nat" where
  "rune_width s =
     (case s of [] \<Rightarrow> 0
      | c # r \<Rightarrow> if tail_ok c (take (lead_width c - 1) r) then lead_width c else 0)"

lemma tail_ok_length: "tail_ok c t \<Longrightarrow> Suc (length t) = lead_width c"
  by (auto simp: tail_ok_def split: list.splits)

lemma rune_width_Cons:
  "rune_width (c # r) \<noteq> 0 \<Longrightarrow>
     tail_ok c (take (rune_width (c # r) - 1) r) \<and> rune_width (c # r) = lead_width c"
  by (auto simp: rune_width_def split: if_splits)

lemma rune_width_le: "rune_width s \<le> length s"
proof (cases s)
  case (Cons c r)
  then show ?thesis
    using tail_ok_length [of c "take (lead_width c - 1) r"] by (auto simp: rune_width_def)
qed (simp add: rune_width_def)

lemma rune_width_prefix:
  assumes "tail_ok c t"
  shows "rune_width (c # t @ u) = lead_width c"
proof -
  have "lead_width c - 1 = length t"
    using tail_ok_length [OF assms] by simp
  then show ?thesis using assms by (simp add: rune_width_def)
qed

lemma rune_width_split:
  assumes "rune_width s \<noteq> 0"
  obtains c t u where "s = c # t @ u" and "tail_ok c t" and "rune_width s = Suc (length t)"
proof (cases s)
  case Nil
  with assms show ?thesis by (simp add: rune_width_def)
next
  case (Cons c r)
  let ?t = "take (rune_width s - 1) r"
  have ok: "tail_ok c ?t" and w: "rune_width s = lead_width c"
    using rune_width_Cons [of c r] assms Cons by auto
  have "s = c # ?t @ drop (rune_width s - 1) r"
    using Cons by simp
  then show ?thesis
    using that [OF _ ok] tail_ok_length [OF ok] w by metis
qed

lemma rune_width_ascii [simp]: "byte c < 128 \<Longrightarrow> rune_width (c # s) = 1"
  by (simp add: rune_width_def lead_width_def tail_ok_def)

lemma rune_width_eq1: "rune_width (c # s) = 1 \<longleftrightarrow> byte c < 128"
  by (auto simp: rune_width_def lead_width_def tail_ok_def split: if_splits)

text \<open>U+FFFD, the replacement character, as three bytes.\<close>

definition replacement :: string where
  "replacement = [CHR 0xEF, CHR 0xBF, CHR 0xBD]"

function coerce_utf8 :: "string \<Rightarrow> string" where
  "coerce_utf8 [] = []"
| "coerce_utf8 (c # s) =
     (let w = rune_width (c # s) in
      if w = 0 then replacement @ coerce_utf8 s
      else take w (c # s) @ coerce_utf8 (drop w (c # s)))"
  by pat_completeness auto
termination by (relation "measure length") auto

declare coerce_utf8.simps(2) [simp del]

function valid_utf8 :: "string \<Rightarrow> bool" where
  "valid_utf8 [] = True"
| "valid_utf8 (c # s) =
     (let w = rune_width (c # s) in
      if w = 0 then False else valid_utf8 (drop w (c # s)))"
  by pat_completeness auto
termination by (relation "measure length") auto

declare valid_utf8.simps(2) [simp del]

lemma coerce_utf8_valid [simp]: "valid_utf8 s \<Longrightarrow> coerce_utf8 s = s"
  by (induction s rule: coerce_utf8.induct)
    (auto simp: coerce_utf8.simps(2) valid_utf8.simps(2) Let_def)

lemma valid_utf8_rune:
  assumes "tail_ok c t"
  shows "valid_utf8 (c # t @ u) = valid_utf8 u"
proof -
  have "rune_width (c # t @ u) = Suc (length t)"
    using rune_width_prefix [OF assms] tail_ok_length [OF assms] by simp
  then show ?thesis by (simp add: valid_utf8.simps(2) Let_def)
qed

lemma valid_utf8_replacement [simp]: "valid_utf8 (replacement @ t) = valid_utf8 t"
proof -
  have "tail_ok (CHR 0xEF) [CHR 0xBF, CHR 0xBD]"
    by (simp add: tail_ok_def lead_width_def second_ok_def cont_byte_def)
  from valid_utf8_rune [OF this, of t] show ?thesis
    by (simp add: replacement_def)
qed

text \<open>Induction on a string rune by rune, a byte at a time where there is no rune.\<close>

lemma rune_induct [case_names Nil bad rune]:
  assumes "P []"
    and "\<And>c s. rune_width (c # s) = 0 \<Longrightarrow> P s \<Longrightarrow> P (c # s)"
    and "\<And>c t u. tail_ok c t \<Longrightarrow> rune_width (c # t @ u) = Suc (length t) \<Longrightarrow> P u \<Longrightarrow> P (c # t @ u)"
  shows "P s"
proof (induction s rule: length_induct)
  case (1 s)
  show ?case
  proof (cases "rune_width s = 0")
    case True
    with 1 assms(1,2) show ?thesis by (cases s) auto
  next
    case False
    then obtain c t u where "s = c # t @ u" "tail_ok c t" "rune_width s = Suc (length t)"
      by (rule rune_width_split)
    with 1 assms(3) show ?thesis by simp
  qed
qed

lemma coerce_utf8_bad: "rune_width (c # s) = 0 \<Longrightarrow> coerce_utf8 (c # s) = replacement @ coerce_utf8 s"
  by (simp add: coerce_utf8.simps(2))

lemma coerce_utf8_rune:
  "tail_ok c t \<Longrightarrow> coerce_utf8 (c # t @ u) = c # t @ coerce_utf8 u"
  using rune_width_prefix [of c t u] tail_ok_length [of c t, symmetric]
  by (simp add: coerce_utf8.simps(2) Let_def)

lemma valid_coerce_utf8 [simp]: "valid_utf8 (coerce_utf8 s)"
  by (induction s rule: rune_induct) (simp_all add: coerce_utf8_bad coerce_utf8_rune valid_utf8_rune)

lemma coerce_utf8_idem [simp]: "coerce_utf8 (coerce_utf8 s) = coerce_utf8 s"
  by simp

lemma coerce_utf8_eq_iff: "coerce_utf8 s = s \<longleftrightarrow> valid_utf8 s"
  by (metis coerce_utf8_valid valid_coerce_utf8)

lemma valid_utf8_ascii [simp]: "byte c < 128 \<Longrightarrow> valid_utf8 (c # s) = valid_utf8 s"
  by (simp add: valid_utf8.simps(2) Let_def)

lemma valid_utf8_ascii_append: "list_all (\<lambda>c. byte c < 128) s \<Longrightarrow> valid_utf8 (s @ t) = valid_utf8 t"
  by (induction s) simp_all

section \<open>The tree and its text\<close>

datatype json =
    JNull
  | JBool bool
  | JNum string
  | JStr string
  | JArr "json list"
  | JObj "(string \<times> json) list"

abbreviation bslash :: char where "bslash \<equiv> CHR 0x5C"
abbreviation dquote :: char where "dquote \<equiv> CHR 0x22"

definition hex_digit :: "nat \<Rightarrow> char" where
  "hex_digit n = (if n < 10 then char_of (48 + n) else char_of (87 + n))"

text \<open>How \<open>json.Marshal\<close> writes one ASCII byte of a string (HTML escaping is on).\<close>

definition escape_byte :: "char \<Rightarrow> string" where
  "escape_byte c =
     (if c = dquote \<or> c = bslash then [bslash, c]
      else if c = CHR 0x08 then [bslash, CHR ''b'']
      else if c = CHR 0x0C then [bslash, CHR ''f'']
      else if c = CHR 0x0A then [bslash, CHR ''n'']
      else if c = CHR 0x0D then [bslash, CHR ''r'']
      else if c = CHR 0x09 then [bslash, CHR ''t'']
      else if byte c < 32 \<or> c = CHR ''<'' \<or> c = CHR ''>'' \<or> c = CHR ''&'' then
        [bslash, CHR ''u'', CHR ''0'', CHR ''0'', hex_digit (byte c div 16), hex_digit (byte c mod 16)]
      else [c])"

definition escape_rune :: "string \<Rightarrow> string" where
  "escape_rune r =
     (if r = [CHR 0xE2, CHR 0x80, CHR 0xA8] then bslash # ''u2028''
      else if r = [CHR 0xE2, CHR 0x80, CHR 0xA9] then bslash # ''u2029''
      else r)"

function escape_string :: "string \<Rightarrow> string" where
  "escape_string [] = []"
| "escape_string (c # s) =
     (let w = rune_width (c # s) in
      if w = 0 then (bslash # ''ufffd'') @ escape_string s
      else if w = 1 then escape_byte c @ escape_string s
      else escape_rune (take w (c # s)) @ escape_string (drop w (c # s)))"
  by pat_completeness auto
termination by (relation "measure length") auto

declare escape_string.simps(2) [simp del]

definition quote_lit :: "string \<Rightarrow> string" where
  "quote_lit r = dquote # r @ [dquote]"

fun join_comma :: "string list \<Rightarrow> string" where
  "join_comma [] = []"
| "join_comma [x] = x"
| "join_comma (x # y # zs) = x @ CHR '','' # join_comma (y # zs)"

fun print_json :: "json \<Rightarrow> string" where
  "print_json JNull = ''null''"
| "print_json (JBool b) = (if b then ''true'' else ''false'')"
| "print_json (JNum s) = s"
| "print_json (JStr r) = quote_lit r"
| "print_json (JArr js) = CHR ''['' # join_comma (map print_json js) @ '']''"
| "print_json (JObj kvs) =
     CHR ''{'' # join_comma (map (\<lambda>(k, v). quote_lit k @ CHR '':'' # print_json v) kvs) @ ''}''"

text \<open>The tree of a Go string value, and of a struct or map with the given keys.\<close>

definition enc_string :: "string \<Rightarrow> json" where
  "enc_string s = JStr (escape_string s)"

definition obj :: "(string \<times> json) list \<Rightarrow> json" where
  "obj kvs = JObj (map (\<lambda>(k, v). (escape_string k, v)) kvs)"

text \<open>Writing a \<open>json.RawMessage\<close> escapes the HTML characters of its literals again
  (\<open>appendCompact\<close> with \<open>escape\<close> set) and drops white space, which trees do not have.\<close>

function html_escape :: "string \<Rightarrow> string" where
  "html_escape [] = []"
| "html_escape (c # s) =
     (if c = CHR ''<'' \<or> c = CHR ''>'' \<or> c = CHR ''&'' then
        [bslash, CHR ''u'', CHR ''0'', CHR ''0'', hex_digit (byte c div 16), hex_digit (byte c mod 16)]
          @ html_escape s
      else if c = CHR 0xE2 \<and> take 2 s = [CHR 0x80, CHR 0xA8] then (bslash # ''u2028'') @ html_escape (drop 2 s)
      else if c = CHR 0xE2 \<and> take 2 s = [CHR 0x80, CHR 0xA9] then (bslash # ''u2029'') @ html_escape (drop 2 s)
      else c # html_escape s)"
  by pat_completeness auto
termination by (relation "measure length") auto

declare html_escape.simps(2) [simp del]

fun compact_raw :: "json \<Rightarrow> json" where
  "compact_raw (JStr r) = JStr (html_escape r)"
| "compact_raw (JArr js) = JArr (map compact_raw js)"
| "compact_raw (JObj kvs) = JObj (map (\<lambda>(k, v). (html_escape k, compact_raw v)) kvs)"
| "compact_raw j = j"

section \<open>The parser\<close>

definition is_ws :: "char \<Rightarrow> bool" where
  "is_ws c \<longleftrightarrow> byte c \<in> {9, 10, 13, 32}"

definition skip_ws :: "string \<Rightarrow> string" where
  "skip_ws s = dropWhile is_ws s"

definition hex_val :: "char \<Rightarrow> nat option" where
  "hex_val c =
     (if is_digit c then Some (byte c - 48)
      else if 97 \<le> byte c \<and> byte c \<le> 102 then Some (byte c - 87)
      else if 65 \<le> byte c \<and> byte c \<le> 70 then Some (byte c - 55)
      else None)"

definition hex4 :: "string \<Rightarrow> (nat \<times> string) option" where
  "hex4 s =
     (case s of a # b # c # d # r \<Rightarrow>
        (case (hex_val a, hex_val b, hex_val c, hex_val d) of
           (Some w, Some x, Some y, Some z) \<Rightarrow> Some (4096 * w + 256 * x + 16 * y + z, r)
         | _ \<Rightarrow> None)
      | _ \<Rightarrow> None)"

definition encode_rune :: "nat \<Rightarrow> string" where
  "encode_rune r =
     (if r < 128 then [char_of r]
      else if r < 2048 then [char_of (192 + r div 64), char_of (128 + r mod 64)]
      else if r < 65536 then
        [char_of (224 + r div 4096), char_of (128 + r div 64 mod 64), char_of (128 + r mod 64)]
      else
        [char_of (240 + r div 262144), char_of (128 + r div 4096 mod 64),
         char_of (128 + r div 64 mod 64), char_of (128 + r mod 64)])"

text \<open>A \<open>\u\<close> escape: a surrogate pair is one rune, a lone surrogate is U+FFFD.\<close>

definition unescape_u :: "string \<Rightarrow> (string \<times> string) option" where
  "unescape_u s =
     (case hex4 s of None \<Rightarrow> None
      | Some (r, rest) \<Rightarrow>
          if 55296 \<le> r \<and> r < 57344 then
            (case rest of
               b # u # rest' \<Rightarrow>
                 if r < 56320 \<and> b = bslash \<and> u = CHR ''u'' then
                   (case hex4 rest' of
                      Some (r2, rest2) \<Rightarrow>
                        if 56320 \<le> r2 \<and> r2 < 57344
                        then Some (encode_rune (65536 + 1024 * (r - 55296) + (r2 - 56320)), rest2)
                        else Some (replacement, rest)
                    | None \<Rightarrow> Some (replacement, rest))
                 else Some (replacement, rest)
             | _ \<Rightarrow> Some (replacement, rest))
          else Some (encode_rune r, rest))"

definition unescape :: "string \<Rightarrow> (string \<times> string) option" where
  "unescape s =
     (case s of [] \<Rightarrow> None
      | e # r \<Rightarrow>
          if e = dquote \<or> e = bslash \<or> e = CHR ''/'' then Some ([e], r)
          else if e = CHR ''b'' then Some ([CHR 0x08], r)
          else if e = CHR ''f'' then Some ([CHR 0x0C], r)
          else if e = CHR ''n'' then Some ([CHR 0x0A], r)
          else if e = CHR ''r'' then Some ([CHR 0x0D], r)
          else if e = CHR ''t'' then Some ([CHR 0x09], r)
          else if e = CHR ''u'' then unescape_u r
          else None)"

lemma hex4_shorter: "hex4 s = Some (n, r) \<Longrightarrow> length r < length s"
  by (auto simp: hex4_def split: list.splits option.splits)

lemma unescape_u_shorter: "unescape_u s = Some (t, r) \<Longrightarrow> length r < length s"
  by (auto simp: unescape_u_def dest!: hex4_shorter split: option.splits if_splits list.splits)

lemma unescape_shorter: "unescape s = Some (t, r) \<Longrightarrow> length r < length s"
  by (auto simp: unescape_def dest: unescape_u_shorter split: list.splits if_splits)

text \<open>The body of a string literal up to its closing quote, and what is left.\<close>

function parse_str :: "string \<Rightarrow> (string \<times> string) option" where
  "parse_str [] = None"
| "parse_str (c # s) =
     (if c = dquote then Some ([], s)
      else if c = bslash then
        (case unescape s of None \<Rightarrow> None
         | Some (t, r) \<Rightarrow> map_option (\<lambda>(u, rest). (t @ u, rest)) (parse_str r))
      else if byte c < 32 then None
      else
        (let w = rune_width (c # s) in
         if w = 0 then map_option (\<lambda>(u, rest). (replacement @ u, rest)) (parse_str s)
         else map_option (\<lambda>(u, rest). (take w (c # s) @ u, rest)) (parse_str (drop w (c # s)))))"
  by pat_completeness auto
termination
  by (relation "measure length") (auto dest: unescape_shorter)

declare parse_str.simps(2) [simp del]

text \<open>The literal itself, and the string a literal stands for.\<close>

definition parse_lit :: "string \<Rightarrow> (string \<times> string) option" where
  "parse_lit s =
     (case parse_str s of None \<Rightarrow> None
      | Some (_, rest) \<Rightarrow> Some (take (length s - length rest - 1) s, rest))"

definition unquote :: "string \<Rightarrow> string" where
  "unquote r = (case parse_str (r @ [dquote]) of None \<Rightarrow> [] | Some (s, _) \<Rightarrow> s)"

definition digits_nonempty :: "string \<Rightarrow> bool" where
  "digits_nonempty s \<longleftrightarrow> s \<noteq> [] \<and> list_all is_digit s"

definition valid_exp :: "string \<Rightarrow> bool" where
  "valid_exp s =
     (case s of [] \<Rightarrow> True
      | e # t \<Rightarrow> (e = CHR ''e'' \<or> e = CHR ''E'')
          \<and> digits_nonempty (case t of c # u \<Rightarrow> if c = CHR ''+'' \<or> c = CHR ''-'' then u else t | [] \<Rightarrow> []))"

definition valid_frac :: "string \<Rightarrow> bool" where
  "valid_frac s =
     (case s of [] \<Rightarrow> True
      | c # t \<Rightarrow> if c = CHR ''.''
          then takeWhile is_digit t \<noteq> [] \<and> valid_exp (dropWhile is_digit t) else valid_exp s)"

definition valid_number :: "string \<Rightarrow> bool" where
  "valid_number s =
     (let t = (case s of [] \<Rightarrow> [] | c # r \<Rightarrow> if c = CHR ''-'' then r else s);
          i = takeWhile is_digit t
      in i \<noteq> [] \<and> (hd i = CHR ''0'' \<longrightarrow> tl i = []) \<and> valid_frac (dropWhile is_digit t))"

definition num_char :: "char \<Rightarrow> bool" where
  "num_char c \<longleftrightarrow> is_digit c \<or> c \<in> {CHR ''+'', CHR ''-'', CHR ''.'', CHR ''e'', CHR ''E''}"

definition parse_num :: "string \<Rightarrow> (json \<times> string) option" where
  "parse_num s = (let n = takeWhile num_char s in
     if valid_number n then Some (JNum n, dropWhile num_char s) else None)"

fun parse_value :: "nat \<Rightarrow> string \<Rightarrow> (json \<times> string) option"
  and parse_elems :: "nat \<Rightarrow> string \<Rightarrow> (json list \<times> string) option"
  and parse_members :: "nat \<Rightarrow> string \<Rightarrow> ((string \<times> json) list \<times> string) option" where
  "parse_value 0 s = None"
| "parse_value (Suc n) s =
     (case skip_ws s of [] \<Rightarrow> None
      | c # r \<Rightarrow>
          if c = dquote then map_option (\<lambda>(t, rest). (JStr t, rest)) (parse_lit r)
          else if c = CHR ''{'' then
            (case skip_ws r of [] \<Rightarrow> None
             | d # r' \<Rightarrow> if d = CHR ''}'' then Some (JObj [], r')
                 else map_option (\<lambda>(kvs, rest). (JObj kvs, rest)) (parse_members n (d # r')))
          else if c = CHR ''['' then
            (case skip_ws r of [] \<Rightarrow> None
             | d # r' \<Rightarrow> if d = CHR '']'' then Some (JArr [], r')
                 else map_option (\<lambda>(js, rest). (JArr js, rest)) (parse_elems n (d # r')))
          else if c = CHR ''t'' then
            (if HasPrefix r ''rue'' then Some (JBool True, drop 3 r) else None)
          else if c = CHR ''f'' then
            (if HasPrefix r ''alse'' then Some (JBool False, drop 4 r) else None)
          else if c = CHR ''n'' then
            (if HasPrefix r ''ull'' then Some (JNull, drop 3 r) else None)
          else parse_num (c # r))"
| "parse_elems 0 s = None"
| "parse_elems (Suc n) s =
     (case parse_value n s of None \<Rightarrow> None
      | Some (j, r) \<Rightarrow>
          (case skip_ws r of [] \<Rightarrow> None
           | c # r' \<Rightarrow>
               if c = CHR '','' then map_option (\<lambda>(js, rest). (j # js, rest)) (parse_elems n r')
               else if c = CHR '']'' then Some ([j], r') else None))"
| "parse_members 0 s = None"
| "parse_members (Suc n) s =
     (case skip_ws s of [] \<Rightarrow> None
      | c # r \<Rightarrow>
          if c \<noteq> dquote then None
          else (case parse_lit r of None \<Rightarrow> None
           | Some (k, r1) \<Rightarrow>
               (case skip_ws r1 of [] \<Rightarrow> None
                | d # r2 \<Rightarrow>
                    if d \<noteq> CHR '':'' then None
                    else (case parse_value n r2 of None \<Rightarrow> None
                     | Some (j, r3) \<Rightarrow>
                         (case skip_ws r3 of [] \<Rightarrow> None
                          | e # r4 \<Rightarrow>
                              if e = CHR '','' then
                                map_option (\<lambda>(kvs, rest). ((k, j) # kvs, rest)) (parse_members n r4)
                              else if e = CHR ''}'' then Some ([(k, j)], r4) else None)))))"

text \<open>One value at the start of a stream (\<open>json.Decoder.Decode\<close>), and a whole text that is
  one value (\<open>json.Unmarshal\<close>). Fuel twice the length of the text is enough:
  \<open>parse_value_fuel\<close>.\<close>

definition decode_stream :: "string \<Rightarrow> (json \<times> string) option" where
  "decode_stream s = parse_value (2 * length s + 1) s"

definition parse_json :: "string \<Rightarrow> json option" where
  "parse_json s =
     (case decode_stream s of None \<Rightarrow> None
      | Some (j, r) \<Rightarrow> if skip_ws r = [] then Some j else None)"

section \<open>Enough fuel\<close>

lemma skip_ws_length: "length (skip_ws s) \<le> length s"
  by (simp add: skip_ws_def length_dropWhile_le)

lemma skip_ws_Cons: "skip_ws s = c # r \<Longrightarrow> length r < length s"
  using skip_ws_length [of s] by simp

lemma skip_ws_id [simp]: "\<not> is_ws c \<Longrightarrow> skip_ws (c # r) = c # r"
  by (simp add: skip_ws_def)

lemma skip_ws_Nil [simp]: "skip_ws [] = []"
  by (simp add: skip_ws_def)

lemma parse_str_shorter: "parse_str s = Some (t, r) \<Longrightarrow> length r < length s"
proof (induction s arbitrary: t r rule: parse_str.induct)
  case (2 c s)
  show ?case
  proof (cases "c = dquote \<or> (c \<noteq> bslash \<and> byte c < 32)")
    case True
    with "2.prems" show ?thesis by (auto simp: parse_str.simps(2) split: if_splits)
  next
    case False
    with "2.prems" "2.IH" show ?thesis
      by (fastforce simp: parse_str.simps(2) Let_def dest: unescape_shorter
          split: if_splits option.splits)
  qed
qed simp

lemma parse_lit_shorter: "parse_lit s = Some (t, r) \<Longrightarrow> length r < length s"
  by (auto simp: parse_lit_def dest: parse_str_shorter split: option.splits)

lemma parse_num_shorter: "parse_num s = Some (j, r) \<Longrightarrow> length r < length s"
proof -
  assume a: "parse_num s = Some (j, r)"
  then have "valid_number (takeWhile num_char s)" and r: "r = dropWhile num_char s"
    by (auto simp: parse_num_def Let_def split: if_splits)
  then have "takeWhile num_char s \<noteq> []"
    by (auto simp: valid_number_def Let_def)
  moreover have "length (takeWhile num_char s) + length (dropWhile num_char s) = length s"
    by (metis length_append takeWhile_dropWhile_id)
  ultimately show ?thesis using r by (cases "takeWhile num_char s") auto
qed

lemma parse_shorter:
  "parse_value n s = Some (j, r) \<Longrightarrow> length r < length s"
  "parse_elems n s = Some (js, r) \<Longrightarrow> length r < length s"
  "parse_members n s = Some (kvs, r) \<Longrightarrow> length r < length s"
proof (induction n s and n s and n s arbitrary: j r and js r and kvs r
    rule: parse_value_parse_elems_parse_members.induct)
  case (2 n s)
  obtain c u where cu: "skip_ws s = c # u"
    using "2.prems" by (cases "skip_ws s") auto
  have "length u < length s" using cu by (rule skip_ws_Cons)
  moreover have "length r < Suc (length u)"
    using "2.prems" "2.IH" cu
    by (auto split: if_splits list.splits
        dest!: parse_lit_shorter parse_num_shorter skip_ws_Cons) (fastforce dest: skip_ws_Cons)+
  ultimately show ?case by simp
next
  case (4 n s)
  then show ?case
    by (fastforce split: option.splits list.splits if_splits dest: skip_ws_Cons)
next
  case (6 n s)
  then show ?case
    by (fastforce split: option.splits list.splits if_splits dest: skip_ws_Cons parse_lit_shorter)
qed simp_all

lemma parse_fuel:
  "(2 * length s < n \<longrightarrow> parse_value (Suc n) s = parse_value n s)
   \<and> (2 * length s + 1 < n \<longrightarrow> parse_elems (Suc n) s = parse_elems n s)
   \<and> (2 * length s + 1 < n \<longrightarrow> parse_members (Suc n) s = parse_members n s)"
proof (induction n arbitrary: s)
  case 0
  then show ?case by simp
next
  case (Suc m)
  have V: "parse_value (Suc (Suc m)) s = parse_value (Suc m) s" if "2 * length s < Suc m"
  proof -
    have M: "parse_members (Suc m) (d # u) = parse_members m (d # u)"
      and E: "parse_elems (Suc m) (d # u) = parse_elems m (d # u)"
      if "skip_ws s = c # r" "skip_ws r = d # u" for c r d u
      using Suc [of "d # u"] \<open>2 * length s < Suc m\<close> skip_ws_Cons [OF that(1)]
        skip_ws_length [of r] that(2) by auto
    show ?thesis
      unfolding parse_value.simps(2) [of "Suc m" s] parse_value.simps(2) [of m s]
      by (auto simp: M E split: list.splits simp del: parse_elems.simps parse_members.simps)
  qed
  have E: "parse_elems (Suc (Suc m)) s = parse_elems (Suc m) s" if "2 * length s + 1 < Suc m"
  proof -
    have v: "parse_value (Suc m) s = parse_value m s"
      using Suc [of s] that by simp
    have e: "parse_elems (Suc m) u = parse_elems m u"
      if "parse_value m s = Some (j, r)" "skip_ws r = c # u" for j r c u
      using Suc [of u] \<open>2 * length s + 1 < Suc m\<close> parse_shorter(1) [OF that(1)]
        skip_ws_Cons [OF that(2)] by auto
    show ?thesis
      unfolding parse_elems.simps(2) [of "Suc m" s] parse_elems.simps(2) [of m s] v
      by (auto simp: e split: option.split list.split simp del: parse_elems.simps parse_value.simps)
  qed
  have "parse_members (Suc (Suc m)) s = parse_members (Suc m) s" if "2 * length s + 1 < Suc m"
  proof -
    have v: "parse_value (Suc m) r2 = parse_value m r2" and l: "length r2 < length s"
      if "skip_ws s = c # r" "parse_lit r = Some (k, r1)" "skip_ws r1 = d # r2" for c r k r1 d r2
      using Suc [of r2] \<open>2 * length s + 1 < Suc m\<close> skip_ws_Cons [OF that(1)]
        parse_lit_shorter [OF that(2)] skip_ws_Cons [OF that(3)] by auto
    have w: "parse_members (Suc m) r4 = parse_members m r4"
      if "skip_ws s = c # r" "parse_lit r = Some (k, r1)" "skip_ws r1 = d # r2"
        "parse_value m r2 = Some (j, r3)" "skip_ws r3 = e # r4" for c r k r1 d r2 j r3 e r4
      using Suc [of r4] \<open>2 * length s + 1 < Suc m\<close> l [OF that(1-3)] parse_shorter(1) [OF that(4)]
        skip_ws_Cons [OF that(5)] by auto
    show ?thesis
      unfolding parse_members.simps(2) [of "Suc m" s] parse_members.simps(2) [of m s]
      by (auto simp: v w split: option.split list.split simp del: parse_members.simps parse_value.simps)
  qed
  with V E show ?case by blast
qed

text \<open>Any fuel above twice the length of the text gives the same answer.\<close>

lemma parse_value_fuel: "2 * length s < n \<Longrightarrow> parse_value n s = decode_stream s"
proof (induction n)
  case (Suc n)
  show ?case
  proof (cases "2 * length s < n")
    case True
    with Suc parse_fuel [of s n] show ?thesis by simp
  next
    case False
    with Suc.prems have "Suc n = 2 * length s + 1" by simp
    then show ?thesis by (simp only: decode_stream_def)
  qed
qed simp

section \<open>Text round trip\<close>

definition ends :: "string \<Rightarrow> bool" where
  "ends s \<longleftrightarrow> (case s of [] \<Rightarrow> True | c # _ \<Rightarrow> \<not> num_char c)"

text \<open>The trees \<open>Marshal\<close> builds: literals as it escapes them, numbers in the grammar.\<close>

definition lit_ok :: "string \<Rightarrow> bool" where
  "lit_ok r \<longleftrightarrow> r \<in> range escape_string"

fun json_ok :: "json \<Rightarrow> bool" where
  "json_ok (JNum s) = valid_number s"
| "json_ok (JStr r) = lit_ok r"
| "json_ok (JArr js) = (\<forall>j \<in> set js. json_ok j)"
| "json_ok (JObj kvs) = (\<forall>(k, v) \<in> set kvs. lit_ok k \<and> json_ok v)"
| "json_ok j = True"

text \<open>The trees of texts: a literal is any that reads back, whatever follows it.\<close>

definition raw_lit :: "string \<Rightarrow> bool" where
  "raw_lit r \<longleftrightarrow> (\<forall>rest. parse_lit (r @ dquote # rest) = Some (r, rest))"

fun json_text :: "json \<Rightarrow> bool" where
  "json_text (JNum s) = valid_number s"
| "json_text (JStr r) = raw_lit r"
| "json_text (JArr js) = (\<forall>j \<in> set js. json_text j)"
| "json_text (JObj kvs) = (\<forall>(k, v) \<in> set kvs. raw_lit k \<and> json_text v)"
| "json_text j = True"

lemma hex_val_hex_digit: "n < 16 \<Longrightarrow> hex_val (hex_digit n) = Some n"
  by (auto simp: hex_val_def hex_digit_def is_digit_def)

lemma hex4_byte:
  "a < 16 \<Longrightarrow> b < 16 \<Longrightarrow>
     hex4 (CHR ''0'' # CHR ''0'' # hex_digit a # hex_digit b # s) = Some (16 * a + b, s)"
proof -
  have "hex_val (CHR ''0'') = Some 0" by (simp add: hex_val_def is_digit_def)
  then show "a < 16 \<Longrightarrow> b < 16 \<Longrightarrow>
     hex4 (CHR ''0'' # CHR ''0'' # hex_digit a # hex_digit b # s) = Some (16 * a + b, s)"
    by (simp add: hex4_def hex_val_hex_digit)
qed

lemma encode_rune_consts:
  "encode_rune 65533 = replacement"
  "encode_rune 8232 = [CHR 0xE2, CHR 0x80, CHR 0xA8]"
  "encode_rune 8233 = [CHR 0xE2, CHR 0x80, CHR 0xA9]"
  by (simp_all add: encode_rune_def replacement_def char_of_eval)

lemma hex4_consts:
  "hex4 (CHR ''f'' # CHR ''f'' # CHR ''f'' # CHR ''d'' # s) = Some (65533, s)"
  "hex4 (CHR ''2'' # CHR ''0'' # CHR ''2'' # CHR ''8'' # s) = Some (8232, s)"
  "hex4 (CHR ''2'' # CHR ''0'' # CHR ''2'' # CHR ''9'' # s) = Some (8233, s)"
  by (simp_all add: hex4_def hex_val_def is_digit_def)

lemma parse_str_escape_byte:
  assumes "byte c < 128"
  shows "parse_str (escape_byte c @ s) = map_option (\<lambda>(u, rest). (c # u, rest)) (parse_str s)"
proof -
  have c: "c = char_of (byte c)" by simp
  have u: "unescape_u (CHR ''0'' # CHR ''0'' # hex_digit (byte c div 16) # hex_digit (byte c mod 16) # s)
      = Some ([c], s)"
  proof -
    have "byte c div 16 < 16" and "byte c mod 16 < 16" using assms by auto
    then have "hex4 (CHR ''0'' # CHR ''0'' # hex_digit (byte c div 16) # hex_digit (byte c mod 16) # s)
        = Some (byte c, s)"
      by (simp only: hex4_byte mult_div_mod_eq)
    with assms show ?thesis by (simp add: unescape_u_def encode_rune_def)
  qed
  let ?simple = "{CHR 0x08, CHR 0x09, CHR 0x0A, CHR 0x0C, CHR 0x0D}"
  consider "c \<in> {dquote, bslash} \<union> ?simple"
    | "c \<notin> {dquote, bslash} \<union> ?simple" "byte c < 32 \<or> c \<in> {CHR ''<'', CHR ''>'', CHR ''&''}"
    | "\<not> byte c < 32" "c \<notin> {dquote, bslash, CHR ''<'', CHR ''>'', CHR ''&''} \<union> ?simple"
    by auto
  then show ?thesis
  proof cases
    case 1
    then show ?thesis by (auto simp: escape_byte_def parse_str.simps(2) unescape_def)
  next
    case 2
    then have e: "escape_byte c =
        [bslash, CHR ''u'', CHR ''0'', CHR ''0'', hex_digit (byte c div 16), hex_digit (byte c mod 16)]"
      by (auto simp: escape_byte_def)
    show ?thesis by (simp add: e parse_str.simps(2) unescape_def u)
  next
    case 3
    with assms show ?thesis by (auto simp: escape_byte_def parse_str.simps(2) Let_def)
  qed
qed

lemma parse_str_rune:
  assumes "tail_ok c t" and "\<not> byte c < 128"
  shows "parse_str (c # t @ s) = map_option (\<lambda>(u, rest). (c # t @ u, rest)) (parse_str s)"
proof -
  have "rune_width (c # t @ s) = Suc (length t)"
    using rune_width_prefix [OF assms(1)] tail_ok_length [OF assms(1)] by simp
  moreover have "c \<noteq> dquote" "c \<noteq> bslash" "\<not> byte c < 32"
    using assms(2) by auto
  ultimately show ?thesis by (simp add: parse_str.simps(2) Let_def)
qed

lemma parse_str_escape_rune:
  assumes "tail_ok c t" and "\<not> byte c < 128"
  shows "parse_str (escape_rune (c # t) @ s) = map_option (\<lambda>(u, rest). (c # t @ u, rest)) (parse_str s)"
proof (cases "c # t = [CHR 0xE2, CHR 0x80, CHR 0xA8] \<or> c # t = [CHR 0xE2, CHR 0x80, CHR 0xA9]")
  case True
  then show ?thesis
    by (auto simp: escape_rune_def parse_str.simps(2) unescape_def unescape_u_def hex4_consts
        encode_rune_consts)
next
  case False
  then have "escape_rune (c # t) = c # t" by (auto simp: escape_rune_def)
  with parse_str_rune [OF assms] show ?thesis by simp
qed

lemma parse_str_escape:
  "parse_str (escape_string s @ dquote # rest) = Some (coerce_utf8 s, rest)"
proof (induction s rule: rune_induct)
  case Nil
  then show ?case by (simp add: parse_str.simps(2))
next
  case (bad c s)
  have "unescape (CHR ''u'' # CHR ''f'' # CHR ''f'' # CHR ''f'' # CHR ''d'' # u) = Some (replacement, u)" for u
    by (simp add: unescape_def unescape_u_def hex4_consts encode_rune_consts)
  with bad show ?case
    by (simp add: escape_string.simps(2) coerce_utf8_bad Let_def parse_str.simps(2))
next
  case (rune c t u)
  show ?case
  proof (cases "byte c < 128")
    case True
    then have "t = []"
      using tail_ok_length [OF rune(1)] by (simp add: lead_width_def)
    with True rune show ?thesis
      by (simp add: escape_string.simps(2) coerce_utf8.simps(2) Let_def parse_str_escape_byte)
  next
    case False
    with rune show ?thesis
      by (simp add: escape_string.simps(2) Let_def coerce_utf8_rune parse_str_escape_rune
          rune_width_eq1 [of c "t @ u", symmetric])
  qed
qed

lemma parse_lit_ok: "lit_ok r \<Longrightarrow> parse_lit (r @ dquote # rest) = Some (r, rest)"
  by (auto simp: lit_ok_def parse_lit_def parse_str_escape)

lemma unquote_escape [simp, codec]: "unquote (escape_string s) = coerce_utf8 s"
  using parse_str_escape [of s "[]"] by (simp add: unquote_def)

lemma valid_number_chars: "valid_number s \<Longrightarrow> list_all num_char s"
proof -
  have d: "list_all is_digit u \<Longrightarrow> list_all num_char u" for u
    by (auto simp: list_all_iff num_char_def)
  have e: "valid_exp u \<Longrightarrow> list_all num_char u" for u
    using d by (auto simp: valid_exp_def digits_nonempty_def num_char_def split: list.splits if_splits)
  have td: "list_all num_char (dropWhile is_digit u) \<Longrightarrow> list_all num_char u" for u
  proof -
    have "list_all num_char (takeWhile is_digit u)"
      using d [of "takeWhile is_digit u"] by (auto simp: list_all_iff dest: set_takeWhileD)
    then show "list_all num_char (dropWhile is_digit u) \<Longrightarrow> list_all num_char u"
      by (metis list_all_append takeWhile_dropWhile_id)
  qed
  have f: "list_all num_char u" if "valid_frac u" for u
  proof (cases "\<exists>r. u = CHR ''.'' # r")
    case True
    then obtain r where r: "u = CHR ''.'' # r" ..
    with that have "list_all num_char (dropWhile is_digit r)"
      by (auto simp: valid_frac_def intro: e)
    then have "list_all num_char r" by (rule td)
    with r show ?thesis by (simp add: num_char_def)
  next
    case False
    with that have "valid_exp u"
      by (auto simp: valid_frac_def valid_exp_def split: list.splits if_splits)
    then show ?thesis by (rule e)
  qed
  assume "valid_number s"
  then show ?thesis
    using f td by (auto simp: valid_number_def Let_def num_char_def split: list.splits if_splits)
qed

lemma parse_num_ok: "valid_number n \<Longrightarrow> ends rest \<Longrightarrow> parse_num (n @ rest) = Some (JNum n, rest)"
proof -
  assume n: "valid_number n" and rest: "ends rest"
  have "takeWhile num_char rest = []" and "dropWhile num_char rest = rest"
    using rest by (cases rest; simp add: ends_def)+
  then have "takeWhile num_char (n @ rest) = n" and "dropWhile num_char (n @ rest) = rest"
    using valid_number_chars [OF n] by (simp_all add: list_all_iff)
  with n show ?thesis by (simp add: parse_num_def)
qed

lemma valid_number_hd:
  assumes "valid_number n"
  obtains c r where "n = c # r" and "is_digit c \<or> c = CHR ''-''"
  using assms by (cases n) (auto simp: valid_number_def Let_def split: if_splits)

text \<open>The first byte of a value's text is neither white space nor a closing bracket.\<close>

lemma print_json_hd:
  assumes "json_text j"
  obtains c r where "print_json j = c # r" and "\<not> is_ws c" and "c \<noteq> CHR '']''" and "c \<noteq> CHR ''}''"
proof (cases j)
  case (JNum n)
  with assms obtain c r where "n = c # r" "is_digit c \<or> c = CHR ''-''"
    by (auto elim: valid_number_hd)
  then have "\<not> is_ws c \<and> c \<noteq> CHR '']'' \<and> c \<noteq> CHR ''}''"
    by (auto simp: is_digit_def is_ws_def)
  with JNum \<open>n = c # r\<close> that [of c r] show ?thesis by simp
next
  case (JBool b)
  with that show ?thesis by (cases b) (auto simp: is_ws_def)
qed (use that in \<open>auto simp: is_ws_def quote_lit_def\<close>)

lemma join_comma_Cons: "join_comma (x # xs) = x @ (case xs of [] \<Rightarrow> [] | _ \<Rightarrow> CHR '','' # join_comma xs)"
  by (cases xs) auto

definition reads_back :: "json \<Rightarrow> bool" where
  "reads_back j \<longleftrightarrow> (\<forall>n rest. 2 * length (print_json j) \<le> n \<longrightarrow> ends rest \<longrightarrow>
     parse_value n (print_json j @ rest) = Some (j, rest))"

lemma ends_brackets [simp]: "ends (CHR '','' # r)" "ends (CHR '']'' # r)" "ends (CHR ''}'' # r)" "ends []"
  by (simp_all add: ends_def num_char_def is_digit_def)

lemma not_ws_brackets [simp]: "\<not> is_ws (CHR '','')" "\<not> is_ws (CHR '']'')" "\<not> is_ws (CHR ''}'')"
  "\<not> is_ws (CHR '':'')" "\<not> is_ws dquote" "\<not> is_ws (CHR ''['')" "\<not> is_ws (CHR ''{'')"
  by (simp_all add: is_ws_def)

lemma parse_elems_print:
  assumes "\<forall>j \<in> set js. reads_back j" and "js \<noteq> []"
    and "2 * length (join_comma (map print_json js)) + 1 \<le> n"
  shows "parse_elems n (join_comma (map print_json js) @ CHR '']'' # rest) = Some (js, rest)"
  using assms
proof (induction js arbitrary: n)
  case (Cons j js)
  then obtain m where m: "n = Suc m" by (cases n) auto
  let ?tail = "(case map print_json js of [] \<Rightarrow> [] | _ \<Rightarrow> CHR '','' # join_comma (map print_json js)) @ CHR '']'' # rest"
  have "2 * length (print_json j) \<le> m"
    using Cons.prems(3) m by (simp add: join_comma_Cons)
  moreover have "ends ?tail" by (cases js) simp_all
  ultimately have v: "parse_value m (print_json j @ ?tail) = Some (j, ?tail)"
    using Cons.prems(1) by (simp add: reads_back_def)
  show ?case
  proof (cases js)
    case Nil
    with v m show ?thesis by simp
  next
    case (Cons k ks)
    then have "2 * length (join_comma (map print_json js)) + 1 \<le> m"
      using Cons.prems(3) m by (simp add: join_comma_Cons)
    with Cons.IH Cons.prems(1) Cons
    have "parse_elems m (join_comma (map print_json js) @ CHR '']'' # rest) = Some (js, rest)"
      by simp
    with v m Cons show ?thesis by simp
  qed
qed simp

abbreviation print_member :: "string \<times> json \<Rightarrow> string" where
  "print_member \<equiv> \<lambda>(k, v). quote_lit k @ CHR '':'' # print_json v"

lemma parse_members_print:
  assumes "\<forall>(k, j) \<in> set kvs. raw_lit k \<and> reads_back j" and "kvs \<noteq> []"
    and "2 * length (join_comma (map print_member kvs)) + 1 \<le> n"
  shows "parse_members n (join_comma (map print_member kvs) @ CHR ''}'' # rest)
    = Some (kvs, rest)"
  using assms
proof (induction kvs arbitrary: n)
  case (Cons p kvs)
  obtain k j where p: "p = (k, j)" by (cases p)
  from Cons obtain m where m: "n = Suc m" by (cases n) auto
  let ?tail = "(case map print_member kvs of [] \<Rightarrow> [] | _ \<Rightarrow> CHR '','' # join_comma (map print_member kvs)) @ CHR ''}'' # rest"
  have "2 * length (print_json j) \<le> m"
    using Cons.prems(3) m p by (simp add: join_comma_Cons)
  moreover have "ends ?tail" by (cases kvs) simp_all
  ultimately have v: "parse_value m (print_json j @ ?tail) = Some (j, ?tail)"
    using Cons.prems(1) p by (simp add: reads_back_def)
  have s: "parse_lit (k @ dquote # CHR '':'' # print_json j @ ?tail)
      = Some (k, CHR '':'' # print_json j @ ?tail)"
    using Cons.prems(1) p by (simp add: raw_lit_def)
  show ?case
  proof (cases kvs)
    case Nil
    with v s m p show ?thesis by (simp add: quote_lit_def)
  next
    case (Cons q qs)
    then have "2 * length (join_comma (map print_member kvs)) + 1 \<le> m"
      using Cons.prems(3) m p by (simp add: join_comma_Cons)
    with Cons.IH Cons.prems(1) Cons
    have "parse_members m (join_comma (map print_member kvs) @ CHR ''}'' # rest)
        = Some (kvs, rest)"
      by simp
    with v s m p Cons show ?thesis by (simp add: quote_lit_def)
  qed
qed simp

lemma reads_back_number:
  assumes "json_text (JNum n)"
  shows "reads_back (JNum n)"
proof -
  have "parse_value m (n @ rest) = Some (JNum n, rest)"
    if le: "2 * length n \<le> m" and rest: "ends rest" for m rest
  proof -
    obtain c r where n: "n = c # r" and c: "is_digit c \<or> c = CHR ''-''"
      using assms by (auto elim: valid_number_hd)
    have ws: "\<not> is_ws c \<and> c \<notin> {dquote, CHR ''{'', CHR ''['', CHR ''t'', CHR ''f'', CHR ''n''}"
      using c by (auto simp: is_digit_def is_ws_def)
    obtain k where "m = Suc k" using le n by (cases m) simp_all
    then have "parse_value m (n @ rest) = parse_num (n @ rest)"
      using ws n by simp
    then show ?thesis using assms rest parse_num_ok by simp
  qed
  then show ?thesis by (simp add: reads_back_def)
qed

lemma reads_back_array:
  assumes "json_text (JArr js)" and "\<And>j. j \<in> set js \<Longrightarrow> reads_back j"
  shows "reads_back (JArr js)"
proof (cases js)
  case Nil
  have "parse_value m (''[]'' @ rest) = Some (JArr [], rest)" if "4 \<le> m" for m rest
    using that by (cases m) simp_all
  with Nil show ?thesis by (simp add: reads_back_def)
next
  case (Cons j ks)
  let ?body = "join_comma (map print_json js)"
  obtain c r where c: "print_json j = c # r" "\<not> is_ws c" "c \<noteq> CHR '']''"
    using assms Cons by (auto elim: print_json_hd)
  then obtain u where u: "?body = c # u" using Cons by (simp add: join_comma_Cons)
  have "parse_value m (CHR ''['' # ?body @ CHR '']'' # rest) = Some (JArr js, rest)"
    if le: "2 * length ?body + 4 \<le> m" for m rest
  proof -
    obtain k where k: "m = Suc k" using le by (cases m) auto
    have "parse_elems k (?body @ CHR '']'' # rest) = Some (js, rest)"
      using assms le k Cons by (intro parse_elems_print) auto
    with k c(2,3) u show ?thesis by simp
  qed
  then show ?thesis by (simp add: reads_back_def)
qed

lemma reads_back_object:
  assumes "json_text (JObj kvs)" and "\<And>k j. (k, j) \<in> set kvs \<Longrightarrow> reads_back j"
  shows "reads_back (JObj kvs)"
proof (cases kvs)
  case Nil
  have "parse_value m (''{}'' @ rest) = Some (JObj [], rest)" if "4 \<le> m" for m rest
    using that by (cases m) simp_all
  with Nil show ?thesis by (simp add: reads_back_def)
next
  case (Cons p ps)
  let ?body = "join_comma (map print_member kvs)"
  obtain u where u: "?body = dquote # u"
    using Cons by (cases p) (simp add: join_comma_Cons quote_lit_def)
  have "parse_value m (CHR ''{'' # ?body @ CHR ''}'' # rest) = Some (JObj (kvs), rest)"
    if le: "2 * length ?body + 4 \<le> m" for m rest
  proof -
    obtain k where k: "m = Suc k" using le by (cases m) auto
    have "parse_members k (?body @ CHR ''}'' # rest) = Some (kvs, rest)"
      using assms le k Cons by (intro parse_members_print) fastforce+
    with k u show ?thesis by simp
  qed
  then show ?thesis by (simp add: reads_back_def)
qed

lemma print_json_reads_back: "json_text j \<Longrightarrow> reads_back j"
proof (induction j)
  case (JNum n)
  then show ?case by (rule reads_back_number)
next
  case (JStr r)
  have "parse_value m (quote_lit r @ rest) = Some (JStr r, rest)"
    if "2 * length (quote_lit r) \<le> m" for m rest
    using that JStr by (cases m) (simp_all add: quote_lit_def raw_lit_def)
  then show ?case by (simp add: reads_back_def)
next
  case (JArr js)
  then show ?case by (intro reads_back_array) auto
next
  case (JObj kvs)
  then show ?case by (intro reads_back_object) fastforce+
next
  case (JBool b)
  have "parse_value m (print_json (JBool b) @ rest) = Some (JBool b, rest)" if "8 \<le> m" for m rest
    using that by (cases m; cases b) (simp_all add: HasPrefix_def is_ws_def)
  then show ?case by (cases b) (simp_all add: reads_back_def)
next
  case JNull
  have "parse_value m (''null'' @ rest) = Some (JNull, rest)" if "8 \<le> m" for m rest
    using that by (cases m) (simp_all add: HasPrefix_def is_ws_def)
  then show ?case by (simp add: reads_back_def)
qed

lemma json_ok_text: "json_ok j \<Longrightarrow> json_text j"
  by (induction j) (auto simp: raw_lit_def parse_lit_ok)

theorem decode_stream_text:
  assumes "json_text j" and "ends rest"
  shows "decode_stream (print_json j @ rest) = Some (j, rest)"
  using print_json_reads_back [OF assms(1)] assms(2)
  by (simp add: decode_stream_def reads_back_def del: parse_value.simps)

theorem parse_print_text: "json_text j \<Longrightarrow> parse_json (print_json j) = Some j"
  using decode_stream_text [of j "[]"] by (simp add: parse_json_def)

lemmas decode_stream_print = decode_stream_text [OF json_ok_text]
  and parse_print_json = parse_print_text [OF json_ok_text]

text \<open>The literals \<open>Marshal\<close> writes are already escaped for HTML.\<close>

lemma html_escape_plain:
  "c \<notin> {CHR ''<'', CHR ''>'', CHR ''&'', CHR 0xE2} \<Longrightarrow> html_escape (c # s) = c # html_escape s"
  by (simp add: html_escape.simps(2))

lemma html_escape_cont:
  "list_all cont_byte t \<Longrightarrow> html_escape (t @ s) = t @ html_escape s"
proof (induction t)
  case (Cons c t)
  then have "c \<notin> {CHR ''<'', CHR ''>'', CHR ''&'', CHR 0xE2}" by (auto simp: cont_byte_def)
  with Cons show ?case by (simp add: html_escape_plain)
qed simp

lemma html_escape_escape_byte:
  assumes "byte c < 128"
  shows "html_escape (escape_byte c @ s) = escape_byte c @ html_escape s"
proof -
  have hex: "html_escape (hex_digit n # u) = hex_digit n # html_escape u" if "n < 16" for n u
  proof (rule html_escape_plain)
    have "byte (hex_digit n) \<in> {48..57} \<union> {97..102}" using that by (auto simp: hex_digit_def)
    then show "hex_digit n \<notin> {CHR ''<'', CHR ''>'', CHR ''&'', CHR 0xE2}" by auto
  qed
  have "byte c div 16 < 16" using assms by auto
  moreover have "c \<noteq> CHR 0xE2" using assms by auto
  ultimately show ?thesis by (auto simp: escape_byte_def html_escape_plain hex)
qed

lemma tail_ok_cont: "tail_ok c t \<Longrightarrow> list_all cont_byte t"
  by (auto simp: tail_ok_def second_ok_def cont_byte_def split: list.splits if_splits)

lemma html_escape_escape_rune:
  assumes "tail_ok c t" and "\<not> byte c < 128"
  shows "html_escape (escape_rune (c # t) @ s) = escape_rune (c # t) @ html_escape s"
proof (cases "c # t = [CHR 0xE2, CHR 0x80, CHR 0xA8] \<or> c # t = [CHR 0xE2, CHR 0x80, CHR 0xA9]")
  case True
  then show ?thesis by (auto simp: escape_rune_def html_escape_plain)
next
  case False
  then have e: "escape_rune (c # t) = c # t" by (auto simp: escape_rune_def)
  have "c \<notin> {CHR ''<'', CHR ''>'', CHR ''&''}" using assms(2) by auto
  moreover have "take 2 (t @ s) \<notin> {[CHR 0x80, CHR 0xA8], [CHR 0x80, CHR 0xA9]}" if "c = CHR 0xE2"
    using False tail_ok_length [OF assms(1)] that by (auto simp: lead_width_def)
  ultimately show ?thesis
    using html_escape_cont [OF tail_ok_cont [OF assms(1)], of s] e
    by (auto simp: html_escape.simps(2))
qed

lemma html_escape_escape_string: "html_escape (escape_string s) = escape_string s"
proof (induction s rule: rune_induct)
  case (bad c s)
  then show ?case by (simp add: escape_string.simps(2) Let_def html_escape_plain)
next
  case (rune c t u)
  show ?case
  proof (cases "byte c < 128")
    case True
    then have "t = []"
      using tail_ok_length [OF rune(1)] by (simp add: lead_width_def)
    with True rune show ?thesis
      by (simp add: escape_string.simps(2) Let_def html_escape_escape_byte)
  next
    case False
    with rune show ?thesis
      by (simp add: escape_string.simps(2) Let_def html_escape_escape_rune
          rune_width_eq1 [of c "t @ u", symmetric])
  qed
qed simp

lemma compact_raw_ok [simp]: "json_ok j \<Longrightarrow> compact_raw j = j"
proof (induction j)
  case (JStr r)
  then show ?case by (auto simp: lit_ok_def html_escape_escape_string)
next
  case (JArr js)
  then show ?case by (simp add: map_idI)
next
  case (JObj kvs)
  then show ?case by (fastforce intro!: map_idI simp: lit_ok_def html_escape_escape_string)
qed simp_all

lemma lit_ok_escape [simp]: "lit_ok (escape_string s)"
  by (simp add: lit_ok_def)

lemma json_ok_enc [simp]: "json_ok (enc_string s)" "json_ok (obj kvs) = (\<forall>(k, v) \<in> set kvs. json_ok v)"
  by (auto simp: enc_string_def obj_def)

end
