(* ===== verification/Json_Fields.thy ===== *)
theory Json_Fields
  imports Json
begin

text \<open>
  How \<open>encoding/json\<close> moves a tree into Go values and back: the decoders of the basic types,
  slices, maps and structs, and the encoders of maps. A decoder takes the tree and the value
  already in place (\<open>null\<close> leaves it), and is \<open>None\<close> where \<open>Unmarshal\<close> returns an
  error. Go marshals an absent slice or map as \<open>null\<close> and reads \<open>null\<close> back as an
  absent one; the model does not tell an absent slice or map from an empty one.
\<close>

section \<open>Numbers\<close>

lemma ParseInt_valid_number [simp]: "valid_number (fmt_i64 x)"
proof -
  have "valid_number (fmt_nat n)" and "valid_number (CHR ''-'' # fmt_nat n)" for n
  proof -
    have d: "takeWhile is_digit (fmt_nat n) = fmt_nat n" "dropWhile is_digit (fmt_nat n) = []"
      using fmt_nat_digits [of n] by (simp_all add: list_all_iff)
    obtain c r where cr: "fmt_nat n = c # r"
      using fmt_nat_nonempty [of n] by (cases "fmt_nat n") auto
    have "c = CHR ''0'' \<longrightarrow> r = []" using hd_fmt_nat [of n r] cr by auto
    then show "valid_number (fmt_nat n)" and "valid_number (CHR ''-'' # fmt_nat n)"
      using d fmt_nat_hd_not_sign [OF cr]
      by (simp_all add: valid_number_def Let_def cr valid_frac_def)
  qed
  then show ?thesis by (simp add: fmt_i64_def fmt_int_def)
qed

lemma ParseUint_valid_number [simp]: "valid_number (fmt_u64 x)"
  using ParseInt_valid_number [of "int64_of 0"]
proof -
  obtain c r where cr: "fmt_nat (unat x) = c # r"
    using fmt_nat_nonempty [of "unat x"] by (cases "fmt_nat (unat x)") auto
  have d: "takeWhile is_digit (c # r) = c # r" "dropWhile is_digit (c # r) = []"
    using fmt_nat_digits [of "unat x"] by (simp_all add: list_all_iff cr [symmetric])
  have "c = CHR ''0'' \<longrightarrow> r = []" using hd_fmt_nat [of "unat x" r] cr by auto
  then show ?thesis
    using d fmt_nat_hd_not_sign [OF cr]
    by (simp add: valid_number_def Let_def fmt_u64_def cr valid_frac_def)
qed

section \<open>Struct fields\<close>

definition fold_char :: "char \<Rightarrow> char" where
  "fold_char c = (if 97 \<le> byte c \<and> byte c \<le> 122 then char_of (byte c - 32) else c)"

text \<open>The folded form under which keys match a field name when no name matches exactly: ASCII
  letters up to case, and the two other runes Unicode folds into ASCII letters.\<close>

function fold_name :: "string \<Rightarrow> string" where
  "fold_name [] = []"
| "fold_name (c # s) =
     (if c = CHR 0xC5 \<and> take 1 s = [CHR 0xBF] then CHR ''S'' # fold_name (drop 1 s)
      else if c = CHR 0xE2 \<and> take 2 s = [CHR 0x84, CHR 0xAA] then CHR ''K'' # fold_name (drop 2 s)
      else fold_char c # fold_name s)"
  by pat_completeness auto
termination by (relation "measure length") auto

type_synonym 'a decoder = "json \<Rightarrow> 'a \<Rightarrow> 'a option"

definition find_field :: "(string \<times> 'r decoder) list \<Rightarrow> string \<Rightarrow> 'r decoder option" where
  "find_field fs k =
     (case map_of fs k of Some d \<Rightarrow> Some d
      | None \<Rightarrow> map_of (map (\<lambda>(n, d). (fold_name n, d)) fs) (fold_name k))"

fun dec_fields :: "bool \<Rightarrow> (string \<times> 'r decoder) list \<Rightarrow> (string \<times> json) list \<Rightarrow> 'r \<Rightarrow> 'r option" where
  "dec_fields strict fs [] r = Some r"
| "dec_fields strict fs ((k, v) # kvs) r =
     (case find_field fs (unquote k) of
        None \<Rightarrow> if strict then None else dec_fields strict fs kvs r
      | Some d \<Rightarrow> (case d v r of None \<Rightarrow> None | Some r' \<Rightarrow> dec_fields strict fs kvs r'))"

definition dec_struct :: "bool \<Rightarrow> (string \<times> 'r decoder) list \<Rightarrow> 'r decoder" where
  "dec_struct strict fs j r =
     (case j of JNull \<Rightarrow> Some r | JObj kvs \<Rightarrow> dec_fields strict fs kvs r | _ \<Rightarrow> None)"

definition field :: "'a decoder \<Rightarrow> ('r \<Rightarrow> 'a) \<Rightarrow> (('a \<Rightarrow> 'a) \<Rightarrow> 'r \<Rightarrow> 'r) \<Rightarrow> 'r decoder" where
  "field d get upd j r = map_option (\<lambda>v. upd (\<lambda>_. v) r) (d j (get r))"

section \<open>Basic types, slices and maps\<close>

definition dec_string :: "string decoder" where
  "dec_string j old = (case j of JStr r \<Rightarrow> Some (unquote r) | JNull \<Rightarrow> Some old | _ \<Rightarrow> None)"

definition dec_bool :: "bool decoder" where
  "dec_bool j old = (case j of JBool b \<Rightarrow> Some b | JNull \<Rightarrow> Some old | _ \<Rightarrow> None)"

definition dec_i64 :: "int64 decoder" where
  "dec_i64 j old = (case j of JNum s \<Rightarrow> ParseInt s | JNull \<Rightarrow> Some old | _ \<Rightarrow> None)"

definition dec_u64 :: "u64 decoder" where
  "dec_u64 j old = (case j of JNum s \<Rightarrow> ParseUint s | JNull \<Rightarrow> Some old | _ \<Rightarrow> None)"

text \<open>A \<open>json.RawMessage\<close> keeps the value itself, \<open>null\<close> included.\<close>

definition dec_raw :: "json option decoder" where
  "dec_raw j old = Some (Some j)"

definition dec_slice :: "'a decoder \<Rightarrow> 'a \<Rightarrow> 'a list decoder" where
  "dec_slice d z j old =
     (case j of JArr js \<Rightarrow> those (map (\<lambda>x. d x z) js) | JNull \<Rightarrow> Some [] | _ \<Rightarrow> None)"

fun dec_entries :: "(string \<Rightarrow> 'k option) \<Rightarrow> 'v decoder \<Rightarrow> 'v \<Rightarrow> (string \<times> json) list
    \<Rightarrow> ('k, 'v) fmap \<Rightarrow> ('k, 'v) fmap option" where
  "dec_entries kd d z [] m = Some m"
| "dec_entries kd d z ((k, v) # kvs) m =
     (case (kd (unquote k), d v z) of
        (Some key, Some x) \<Rightarrow> dec_entries kd d z kvs (fmupd key x m)
      | _ \<Rightarrow> None)"

definition dec_map :: "(string \<Rightarrow> 'k option) \<Rightarrow> 'v decoder \<Rightarrow> 'v \<Rightarrow> ('k, 'v) fmap decoder" where
  "dec_map kd d z j old =
     (case j of JObj kvs \<Rightarrow> dec_entries kd d z kvs old | JNull \<Rightarrow> Some fmempty | _ \<Rightarrow> None)"

text \<open>Maps are written with their keys in the order of the key strings.\<close>

definition enc_map :: "('k::linorder \<Rightarrow> string) \<Rightarrow> ('v \<Rightarrow> json) \<Rightarrow> ('k, 'v) fmap \<Rightarrow> json" where
  "enc_map ke e m =
     obj (sort_key fst (map (\<lambda>(k, v). (ke k, e v)) (sorted_list_of_fmap m)))"

definition enc_i64 :: "int64 \<Rightarrow> json" where "enc_i64 x = JNum (fmt_i64 x)"
definition enc_u64 :: "u64 \<Rightarrow> json" where "enc_u64 x = JNum (fmt_u64 x)"

text \<open>A field tagged \<open>omitempty\<close>.\<close>

definition omitempty :: "string \<Rightarrow> bool \<Rightarrow> json \<Rightarrow> (string \<times> json) list" where
  "omitempty k b v = (if b then [] else [(k, v)])"

lemma dec_basic [simp, codec]:
  "dec_string (enc_string s) s' = Some (coerce_utf8 s)" "dec_bool (JBool b) b' = Some b"
  "dec_i64 (enc_i64 x) x' = Some x" "dec_u64 (enc_u64 y) y' = Some y"
  by (simp_all add: dec_string_def enc_string_def dec_bool_def dec_i64_def dec_u64_def enc_i64_def enc_u64_def)

lemma enc_basic_ok [simp]:
  "json_ok (enc_i64 x)" "json_ok (enc_u64 y)"
  by (simp_all add: enc_i64_def enc_u64_def)

lemma those_map_Some: "(\<And>x. x \<in> set xs \<Longrightarrow> f x = Some (g x)) \<Longrightarrow> those (map f xs) = Some (map g xs)"
  by (induction xs) simp_all

lemma dec_slice_JArr [codec]:
  "(\<And>x. x \<in> set xs \<Longrightarrow> d (e x) z = Some (f x)) \<Longrightarrow> dec_slice d z (JArr (map e xs)) old = Some (map f xs)"
  using those_map_Some [of xs "\<lambda>x. d (e x) z" f] by (simp add: dec_slice_def comp_def)

lemma fmap_of_list_enumerates:
  assumes "distinct (map fst xs)" and "set xs = {(k, v). fmlookup m k = Some v}"
  shows "fmap_of_list xs = m"
proof (rule fmap_ext)
  fix k
  have "map_of xs k = fmlookup m k"
    using assms by (cases "fmlookup m k") (auto simp: map_of_eq_None_iff map_of_eq_Some_iff)
  then show "fmlookup (fmap_of_list xs) k = fmlookup m k"
    by (simp add: fmlookup_of_list)
qed

lemma set_sorted_list_of_fmap: "set (sorted_list_of_fmap m) = {(k, v). fmlookup m k = Some v}"
  by (auto simp: sorted_list_of_fmap_def image_iff fmlookup_dom_iff)

lemma distinct_sorted_list_of_fmap: "distinct (map fst (sorted_list_of_fmap m))"
  by (simp add: sorted_list_of_fmap_def comp_def sorted_list_of_fset.rep_eq)

lemma dec_entries_distinct:
  assumes "\<And>k v. (k, v) \<in> set xs \<Longrightarrow> kd (coerce_utf8 (ke k)) = Some k \<and> d (e v) z = Some v"
    and "distinct (map fst xs)"
  shows "dec_entries kd d z (map (\<lambda>(k, v). (escape_string (ke k), e v)) xs) m = Some (m ++\<^sub>f fmap_of_list xs)"
  using assms
proof (induction xs arbitrary: m)
  case (Cons p xs)
  obtain k v where p: "p = (k, v)" by (cases p)
  have "fmupd k v m ++\<^sub>f fmap_of_list xs = m ++\<^sub>f fmap_of_list (p # xs)"
  proof (rule fmap_ext)
    fix x
    show "fmlookup (fmupd k v m ++\<^sub>f fmap_of_list xs) x = fmlookup (m ++\<^sub>f fmap_of_list (p # xs)) x"
      using Cons.prems(2) p
      by (auto simp: fmlookup_of_list fmlookup_dom_iff fset_of_list_elem
          dest: map_of_SomeD weak_map_of_SomeI)
        (metis fst_conv image_eqI)?
  qed
  moreover have "kd (coerce_utf8 (ke k)) = Some k" and "d (e v) z = Some v"
    using Cons.prems(1) [of k v] p by simp_all
  moreover have "dec_entries kd d z (map (\<lambda>(k, v). (escape_string (ke k), e v)) xs) (fmupd k v m)
      = Some (fmupd k v m ++\<^sub>f fmap_of_list xs)"
    using Cons.prems by (intro Cons.IH) (blast intro: list.set_intros(2), simp)
  ultimately show ?case by (simp add: p)
qed simp

lemma sort_key_map: "sort_key f (map g xs) = map g (sort_key (\<lambda>x. f (g x)) xs)"
proof -
  have "insort_key f (g x) (map g ys) = map g (insort_key (\<lambda>x. f (g x)) x ys)" for x ys
    by (induction ys) simp_all
  then show ?thesis by (induction xs) simp_all
qed

lemma dec_map_enc_map [codec]:
  assumes "\<And>k v. fmlookup m k = Some v \<Longrightarrow> kd (coerce_utf8 (ke k)) = Some k \<and> d (e v) z = Some v"
  shows "dec_map kd d z (enc_map ke e m) fmempty = Some m"
proof -
  let ?xs = "sort_key (\<lambda>p. ke (fst p)) (sorted_list_of_fmap m)"
  have f: "(\<lambda>p. fst (case p of (k, v) \<Rightarrow> (ke k, e v))) = (\<lambda>p. ke (fst p))"
    by (auto simp: fun_eq_iff)
  have enc: "enc_map ke e m = JObj (map (\<lambda>(k, v). (escape_string (ke k), e v)) ?xs)"
    by (simp add: enc_map_def sort_key_map f obj_def comp_def case_prod_unfold)
  have d: "distinct (map fst ?xs)"
    using distinct_sorted_list_of_fmap [of m] by (simp add: distinct_map)
  have "dec_entries kd d z (map (\<lambda>(k, v). (escape_string (ke k), e v)) ?xs) fmempty = Some (fmempty ++\<^sub>f fmap_of_list ?xs)"
    using assms by (intro dec_entries_distinct d) (simp add: set_sorted_list_of_fmap)
  moreover have "fmap_of_list ?xs = m"
    using d by (intro fmap_of_list_enumerates) (simp_all add: set_sorted_list_of_fmap)
  ultimately show ?thesis by (simp add: enc dec_map_def)
qed

lemma enc_map_ok:
  "json_ok (enc_map ke e m) \<longleftrightarrow> (\<forall>k v. fmlookup m k = Some v \<longrightarrow> json_ok (e v))"
  by (auto simp: enc_map_def set_sorted_list_of_fmap)

lemma valid_utf8_fmt_nat [simp]: "valid_utf8 (fmt_nat n)"
proof -
  have "list_all (\<lambda>c. byte c < 128) (fmt_nat n)"
    using fmt_nat_digits [of n] by (auto simp: list_all_iff is_digit_def)
  from valid_utf8_ascii_append [OF this, of "[]"] show ?thesis by simp
qed

lemma valid_utf8_fmt_i64 [simp]: "valid_utf8 (fmt_i64 x)"
  by (simp add: fmt_i64_def fmt_int_def)

text \<open>A struct tree is read member by member: a key of the list finds its own decoder.\<close>

lemma dec_struct_obj [codec]:
  "dec_struct strict fs (obj kvs) r = dec_fields strict fs (map (\<lambda>(k, v). (escape_string k, v)) kvs) r"
  by (simp add: dec_struct_def obj_def)

lemma dec_fields_append:
  "dec_fields strict fs (xs @ ys) r = Option.bind (dec_fields strict fs xs r) (dec_fields strict fs ys)"
  by (induction xs arbitrary: r) (auto split: option.split)

lemma find_field_exact: "map_of fs k = Some d \<Longrightarrow> find_field fs k = Some d"
  by (simp add: find_field_def)

lemma coerce_utf8_Nil_iff [simp]: "coerce_utf8 s = [] \<longleftrightarrow> s = []"
proof
  assume "coerce_utf8 s = []"
  then show "s = []"
    using rune_width_le [of s] by (cases s) (auto simp: coerce_utf8.simps(2) Let_def replacement_def split: if_splits)
qed simp

lemmas dec_struct_simps = dec_struct_obj dec_fields_append find_field_exact field_def omitempty_def

end
