(* ===== verification/Hashes.thy ===== *)
theory Hashes
  imports Json
begin

text \<open>
  \<open>crypto/sha256\<close>, \<open>crypto/md5\<close> and \<open>encoding/hex\<close>: the digests over which the program
  computes transition checksums, backup checksums, schema identities and schema GUIDs, on byte
  strings. The development never relies on a digest being free of collisions: a property that
  needs two digests to differ says so as a hypothesis.
\<close>

unbundle bit_operations_syntax

section \<open>Bytes and words\<close>

definition word_byte :: "nat \<Rightarrow> 32 word \<Rightarrow> char" where
  "word_byte i w = char_of (unat (drop_bit (8 * i) w AND 255))"

definition bytes_be :: "32 word \<Rightarrow> string" where
  "bytes_be w = [word_byte 3 w, word_byte 2 w, word_byte 1 w, word_byte 0 w]"

definition bytes_le :: "32 word \<Rightarrow> string" where
  "bytes_le w = [word_byte 0 w, word_byte 1 w, word_byte 2 w, word_byte 3 w]"

definition word_be :: "string \<Rightarrow> 32 word" where
  "word_be s = foldl (\<lambda>w c. push_bit 8 w OR of_nat (byte c)) 0 s"

definition word_le :: "string \<Rightarrow> 32 word" where
  "word_le s = word_be (rev s)"

fun chunks :: "nat \<Rightarrow> string \<Rightarrow> string list" where
  "chunks n s = (if n = 0 \<or> s = [] then [] else take n s # chunks n (drop n s))"

declare chunks.simps [simp del]

definition len_bytes_be :: "nat \<Rightarrow> string" where
  "len_bytes_be n = map (\<lambda>i. char_of (n div 256 ^ (7 - i) mod 256)) [0..<8]"

definition pad :: "string \<Rightarrow> string \<Rightarrow> string" where
  "pad s len = s @ CHR 0x80 # replicate ((119 - length s mod 64) mod 64) (CHR 0x00) @ len"

section \<open>SHA-256\<close>

definition sha256_K :: "32 word list" where
  "sha256_K =
    [0x428A2F98, 0x71374491, 0xB5C0FBCF, 0xE9B5DBA5, 0x3956C25B, 0x59F111F1,
     0x923F82A4, 0xAB1C5ED5, 0xD807AA98, 0x12835B01, 0x243185BE, 0x550C7DC3,
     0x72BE5D74, 0x80DEB1FE, 0x9BDC06A7, 0xC19BF174, 0xE49B69C1, 0xEFBE4786,
     0x0FC19DC6, 0x240CA1CC, 0x2DE92C6F, 0x4A7484AA, 0x5CB0A9DC, 0x76F988DA,
     0x983E5152, 0xA831C66D, 0xB00327C8, 0xBF597FC7, 0xC6E00BF3, 0xD5A79147,
     0x06CA6351, 0x14292967, 0x27B70A85, 0x2E1B2138, 0x4D2C6DFC, 0x53380D13,
     0x650A7354, 0x766A0ABB, 0x81C2C92E, 0x92722C85, 0xA2BFE8A1, 0xA81A664B,
     0xC24B8B70, 0xC76C51A3, 0xD192E819, 0xD6990624, 0xF40E3585, 0x106AA070,
     0x19A4C116, 0x1E376C08, 0x2748774C, 0x34B0BCB5, 0x391C0CB3, 0x4ED8AA4A,
     0x5B9CCA4F, 0x682E6FF3, 0x748F82EE, 0x78A5636F, 0x84C87814, 0x8CC70208,
     0x90BEFFFA, 0xA4506CEB, 0xBEF9A3F7, 0xC67178F2]"

definition sha256_H :: "32 word list" where
  "sha256_H =
    [0x6A09E667, 0xBB67AE85, 0x3C6EF372, 0xA54FF53A, 0x510E527F, 0x9B05688C,
     0x1F83D9AB, 0x5BE0CD19]"

definition rotr :: "nat \<Rightarrow> 32 word \<Rightarrow> 32 word" where
  "rotr n w = drop_bit n w OR push_bit (32 - n) w"

text \<open>The message schedule, newest word first.\<close>

fun sha256_extend :: "nat \<Rightarrow> 32 word list \<Rightarrow> 32 word list" where
  "sha256_extend 0 ws = ws"
| "sha256_extend (Suc n) ws =
     (let a = ws ! 14; b = ws ! 1;
          s0 = rotr 7 a XOR rotr 18 a XOR drop_bit 3 a;
          s1 = rotr 17 b XOR rotr 19 b XOR drop_bit 10 b
      in sha256_extend n ((ws ! 15 + s0 + ws ! 6 + s1) # ws))"

definition sha256_round :: "32 word list \<Rightarrow> 32 word \<times> 32 word \<Rightarrow> 32 word list" where
  "sha256_round st kw =
     (case st of
        [a, b, c, d, e, f, g, h] \<Rightarrow>
          (let t1 = h + (rotr 6 e XOR rotr 11 e XOR rotr 25 e)
                      + ((e AND f) XOR (NOT e AND g)) + fst kw + snd kw;
               t2 = (rotr 2 a XOR rotr 13 a XOR rotr 22 a)
                      + ((a AND b) XOR (a AND c) XOR (b AND c))
           in [t1 + t2, a, b, c, d + t1, e, f, g])
      | _ \<Rightarrow> st)"

definition sha256_block :: "32 word list \<Rightarrow> string \<Rightarrow> 32 word list" where
  "sha256_block st blk =
     (let ws = rev (sha256_extend 48 (rev (map word_be (chunks 4 blk))))
      in map2 (+) st (foldl sha256_round st (zip sha256_K ws)))"

definition sha256 :: "string \<Rightarrow> string" where
  "sha256 s = concat (map bytes_be
     (foldl sha256_block sha256_H (chunks 64 (pad s (len_bytes_be (8 * length s))))))"

section \<open>MD5\<close>

definition md5_T :: "32 word list" where
  "md5_T =
    [0xD76AA478, 0xE8C7B756, 0x242070DB, 0xC1BDCEEE, 0xF57C0FAF, 0x4787C62A,
     0xA8304613, 0xFD469501, 0x698098D8, 0x8B44F7AF, 0xFFFF5BB1, 0x895CD7BE,
     0x6B901122, 0xFD987193, 0xA679438E, 0x49B40821, 0xF61E2562, 0xC040B340,
     0x265E5A51, 0xE9B6C7AA, 0xD62F105D, 0x02441453, 0xD8A1E681, 0xE7D3FBC8,
     0x21E1CDE6, 0xC33707D6, 0xF4D50D87, 0x455A14ED, 0xA9E3E905, 0xFCEFA3F8,
     0x676F02D9, 0x8D2A4C8A, 0xFFFA3942, 0x8771F681, 0x6D9D6122, 0xFDE5380C,
     0xA4BEEA44, 0x4BDECFA9, 0xF6BB4B60, 0xBEBFBC70, 0x289B7EC6, 0xEAA127FA,
     0xD4EF3085, 0x04881D05, 0xD9D4D039, 0xE6DB99E5, 0x1FA27CF8, 0xC4AC5665,
     0xF4292244, 0x432AFF97, 0xAB9423A7, 0xFC93A039, 0x655B59C3, 0x8F0CCC92,
     0xFFEFF47D, 0x85845DD1, 0x6FA87E4F, 0xFE2CE6E0, 0xA3014314, 0x4E0811A1,
     0xF7537E82, 0xBD3AF235, 0x2AD7D2BB, 0xEB86D391]"

definition md5_init :: "32 word list" where
  "md5_init = [0x67452301, 0xEFCDAB89, 0x98BADCFE, 0x10325476]"

definition md5_shift :: "nat \<Rightarrow> nat" where
  "md5_shift i =
     (if i < 16 then [7, 12, 17, 22] ! (i mod 4)
      else if i < 32 then [5, 9, 14, 20] ! (i mod 4)
      else if i < 48 then [4, 11, 16, 23] ! (i mod 4)
      else [6, 10, 15, 21] ! (i mod 4))"

definition md5_round :: "32 word list \<Rightarrow> 32 word list \<Rightarrow> nat \<Rightarrow> 32 word list" where
  "md5_round ms st i =
     (case st of
        [a, b, c, d] \<Rightarrow>
          (let f = (if i < 16 then (b AND c) OR (NOT b AND d)
                    else if i < 32 then (d AND b) OR (NOT d AND c)
                    else if i < 48 then b XOR c XOR d
                    else c XOR (b OR NOT d));
               g = (if i < 16 then i else if i < 32 then (5 * i + 1) mod 16
                    else if i < 48 then (3 * i + 5) mod 16 else 7 * i mod 16);
               x = f + a + md5_T ! i + ms ! g
           in [d, b + rotr (32 - md5_shift i) x, b, c])
      | _ \<Rightarrow> st)"

definition md5_block :: "32 word list \<Rightarrow> string \<Rightarrow> 32 word list" where
  "md5_block st blk =
     map2 (+) st (foldl (md5_round (map word_le (chunks 4 blk))) st [0..<64])"

definition md5 :: "string \<Rightarrow> string" where
  "md5 s = concat (map bytes_le
     (foldl md5_block md5_init (chunks 64 (pad s (rev (len_bytes_be (8 * length s)))))))"

section \<open>Hexadecimal\<close>

definition hex_encode :: "string \<Rightarrow> string" where
  "hex_encode s = concat (map (\<lambda>c. [hex_digit (byte c div 16), hex_digit (byte c mod 16)]) s)"

end
