(* ===== verification/Domain_Types.thy ===== *)
theory Domain_Types
  imports Json_Fields Hashes
begin

text \<open>
  The values of \<open>internal/domain/types.go\<close> and \<open>errors.go\<close>: schemas, subject versions,
  results, commands and errors, with the JSON coding that the struct tags give them. An
  identifier or a version is a signed 64-bit integer, a sequence an unsigned one; the string
  types with named constants (schema type, compatibility level, mode, error category) are open
  in Go and are strings here, with the constants as abbreviations. A copy of a value is the value.
\<close>

section \<open>Errors\<close>

text \<open>An error keeps the format and the arguments of its message, not the rendered text.\<close>

datatype fmt_arg = AInt int64 | ANat u64 | AStr string | AStrs "string list"

datatype go_error =
    DomainErr (err_Category: string) (err_Resource: string) (err_Format: string)
      (err_Args: "fmt_arg list") (err_Cause: "go_error option")
  | FmtErr string "fmt_arg list" (err_Wrapped: "go_error option")
  | Sentinel string

abbreviation ErrorInvalid :: string where "ErrorInvalid \<equiv> ''invalid''"
abbreviation ErrorNotFound :: string where "ErrorNotFound \<equiv> ''not_found''"
abbreviation ErrorConflict :: string where "ErrorConflict \<equiv> ''conflict''"
abbreviation ErrorIncompatible :: string where "ErrorIncompatible \<equiv> ''incompatible''"
abbreviation ErrorReadOnly :: string where "ErrorReadOnly \<equiv> ''read_only''"
abbreviation ErrorStorage :: string where "ErrorStorage \<equiv> ''storage''"
abbreviation ErrorCorrupt :: string where "ErrorCorrupt \<equiv> ''corrupt''"

definition domainError :: "string \<Rightarrow> string \<Rightarrow> string \<Rightarrow> fmt_arg list \<Rightarrow> go_error" where
  "domainError category resource format args = DomainErr category resource format args None"

text \<open>\<open>errors.Unwrap\<close>, \<open>errors.As\<close> for a domain error, and \<open>errors.Is\<close>.\<close>

fun Unwrap :: "go_error \<Rightarrow> go_error option" where
  "Unwrap (DomainErr _ _ _ _ c) = c"
| "Unwrap (FmtErr _ _ c) = c"
| "Unwrap (Sentinel _) = None"

fun CategoryOf :: "go_error \<Rightarrow> string" where
  "CategoryOf (DomainErr c _ _ _ _) = c"
| "CategoryOf (FmtErr _ _ (Some e)) = CategoryOf e"
| "CategoryOf (FmtErr _ _ None) = ''''"
| "CategoryOf (Sentinel _) = ''''"

fun errors_Is :: "go_error \<Rightarrow> string \<Rightarrow> bool" where
  "errors_Is (Sentinel n) t = (n = t)"
| "errors_Is (DomainErr _ _ _ _ (Some e)) t = errors_Is e t"
| "errors_Is (FmtErr _ _ (Some e)) t = errors_Is e t"
| "errors_Is _ _ = False"

lemma CategoryOf_domainError [simp]: "CategoryOf (domainError c r f as) = c"
  by (simp add: domainError_def)

text \<open>A context is what its \<open>Err\<close> returns.\<close>

type_synonym ctx = "go_error option"

abbreviation Canceled :: go_error where "Canceled \<equiv> Sentinel ''context canceled''"
abbreviation DeadlineExceeded :: go_error where
  "DeadlineExceeded \<equiv> Sentinel ''context deadline exceeded''"
abbreviation ErrClosed :: go_error where "ErrClosed \<equiv> Sentinel ''file already closed''"

text \<open>The error of a failed \<open>json.Unmarshal\<close>; its text is not modelled.\<close>

abbreviation JsonErr :: go_error where "JsonErr \<equiv> Sentinel ''json''"

section \<open>Schemas and versions\<close>

abbreviation SchemaTypeAvro :: string where "SchemaTypeAvro \<equiv> ''AVRO''"
abbreviation SchemaTypeProtobuf :: string where "SchemaTypeProtobuf \<equiv> ''PROTOBUF''"
abbreviation SchemaTypeJSON :: string where "SchemaTypeJSON \<equiv> ''JSON''"

record Reference =
  ref_Name :: string
  ref_Subject :: string
  ref_Version :: int64

record Schema =
  sch_ID :: int64
  sch_GUID :: string
  sch_Identity :: string
  sch_Type :: string
  sch_Definition :: string
  sch_References :: "Reference list"

record SubjectVersion =
  sv_Subject :: string
  sv_Version :: int64
  sv_SchemaID :: int64
  sv_Timestamp :: int64
  sv_Sequence :: u64
  sv_Deleted :: bool
  sv_Permanent :: bool

abbreviation CompatibilityNone :: string where "CompatibilityNone \<equiv> ''NONE''"
abbreviation CompatibilityBackward :: string where "CompatibilityBackward \<equiv> ''BACKWARD''"
abbreviation CompatibilityBackwardTransitive :: string where
  "CompatibilityBackwardTransitive \<equiv> ''BACKWARD_TRANSITIVE''"
abbreviation CompatibilityForward :: string where "CompatibilityForward \<equiv> ''FORWARD''"
abbreviation CompatibilityForwardTransitive :: string where
  "CompatibilityForwardTransitive \<equiv> ''FORWARD_TRANSITIVE''"
abbreviation CompatibilityFull :: string where "CompatibilityFull \<equiv> ''FULL''"
abbreviation CompatibilityFullTransitive :: string where
  "CompatibilityFullTransitive \<equiv> ''FULL_TRANSITIVE''"

definition CompatibilityLevel_Valid :: "string \<Rightarrow> bool" where
  "CompatibilityLevel_Valid l \<longleftrightarrow>
     l = CompatibilityNone \<or> l = CompatibilityBackward \<or> l = CompatibilityBackwardTransitive
     \<or> l = CompatibilityForward \<or> l = CompatibilityForwardTransitive \<or> l = CompatibilityFull
     \<or> l = CompatibilityFullTransitive"

definition Transitive :: "string \<Rightarrow> bool" where
  "Transitive l \<longleftrightarrow>
     l = CompatibilityBackwardTransitive \<or> l = CompatibilityForwardTransitive
     \<or> l = CompatibilityFullTransitive"

abbreviation ModeReadWrite :: string where "ModeReadWrite \<equiv> ''READWRITE''"
abbreviation ModeReadOnly :: string where "ModeReadOnly \<equiv> ''READONLY''"
abbreviation ModeImport :: string where "ModeImport \<equiv> ''IMPORT''"

definition Mode_Valid :: "string \<Rightarrow> bool" where
  "Mode_Valid m \<longleftrightarrow> m = ModeReadWrite \<or> m = ModeReadOnly \<or> m = ModeImport"

record Result =
  res_SchemaID :: int64
  res_GUID :: string
  res_Version :: int64
  res_Versions :: "int64 list"

text \<open>The low 32 bits of a version, as four bytes with the highest first.\<close>

definition put_uint32 :: "int64 \<Rightarrow> string" where
  "put_uint32 v = bytes_be (ucast (word_of v))"

definition FingerprintGUID :: "string \<Rightarrow> Reference list \<Rightarrow> string" where
  "FingerprintGUID defn references =
     (let sum = md5 (defn
            @ concat (map (\<lambda>r. ref_Name r @ ref_Subject r @ put_uint32 (ref_Version r)) references));
          part = (\<lambda>i j. hex_encode (take (j - i) (drop i sum)))
      in part 0 4 @ ''-'' @ part 4 6 @ ''-'' @ part 6 8 @ ''-'' @ part 8 10 @ ''-'' @ part 10 16)"

section \<open>Commands\<close>

record RegisterCommand =
  rc_OperationID :: string
  rc_Subject :: string
  rc_Identity :: string
  rc_Type :: string
  rc_Definition :: string
  rc_References :: "Reference list"
  rc_RequestedID :: int64
  rc_RequestedVersion :: int64
  rc_Timestamp :: int64

record DeleteVersionCommand =
  dv_OperationID :: string
  dv_Subject :: string
  dv_Version :: int64
  dv_Permanent :: bool

record DeleteSubjectCommand =
  ds_OperationID :: string
  ds_Subject :: string
  ds_Permanent :: bool

record Scope =
  sc_Subject :: string

section \<open>Zero values\<close>

definition zero_Reference :: Reference where
  "zero_Reference = \<lparr>ref_Name = '''', ref_Subject = '''', ref_Version = 0\<rparr>"

definition zero_Schema :: Schema where
  "zero_Schema = \<lparr>sch_ID = 0, sch_GUID = '''', sch_Identity = '''', sch_Type = '''',
     sch_Definition = '''', sch_References = []\<rparr>"

definition zero_SubjectVersion :: SubjectVersion where
  "zero_SubjectVersion = \<lparr>sv_Subject = '''', sv_Version = 0, sv_SchemaID = 0, sv_Timestamp = 0,
     sv_Sequence = 0, sv_Deleted = False, sv_Permanent = False\<rparr>"

definition zero_Result :: Result where
  "zero_Result = \<lparr>res_SchemaID = 0, res_GUID = '''', res_Version = 0, res_Versions = []\<rparr>"

definition zero_Scope :: Scope where
  "zero_Scope = \<lparr>sc_Subject = ''''\<rparr>"

section \<open>JSON coding\<close>

definition enc_Reference :: "Reference \<Rightarrow> json" where
  "enc_Reference r = obj
     [(''name'', enc_string (ref_Name r)), (''subject'', enc_string (ref_Subject r)),
      (''version'', enc_i64 (ref_Version r))]"

definition dec_Reference :: "bool \<Rightarrow> Reference decoder" where
  "dec_Reference strict = dec_struct strict
     [(''name'', field dec_string ref_Name ref_Name_update),
      (''subject'', field dec_string ref_Subject ref_Subject_update),
      (''version'', field dec_i64 ref_Version ref_Version_update)]"

definition enc_Schema :: "Schema \<Rightarrow> json" where
  "enc_Schema s = obj
     ([(''id'', enc_i64 (sch_ID s))]
      @ omitempty ''guid'' (sch_GUID s = '''') (enc_string (sch_GUID s))
      @ [(''identity'', enc_string (sch_Identity s)), (''schemaType'', enc_string (sch_Type s)),
         (''schema'', enc_string (sch_Definition s))]
      @ omitempty ''references'' (sch_References s = [])
          (JArr (map enc_Reference (sch_References s))))"

definition dec_Schema :: "bool \<Rightarrow> Schema decoder" where
  "dec_Schema strict = dec_struct strict
     [(''id'', field dec_i64 sch_ID sch_ID_update),
      (''guid'', field dec_string sch_GUID sch_GUID_update),
      (''identity'', field dec_string sch_Identity sch_Identity_update),
      (''schemaType'', field dec_string sch_Type sch_Type_update),
      (''schema'', field dec_string sch_Definition sch_Definition_update),
      (''references'', field (dec_slice (dec_Reference strict) zero_Reference)
         sch_References sch_References_update)]"

definition enc_SubjectVersion :: "SubjectVersion \<Rightarrow> json" where
  "enc_SubjectVersion v = obj
     ([(''subject'', enc_string (sv_Subject v)), (''version'', enc_i64 (sv_Version v)),
       (''id'', enc_i64 (sv_SchemaID v))]
      @ omitempty ''ts'' (sv_Timestamp v = 0) (enc_i64 (sv_Timestamp v))
      @ omitempty ''sequence'' (sv_Sequence v = 0) (enc_u64 (sv_Sequence v))
      @ [(''deleted'', JBool (sv_Deleted v)), (''permanent'', JBool (sv_Permanent v))])"

definition dec_SubjectVersion :: "bool \<Rightarrow> SubjectVersion decoder" where
  "dec_SubjectVersion strict = dec_struct strict
     [(''subject'', field dec_string sv_Subject sv_Subject_update),
      (''version'', field dec_i64 sv_Version sv_Version_update),
      (''id'', field dec_i64 sv_SchemaID sv_SchemaID_update),
      (''ts'', field dec_i64 sv_Timestamp sv_Timestamp_update),
      (''sequence'', field dec_u64 sv_Sequence sv_Sequence_update),
      (''deleted'', field dec_bool sv_Deleted sv_Deleted_update),
      (''permanent'', field dec_bool sv_Permanent sv_Permanent_update)]"

definition enc_Result :: "Result \<Rightarrow> json" where
  "enc_Result r = obj
     (omitempty ''id'' (res_SchemaID r = 0) (enc_i64 (res_SchemaID r))
      @ omitempty ''guid'' (res_GUID r = '''') (enc_string (res_GUID r))
      @ omitempty ''version'' (res_Version r = 0) (enc_i64 (res_Version r))
      @ omitempty ''versions'' (res_Versions r = []) (JArr (map enc_i64 (res_Versions r))))"

definition dec_Result :: "bool \<Rightarrow> Result decoder" where
  "dec_Result strict = dec_struct strict
     [(''id'', field dec_i64 res_SchemaID res_SchemaID_update),
      (''guid'', field dec_string res_GUID res_GUID_update),
      (''version'', field dec_i64 res_Version res_Version_update),
      (''versions'', field (dec_slice dec_i64 0) res_Versions res_Versions_update)]"

definition enc_Scope :: "Scope \<Rightarrow> json" where
  "enc_Scope s = obj (omitempty ''subject'' (sc_Subject s = '''') (enc_string (sc_Subject s)))"

definition dec_Scope :: "bool \<Rightarrow> Scope decoder" where
  "dec_Scope strict = dec_struct strict [(''subject'', field dec_string sc_Subject sc_Subject_update)]"

text \<open>What a value becomes when it is written and read back: every string in UTF-8.\<close>

definition coerce_Reference :: "Reference \<Rightarrow> Reference" where
  "coerce_Reference r = r\<lparr>ref_Name := coerce_utf8 (ref_Name r), ref_Subject := coerce_utf8 (ref_Subject r)\<rparr>"

definition coerce_Schema :: "Schema \<Rightarrow> Schema" where
  "coerce_Schema s = s\<lparr>sch_GUID := coerce_utf8 (sch_GUID s), sch_Identity := coerce_utf8 (sch_Identity s),
     sch_Type := coerce_utf8 (sch_Type s), sch_Definition := coerce_utf8 (sch_Definition s),
     sch_References := map coerce_Reference (sch_References s)\<rparr>"

definition coerce_SubjectVersion :: "SubjectVersion \<Rightarrow> SubjectVersion" where
  "coerce_SubjectVersion v = v\<lparr>sv_Subject := coerce_utf8 (sv_Subject v)\<rparr>"

definition coerce_Result :: "Result \<Rightarrow> Result" where
  "coerce_Result r = r\<lparr>res_GUID := coerce_utf8 (res_GUID r)\<rparr>"

lemma dec_enc_Reference [simp, codec]:
  "dec_Reference strict (enc_Reference r) zero_Reference = Some (coerce_Reference r)"
  by (cases r) (simp add: dec_Reference_def enc_Reference_def dec_struct_simps zero_Reference_def
      coerce_Reference_def)

lemma dec_enc_Schema [simp, codec]:
  "dec_Schema strict (enc_Schema s) zero_Schema = Some (coerce_Schema s)"
  by (cases s) (simp add: dec_Schema_def enc_Schema_def dec_struct_simps zero_Schema_def
      coerce_Schema_def dec_slice_JArr [where f = coerce_Reference])

lemma dec_enc_SubjectVersion [simp, codec]:
  "dec_SubjectVersion strict (enc_SubjectVersion v) zero_SubjectVersion = Some (coerce_SubjectVersion v)"
  by (cases v) (simp add: dec_SubjectVersion_def enc_SubjectVersion_def dec_struct_simps
      zero_SubjectVersion_def coerce_SubjectVersion_def)

lemma dec_enc_Result [simp, codec]:
  "dec_Result strict (enc_Result r) zero_Result = Some (coerce_Result r)"
  by (cases r) (simp add: dec_Result_def enc_Result_def dec_struct_simps zero_Result_def
      coerce_Result_def dec_slice_JArr [where f = "\<lambda>x. x"])

lemma dec_enc_Scope [simp, codec]:
  "dec_Scope strict (enc_Scope s) zero_Scope = Some (s\<lparr>sc_Subject := coerce_utf8 (sc_Subject s)\<rparr>)"
  by (cases s) (simp add: dec_Scope_def enc_Scope_def dec_struct_simps zero_Scope_def)

lemma omitempty_ok [simp]: "(\<forall>(k, v) \<in> set (omitempty n b j). json_ok v) \<longleftrightarrow> b \<or> json_ok j"
  by (simp add: omitempty_def)

lemma enc_domain_ok [simp]:
  "json_ok (enc_Reference r)" "json_ok (enc_Schema s)" "json_ok (enc_SubjectVersion v)"
  "json_ok (enc_Result x)" "json_ok (enc_Scope c)"
proof -
  show r: "json_ok (enc_Reference r)" for r by (simp add: enc_Reference_def)
  show "json_ok (enc_Schema s)" "json_ok (enc_SubjectVersion v)"
    "json_ok (enc_Result x)" "json_ok (enc_Scope c)"
    by (simp_all add: enc_Schema_def enc_SubjectVersion_def enc_Result_def enc_Scope_def r ball_Un)
qed

end
