(* ===== verification/Transition.thy ===== *)
theory Transition
  imports Domain_Types
begin

text \<open>
  \<open>internal/domain/transition.go\<close>: the durable, checksummed record of one transition and the
  payloads it carries. A payload is a \<open>json.RawMessage\<close>: \<open>None\<close> where it is empty,
  otherwise the tree of its text.
\<close>

section \<open>Data\<close>

abbreviation TransitionSchemaRegistered :: string where
  "TransitionSchemaRegistered \<equiv> ''schema_registered''"
abbreviation TransitionVersionDeleted :: string where
  "TransitionVersionDeleted \<equiv> ''version_deleted''"
abbreviation TransitionSubjectDeleted :: string where
  "TransitionSubjectDeleted \<equiv> ''subject_deleted''"
abbreviation TransitionCompatibilitySet :: string where
  "TransitionCompatibilitySet \<equiv> ''compatibility_set''"
abbreviation TransitionCompatibilityDel :: string where
  "TransitionCompatibilityDel \<equiv> ''compatibility_deleted''"
abbreviation TransitionModeSet :: string where
  "TransitionModeSet \<equiv> ''mode_set''"
abbreviation TransitionModeDeleted :: string where
  "TransitionModeDeleted \<equiv> ''mode_deleted''"

definition EnvelopeVersion :: int64 where
  "EnvelopeVersion = 1"

record Envelope =
  env_Version :: int64
  env_Sequence :: u64
  env_OperationID :: string
  env_Kind :: string
  env_Payload :: "json option"
  env_Result :: Result
  env_Checksum :: string

record registrationTransition =
  rt_Schema :: Schema
  rt_Version :: SubjectVersion

record deleteVersionTransition =
  dvt_Subject :: string
  dvt_Version :: int64
  dvt_Permanent :: bool

record deleteSubjectTransition =
  dst_Subject :: string
  dst_Versions :: "int64 list"
  dst_Permanent :: bool

record compatibilityTransition =
  ct_Scope :: Scope
  ct_Level :: string

record modeTransition =
  mt_Scope :: Scope
  mt_Mode :: string

definition zero_Envelope :: Envelope where
  "zero_Envelope = \<lparr>env_Version = 0, env_Sequence = 0, env_OperationID = '''', env_Kind = '''',
     env_Payload = None, env_Result = zero_Result, env_Checksum = ''''\<rparr>"

section \<open>Payload coding\<close>

definition enc_registration :: "registrationTransition \<Rightarrow> json" where
  "enc_registration t = obj
     [(''schema'', enc_Schema (rt_Schema t)), (''subjectVersion'', enc_SubjectVersion (rt_Version t))]"

definition dec_registration :: "registrationTransition decoder" where
  "dec_registration = dec_struct False
     [(''schema'', field (dec_Schema False) rt_Schema rt_Schema_update),
      (''subjectVersion'', field (dec_SubjectVersion False) rt_Version rt_Version_update)]"

definition enc_deleteVersion :: "deleteVersionTransition \<Rightarrow> json" where
  "enc_deleteVersion t = obj
     [(''subject'', enc_string (dvt_Subject t)), (''version'', enc_i64 (dvt_Version t)),
      (''permanent'', JBool (dvt_Permanent t))]"

definition dec_deleteVersion :: "deleteVersionTransition decoder" where
  "dec_deleteVersion = dec_struct False
     [(''subject'', field dec_string dvt_Subject dvt_Subject_update),
      (''version'', field dec_i64 dvt_Version dvt_Version_update),
      (''permanent'', field dec_bool dvt_Permanent dvt_Permanent_update)]"

definition enc_deleteSubject :: "deleteSubjectTransition \<Rightarrow> json" where
  "enc_deleteSubject t = obj
     [(''subject'', enc_string (dst_Subject t)), (''versions'', JArr (map enc_i64 (dst_Versions t))),
      (''permanent'', JBool (dst_Permanent t))]"

definition dec_deleteSubject :: "deleteSubjectTransition decoder" where
  "dec_deleteSubject = dec_struct False
     [(''subject'', field dec_string dst_Subject dst_Subject_update),
      (''versions'', field (dec_slice dec_i64 0) dst_Versions dst_Versions_update),
      (''permanent'', field dec_bool dst_Permanent dst_Permanent_update)]"

definition enc_compatibility :: "compatibilityTransition \<Rightarrow> json" where
  "enc_compatibility t = obj
     ([(''scope'', enc_Scope (ct_Scope t))]
      @ omitempty ''level'' (ct_Level t = '''') (enc_string (ct_Level t)))"

definition dec_compatibility :: "compatibilityTransition decoder" where
  "dec_compatibility = dec_struct False
     [(''scope'', field (dec_Scope False) ct_Scope ct_Scope_update),
      (''level'', field dec_string ct_Level ct_Level_update)]"

definition enc_mode :: "modeTransition \<Rightarrow> json" where
  "enc_mode t = obj
     ([(''scope'', enc_Scope (mt_Scope t))]
      @ omitempty ''mode'' (mt_Mode t = '''') (enc_string (mt_Mode t)))"

definition dec_mode :: "modeTransition decoder" where
  "dec_mode = dec_struct False
     [(''scope'', field (dec_Scope False) mt_Scope mt_Scope_update),
      (''mode'', field dec_string mt_Mode mt_Mode_update)]"

definition zero_registration :: registrationTransition where
  "zero_registration = \<lparr>rt_Schema = zero_Schema, rt_Version = zero_SubjectVersion\<rparr>"
definition zero_deleteVersion :: deleteVersionTransition where
  "zero_deleteVersion = \<lparr>dvt_Subject = '''', dvt_Version = 0, dvt_Permanent = False\<rparr>"
definition zero_deleteSubject :: deleteSubjectTransition where
  "zero_deleteSubject = \<lparr>dst_Subject = '''', dst_Versions = [], dst_Permanent = False\<rparr>"
definition zero_compatibility :: compatibilityTransition where
  "zero_compatibility = \<lparr>ct_Scope = zero_Scope, ct_Level = ''''\<rparr>"
definition zero_mode :: modeTransition where
  "zero_mode = \<lparr>mt_Scope = zero_Scope, mt_Mode = ''''\<rparr>"

text \<open>\<open>json.Unmarshal\<close> of a payload: empty input is an error.\<close>

definition unmarshal_payload :: "'a decoder \<Rightarrow> 'a \<Rightarrow> json option \<Rightarrow> 'a option" where
  "unmarshal_payload d z p = (case p of None \<Rightarrow> None | Some j \<Rightarrow> d j z)"

section \<open>Envelopes\<close>

definition enc_payload :: "json option \<Rightarrow> json" where
  "enc_payload p = (case p of None \<Rightarrow> JNull | Some j \<Rightarrow> compact_raw j)"

text \<open>The checksum covers every field but itself, marshalled under the Go field names.\<close>

definition checksum_json :: "Envelope \<Rightarrow> json" where
  "checksum_json e = obj
     [(''Version'', enc_i64 (env_Version e)), (''Sequence'', enc_u64 (env_Sequence e)),
      (''OperationID'', enc_string (env_OperationID e)), (''Kind'', enc_string (env_Kind e)),
      (''Payload'', enc_payload (env_Payload e)), (''Result'', enc_Result (env_Result e))]"

definition checksum :: "Envelope \<Rightarrow> string" where
  "checksum e = hex_encode (sha256 (print_json (checksum_json e)))"

text \<open>The payload structs hold strings, integers and booleans only, which \<open>json.Marshal\<close>
  never refuses: the error of \<open>newEnvelope\<close> cannot occur.\<close>

definition newEnvelope :: "u64 \<Rightarrow> string \<Rightarrow> string \<Rightarrow> json \<Rightarrow> Result \<Rightarrow> Envelope" where
  "newEnvelope sequence operationID kind payload result =
     (let envelope = \<lparr>env_Version = EnvelopeVersion, env_Sequence = sequence,
            env_OperationID = operationID, env_Kind = kind, env_Payload = Some payload,
            env_Result = result, env_Checksum = ''''\<rparr>
      in envelope\<lparr>env_Checksum := checksum envelope\<rparr>)"

definition Validate :: "Envelope \<Rightarrow> go_error option" where
  "Validate e =
     (if env_Version e \<noteq> EnvelopeVersion then
        Some (domainError ErrorCorrupt ''transition'' ''unsupported envelope version %d'' [AInt (env_Version e)])
      else if env_Sequence e = 0 \<or> env_Kind e = '''' \<or> env_Payload e = None then
        Some (domainError ErrorCorrupt ''transition'' ''missing sequence, kind, or payload'' [])
      else if env_Checksum e \<noteq> checksum e then
        Some (domainError ErrorCorrupt ''transition'' ''checksum mismatch'' [])
      else None)"

definition enc_Envelope :: "Envelope \<Rightarrow> json" where
  "enc_Envelope e = obj
     ([(''version'', enc_i64 (env_Version e)), (''sequence'', enc_u64 (env_Sequence e))]
      @ omitempty ''operationId'' (env_OperationID e = '''') (enc_string (env_OperationID e))
      @ [(''kind'', enc_string (env_Kind e)), (''payload'', enc_payload (env_Payload e)),
         (''result'', enc_Result (env_Result e)), (''checksum'', enc_string (env_Checksum e))])"

definition dec_Envelope :: "bool \<Rightarrow> Envelope decoder" where
  "dec_Envelope strict = dec_struct strict
     [(''version'', field dec_i64 env_Version env_Version_update),
      (''sequence'', field dec_u64 env_Sequence env_Sequence_update),
      (''operationId'', field dec_string env_OperationID env_OperationID_update),
      (''kind'', field dec_string env_Kind env_Kind_update),
      (''payload'', field dec_raw env_Payload env_Payload_update),
      (''result'', field (dec_Result strict) env_Result env_Result_update),
      (''checksum'', field dec_string env_Checksum env_Checksum_update)]"

definition marshal_Envelope :: "Envelope \<Rightarrow> string" where
  "marshal_Envelope e = print_json (enc_Envelope e)"

definition unmarshal_Envelope :: "string \<Rightarrow> Envelope option" where
  "unmarshal_Envelope s =
     (case parse_json s of None \<Rightarrow> None | Some j \<Rightarrow> dec_Envelope False j zero_Envelope)"

section \<open>Facts\<close>

lemma dec_enc_payloads [simp, codec]:
  "dec_registration (enc_registration rt) zero_registration =
     Some (rt\<lparr>rt_Schema := coerce_Schema (rt_Schema rt), rt_Version := coerce_SubjectVersion (rt_Version rt)\<rparr>)"
  "dec_deleteVersion (enc_deleteVersion dv) zero_deleteVersion =
     Some (dv\<lparr>dvt_Subject := coerce_utf8 (dvt_Subject dv)\<rparr>)"
  "dec_deleteSubject (enc_deleteSubject ds) zero_deleteSubject =
     Some (ds\<lparr>dst_Subject := coerce_utf8 (dst_Subject ds)\<rparr>)"
  "dec_compatibility (enc_compatibility ct) zero_compatibility =
     Some \<lparr>ct_Scope = \<lparr>sc_Subject = coerce_utf8 (sc_Subject (ct_Scope ct))\<rparr>, ct_Level = coerce_utf8 (ct_Level ct)\<rparr>"
  "dec_mode (enc_mode mt) zero_mode =
     Some \<lparr>mt_Scope = \<lparr>sc_Subject = coerce_utf8 (sc_Subject (mt_Scope mt))\<rparr>, mt_Mode = coerce_utf8 (mt_Mode mt)\<rparr>"
  subgoal by (cases rt) (simp add: dec_registration_def enc_registration_def dec_struct_simps zero_registration_def)
  subgoal by (cases dv) (simp add: dec_deleteVersion_def enc_deleteVersion_def dec_struct_simps zero_deleteVersion_def)
  subgoal by (cases ds) (simp add: dec_deleteSubject_def enc_deleteSubject_def dec_struct_simps
        zero_deleteSubject_def dec_slice_JArr [where f = "\<lambda>x. x"])
  subgoal by (cases ct; cases "ct_Scope ct") (simp add: dec_compatibility_def enc_compatibility_def dec_struct_simps
        zero_compatibility_def)
  subgoal by (cases mt; cases "mt_Scope mt") (simp add: dec_mode_def enc_mode_def dec_struct_simps zero_mode_def)
  done

lemma enc_payloads_ok [simp]:
  "json_ok (enc_registration rt)" "json_ok (enc_deleteVersion dv)" "json_ok (enc_deleteSubject ds)"
  "json_ok (enc_compatibility ct)" "json_ok (enc_mode mt)"
  by (simp_all add: enc_registration_def enc_deleteVersion_def enc_deleteSubject_def
      enc_compatibility_def enc_mode_def ball_Un)

lemma checksum_update_checksum [simp]: "checksum (e\<lparr>env_Checksum := c\<rparr>) = checksum e"
  by (simp add: checksum_def checksum_json_def)

lemma newEnvelope_simps [simp]:
  "env_Version (newEnvelope s op k p r) = EnvelopeVersion"
  "env_Sequence (newEnvelope s op k p r) = s"
  "env_OperationID (newEnvelope s op k p r) = op"
  "env_Kind (newEnvelope s op k p r) = k"
  "env_Payload (newEnvelope s op k p r) = Some p"
  "env_Result (newEnvelope s op k p r) = r"
  "env_Checksum (newEnvelope s op k p r) = checksum (newEnvelope s op k p r)"
  by (simp_all add: newEnvelope_def Let_def checksum_def checksum_json_def)

lemma Validate_newEnvelope:
  "Validate (newEnvelope s op k p r) = None \<longleftrightarrow> s \<noteq> 0 \<and> k \<noteq> ''''"
  by (simp add: Validate_def newEnvelope_simps(7) [symmetric] del: newEnvelope_simps(7))

lemma Validate_None_iff:
  "Validate e = None \<longleftrightarrow> env_Version e = EnvelopeVersion \<and> env_Sequence e \<noteq> 0 \<and> env_Kind e \<noteq> ''''
     \<and> env_Payload e \<noteq> None \<and> env_Checksum e = checksum e"
  by (auto simp: Validate_def)

text \<open>Writing and reading an envelope gives it back with its strings in UTF-8.\<close>

definition coerce_Envelope :: "Envelope \<Rightarrow> Envelope" where
  "coerce_Envelope e = e\<lparr>env_OperationID := coerce_utf8 (env_OperationID e),
     env_Kind := coerce_utf8 (env_Kind e), env_Result := coerce_Result (env_Result e),
     env_Checksum := coerce_utf8 (env_Checksum e)\<rparr>"

definition payload_ok :: "Envelope \<Rightarrow> bool" where
  "payload_ok e \<longleftrightarrow> (\<exists>j. env_Payload e = Some j \<and> json_ok j)"

lemma unmarshal_marshal_coerce:
  assumes "payload_ok e"
  shows "unmarshal_Envelope (marshal_Envelope e) = Some (coerce_Envelope e)"
proof -
  from assms obtain j where j: "env_Payload e = Some j" "json_ok j"
    by (auto simp: payload_ok_def)
  then have "json_ok (enc_Envelope e)"
    by (simp add: enc_Envelope_def enc_payload_def ball_Un)
  moreover have "dec_Envelope False (enc_Envelope e) zero_Envelope = Some (coerce_Envelope e)"
    using j by (cases e) (simp add: dec_Envelope_def enc_Envelope_def dec_struct_simps
        zero_Envelope_def enc_payload_def dec_raw_def coerce_Envelope_def)
  ultimately show ?thesis
    by (simp add: unmarshal_Envelope_def marshal_Envelope_def parse_print_json)
qed

definition envelope_utf8 :: "Envelope \<Rightarrow> bool" where
  "envelope_utf8 e \<longleftrightarrow> valid_utf8 (env_OperationID e) \<and> valid_utf8 (env_Kind e)
     \<and> valid_utf8 (res_GUID (env_Result e)) \<and> valid_utf8 (env_Checksum e)"

lemma coerce_Envelope_utf8: "envelope_utf8 e \<Longrightarrow> coerce_Envelope e = e"
  by (cases e) (simp add: coerce_Envelope_def envelope_utf8_def coerce_Result_def)

lemma unmarshal_marshal_Envelope [codec]:
  "payload_ok e \<Longrightarrow> envelope_utf8 e \<Longrightarrow> unmarshal_Envelope (marshal_Envelope e) = Some e"
  by (simp add: unmarshal_marshal_coerce coerce_Envelope_utf8)

text \<open>Hexadecimal text is ASCII, so checksums and GUIDs are UTF-8.\<close>

lemma ascii_hex_encode: "list_all (\<lambda>c. byte c < 128) (hex_encode s)"
proof -
  have "byte (hex_digit n) < 128" if "n < 16" for n using that by (auto simp: hex_digit_def)
  moreover have "byte c div 16 < 16" for c :: char by (rule less_mult_imp_div_less) simp
  ultimately show ?thesis by (auto simp: hex_encode_def list_all_iff)
qed

lemma valid_utf8_ascii_list: "list_all (\<lambda>c. byte c < 128) s \<Longrightarrow> valid_utf8 s"
  using valid_utf8_ascii_append [of s "[]"] by simp

lemma valid_utf8_checksum [simp]: "valid_utf8 (checksum e)"
  by (simp add: checksum_def valid_utf8_ascii_list ascii_hex_encode)

lemma valid_utf8_FingerprintGUID [simp]: "valid_utf8 (FingerprintGUID d rs)"
  by (rule valid_utf8_ascii_list) (simp add: FingerprintGUID_def Let_def ascii_hex_encode)

section \<open>Operation IDs that are not UTF-8\<close>

lemma escape_replacement: "escape_string (replacement @ s) = replacement @ escape_string s"
proof -
  have "rune_width (replacement @ s) = 3"
    by (simp add: replacement_def rune_width_def lead_width_def tail_ok_def second_ok_def cont_byte_def)
  then show ?thesis
    by (simp add: replacement_def escape_string.simps(2) Let_def escape_rune_def)
qed

lemma escape_coerce_shorter:
  "length (escape_string (coerce_utf8 s)) \<le> length (escape_string s)
   \<and> (\<not> valid_utf8 s \<longrightarrow> length (escape_string (coerce_utf8 s)) < length (escape_string s))"
proof (induction s rule: rune_induct)
  case (bad c s)
  have "length replacement = 3" by (simp add: replacement_def)
  with bad show ?case
    by (simp add: coerce_utf8_bad escape_replacement escape_string.simps(2) [of c s])
next
  case (rune c t u)
  have w: "rune_width (c # t @ v) = Suc (length t)" for v
    using rune_width_prefix [OF rune(1)] tail_ok_length [OF rune(1)] by simp
  have e: "escape_string (c # t @ v) = (if t = [] then escape_byte c else escape_rune (c # t)) @ escape_string v" for v
    using w [of v] by (cases t) (simp_all add: escape_string.simps(2) Let_def)
  have "valid_utf8 (c # t @ u) = valid_utf8 u"
    using w [of u] by (simp add: valid_utf8.simps(2) Let_def)
  moreover have "coerce_utf8 (c # t @ u) = c # t @ coerce_utf8 u"
    using rune w [of u] by (simp add: coerce_utf8.simps(2) Let_def)
  ultimately show ?case using rune e by simp
qed simp

definition checksum_text :: "Envelope \<Rightarrow> string" where
  "checksum_text e = print_json (checksum_json e)"

lemma checksum_text_inject:
  assumes "payload_ok e" and "payload_ok e'" and "checksum_text e = checksum_text e'"
  shows "escape_string (env_OperationID e) = escape_string (env_OperationID e')"
proof -
  have ok: "json_ok (checksum_json x)" if "payload_ok x" for x
    using that by (auto simp: payload_ok_def checksum_json_def enc_payload_def)
  have "Some (checksum_json e) = Some (checksum_json e')"
    using parse_print_json [OF ok [OF assms(1)]] parse_print_json [OF ok [OF assms(2)]] assms(3)
    unfolding checksum_text_def by metis
  then show ?thesis by (simp add: checksum_json_def obj_def enc_string_def)
qed

text \<open>C32: A transition whose operation ID is not UTF-8 passes validation when it is committed, but
  what a store reads back from its JSON is another envelope, whose checksum is taken over another
  text: it validates only if SHA-256 gives the same digest for the two texts. The registry can
  then no longer be replayed.\<close>

theorem operation_id_not_utf8:
  assumes "Validate e = None" and "payload_ok e" and "\<not> valid_utf8 (env_OperationID e)"
  shows "\<exists>e'. unmarshal_Envelope (marshal_Envelope e) = Some e' \<and> checksum_text e' \<noteq> checksum_text e
    \<and> (Validate e' = None \<longrightarrow> hex_encode (sha256 (checksum_text e')) = hex_encode (sha256 (checksum_text e)))"
proof -
  let ?e = "coerce_Envelope e"
  have p: "payload_ok ?e" using assms(2) by (simp add: payload_ok_def coerce_Envelope_def)
  have "escape_string (env_OperationID ?e) \<noteq> escape_string (env_OperationID e)"
    using escape_coerce_shorter [of "env_OperationID e"] assms(3) by (auto simp: coerce_Envelope_def)
  then have "checksum_text ?e \<noteq> checksum_text e"
    using checksum_text_inject [OF p assms(2)] by blast
  moreover have "hex_encode (sha256 (checksum_text ?e)) = hex_encode (sha256 (checksum_text e))"
    if "Validate ?e = None"
  proof -
    have v: "env_Checksum e = checksum e" "env_Checksum ?e = checksum ?e"
      using assms(1) that by (simp_all only: Validate_None_iff)
    have "checksum ?e = env_Checksum ?e" using v(2) by (rule sym)
    also have "\<dots> = coerce_utf8 (env_Checksum e)" by (simp add: coerce_Envelope_def)
    also have "\<dots> = coerce_utf8 (checksum e)" by (simp only: v(1))
    also have "\<dots> = checksum e" by (rule coerce_utf8_valid [OF valid_utf8_checksum])
    finally show ?thesis unfolding checksum_def checksum_text_def .
  qed
  ultimately show ?thesis
    by (intro exI [of _ ?e] conjI impI) (use unmarshal_marshal_coerce [OF assms(2)] in assumption)+
qed

end
