(* ===== verification/Registry_State.thy ===== *)
theory Registry_State
  imports Transition
begin

text \<open>
  \<open>internal/domain/state.go\<close>: the materialised registry. The state is the snapshot record
  itself, Go maps are finite maps, and the copies the code takes to keep published states
  immutable are the values themselves. A \<open>range\<close> over a map visits the entries in an order Go
  leaves open: a query takes the list of entries visited (\<open>.._over\<close>), the query itself visits
  them by key, and \<open>order_free\<close> facts show that every other order gives the same answer.
\<close>

section \<open>State\<close>

record Snapshot =
  snap_FormatVersion :: int64
  snap_Sequence :: u64
  snap_NextSchemaID :: int64
  snap_Schemas :: "(int64, Schema) fmap"
  snap_IdentityToID :: "(string, int64) fmap"
  snap_Subjects :: "(string, SubjectVersion list) fmap"
  snap_GlobalCompatibility :: string
  snap_SubjectCompatibility :: "(string, string) fmap"
  snap_GlobalMode :: string
  snap_SubjectModes :: "(string, string) fmap"
  snap_Operations :: "(string, Result) fmap"

type_synonym State = Snapshot

definition NewState :: State where
  "NewState = \<lparr>snap_FormatVersion = 1, snap_Sequence = 0, snap_NextSchemaID = 1,
     snap_Schemas = fmempty, snap_IdentityToID = fmempty, snap_Subjects = fmempty,
     snap_GlobalCompatibility = CompatibilityBackward, snap_SubjectCompatibility = fmempty,
     snap_GlobalMode = ModeReadWrite, snap_SubjectModes = fmempty, snap_Operations = fmempty\<rparr>"

text \<open>\<open>s.snapshot.Subjects[subject]\<close>: the nil slice where the subject is absent.\<close>

definition versions_of :: "State \<Rightarrow> string \<Rightarrow> SubjectVersion list" where
  "versions_of s subject = (case fmlookup (snap_Subjects s) subject of None \<Rightarrow> [] | Some vs \<Rightarrow> vs)"

type_synonym subject_entries = "(string \<times> SubjectVersion list) list"

definition entries :: "State \<Rightarrow> subject_entries" where
  "entries s = sorted_list_of_fmap (snap_Subjects s)"

section \<open>Validation\<close>

fun validate_identities :: "State \<Rightarrow> (string \<times> int64) list \<Rightarrow> go_error option" where
  "validate_identities s [] = None"
| "validate_identities s ((identity, sid) # rest) =
     (case fmlookup (snap_Schemas s) sid of
        None \<Rightarrow> Some (domainError ErrorCorrupt ''snapshot'' ''identity index mismatch'' [])
      | Some schema \<Rightarrow>
          if sch_Identity schema \<noteq> identity
          then Some (domainError ErrorCorrupt ''snapshot'' ''identity index mismatch'' [])
          else validate_identities s rest)"

fun validate_versions :: "State \<Rightarrow> string \<Rightarrow> int64 list \<Rightarrow> SubjectVersion list \<Rightarrow> go_error option" where
  "validate_versions s subject seen [] = None"
| "validate_versions s subject seen (item # rest) =
     (if sv_Subject item \<noteq> subject \<or> sv_Version item < 1 \<or> sv_Version item \<in> set seen
      then Some (domainError ErrorCorrupt ''snapshot'' ''invalid subject version index'' [])
      else if fmlookup (snap_Schemas s) (sv_SchemaID item) = None
      then Some (domainError ErrorCorrupt ''snapshot'' ''version references missing schema'' [])
      else validate_versions s subject (sv_Version item # seen) rest)"

fun validate_subjects :: "State \<Rightarrow> subject_entries \<Rightarrow> go_error option" where
  "validate_subjects s [] = None"
| "validate_subjects s ((subject, versions) # rest) =
     (case validate_versions s subject [] versions of
        Some e \<Rightarrow> Some e
      | None \<Rightarrow> validate_subjects s rest)"

definition validate :: "State \<Rightarrow> go_error option" where
  "validate s =
     (if snap_NextSchemaID s < 1 \<or> \<not> CompatibilityLevel_Valid (snap_GlobalCompatibility s)
         \<or> \<not> Mode_Valid (snap_GlobalMode s)
      then Some (domainError ErrorCorrupt ''snapshot'' ''invalid defaults'' [])
      else case validate_identities s (sorted_list_of_fmap (snap_IdentityToID s)) of
        Some e \<Rightarrow> Some e
      | None \<Rightarrow> validate_subjects s (entries s))"

definition Restore :: "Snapshot \<Rightarrow> go_error + State" where
  "Restore snapshot =
     (if snap_FormatVersion snapshot \<noteq> 1
      then Inl (domainError ErrorCorrupt ''snapshot'' ''unsupported format version %d''
             [AInt (snap_FormatVersion snapshot)])
      else case validate snapshot of Some e \<Rightarrow> Inl e | None \<Rightarrow> Inr snapshot)"

section \<open>Transitions\<close>

definition corruptPayload :: "go_error \<Rightarrow> go_error" where
  "corruptPayload e = DomainErr ErrorCorrupt ''transition payload'' ''invalid JSON: %v'' [] (Some e)"

fun mark_versions :: "int64 \<Rightarrow> bool \<Rightarrow> SubjectVersion list \<Rightarrow> SubjectVersion list option" where
  "mark_versions version permanent [] = None"
| "mark_versions version permanent (item # rest) =
     (if sv_Version item = version \<and> \<not> sv_Permanent item
      then Some (item\<lparr>sv_Deleted := True, sv_Permanent := permanent\<rparr> # rest)
      else map_option ((#) item) (mark_versions version permanent rest))"

definition markDeleted :: "Snapshot \<Rightarrow> string \<Rightarrow> int64 \<Rightarrow> bool \<Rightarrow> Snapshot option" where
  "markDeleted s subject version permanent =
     map_option (\<lambda>vs. s\<lparr>snap_Subjects := fmupd subject vs (snap_Subjects s)\<rparr>)
       (mark_versions version permanent (versions_of s subject))"

fun markAll :: "Snapshot \<Rightarrow> string \<Rightarrow> int64 list \<Rightarrow> bool \<Rightarrow> go_error + Snapshot" where
  "markAll s subject [] permanent = Inr s"
| "markAll s subject (version # rest) permanent =
     (case markDeleted s subject version permanent of
        None \<Rightarrow> Inl (domainError ErrorCorrupt ''version'' ''missing %s/%d'' [AStr subject, AInt version])
      | Some s' \<Rightarrow> markAll s' subject rest permanent)"

definition apply_registration :: "Snapshot \<Rightarrow> registrationTransition \<Rightarrow> go_error + Snapshot" where
  "apply_registration s p =
     (let schema = rt_Schema p; sid = sch_ID schema; version = rt_Version p in
      case fmlookup (snap_Schemas s) sid of
        Some existing \<Rightarrow>
          if sch_Identity existing \<noteq> sch_Identity schema
          then Inl (domainError ErrorCorrupt ''schema'' ''ID %d identity conflict'' [AInt sid])
          else Inr (s\<lparr>snap_Schemas := fmupd sid schema (snap_Schemas s),
            snap_IdentityToID := fmupd (sch_Identity schema) sid (snap_IdentityToID s),
            snap_Subjects := fmupd (sv_Subject version)
              (versions_of s (sv_Subject version) @ [version]) (snap_Subjects s),
            snap_NextSchemaID := (if sid \<ge> snap_NextSchemaID s then sid + 1 else snap_NextSchemaID s)\<rparr>)
      | None \<Rightarrow>
          Inr (s\<lparr>snap_Schemas := fmupd sid schema (snap_Schemas s),
            snap_IdentityToID := fmupd (sch_Identity schema) sid (snap_IdentityToID s),
            snap_Subjects := fmupd (sv_Subject version)
              (versions_of s (sv_Subject version) @ [version]) (snap_Subjects s),
            snap_NextSchemaID := (if sid \<ge> snap_NextSchemaID s then sid + 1 else snap_NextSchemaID s)\<rparr>))"

definition applyPayload :: "Snapshot \<Rightarrow> Envelope \<Rightarrow> go_error + Snapshot" where
  "applyPayload s e =
     (let kind = env_Kind e in
      if kind = TransitionSchemaRegistered then
        (case unmarshal_payload dec_registration zero_registration (env_Payload e) of
           None \<Rightarrow> Inl (corruptPayload JsonErr)
         | Some p \<Rightarrow> apply_registration s p)
      else if kind = TransitionVersionDeleted then
        (case unmarshal_payload dec_deleteVersion zero_deleteVersion (env_Payload e) of
           None \<Rightarrow> Inl (corruptPayload JsonErr)
         | Some p \<Rightarrow>
             (case markDeleted s (dvt_Subject p) (dvt_Version p) (dvt_Permanent p) of
                None \<Rightarrow> Inl (domainError ErrorCorrupt ''version'' ''missing %s/%d''
                         [AStr (dvt_Subject p), AInt (dvt_Version p)])
              | Some s' \<Rightarrow> Inr s'))
      else if kind = TransitionSubjectDeleted then
        (case unmarshal_payload dec_deleteSubject zero_deleteSubject (env_Payload e) of
           None \<Rightarrow> Inl (corruptPayload JsonErr)
         | Some p \<Rightarrow> markAll s (dst_Subject p) (dst_Versions p) (dst_Permanent p))
      else if kind = TransitionCompatibilitySet \<or> kind = TransitionCompatibilityDel then
        (case unmarshal_payload dec_compatibility zero_compatibility (env_Payload e) of
           None \<Rightarrow> Inl (corruptPayload JsonErr)
         | Some p \<Rightarrow> Inr
             (if kind = TransitionCompatibilityDel then
                s\<lparr>snap_SubjectCompatibility := fmdrop (sc_Subject (ct_Scope p)) (snap_SubjectCompatibility s)\<rparr>
              else if sc_Subject (ct_Scope p) = '''' then s\<lparr>snap_GlobalCompatibility := ct_Level p\<rparr>
              else s\<lparr>snap_SubjectCompatibility :=
                fmupd (sc_Subject (ct_Scope p)) (ct_Level p) (snap_SubjectCompatibility s)\<rparr>))
      else if kind = TransitionModeSet \<or> kind = TransitionModeDeleted then
        (case unmarshal_payload dec_mode zero_mode (env_Payload e) of
           None \<Rightarrow> Inl (corruptPayload JsonErr)
         | Some p \<Rightarrow> Inr
             (if kind = TransitionModeDeleted then
                s\<lparr>snap_SubjectModes := fmdrop (sc_Subject (mt_Scope p)) (snap_SubjectModes s)\<rparr>
              else if sc_Subject (mt_Scope p) = '''' then s\<lparr>snap_GlobalMode := mt_Mode p\<rparr>
              else s\<lparr>snap_SubjectModes :=
                fmupd (sc_Subject (mt_Scope p)) (mt_Mode p) (snap_SubjectModes s)\<rparr>))
      else Inl (domainError ErrorCorrupt ''transition'' ''unknown kind %q'' [AStr kind]))"

definition Apply :: "State \<Rightarrow> Envelope \<Rightarrow> go_error + State" where
  "Apply s e =
     (case Validate e of Some err \<Rightarrow> Inl err
      | None \<Rightarrow>
          if env_Sequence e \<noteq> snap_Sequence s + 1
          then Inl (domainError ErrorCorrupt ''transition'' ''sequence %d does not follow %d''
                 [ANat (env_Sequence e), ANat (snap_Sequence s)])
          else (case applyPayload s e of Inl err \<Rightarrow> Inl err
            | Inr n \<Rightarrow>
                (let n1 = n\<lparr>snap_Sequence := env_Sequence e\<rparr>;
                     n2 = (if env_OperationID e \<noteq> ''''
                           then n1\<lparr>snap_Operations :=
                             fmupd (env_OperationID e) (env_Result e) (snap_Operations n1)\<rparr>
                           else n1)
                 in case validate n2 of Some err \<Rightarrow> Inl err | None \<Rightarrow> Inr n2)))"

section \<open>Queries\<close>

definition ResultFor :: "State \<Rightarrow> string \<Rightarrow> Result option" where
  "ResultFor s operationID = fmlookup (snap_Operations s) operationID"

definition SchemaByID :: "State \<Rightarrow> int64 \<Rightarrow> Schema option" where
  "SchemaByID s sid = fmlookup (snap_Schemas s) sid"

definition active :: "SubjectVersion \<Rightarrow> bool" where
  "active item \<longleftrightarrow> \<not> sv_Deleted item \<and> \<not> sv_Permanent item"

definition visible :: "bool \<Rightarrow> SubjectVersion \<Rightarrow> bool" where
  "visible includeDeleted item \<longleftrightarrow>
     \<not> (sv_Permanent item \<or> (\<not> includeDeleted \<and> sv_Deleted item))"

definition newer :: "SubjectVersion \<Rightarrow> SubjectVersion \<Rightarrow> bool" where
  "newer a b \<longleftrightarrow>
     (if sv_Sequence a \<noteq> sv_Sequence b then sv_Sequence a > sv_Sequence b
      else if sv_Subject a = sv_Subject b then sv_Version a > sv_Version b
      else sv_Subject a > sv_Subject b)"

definition VersionsForID_over :: "subject_entries \<Rightarrow> int64 \<Rightarrow> SubjectVersion list" where
  "VersionsForID_over es sid =
     sort_slice newer (concat (map (\<lambda>(_, versions). filter (\<lambda>item. sv_SchemaID item = sid \<and> active item) versions) es))"

definition VersionsForID :: "State \<Rightarrow> int64 \<Rightarrow> SubjectVersion list" where
  "VersionsForID s sid = VersionsForID_over (entries s) sid"

definition latest_step :: "int64 \<Rightarrow> SubjectVersion option \<Rightarrow> SubjectVersion \<Rightarrow> SubjectVersion option" where
  "latest_step sid latest item =
     (if sv_SchemaID item \<noteq> sid \<or> sv_Deleted item \<or> sv_Permanent item then latest
      else case latest of
        None \<Rightarrow> Some item
      | Some l \<Rightarrow> if sv_Sequence item > sv_Sequence l then Some item else latest)"

definition LatestForID_over :: "subject_entries \<Rightarrow> int64 \<Rightarrow> string \<Rightarrow> SubjectVersion option" where
  "LatestForID_over es sid subject =
     foldl (\<lambda>latest (owner, versions).
        if subject \<noteq> '''' \<and> owner \<noteq> subject then latest else foldl (latest_step sid) latest versions) None es"

definition LatestForID :: "State \<Rightarrow> int64 \<Rightarrow> string \<Rightarrow> SubjectVersion option" where
  "LatestForID s sid subject = LatestForID_over (entries s) sid subject"

definition Subjects_over :: "subject_entries \<Rightarrow> bool \<Rightarrow> string list" where
  "Subjects_over es includeDeleted =
     sort (map fst (filter (\<lambda>(_, versions). list_ex (visible includeDeleted) versions) es))"

definition Subjects :: "State \<Rightarrow> bool \<Rightarrow> string list" where
  "Subjects s includeDeleted = Subjects_over (entries s) includeDeleted"

definition Versions :: "State \<Rightarrow> string \<Rightarrow> bool \<Rightarrow> int64 list" where
  "Versions s subject includeDeleted =
     sort (map sv_Version (filter (visible includeDeleted) (versions_of s subject)))"

definition Lookup :: "State \<Rightarrow> string \<Rightarrow> int64 \<Rightarrow> bool \<Rightarrow> SubjectVersion \<times> Schema \<times> bool" where
  "Lookup s subject version includeDeleted =
     (case find (\<lambda>item. sv_Version item = version \<and> visible includeDeleted item) (versions_of s subject) of
        None \<Rightarrow> (zero_SubjectVersion, zero_Schema, False)
      | Some item \<Rightarrow>
          (case fmlookup (snap_Schemas s) (sv_SchemaID item) of
             None \<Rightarrow> (item, zero_Schema, False)
           | Some schema \<Rightarrow> (item, schema, True)))"

definition has_identity :: "State \<Rightarrow> string \<Rightarrow> SubjectVersion \<Rightarrow> bool" where
  "has_identity s identity item =
     (case fmlookup (snap_Schemas s) (sv_SchemaID item) of
        None \<Rightarrow> False | Some schema \<Rightarrow> sch_Identity schema = identity)"

definition FindSubjectSchema :: "State \<Rightarrow> string \<Rightarrow> string \<Rightarrow> (SubjectVersion \<times> Schema) option" where
  "FindSubjectSchema s subject identity =
     (case find (\<lambda>item. active item \<and> has_identity s identity item) (versions_of s subject) of
        None \<Rightarrow> None
      | Some item \<Rightarrow> map_option (Pair item) (fmlookup (snap_Schemas s) (sv_SchemaID item)))"

definition EffectiveCompatibility :: "State \<Rightarrow> string \<Rightarrow> string" where
  "EffectiveCompatibility s subject =
     (case fmlookup (snap_SubjectCompatibility s) subject of
        Some level \<Rightarrow> level | None \<Rightarrow> snap_GlobalCompatibility s)"

definition SubjectCompatibility :: "State \<Rightarrow> string \<Rightarrow> string option" where
  "SubjectCompatibility s subject = fmlookup (snap_SubjectCompatibility s) subject"

definition EffectiveMode :: "State \<Rightarrow> string \<Rightarrow> string" where
  "EffectiveMode s subject =
     (case fmlookup (snap_SubjectModes s) subject of
        Some mode \<Rightarrow> mode | None \<Rightarrow> snap_GlobalMode s)"

definition SubjectMode :: "State \<Rightarrow> string \<Rightarrow> string option" where
  "SubjectMode s subject = fmlookup (snap_SubjectModes s) subject"

text \<open>The references of an item's schema; those of the zero schema where it is missing.\<close>

definition references_of :: "State \<Rightarrow> SubjectVersion \<Rightarrow> Reference list" where
  "references_of s item =
     (case fmlookup (snap_Schemas s) (sv_SchemaID item) of None \<Rightarrow> [] | Some schema \<Rightarrow> sch_References schema)"

definition by_subject :: "SubjectVersion \<Rightarrow> SubjectVersion \<Rightarrow> bool" where
  "by_subject a b \<longleftrightarrow>
     (if sv_Subject a = sv_Subject b then sv_Version a < sv_Version b else sv_Subject a < sv_Subject b)"

definition ReferencedBy_over :: "subject_entries \<Rightarrow> State \<Rightarrow> string \<Rightarrow> int64 \<Rightarrow> SubjectVersion list" where
  "ReferencedBy_over es s subject version =
     sort_slice by_subject (concat (map (\<lambda>(owner, versions).
       map (\<lambda>item. item\<lparr>sv_Subject := owner\<rparr>)
         (filter (\<lambda>item. active item \<and>
            list_ex (\<lambda>r. ref_Subject r = subject \<and> ref_Version r = version) (references_of s item)) versions)) es))"

definition ReferencedBy :: "State \<Rightarrow> string \<Rightarrow> int64 \<Rightarrow> SubjectVersion list" where
  "ReferencedBy s subject version = ReferencedBy_over (entries s) s subject version"

section \<open>What validation accepts\<close>

text \<open>The index from identities to schemas is sound, and every subject lists distinct positive
  versions of its own over schemas that exist.\<close>

definition versions_ok :: "State \<Rightarrow> string \<Rightarrow> SubjectVersion list \<Rightarrow> bool" where
  "versions_ok s subject vs \<longleftrightarrow>
     distinct (map sv_Version vs)
     \<and> (\<forall>item \<in> set vs. sv_Subject item = subject \<and> 1 \<le> sv_Version item
          \<and> sv_SchemaID item \<in> fset (fmdom (snap_Schemas s)))"

definition state_ok :: "State \<Rightarrow> bool" where
  "state_ok s \<longleftrightarrow>
     1 \<le> snap_NextSchemaID s \<and> CompatibilityLevel_Valid (snap_GlobalCompatibility s)
     \<and> Mode_Valid (snap_GlobalMode s)
     \<and> fmpred (\<lambda>identity sid. map_option sch_Identity (fmlookup (snap_Schemas s) sid) = Some identity)
         (snap_IdentityToID s)
     \<and> fmpred (versions_ok s) (snap_Subjects s)"

lemma validate_identities_None:
  "validate_identities s xs = None \<longleftrightarrow>
     (\<forall>(identity, sid) \<in> set xs. map_option sch_Identity (fmlookup (snap_Schemas s) sid) = Some identity)"
  by (induction s xs rule: validate_identities.induct) (auto split: option.splits)

lemma validate_versions_None:
  "validate_versions s subject seen vs = None \<longleftrightarrow>
     versions_ok s subject vs \<and> (\<forall>item \<in> set vs. sv_Version item \<notin> set seen)"
proof (induction s subject seen vs rule: validate_versions.induct)
  case (2 s subject seen item rest)
  let ?bad = "sv_Subject item \<noteq> subject \<or> sv_Version item < 1 \<or> sv_Version item \<in> set seen
    \<or> sv_SchemaID item \<notin> fset (fmdom (snap_Schemas s))"
  have dom: "fmlookup (snap_Schemas s) (sv_SchemaID item) = None \<longleftrightarrow>
      sv_SchemaID item \<notin> fset (fmdom (snap_Schemas s))"
    by (simp add: fmlookup_dom_iff)
  show ?case
  proof (cases ?bad)
    case True
    then show ?thesis by (simp add: versions_ok_def dom not_less [symmetric]) blast
  next
    case False
    have "(validate_versions s subject seen (item # rest) = None) =
        (versions_ok s subject rest \<and> (\<forall>i \<in> set rest. sv_Version i \<notin> set (sv_Version item # seen)))"
      using False 2 dom by auto
    moreover have "versions_ok s subject (item # rest) \<longleftrightarrow>
        versions_ok s subject rest \<and> (\<forall>i \<in> set rest. sv_Version i \<noteq> sv_Version item)"
      using False unfolding versions_ok_def by (simp add: not_less image_iff) metis
    ultimately show ?thesis using False by simp blast
  qed
qed (simp add: versions_ok_def)

lemma validate_subjects_None:
  "validate_subjects s es = None \<longleftrightarrow> (\<forall>(subject, vs) \<in> set es. versions_ok s subject vs)"
  by (induction s es rule: validate_subjects.induct)
    (auto simp: validate_versions_None)

lemma set_entries: "(subject, vs) \<in> set (entries s) \<longleftrightarrow> fmlookup (snap_Subjects s) subject = Some vs"
  by (simp add: entries_def set_sorted_list_of_fmap)

theorem validate_None_iff: "validate s = None \<longleftrightarrow> state_ok s"
  by (auto simp: validate_def state_ok_def validate_identities_None validate_subjects_None
      set_entries set_sorted_list_of_fmap fmpred_iff not_less simp del: map_option_eq_Some)

lemma validate_Corrupt: "validate s = Some e \<Longrightarrow> CategoryOf e = ErrorCorrupt"
proof -
  have i: "validate_identities s xs = Some e \<Longrightarrow> CategoryOf e = ErrorCorrupt" for xs
    by (induction s xs rule: validate_identities.induct) (auto split: option.splits if_splits)
  have v: "validate_versions s0 subject seen vs = Some e \<Longrightarrow> CategoryOf e = ErrorCorrupt" for s0 subject seen vs
    by (induction s0 subject seen vs rule: validate_versions.induct) (auto split: if_splits)
  have j: "validate_subjects s es = Some e \<Longrightarrow> CategoryOf e = ErrorCorrupt" for es
    by (induction s es rule: validate_subjects.induct) (auto simp: check_seq_Some dest: v)
  show "validate s = Some e \<Longrightarrow> CategoryOf e = ErrorCorrupt"
    by (auto simp: validate_def check_seq_Some dest: i j split: if_splits)
qed

lemma state_ok_versions: "state_ok s \<Longrightarrow> versions_ok s subject (versions_of s subject)"
  by (auto simp: state_ok_def versions_of_def versions_ok_def fmpred_iff split: option.splits)

lemma state_okD:
  assumes "state_ok s"
  shows "1 \<le> snap_NextSchemaID s" "CompatibilityLevel_Valid (snap_GlobalCompatibility s)"
    "Mode_Valid (snap_GlobalMode s)"
    "fmlookup (snap_IdentityToID s) i = Some k \<Longrightarrow> \<exists>sch. fmlookup (snap_Schemas s) k = Some sch \<and> sch_Identity sch = i"
  using assms by (auto simp: state_ok_def fmpred_iff)

lemma NewState_ok [simp]: "state_ok NewState"
  by (simp add: state_ok_def NewState_def CompatibilityLevel_Valid_def Mode_Valid_def)

section \<open>Applying transitions\<close>

lemma Apply_Inr:
  assumes "Apply s e = Inr s'"
  obtains n where "Validate e = None" and "env_Sequence e = snap_Sequence s + 1"
    and "applyPayload s e = Inr n" and "state_ok s'"
    and "s' = n\<lparr>snap_Sequence := env_Sequence e,
       snap_Operations := (if env_OperationID e = '''' then snap_Operations n
         else fmupd (env_OperationID e) (env_Result e) (snap_Operations n))\<rparr>"
proof -
  have v: "Validate e = None" and q: "env_Sequence e = snap_Sequence s + 1"
    using assms by (auto simp: Apply_def split: option.splits if_splits)
  with assms obtain n where n: "applyPayload s e = Inr n"
    by (cases "applyPayload s e") (auto simp: Apply_def)
  let ?s = "n\<lparr>snap_Sequence := env_Sequence e,
       snap_Operations := (if env_OperationID e = '''' then snap_Operations n
         else fmupd (env_OperationID e) (env_Result e) (snap_Operations n))\<rparr>"
  have "Apply s e = (case validate ?s of Some err \<Rightarrow> Inl err | None \<Rightarrow> Inr ?s)"
    using v q n by (cases "env_OperationID e = ''''") (simp_all add: Apply_def Let_def q split: option.split)
  with assms have "s' = ?s" and "validate ?s = None" by (auto split: option.splits)
  with v q n that [of n] show thesis by (simp add: validate_None_iff)
qed

lemma Apply_ok: "Apply s e = Inr s' \<Longrightarrow> state_ok s'"
  by (erule Apply_Inr)

lemma snap_Sequence_applyPayload:
  assumes "applyPayload s e = Inr n"
  shows "snap_Sequence n = snap_Sequence s" and "snap_Operations n = snap_Operations s"
    and "snap_FormatVersion n = snap_FormatVersion s"
proof -
  have m: "markDeleted s0 u v b = Some s1 \<Longrightarrow> snap_Sequence s1 = snap_Sequence s0
      \<and> snap_Operations s1 = snap_Operations s0 \<and> snap_FormatVersion s1 = snap_FormatVersion s0" for s0 s1 u v b
    by (auto simp: markDeleted_def)
  have a: "markAll s0 u vs b = Inr s1 \<Longrightarrow> snap_Sequence s1 = snap_Sequence s0
      \<and> snap_Operations s1 = snap_Operations s0 \<and> snap_FormatVersion s1 = snap_FormatVersion s0" for s0 s1 u vs b
    by (induction s0 u vs b rule: markAll.induct) (auto dest: m split: option.splits)
  have "snap_Sequence n = snap_Sequence s \<and> snap_Operations n = snap_Operations s
      \<and> snap_FormatVersion n = snap_FormatVersion s"
    using assms
    by (auto simp: applyPayload_def apply_registration_def Let_def dest: m a
        split: if_splits option.splits)
  then show "snap_Sequence n = snap_Sequence s" and "snap_Operations n = snap_Operations s"
    and "snap_FormatVersion n = snap_FormatVersion s" by simp_all
qed

lemma Apply_Sequence: "Apply s e = Inr s' \<Longrightarrow> snap_Sequence s' = snap_Sequence s + 1"
  by (erule Apply_Inr) simp

lemma Apply_Operations:
  "Apply s e = Inr s' \<Longrightarrow> snap_Operations s' =
     (if env_OperationID e = '''' then snap_Operations s
      else fmupd (env_OperationID e) (env_Result e) (snap_Operations s))"
  by (erule Apply_Inr) (simp add: snap_Sequence_applyPayload)

subsection \<open>Deletion marks\<close>

lemma mark_versions_distinct:
  assumes "distinct (map sv_Version vs)"
  shows "mark_versions version permanent vs =
    (if list_ex (\<lambda>i. sv_Version i = version \<and> \<not> sv_Permanent i) vs
     then Some (map (\<lambda>i. if sv_Version i = version
       then i\<lparr>sv_Deleted := True, sv_Permanent := permanent\<rparr> else i) vs)
     else None)"
  using assms
proof (induction vs)
  case (Cons item vs)
  have neq: "sv_Version i \<noteq> version" if "sv_Version item = version" "i \<in> set vs" for i
    using Cons.prems that by (metis distinct.simps(2) image_eqI list.simps(9) set_map)
  then have id: "map (\<lambda>i. if sv_Version i = version
       then i\<lparr>sv_Deleted := True, sv_Permanent := permanent\<rparr> else i) vs = vs" if "sv_Version item = version"
    using that by (intro map_idI) simp
  have "\<not> list_ex (\<lambda>i. sv_Version i = version \<and> \<not> sv_Permanent i) vs" if "sv_Version item = version"
    using neq that by (auto simp: list_ex_iff)
  with Cons id show ?case by auto
qed simp

text \<open>How a version may change: its deletion marks are only ever set.\<close>

definition sv_evolves :: "SubjectVersion \<Rightarrow> SubjectVersion \<Rightarrow> bool" where
  "sv_evolves a b \<longleftrightarrow>
     b = a\<lparr>sv_Deleted := sv_Deleted b, sv_Permanent := sv_Permanent b\<rparr>
     \<and> (sv_Deleted a \<longrightarrow> sv_Deleted b) \<and> (sv_Permanent a \<longrightarrow> sv_Permanent b)"

lemma sv_evolves_refl [simp]: "sv_evolves a a"
  by (simp add: sv_evolves_def)

lemma sv_evolves_trans: "sv_evolves a b \<Longrightarrow> sv_evolves b c \<Longrightarrow> sv_evolves a c"
  by (cases a; cases b; cases c) (auto simp: sv_evolves_def)

lemma sv_evolves_fields:
  "sv_evolves a b \<Longrightarrow> sv_Subject b = sv_Subject a \<and> sv_Version b = sv_Version a \<and> sv_SchemaID b = sv_SchemaID a
     \<and> sv_Timestamp b = sv_Timestamp a \<and> sv_Sequence b = sv_Sequence a"
  by (cases a; cases b) (auto simp: sv_evolves_def)

lemma mark_versions_evolves: "mark_versions v p vs = Some ws \<Longrightarrow> list_all2 sv_evolves vs ws"
proof (induction vs arbitrary: ws)
  case (Cons item vs)
  then show ?case
    by (auto simp: list_all2_refl sv_evolves_def split: if_splits)
qed simp

definition extends :: "SubjectVersion list \<Rightarrow> SubjectVersion list \<Rightarrow> bool" where
  "extends vs ws \<longleftrightarrow> length vs \<le> length ws \<and> list_all2 sv_evolves vs (take (length vs) ws)"

lemma extends_refl [simp]: "extends vs vs"
  by (simp add: extends_def list_all2_refl)

lemma extends_append [simp]: "extends vs (vs @ ws)"
  by (simp add: extends_def list_all2_refl)

lemma extends_mark: "mark_versions v p vs = Some ws \<Longrightarrow> extends vs ws"
  using mark_versions_evolves [of v p vs ws] list_all2_lengthD [of sv_evolves vs ws]
  by (simp add: extends_def)

lemma extends_trans: "extends us vs \<Longrightarrow> extends vs ws \<Longrightarrow> extends us ws"
  unfolding extends_def list_all2_conv_all_nth by (auto intro: sv_evolves_trans)

section \<open>History is append-only\<close>

text \<open>Between two states: versions are added at the end of their subject and keep everything but
  their deletion marks, a schema keeps its identity, and the next schema ID does not go down.\<close>

definition history_extends :: "State \<Rightarrow> State \<Rightarrow> bool" where
  "history_extends s s' \<longleftrightarrow>
     (\<forall>subject. extends (versions_of s subject) (versions_of s' subject))
     \<and> (\<forall>sid schema. fmlookup (snap_Schemas s) sid = Some schema \<longrightarrow>
          (\<exists>schema'. fmlookup (snap_Schemas s') sid = Some schema'
             \<and> sch_Identity schema' = sch_Identity schema))
     \<and> snap_NextSchemaID s \<le> snap_NextSchemaID s'"

lemma history_extends_refl [simp]: "history_extends s s"
  by (simp add: history_extends_def)

lemma history_extends_trans: "history_extends s t \<Longrightarrow> history_extends t u \<Longrightarrow> history_extends s u"
  unfolding history_extends_def by (metis extends_trans order_trans)

lemma markDeleted_history: "markDeleted s u v p = Some s' \<Longrightarrow> history_extends s s'"
proof -
  assume "markDeleted s u v p = Some s'"
  then obtain vs where vs: "mark_versions v p (versions_of s u) = Some vs"
    and s': "s' = s\<lparr>snap_Subjects := fmupd u vs (snap_Subjects s)\<rparr>"
    by (auto simp: markDeleted_def)
  have "extends (versions_of s subject) (versions_of s' subject)" for subject
    using extends_mark [OF vs] by (cases "subject = u") (simp_all add: s' versions_of_def)
  then show ?thesis by (simp add: history_extends_def s')
qed

lemma markAll_history: "markAll s u vs p = Inr s' \<Longrightarrow> history_extends s s'"
  by (induction s u vs p rule: markAll.induct)
    (auto dest: markDeleted_history intro: history_extends_trans split: option.splits)

lemma apply_registration_Inr:
  "apply_registration s p = Inr n \<longleftrightarrow>
     (\<forall>existing. fmlookup (snap_Schemas s) (sch_ID (rt_Schema p)) = Some existing \<longrightarrow>
        sch_Identity existing = sch_Identity (rt_Schema p))
     \<and> n = s\<lparr>snap_Schemas := fmupd (sch_ID (rt_Schema p)) (rt_Schema p) (snap_Schemas s),
         snap_IdentityToID := fmupd (sch_Identity (rt_Schema p)) (sch_ID (rt_Schema p)) (snap_IdentityToID s),
         snap_Subjects := fmupd (sv_Subject (rt_Version p))
           (versions_of s (sv_Subject (rt_Version p)) @ [rt_Version p]) (snap_Subjects s),
         snap_NextSchemaID := (if sch_ID (rt_Schema p) \<ge> snap_NextSchemaID s
           then sch_ID (rt_Schema p) + 1 else snap_NextSchemaID s)\<rparr>"
  by (auto simp: apply_registration_def Let_def split: option.splits)

lemma apply_registration_history:
  assumes "apply_registration s p = Inr n" and "1 \<le> snap_NextSchemaID s" and "1 \<le> snap_NextSchemaID n"
  shows "history_extends s n"
proof -
  have n: "n = s\<lparr>snap_Schemas := fmupd (sch_ID (rt_Schema p)) (rt_Schema p) (snap_Schemas s),
         snap_IdentityToID := fmupd (sch_Identity (rt_Schema p)) (sch_ID (rt_Schema p)) (snap_IdentityToID s),
         snap_Subjects := fmupd (sv_Subject (rt_Version p))
           (versions_of s (sv_Subject (rt_Version p)) @ [rt_Version p]) (snap_Subjects s),
         snap_NextSchemaID := (if sch_ID (rt_Schema p) \<ge> snap_NextSchemaID s
           then sch_ID (rt_Schema p) + 1 else snap_NextSchemaID s)\<rparr>"
    using assms(1) by (simp add: apply_registration_Inr)
  have "extends (versions_of s subject) (versions_of n subject)" for subject
    by (simp add: n versions_of_def)
  moreover have "snap_NextSchemaID s \<le> snap_NextSchemaID n"
  proof (cases "snap_NextSchemaID s \<le> sch_ID (rt_Schema p)")
    case True
    then have "0 \<le> sch_ID (rt_Schema p)" and "1 \<le> sch_ID (rt_Schema p) + 1"
      using assms(2,3) n by (auto simp: less_eq_int64_def)
    from int64_plus1_greater [OF this(2,1)] True show ?thesis by (simp add: n)
  qed (simp add: n)
  ultimately show ?thesis
    using assms(1) by (auto simp: history_extends_def apply_registration_Inr)
qed

lemma applyPayload_history:
  assumes "applyPayload s e = Inr n" and "1 \<le> snap_NextSchemaID s" and "1 \<le> snap_NextSchemaID n"
  shows "history_extends s n"
proof -
  have f: "history_extends s (s\<lparr>snap_SubjectCompatibility := a\<rparr>)" "history_extends s (s\<lparr>snap_GlobalCompatibility := b\<rparr>)"
    "history_extends s (s\<lparr>snap_SubjectModes := a\<rparr>)" "history_extends s (s\<lparr>snap_GlobalMode := b\<rparr>)" for a b
    by (simp_all add: history_extends_def versions_of_def)
  show ?thesis
    using assms
    by (auto simp: applyPayload_def Let_def f dest: markAll_history markDeleted_history
        apply_registration_history split: if_splits option.splits)
qed

lemma history_extends_irrelevant:
  "history_extends s (n\<lparr>snap_Sequence := q, snap_Operations := m\<rparr>) = history_extends s n"
  by (simp add: history_extends_def versions_of_def)

lemma Apply_history:
  assumes "Apply s e = Inr s'" and "state_ok s"
  shows "history_extends s s'"
proof -
  from assms(1) obtain n where n: "applyPayload s e = Inr n" "state_ok s'"
    "s' = n\<lparr>snap_Sequence := env_Sequence e,
       snap_Operations := (if env_OperationID e = '''' then snap_Operations n
         else fmupd (env_OperationID e) (env_Result e) (snap_Operations n))\<rparr>"
    by (rule Apply_Inr)
  moreover have "1 \<le> snap_NextSchemaID n"
    using state_okD(1) [OF n(2)] n(3) by simp
  ultimately show ?thesis
    using applyPayload_history [OF n(1) state_okD(1) [OF assms(2)]]
    by (simp only: history_extends_irrelevant)
qed

text \<open>Applying a sequence of transitions.\<close>

fun apply_all :: "State \<Rightarrow> Envelope list \<Rightarrow> go_error + State" where
  "apply_all s [] = Inr s"
| "apply_all s (e # es) = (case Apply s e of Inl err \<Rightarrow> Inl err | Inr s' \<Rightarrow> apply_all s' es)"

lemma apply_all_append:
  "apply_all s (xs @ ys) = (case apply_all s xs of Inl err \<Rightarrow> Inl err | Inr s' \<Rightarrow> apply_all s' ys)"
  by (induction xs arbitrary: s) (simp_all split: sum.split)

lemma apply_all_invariant:
  assumes "apply_all s es = Inr s'" and "P s" and "\<And>s e s'. Apply s e = Inr s' \<Longrightarrow> P s \<Longrightarrow> P s'"
  shows "P s'"
  using assms by (induction es arbitrary: s) (auto split: sum.splits)

lemma apply_all_ok: "apply_all s es = Inr s' \<Longrightarrow> state_ok s \<Longrightarrow> state_ok s'"
  by (erule apply_all_invariant [where P = state_ok]) (auto intro: Apply_ok)

lemma apply_all_history:
  assumes "apply_all s es = Inr s'" and "state_ok s"
  shows "history_extends s s'"
proof -
  have "state_ok s' \<and> history_extends s s'"
    using assms
    by (elim apply_all_invariant [where P = "\<lambda>x. state_ok x \<and> history_extends s x"])
      (auto intro: Apply_ok history_extends_trans Apply_history)
  then show ?thesis ..
qed

lemma apply_all_Sequence:
  "apply_all s es = Inr s' \<Longrightarrow> snap_Sequence s' = snap_Sequence s + of_nat (length es)"
  by (induction es arbitrary: s) (auto dest: Apply_Sequence split: sum.splits)

section \<open>Queries do not depend on the order of map iteration\<close>

abbreviation items :: "subject_entries \<Rightarrow> SubjectVersion list" where
  "items es \<equiv> concat (map snd es)"

abbreviation sv_key :: "SubjectVersion \<Rightarrow> string \<times> int64" where
  "sv_key i \<equiv> (sv_Subject i, sv_Version i)"

definition entries_ok :: "State \<Rightarrow> subject_entries \<Rightarrow> bool" where
  "entries_ok s es \<longleftrightarrow> distinct (map fst es) \<and> (\<forall>(subject, vs) \<in> set es. versions_ok s subject vs)"

lemma entries_ok_perm:
  assumes "state_ok s" and "mset es = mset (entries s)"
  shows "entries_ok s es"
proof -
  have "distinct (map fst es) = distinct (map fst (entries s))"
    using assms(2) by (metis mset_eq_imp_distinct_iff mset_map)
  moreover have "set es = set (entries s)"
    using assms(2) by (metis set_mset_mset)
  ultimately show ?thesis
    using assms(1) by (auto simp: entries_ok_def entries_def distinct_sorted_list_of_fmap
        set_sorted_list_of_fmap state_ok_def fmpred_iff)
qed

lemma distinct_items: "entries_ok s es \<Longrightarrow> distinct (map sv_key (items es))"
proof (induction es)
  case (Cons e es)
  obtain subject vs where e: "e = (subject, vs)" by (cases e)
  have vs: "distinct (map sv_Version vs)" "\<forall>i \<in> set vs. sv_Subject i = subject"
    using Cons.prems by (auto simp: entries_ok_def e versions_ok_def)
  have "distinct (map sv_key vs)"
    using vs by (auto simp: distinct_map inj_on_def)
  moreover have "sv_key i \<noteq> sv_key j" if "i \<in> set vs" "j \<in> set (items es)" for i j
  proof -
    from that(2) obtain t ws where t: "(t, ws) \<in> set es" "j \<in> set ws" by auto
    then have "sv_Subject j = t" and "t \<noteq> subject"
      using Cons.prems by (auto simp: entries_ok_def e versions_ok_def rev_image_eqI)
    with that(1) vs(2) show ?thesis by auto
  qed
  moreover have "distinct (map sv_key (items es))"
    using Cons by (simp add: entries_ok_def)
  ultimately show ?case by (auto simp: e)
qed simp

lemma mset_items: "mset es = mset fs \<Longrightarrow> mset (items es) = mset (items fs)"
proof -
  assume a: "mset es = mset fs"
  have "mset (items xs) = \<Sum>\<^sub># (image_mset (mset \<circ> snd) (mset xs))" for xs :: subject_entries
    by (induction xs) simp_all
  with a show ?thesis by simp
qed

lemma strict_order_on_key:
  assumes "inj_on sv_key A"
  shows "strict_order_on newer A" and "strict_order_on by_subject A"
  using assms unfolding strict_order_on_def newer_def by_subject_def inj_on_def
  by (auto split: if_splits) (metis linorder_neqE order.strict_trans)+

lemma sort_items_unique:
  assumes "entries_ok s es" and "lt = newer \<or> lt = by_subject"
    and "mset ys = mset (filter P (items es))" and "sorted_wrt lt ys"
  shows "sort_slice lt (filter P (items es)) = ys"
proof -
  have d: "distinct (map sv_key (filter P (items es)))"
    using distinct_items [OF assms(1)] by (simp add: distinct_map_filter)
  then have "inj_on sv_key (set (filter P (items es)))" and "distinct (filter P (items es))"
    by (simp_all only: distinct_map)
  then show ?thesis
    using assms(2-4) strict_order_on_key by (intro sort_slice_unique) auto
qed

lemma VersionsForID_items:
  "VersionsForID_over es sid = sort_slice newer (filter (\<lambda>i. sv_SchemaID i = sid \<and> active i) (items es))"
  by (simp add: VersionsForID_over_def filter_concat comp_def case_prod_unfold)

lemma ReferencedBy_items:
  assumes "entries_ok s es"
  shows "ReferencedBy_over es s subject version = sort_slice by_subject (filter (\<lambda>i. active i \<and>
    list_ex (\<lambda>r. ref_Subject r = subject \<and> ref_Version r = version) (references_of s i)) (items es))"
proof -
  have "map (\<lambda>i. i\<lparr>sv_Subject := owner\<rparr>) (filter P vs) = filter P vs" if "(owner, vs) \<in> set es" for owner vs P
    using assms that by (intro map_idI) (auto simp: entries_ok_def versions_ok_def)
  then show ?thesis
    by (auto simp: ReferencedBy_over_def filter_concat comp_def case_prod_unfold
        intro!: arg_cong [where f = "\<lambda>x. sort_slice by_subject (concat x)"])
qed

text \<open>\<open>VersionsForID\<close> and \<open>ReferencedBy\<close> return the same list whatever order the map of
  subjects is visited in and whichever sorting algorithm \<open>sort.Slice\<close> uses: in a validated
  state, every arrangement of the selected items that the code's comparison accepts as sorted is
  the one the model returns.\<close>

theorem queries_order_free:
  assumes "validate s = None" and "mset es = mset (entries s)"
    and "mset us = mset (filter (\<lambda>i. sv_SchemaID i = sid \<and> active i) (items es))" and "sorted_wrt newer us"
    and "mset ws = mset (filter (\<lambda>i. active i \<and> list_ex (\<lambda>r. ref_Subject r = subject \<and> ref_Version r = version)
           (references_of s i)) (items es))" and "sorted_wrt by_subject ws"
  shows "VersionsForID s sid = us \<and> ReferencedBy s subject version = ws"
proof (rule conjI)
  have ok: "entries_ok s (entries s)"
    using assms(1) by (intro entries_ok_perm) (simp_all add: validate_None_iff)
  have m: "mset (filter P (items es)) = mset (filter P (items (entries s)))" for P
    using mset_items [OF assms(2)] by simp
  show "VersionsForID s sid = us"
    using assms(3,4) m unfolding VersionsForID_def VersionsForID_items
    by (intro sort_items_unique [OF ok]) simp_all
  show "ReferencedBy s subject version = ws"
    using assms(5,6) m unfolding ReferencedBy_def ReferencedBy_items [OF ok]
    by (intro sort_items_unique [OF ok]) simp_all
qed

section \<open>The transitions that commands issue\<close>

definition coerce_registration :: "registrationTransition \<Rightarrow> registrationTransition" where
  "coerce_registration p =
     p\<lparr>rt_Schema := coerce_Schema (rt_Schema p), rt_Version := coerce_SubjectVersion (rt_Version p)\<rparr>"

lemma applyPayload_issued [simp]:
  "applyPayload s (newEnvelope q op TransitionSchemaRegistered (enc_registration p) r) =
     apply_registration s (coerce_registration p)"
  "applyPayload s (newEnvelope q op TransitionVersionDeleted (enc_deleteVersion dv) r) =
     markAll s (coerce_utf8 (dvt_Subject dv)) [dvt_Version dv] (dvt_Permanent dv)"
  "applyPayload s (newEnvelope q op TransitionSubjectDeleted (enc_deleteSubject ds) r) =
     markAll s (coerce_utf8 (dst_Subject ds)) (dst_Versions ds) (dst_Permanent ds)"
  "applyPayload s (newEnvelope q op TransitionCompatibilitySet (enc_compatibility ct) r) = Inr
     (if sc_Subject (ct_Scope ct) = '''' then s\<lparr>snap_GlobalCompatibility := coerce_utf8 (ct_Level ct)\<rparr>
      else s\<lparr>snap_SubjectCompatibility := fmupd (coerce_utf8 (sc_Subject (ct_Scope ct)))
        (coerce_utf8 (ct_Level ct)) (snap_SubjectCompatibility s)\<rparr>)"
  "applyPayload s (newEnvelope q op TransitionCompatibilityDel (enc_compatibility ct) r) = Inr
     (s\<lparr>snap_SubjectCompatibility := fmdrop (coerce_utf8 (sc_Subject (ct_Scope ct))) (snap_SubjectCompatibility s)\<rparr>)"
  "applyPayload s (newEnvelope q op TransitionModeSet (enc_mode mt) r) = Inr
     (if sc_Subject (mt_Scope mt) = '''' then s\<lparr>snap_GlobalMode := coerce_utf8 (mt_Mode mt)\<rparr>
      else s\<lparr>snap_SubjectModes := fmupd (coerce_utf8 (sc_Subject (mt_Scope mt)))
        (coerce_utf8 (mt_Mode mt)) (snap_SubjectModes s)\<rparr>)"
  "applyPayload s (newEnvelope q op TransitionModeDeleted (enc_mode mt) r) = Inr
     (s\<lparr>snap_SubjectModes := fmdrop (coerce_utf8 (sc_Subject (mt_Scope mt))) (snap_SubjectModes s)\<rparr>)"
  by (simp_all add: applyPayload_def unmarshal_payload_def coerce_registration_def split: option.split)

lemma Apply_issued:
  assumes "e = newEnvelope (snap_Sequence s + 1) op k p r" and "k \<noteq> ''''" and "snap_Sequence s + 1 \<noteq> 0"
    and "applyPayload s e = Inr n"
    and "s' = n\<lparr>snap_Sequence := snap_Sequence s + 1,
       snap_Operations := (if op = '''' then snap_Operations n else fmupd op r (snap_Operations n))\<rparr>"
    and "state_ok s'"
  shows "Apply s e = Inr s'"
proof -
  have "Validate e = None" using assms(1-3) by (simp add: Validate_newEnvelope)
  moreover have "validate s' = None" using assms(6) by (simp add: validate_None_iff)
  ultimately show ?thesis
    using assms(1,4,5) by (cases "op = ''''") (simp_all add: Apply_def Let_def split: option.split)
qed

lemma Apply_issuedD:
  assumes "Apply s (newEnvelope q op k p r) = Inr s'"
  obtains n where "applyPayload s (newEnvelope q op k p r) = Inr n" and "state_ok s'"
    and "q = snap_Sequence s + 1" and "q \<noteq> 0"
    and "s' = n\<lparr>snap_Sequence := q,
       snap_Operations := (if op = '''' then snap_Operations n else fmupd op r (snap_Operations n))\<rparr>"
  using assms
proof (rule Apply_Inr)
  fix n
  assume "Validate (newEnvelope q op k p r) = None"
    and "env_Sequence (newEnvelope q op k p r) = snap_Sequence s + 1"
    and "applyPayload s (newEnvelope q op k p r) = Inr n" and "state_ok s'"
    and "s' = n\<lparr>snap_Sequence := env_Sequence (newEnvelope q op k p r),
        snap_Operations := (if env_OperationID (newEnvelope q op k p r) = '''' then snap_Operations n
          else fmupd (env_OperationID (newEnvelope q op k p r)) (env_Result (newEnvelope q op k p r))
            (snap_Operations n))\<rparr>"
  then show thesis by (intro that [of n]) (simp_all only: newEnvelope_simps Validate_newEnvelope not_False_eq_True)
qed

section \<open>Lookups in a validated state\<close>

lemma find_unique:
  assumes "distinct (map f xs)" and "x \<in> set xs" and "P x"
  shows "find (\<lambda>y. f y = f x \<and> P y) xs = Some x"
  using assms by (induction xs) (auto simp: rev_image_eqI)

lemma find_SomeD: "find P xs = Some x \<Longrightarrow> x \<in> set xs \<and> P x"
  by (induction xs) (auto split: if_splits)

lemma Lookup_True:
  assumes "state_ok s"
  shows "Lookup s subject version b = (item, schema, True) \<longleftrightarrow>
    item \<in> set (versions_of s subject) \<and> sv_Version item = version \<and> visible b item
    \<and> fmlookup (snap_Schemas s) (sv_SchemaID item) = Some schema"
proof
  assume "Lookup s subject version b = (item, schema, True)"
  then show "item \<in> set (versions_of s subject) \<and> sv_Version item = version \<and> visible b item
    \<and> fmlookup (snap_Schemas s) (sv_SchemaID item) = Some schema"
    by (auto simp: Lookup_def split: option.splits dest: find_SomeD)
next
  assume a: "item \<in> set (versions_of s subject) \<and> sv_Version item = version \<and> visible b item
    \<and> fmlookup (snap_Schemas s) (sv_SchemaID item) = Some schema"
  then have "find (\<lambda>i. sv_Version i = sv_Version item \<and> visible b i) (versions_of s subject) = Some item"
    using state_ok_versions [OF assms, of subject] by (intro find_unique) (auto simp: versions_ok_def)
  with a show "Lookup s subject version b = (item, schema, True)"
    by (simp add: Lookup_def)
qed

text \<open>In a validated state \<open>Lookup\<close> finds the version whenever there is a visible one.\<close>

lemma Lookup_cases:
  assumes "state_ok s"
  obtains (found) item schema where "Lookup s subject version b = (item, schema, True)"
      and "item \<in> set (versions_of s subject)" and "sv_Version item = version" and "visible b item"
      and "fmlookup (snap_Schemas s) (sv_SchemaID item) = Some schema"
  | (missing) "Lookup s subject version b = (zero_SubjectVersion, zero_Schema, False)"
      and "\<forall>item \<in> set (versions_of s subject). sv_Version item = version \<longrightarrow> \<not> visible b item"
proof (cases "find (\<lambda>item. sv_Version item = version \<and> visible b item) (versions_of s subject)")
  case None
  with missing show thesis by (auto simp: Lookup_def find_None_iff)
next
  case (Some item)
  then have i: "item \<in> set (versions_of s subject)" "sv_Version item = version" "visible b item"
    by (auto dest: find_SomeD)
  with state_ok_versions [OF assms, of subject] obtain schema
    where "fmlookup (snap_Schemas s) (sv_SchemaID item) = Some schema"
    by (auto simp: versions_ok_def fmlookup_dom_iff)
  with i found [of item schema] show thesis by (simp add: Lookup_True [OF assms])
qed

lemma Lookup_include:
  "state_ok s \<Longrightarrow> Lookup s u v False = (item, schema, True) \<Longrightarrow> Lookup s u v True = (item, schema, True)"
  by (simp add: Lookup_True visible_def)

lemma set_Versions: "set (Versions s subject b) = sv_Version ` {i \<in> set (versions_of s subject). visible b i}"
  by (auto simp: Versions_def)

end
