(* ===== verification/Machine.thy ===== *)
theory Machine
  imports Registry_State
begin

text \<open>
  \<open>internal/domain/machine.go\<close>: the command processor. Every command runs under the
  machine's mutex, so a command is a function from the machine to its result and the machine it
  leaves. The committer and the compatibility callback are the functions the machine holds; what
  the committer writes to is the store, of a type left open.
\<close>

section \<open>The machine\<close>

type_synonym 'st committer = "ctx \<Rightarrow> Envelope \<Rightarrow> 'st \<Rightarrow> go_error option \<times> 'st"
type_synonym compatibility_check = "State \<Rightarrow> string \<Rightarrow> Schema \<Rightarrow> Schema list \<Rightarrow> bool \<times> string list"

record 'st Machine =
  m_state :: State
  m_commit :: "'st committer"
  m_check :: compatibility_check
  m_store :: 'st

definition NewMachine :: "State \<Rightarrow> 'st committer option \<Rightarrow> compatibility_check option \<Rightarrow> 'st \<Rightarrow> 'st Machine" where
  "NewMachine s committer check st =
     \<lparr>m_state = s,
      m_commit = (case committer of None \<Rightarrow> (\<lambda>ctx e x. (None, x)) | Some c \<Rightarrow> c),
      m_check = (case check of None \<Rightarrow> (\<lambda>s level candidate previous. (True, [])) | Some f \<Rightarrow> f),
      m_store = st\<rparr>"

definition ApplyCommitted :: "Envelope \<Rightarrow> 'st Machine \<Rightarrow> go_error option \<times> 'st Machine" where
  "ApplyCommitted e m =
     (if env_Sequence e \<le> snap_Sequence (m_state m) then (None, m)
      else case Apply (m_state m) e of
        Inl err \<Rightarrow> (Some err, m)
      | Inr s \<Rightarrow> (None, m\<lparr>m_state := s\<rparr>))"

definition commitApply :: "ctx \<Rightarrow> Envelope \<Rightarrow> Result \<Rightarrow> 'st Machine \<Rightarrow> (go_error + Result) \<times> 'st Machine" where
  "commitApply ctx e result m =
     (case Apply (m_state m) e of
        Inl err \<Rightarrow> (Inl err, m)
      | Inr s \<Rightarrow>
          (case m_commit m ctx e (m_store m) of
             (Some err, st) \<Rightarrow>
               (Inl (DomainErr ErrorStorage ''transition'' ''durable commit failed'' [] (Some err)),
                m\<lparr>m_store := st\<rparr>)
           | (None, st) \<Rightarrow> (Inr result, m\<lparr>m_store := st, m_state := s\<rparr>)))"

text \<open>The result an operation ID was given before, where the command carries one.\<close>

definition retried :: "State \<Rightarrow> string \<Rightarrow> Result option" where
  "retried s operationID = (if operationID = '''' then None else ResultFor s operationID)"

section \<open>Registration\<close>

definition validSchemaType :: "string \<Rightarrow> bool" where
  "validSchemaType t \<longleftrightarrow> t = SchemaTypeAvro \<or> t = SchemaTypeProtobuf \<or> t = SchemaTypeJSON"

definition nextVersion :: "SubjectVersion list \<Rightarrow> int64" where
  "nextVersion versions =
     foldl (\<lambda>maximum item. if sv_Version item > maximum then sv_Version item else maximum) 0 versions + 1"

fun lookup_schemas :: "State \<Rightarrow> string \<Rightarrow> int64 list \<Rightarrow> Schema list" where
  "lookup_schemas s subject [] = []"
| "lookup_schemas s subject (version # rest) =
     (case Lookup s subject version False of
        (_, schema, ok) \<Rightarrow> if ok then schema # lookup_schemas s subject rest
                           else lookup_schemas s subject rest)"

definition compatibilitySchemas :: "State \<Rightarrow> string \<Rightarrow> Schema list" where
  "compatibilitySchemas s subject =
     (let versions = Versions s subject False in
      if versions = [] then []
      else lookup_schemas s subject
        (if \<not> Transitive (EffectiveCompatibility s subject) then [last versions] else versions))"

fun check_references :: "State \<Rightarrow> Reference list \<Rightarrow> go_error option" where
  "check_references s [] = None"
| "check_references s (r # rest) =
     (if ref_Name r = '''' \<or> ref_Subject r = '''' \<or> ref_Version r < 1
      then Some (domainError ErrorInvalid ''reference'' ''name, subject, and positive version are required'' [])
      else case Lookup s (ref_Subject r) (ref_Version r) False of
        (_, _, ok) \<Rightarrow>
          if \<not> ok then Some (domainError ErrorNotFound ''reference'' ''%s/%d''
            [AStr (ref_Subject r), AInt (ref_Version r)])
          else check_references s rest)"

text \<open>The active version of the subject that already holds the identity.\<close>

definition existing_version :: "State \<Rightarrow> string \<Rightarrow> int64 \<Rightarrow> SubjectVersion option" where
  "existing_version s subject sid = find (\<lambda>item. sv_SchemaID item = sid \<and> active item) (versions_of s subject)"

text \<open>The schema ID a registration uses: the identity's own, the requested or the next one.\<close>

definition choose_id :: "State \<Rightarrow> RegisterCommand \<Rightarrow> go_error + int64" where
  "choose_id s c =
     (case fmlookup (snap_IdentityToID s) (rc_Identity c) of
        Some existingID \<Rightarrow>
          if rc_RequestedID c \<noteq> 0 \<and> rc_RequestedID c \<noteq> existingID
          then Inl (domainError ErrorConflict ''schema'' ''identity already uses ID %d'' [AInt existingID])
          else Inr (if existingID = 0 then snap_NextSchemaID s else existingID)
      | None \<Rightarrow> Inr (if rc_RequestedID c = 0 then snap_NextSchemaID s else rc_RequestedID c))"

definition candidate_schema :: "State \<Rightarrow> RegisterCommand \<Rightarrow> int64 \<Rightarrow> Schema" where
  "candidate_schema s c sid =
     (case fmlookup (snap_Schemas s) sid of
        Some existing \<Rightarrow> existing
      | None \<Rightarrow> \<lparr>sch_ID = sid, sch_GUID = FingerprintGUID (rc_Definition c) (rc_References c),
          sch_Identity = rc_Identity c, sch_Type = rc_Type c, sch_Definition = rc_Definition c,
          sch_References = rc_References c\<rparr>)"

definition plan_new :: "'st Machine \<Rightarrow> RegisterCommand \<Rightarrow> go_error + Envelope \<times> Result" where
  "plan_new m c =
     (let s = m_state m; subject = rc_Subject c; mode = EffectiveMode s subject in
      case choose_id s c of
        Inl err \<Rightarrow> Inl err
      | Inr sid \<Rightarrow>
        (if \<exists>existing \<in> set_option (fmlookup (snap_Schemas s) sid). sch_Identity existing \<noteq> rc_Identity c
         then Inl (domainError ErrorConflict ''schema'' ''ID %d already belongs to another identity'' [AInt sid])
         else
          (let version = (if rc_RequestedVersion c = 0 then nextVersion (versions_of s subject)
                          else rc_RequestedVersion c) in
           if list_ex (\<lambda>item. sv_Version item = version) (versions_of s subject)
           then Inl (domainError ErrorConflict subject ''version %d already exists'' [AInt version])
           else
            (let candidate = candidate_schema s c sid;
                 previous = compatibilitySchemas s subject;
                 level = EffectiveCompatibility s subject;
                 verdict = (if mode \<noteq> ModeImport \<and> level \<noteq> CompatibilityNone \<and> previous \<noteq> []
                            then m_check m s level candidate previous else (True, [])) in
             if \<not> fst verdict
             then Inl (domainError ErrorIncompatible subject ''%s'' [AStrs (snd verdict)])
             else
              (let result = \<lparr>res_SchemaID = sid, res_GUID = sch_GUID candidate, res_Version = version,
                     res_Versions = []\<rparr>;
                   payload = \<lparr>rt_Schema = candidate,
                     rt_Version = \<lparr>sv_Subject = subject, sv_Version = version, sv_SchemaID = sid,
                       sv_Timestamp = rc_Timestamp c, sv_Sequence = snap_Sequence s + 1,
                       sv_Deleted = False, sv_Permanent = False\<rparr>\<rparr>
               in Inr (newEnvelope (snap_Sequence s + 1) (rc_OperationID c) TransitionSchemaRegistered
                    (enc_registration payload) result, result))))))"

definition planRegister :: "'st Machine \<Rightarrow> RegisterCommand \<Rightarrow> go_error + Envelope \<times> Result" where
  "planRegister m c =
     (let s = m_state m; subject = rc_Subject c in
      if subject = '''' \<or> rc_Identity c = '''' \<or> rc_Definition c = '''' \<or> \<not> validSchemaType (rc_Type c)
      then Inl (domainError ErrorInvalid ''schema'' ''subject, identity, definition, and valid type are required'' [])
      else
        (let mode = EffectiveMode s subject in
         if mode = ModeReadOnly
         then Inl (domainError ErrorReadOnly subject ''schema registration is disabled'' [])
         else if (rc_RequestedID c \<noteq> 0 \<or> rc_RequestedVersion c \<noteq> 0) \<and> mode \<noteq> ModeImport
         then Inl (domainError ErrorConflict subject ''explicit ID/version requires IMPORT mode'' [])
         else case check_references s (rc_References c) of
           Some err \<Rightarrow> Inl err
         | None \<Rightarrow>
             (case Option.bind (fmlookup (snap_IdentityToID s) (rc_Identity c))
                (\<lambda>sid. map_option (Pair sid) (existing_version s subject sid)) of
                Some (existingID, item) \<Rightarrow>
                  Inr (zero_Envelope,
                    \<lparr>res_SchemaID = existingID,
                     res_GUID = sch_GUID (case fmlookup (snap_Schemas s) existingID of
                       None \<Rightarrow> zero_Schema | Some existing \<Rightarrow> existing),
                     res_Version = sv_Version item, res_Versions = []\<rparr>)
              | None \<Rightarrow> plan_new m c)))"

definition Register :: "ctx \<Rightarrow> RegisterCommand \<Rightarrow> 'st Machine \<Rightarrow> (go_error + Result) \<times> 'st Machine" where
  "Register ctx c m =
     (case retried (m_state m) (rc_OperationID c) of
        Some result \<Rightarrow> (Inr result, m)
      | None \<Rightarrow>
          (case planRegister m c of
             Inl err \<Rightarrow> (Inl err, m)
           | Inr (e, result) \<Rightarrow>
               if env_Kind e = '''' then (Inr result, m) else commitApply ctx e result m))"

section \<open>Deletion\<close>

definition DeleteVersion :: "ctx \<Rightarrow> DeleteVersionCommand \<Rightarrow> 'st Machine \<Rightarrow> (go_error + Result) \<times> 'st Machine" where
  "DeleteVersion ctx c m =
     (let s = m_state m in
      case retried s (dv_OperationID c) of
        Some result \<Rightarrow> (Inr result, m)
      | None \<Rightarrow>
        if EffectiveMode s (dv_Subject c) = ModeReadOnly
        then (Inl (domainError ErrorReadOnly (dv_Subject c) ''deletion is disabled'' []), m)
        else case Lookup s (dv_Subject c) (dv_Version c) (dv_Permanent c) of
          (item, _, ok) \<Rightarrow>
            if \<not> ok
            then (Inl (domainError ErrorNotFound ''version'' ''%s/%d'' [AStr (dv_Subject c), AInt (dv_Version c)]), m)
            else if dv_Permanent c \<and> \<not> sv_Deleted item
            then (Inl (domainError ErrorConflict ''version'' ''soft delete is required before permanent delete'' []), m)
            else if dv_Permanent c \<and> ReferencedBy s (dv_Subject c) (dv_Version c) \<noteq> []
            then (Inl (domainError ErrorConflict ''version'' ''active schemas reference this version'' []), m)
            else
              (let result = zero_Result\<lparr>res_Version := dv_Version c\<rparr> in
               commitApply ctx (newEnvelope (snap_Sequence s + 1) (dv_OperationID c) TransitionVersionDeleted
                 (enc_deleteVersion \<lparr>dvt_Subject = dv_Subject c, dvt_Version = dv_Version c,
                    dvt_Permanent = dv_Permanent c\<rparr>) result) result m))"

fun check_permanent :: "State \<Rightarrow> string \<Rightarrow> int64 list \<Rightarrow> go_error option" where
  "check_permanent s subject [] = None"
| "check_permanent s subject (version # rest) =
     (case Lookup s subject version True of
        (item, _, _) \<Rightarrow>
          if \<not> sv_Deleted item
          then Some (domainError ErrorConflict ''subject'' ''soft delete is required before permanent delete'' [])
          else if ReferencedBy s subject version \<noteq> []
          then Some (domainError ErrorConflict ''subject'' ''active schemas reference version %d'' [AInt version])
          else check_permanent s subject rest)"

definition DeleteSubject :: "ctx \<Rightarrow> DeleteSubjectCommand \<Rightarrow> 'st Machine \<Rightarrow> (go_error + Result) \<times> 'st Machine" where
  "DeleteSubject ctx c m =
     (let s = m_state m in
      case retried s (ds_OperationID c) of
        Some result \<Rightarrow> (Inr result, m)
      | None \<Rightarrow>
        if EffectiveMode s (ds_Subject c) = ModeReadOnly
        then (Inl (domainError ErrorReadOnly (ds_Subject c) ''deletion is disabled'' []), m)
        else
          (let versions = Versions s (ds_Subject c) (ds_Permanent c) in
           if versions = []
           then (Inl (domainError ErrorNotFound ''subject'' ''%s'' [AStr (ds_Subject c)]), m)
           else case (if ds_Permanent c then check_permanent s (ds_Subject c) versions else None) of
             Some err \<Rightarrow> (Inl err, m)
           | None \<Rightarrow>
               (let result = zero_Result\<lparr>res_Versions := versions\<rparr> in
                commitApply ctx (newEnvelope (snap_Sequence s + 1) (ds_OperationID c) TransitionSubjectDeleted
                  (enc_deleteSubject \<lparr>dst_Subject = ds_Subject c, dst_Versions = versions,
                     dst_Permanent = ds_Permanent c\<rparr>) result) result m)))"

section \<open>Configuration\<close>

definition simpleMutation :: "ctx \<Rightarrow> string \<Rightarrow> string \<Rightarrow> json \<Rightarrow> 'st Machine \<Rightarrow> go_error option \<times> 'st Machine" where
  "simpleMutation ctx operationID kind payload m =
     (case retried (m_state m) operationID of
        Some _ \<Rightarrow> (None, m)
      | None \<Rightarrow>
          (case commitApply ctx
             (newEnvelope (snap_Sequence (m_state m) + 1) operationID kind payload zero_Result) zero_Result m of
             (Inl err, m') \<Rightarrow> (Some err, m')
           | (Inr _, m') \<Rightarrow> (None, m')))"

definition SetCompatibility :: "ctx \<Rightarrow> string \<Rightarrow> Scope \<Rightarrow> string \<Rightarrow> 'st Machine \<Rightarrow> go_error option \<times> 'st Machine" where
  "SetCompatibility ctx operationID scope level m =
     (if \<not> CompatibilityLevel_Valid level
      then (Some (domainError ErrorInvalid ''compatibility'' ''unsupported level %q'' [AStr level]), m)
      else simpleMutation ctx operationID TransitionCompatibilitySet
        (enc_compatibility \<lparr>ct_Scope = scope, ct_Level = level\<rparr>) m)"

definition DeleteCompatibility :: "ctx \<Rightarrow> string \<Rightarrow> string \<Rightarrow> 'st Machine \<Rightarrow> go_error option \<times> 'st Machine" where
  "DeleteCompatibility ctx operationID subject m =
     (if subject = ''''
      then (Some (domainError ErrorInvalid ''compatibility'' ''global compatibility cannot be deleted'' []), m)
      else simpleMutation ctx operationID TransitionCompatibilityDel
        (enc_compatibility \<lparr>ct_Scope = \<lparr>sc_Subject = subject\<rparr>, ct_Level = ''''\<rparr>) m)"

definition SetMode :: "ctx \<Rightarrow> string \<Rightarrow> Scope \<Rightarrow> string \<Rightarrow> 'st Machine \<Rightarrow> go_error option \<times> 'st Machine" where
  "SetMode ctx operationID scope mode m =
     (if \<not> Mode_Valid mode
      then (Some (domainError ErrorInvalid ''mode'' ''unsupported mode %q'' [AStr mode]), m)
      else simpleMutation ctx operationID TransitionModeSet
        (enc_mode \<lparr>mt_Scope = scope, mt_Mode = mode\<rparr>) m)"

definition DeleteMode :: "ctx \<Rightarrow> string \<Rightarrow> string \<Rightarrow> 'st Machine \<Rightarrow> go_error option \<times> 'st Machine" where
  "DeleteMode ctx operationID subject m =
     (if subject = ''''
      then (Some (domainError ErrorInvalid ''mode'' ''global mode cannot be deleted'' []), m)
      else simpleMutation ctx operationID TransitionModeDeleted
        (enc_mode \<lparr>mt_Scope = \<lparr>sc_Subject = subject\<rparr>, mt_Mode = ''''\<rparr>) m)"

section \<open>Commands as steps\<close>

datatype command =
    CRegister RegisterCommand
  | CDeleteVersion DeleteVersionCommand
  | CDeleteSubject DeleteSubjectCommand
  | CSetCompatibility string Scope string
  | CDeleteCompatibility string string
  | CSetMode string Scope string
  | CDeleteMode string string

text \<open>The error or result of a command; configuration commands return an error or nothing, which
  is the zero result here.\<close>

definition of_error :: "go_error option \<times> 'st Machine \<Rightarrow> (go_error + Result) \<times> 'st Machine" where
  "of_error x = ((case fst x of None \<Rightarrow> Inr zero_Result | Some e \<Rightarrow> Inl e), snd x)"

fun exec :: "ctx \<Rightarrow> command \<Rightarrow> 'st Machine \<Rightarrow> (go_error + Result) \<times> 'st Machine" where
  "exec ctx (CRegister c) m = Register ctx c m"
| "exec ctx (CDeleteVersion c) m = DeleteVersion ctx c m"
| "exec ctx (CDeleteSubject c) m = DeleteSubject ctx c m"
| "exec ctx (CSetCompatibility op scope level) m = of_error (SetCompatibility ctx op scope level m)"
| "exec ctx (CDeleteCompatibility op subject) m = of_error (DeleteCompatibility ctx op subject m)"
| "exec ctx (CSetMode op scope mode) m = of_error (SetMode ctx op scope mode m)"
| "exec ctx (CDeleteMode op subject) m = of_error (DeleteMode ctx op subject m)"

fun operation_of :: "command \<Rightarrow> string" where
  "operation_of (CRegister c) = rc_OperationID c"
| "operation_of (CDeleteVersion c) = dv_OperationID c"
| "operation_of (CDeleteSubject c) = ds_OperationID c"
| "operation_of (CSetCompatibility op scope level) = op"
| "operation_of (CDeleteCompatibility op subject) = op"
| "operation_of (CSetMode op scope mode) = op"
| "operation_of (CDeleteMode op subject) = op"

text \<open>The envelopes a command may commit in a state, with what the command has checked.\<close>

definition planned_version :: "State \<Rightarrow> RegisterCommand \<Rightarrow> int64" where
  "planned_version s c =
     (if rc_RequestedVersion c = 0 then nextVersion (versions_of s (rc_Subject c)) else rc_RequestedVersion c)"

definition planned_registration :: "State \<Rightarrow> RegisterCommand \<Rightarrow> int64 \<Rightarrow> registrationTransition" where
  "planned_registration s c sid =
     \<lparr>rt_Schema = candidate_schema s c sid,
      rt_Version = \<lparr>sv_Subject = rc_Subject c, sv_Version = planned_version s c, sv_SchemaID = sid,
        sv_Timestamp = rc_Timestamp c, sv_Sequence = snap_Sequence s + 1,
        sv_Deleted = False, sv_Permanent = False\<rparr>\<rparr>"

definition planned_result :: "State \<Rightarrow> RegisterCommand \<Rightarrow> int64 \<Rightarrow> Result" where
  "planned_result s c sid =
     \<lparr>res_SchemaID = sid, res_GUID = sch_GUID (candidate_schema s c sid),
      res_Version = planned_version s c, res_Versions = []\<rparr>"

definition may_register :: "State \<Rightarrow> RegisterCommand \<Rightarrow> bool" where
  "may_register s c \<longleftrightarrow>
     rc_Subject c \<noteq> '''' \<and> rc_Identity c \<noteq> '''' \<and> rc_Definition c \<noteq> '''' \<and> validSchemaType (rc_Type c)
     \<and> EffectiveMode s (rc_Subject c) \<noteq> ModeReadOnly
     \<and> (rc_RequestedID c = 0 \<and> rc_RequestedVersion c = 0 \<or> EffectiveMode s (rc_Subject c) = ModeImport)
     \<and> check_references s (rc_References c) = None"

inductive issued :: "State \<Rightarrow> command \<Rightarrow> Envelope \<Rightarrow> Result \<Rightarrow> bool" for s :: State where
  register:
    "may_register s c \<Longrightarrow>
     (\<forall>sid. fmlookup (snap_IdentityToID s) (rc_Identity c) = Some sid \<longrightarrow>
        existing_version s (rc_Subject c) sid = None) \<Longrightarrow>
     choose_id s c = Inr sid \<Longrightarrow>
     (\<forall>existing. fmlookup (snap_Schemas s) sid = Some existing \<longrightarrow> sch_Identity existing = rc_Identity c) \<Longrightarrow>
     planned_version s c \<notin> sv_Version ` set (versions_of s (rc_Subject c)) \<Longrightarrow>
     issued s (CRegister c)
       (newEnvelope (snap_Sequence s + 1) (rc_OperationID c) TransitionSchemaRegistered
          (enc_registration (planned_registration s c sid)) (planned_result s c sid))
       (planned_result s c sid)"
| delete_version:
    "EffectiveMode s (dv_Subject c) \<noteq> ModeReadOnly \<Longrightarrow>
     Lookup s (dv_Subject c) (dv_Version c) (dv_Permanent c) = (item, schema, True) \<Longrightarrow>
     (dv_Permanent c \<longrightarrow> sv_Deleted item \<and> ReferencedBy s (dv_Subject c) (dv_Version c) = []) \<Longrightarrow>
     r = zero_Result\<lparr>res_Version := dv_Version c\<rparr> \<Longrightarrow>
     issued s (CDeleteVersion c)
       (newEnvelope (snap_Sequence s + 1) (dv_OperationID c) TransitionVersionDeleted
          (enc_deleteVersion \<lparr>dvt_Subject = dv_Subject c, dvt_Version = dv_Version c, dvt_Permanent = dv_Permanent c\<rparr>) r)
       r"
| delete_subject:
    "EffectiveMode s (ds_Subject c) \<noteq> ModeReadOnly \<Longrightarrow>
     Versions s (ds_Subject c) (ds_Permanent c) \<noteq> [] \<Longrightarrow>
     (ds_Permanent c \<longrightarrow> check_permanent s (ds_Subject c) (Versions s (ds_Subject c) True) = None) \<Longrightarrow>
     r = zero_Result\<lparr>res_Versions := Versions s (ds_Subject c) (ds_Permanent c)\<rparr> \<Longrightarrow>
     issued s (CDeleteSubject c)
       (newEnvelope (snap_Sequence s + 1) (ds_OperationID c) TransitionSubjectDeleted
          (enc_deleteSubject \<lparr>dst_Subject = ds_Subject c, dst_Versions = Versions s (ds_Subject c) (ds_Permanent c),
             dst_Permanent = ds_Permanent c\<rparr>) r)
       r"
| set_compatibility:
    "CompatibilityLevel_Valid level \<Longrightarrow>
     issued s (CSetCompatibility op scope level)
       (newEnvelope (snap_Sequence s + 1) op TransitionCompatibilitySet
          (enc_compatibility \<lparr>ct_Scope = scope, ct_Level = level\<rparr>) zero_Result) zero_Result"
| delete_compatibility:
    "subject \<noteq> '''' \<Longrightarrow>
     issued s (CDeleteCompatibility op subject)
       (newEnvelope (snap_Sequence s + 1) op TransitionCompatibilityDel
          (enc_compatibility \<lparr>ct_Scope = \<lparr>sc_Subject = subject\<rparr>, ct_Level = ''''\<rparr>) zero_Result) zero_Result"
| set_mode:
    "Mode_Valid mode \<Longrightarrow>
     issued s (CSetMode op scope mode)
       (newEnvelope (snap_Sequence s + 1) op TransitionModeSet
          (enc_mode \<lparr>mt_Scope = scope, mt_Mode = mode\<rparr>) zero_Result) zero_Result"
| delete_mode:
    "subject \<noteq> '''' \<Longrightarrow>
     issued s (CDeleteMode op subject)
       (newEnvelope (snap_Sequence s + 1) op TransitionModeDeleted
          (enc_mode \<lparr>mt_Scope = \<lparr>sc_Subject = subject\<rparr>, mt_Mode = ''''\<rparr>) zero_Result) zero_Result"

inductive_cases issued_register: "issued s (CRegister c) e r"
inductive_cases issued_delete_version: "issued s (CDeleteVersion c) e r"
inductive_cases issued_delete_subject: "issued s (CDeleteSubject c) e r"

lemma issued_facts:
  assumes "issued s c e r"
  shows "env_Sequence e = snap_Sequence s + 1" and "env_OperationID e = operation_of c"
    and "payload_ok e" and "env_Kind e \<noteq> ''''" and "valid_utf8 (env_Kind e)" and "env_Result e = r"
    and "env_Checksum e = checksum e"
  using assms by (cases rule: issued.cases; simp add: payload_ok_def)+

lemma plan_new_Inr:
  assumes "plan_new m c = Inr (e, r)"
  obtains sid where "choose_id (m_state m) c = Inr sid"
    and "\<forall>existing. fmlookup (snap_Schemas (m_state m)) sid = Some existing \<longrightarrow> sch_Identity existing = rc_Identity c"
    and "planned_version (m_state m) c \<notin> sv_Version ` set (versions_of (m_state m) (rc_Subject c))"
    and "r = planned_result (m_state m) c sid"
    and "e = newEnvelope (snap_Sequence (m_state m) + 1) (rc_OperationID c) TransitionSchemaRegistered
          (enc_registration (planned_registration (m_state m) c sid)) r"
proof -
  from assms obtain sid where sid: "choose_id (m_state m) c = Inr sid"
    by (cases "choose_id (m_state m) c") (auto simp: plan_new_def Let_def)
  show thesis
    using assms sid
    by (intro that [OF sid])
      (auto simp: plan_new_def Let_def planned_version_def planned_result_def planned_registration_def
        list_ex_iff split: if_splits)
qed

lemma planRegister_cases:
  assumes "planRegister m c = Inr (e, r)"
  obtains (known) sid item where "e = zero_Envelope" and "may_register (m_state m) c"
    and "fmlookup (snap_IdentityToID (m_state m)) (rc_Identity c) = Some sid"
    and "existing_version (m_state m) (rc_Subject c) sid = Some item"
    and "res_SchemaID r = sid" and "res_Version r = sv_Version item"
  | (new) "issued (m_state m) (CRegister c) e r"
proof (cases "Option.bind (fmlookup (snap_IdentityToID (m_state m)) (rc_Identity c))
      (\<lambda>sid. map_option (Pair sid) (existing_version (m_state m) (rc_Subject c) sid))")
  case None
  have may: "may_register (m_state m) c" and plan: "plan_new m c = Inr (e, r)"
    using assms None
    by (auto simp: planRegister_def may_register_def Let_def simp del: bind_eq_None_conv
        split: if_splits option.splits)
  have "\<forall>sid. fmlookup (snap_IdentityToID (m_state m)) (rc_Identity c) = Some sid \<longrightarrow>
        existing_version (m_state m) (rc_Subject c) sid = None"
    using None by (auto simp: bind_eq_None_conv)
  with plan may show thesis
    by (elim plan_new_Inr) (auto intro!: new issued.register)
next
  case (Some x)
  then obtain sid item where x: "x = (sid, item)"
    "fmlookup (snap_IdentityToID (m_state m)) (rc_Identity c) = Some sid"
    "existing_version (m_state m) (rc_Subject c) sid = Some item"
    by (auto simp: bind_eq_Some_conv)
  have "may_register (m_state m) c"
    using assms by (auto simp: planRegister_def may_register_def Let_def split: if_splits option.splits)
  with assms Some x show thesis
    by (intro known) (auto simp: planRegister_def Let_def split: if_splits option.splits)
qed

lemma simpleMutation_commit:
  assumes "retried (m_state m) op = None"
  shows "of_error (simpleMutation ctx op k p m) =
    commitApply ctx (newEnvelope (snap_Sequence (m_state m) + 1) op k p zero_Result) zero_Result m"
  using assms
  by (auto simp: simpleMutation_def of_error_def commitApply_def split: sum.split option.split prod.split)

lemma of_error_simps:
  "of_error (Some err, m) = (Inl err, m)" "of_error (None, m) = (Inr zero_Result, m)"
  by (simp_all add: of_error_def)

lemma retried_zero [simp]: "retried s '''' = None"
  by (simp add: retried_def)

lemmas command_defs = Register_def DeleteVersion_def DeleteSubject_def SetCompatibility_def
  DeleteCompatibility_def SetMode_def DeleteMode_def simpleMutation_def of_error_simps

text \<open>The categories of a refusal.\<close>

definition refusal :: "go_error \<Rightarrow> bool" where
  "refusal err \<longleftrightarrow> CategoryOf err \<in> {ErrorInvalid, ErrorNotFound, ErrorConflict, ErrorIncompatible, ErrorReadOnly}"

lemma refusal_domainError [simp]:
  "refusal (domainError k x f as) \<longleftrightarrow>
     k \<in> {ErrorInvalid, ErrorNotFound, ErrorConflict, ErrorIncompatible, ErrorReadOnly}"
  by (simp add: refusal_def)

lemma exec_retried:
  "retried (m_state m) (operation_of c) = Some r \<Longrightarrow>
     (\<exists>err. exec ctx c m = (Inl err, m) \<and> refusal err)
     \<or> exec ctx c m = (Inr r, m) \<or> exec ctx c m = (Inr zero_Result, m)"
  by (cases c) (simp_all add: command_defs)

lemma check_references_refusal: "check_references s refs = Some err \<Longrightarrow> refusal err"
  by (induction refs) (auto split: if_splits prod.splits)

lemma check_permanent_refusal: "check_permanent s u vs = Some err \<Longrightarrow> refusal err"
  by (induction vs) (auto split: if_splits prod.splits)

lemma plan_new_refusal: "plan_new m c = Inl err \<Longrightarrow> refusal err"
  by (auto simp: plan_new_def choose_id_def Let_def split: sum.splits if_splits option.splits)

lemma planRegister_refusal: "planRegister m c = Inl err \<Longrightarrow> refusal err"
  by (auto simp: planRegister_def Let_def dest: check_references_refusal plan_new_refusal
      split: if_splits option.splits)

lemma DeleteVersion_fresh:
  assumes "retried (m_state m) (dv_OperationID c) = None"
  obtains (refused) err where "DeleteVersion ctx c m = (Inl err, m)" and "refusal err"
  | (commit) e r where "issued (m_state m) (CDeleteVersion c) e r" and "DeleteVersion ctx c m = commitApply ctx e r m"
proof -
  obtain item schema ok where l: "Lookup (m_state m) (dv_Subject c) (dv_Version c) (dv_Permanent c) = (item, schema, ok)"
    by (metis prod_cases3)
  show thesis
  proof (cases "EffectiveMode (m_state m) (dv_Subject c) \<noteq> ModeReadOnly \<and> ok
      \<and> (dv_Permanent c \<longrightarrow> sv_Deleted item \<and> ReferencedBy (m_state m) (dv_Subject c) (dv_Version c) = [])")
    case True
    with assms l show thesis
      by (intro commit) (auto simp: DeleteVersion_def Let_def intro!: issued.delete_version)
  next
    case False
    with assms l have "\<exists>err. DeleteVersion ctx c m = (Inl err, m) \<and> refusal err"
      by (auto simp: DeleteVersion_def Let_def)
    with refused show thesis by blast
  qed
qed

lemma DeleteSubject_fresh:
  assumes "retried (m_state m) (ds_OperationID c) = None"
  obtains (refused) err where "DeleteSubject ctx c m = (Inl err, m)" and "refusal err"
  | (commit) e r where "issued (m_state m) (CDeleteSubject c) e r" and "DeleteSubject ctx c m = commitApply ctx e r m"
proof (cases "EffectiveMode (m_state m) (ds_Subject c) \<noteq> ModeReadOnly
    \<and> Versions (m_state m) (ds_Subject c) (ds_Permanent c) \<noteq> []
    \<and> (ds_Permanent c \<longrightarrow>
         check_permanent (m_state m) (ds_Subject c) (Versions (m_state m) (ds_Subject c) (ds_Permanent c)) = None)")
  case True
  with assms show thesis
    by (intro commit) (auto simp: DeleteSubject_def Let_def intro!: issued.delete_subject)
next
  case False
  with assms have "\<exists>err. DeleteSubject ctx c m = (Inl err, m) \<and> refusal err"
    by (auto simp: DeleteSubject_def Let_def dest: check_permanent_refusal split: option.split)
  with refused show thesis by blast
qed

lemma Register_fresh:
  assumes "retried (m_state m) (rc_OperationID c) = None"
  obtains (refused) err where "Register ctx c m = (Inl err, m)" and "refusal err"
  | (known) r where "planRegister m c = Inr (zero_Envelope, r)" and "Register ctx c m = (Inr r, m)"
  | (commit) e r where "issued (m_state m) (CRegister c) e r" and "Register ctx c m = commitApply ctx e r m"
proof (cases "planRegister m c")
  case (Inl err)
  with assms show thesis by (intro refused) (auto simp: Register_def intro: planRegister_refusal)
next
  case (Inr x)
  obtain e r where x: "x = (e, r)" by (cases x)
  from Inr x have "planRegister m c = Inr (e, r)" by simp
  then show thesis
  proof (cases rule: planRegister_cases)
    case (known sid item)
    with Inr x assms show thesis by (intro that(2)) (auto simp: Register_def zero_Envelope_def)
  next
    case new
    then have "env_Kind e \<noteq> ''''" by (rule issued_facts)
    with new Inr x assms show thesis by (intro commit) (auto simp: Register_def)
  qed
qed

text \<open>A command returns an earlier result, refuses, finds the schema registered, or commits one
  envelope it has issued; in the first three cases the machine stays as it is.\<close>

lemma exec_cases:
  obtains (retry) r r' where "retried (m_state m) (operation_of c) = Some r" and "exec ctx c m = (Inr r', m)"
      and "r' = r \<or> r' = zero_Result"
  | (refused) err where "exec ctx c m = (Inl err, m)" and "refusal err"
  | (known) c' r where "c = CRegister c'" and "planRegister m c' = Inr (zero_Envelope, r)"
      and "exec ctx c m = (Inr r, m)"
  | (commit) e r where "issued (m_state m) c e r" and "exec ctx c m = commitApply ctx e r m"
      and "retried (m_state m) (operation_of c) = None"
proof (cases "retried (m_state m) (operation_of c)")
  case (Some r)
  from exec_retried [OF Some, of ctx] retry [OF Some] refused show thesis by blast
next
  case None
  show thesis
  proof (cases c)
    case (CRegister c')
    with None have "retried (m_state m) (rc_OperationID c') = None" by simp
    then show thesis by (cases rule: Register_fresh [of m c' ctx]) (use CRegister None that in auto)
  next
    case (CDeleteVersion c')
    with None have "retried (m_state m) (dv_OperationID c') = None" by simp
    then show thesis by (cases rule: DeleteVersion_fresh [of m c' ctx]) (use CDeleteVersion None that in auto)
  next
    case (CDeleteSubject c')
    with None have "retried (m_state m) (ds_OperationID c') = None" by simp
    then show thesis by (cases rule: DeleteSubject_fresh [of m c' ctx]) (use CDeleteSubject None that in auto)
  next
    case (CSetCompatibility op scope level)
    with None show thesis
      by (cases "CompatibilityLevel_Valid level")
        (auto simp: SetCompatibility_def simpleMutation_commit of_error_simps intro: refused commit issued.set_compatibility)
  next
    case (CDeleteCompatibility op subject)
    with None show thesis
      by (cases "subject = ''''")
        (auto simp: DeleteCompatibility_def simpleMutation_commit of_error_simps intro: refused commit issued.delete_compatibility)
  next
    case (CSetMode op scope mode)
    with None show thesis
      by (cases "Mode_Valid mode")
        (auto simp: SetMode_def simpleMutation_commit of_error_simps intro: refused commit issued.set_mode)
  next
    case (CDeleteMode op subject)
    with None show thesis
      by (cases "subject = ''''")
        (auto simp: DeleteMode_def simpleMutation_commit of_error_simps intro: refused commit issued.delete_mode)
  qed
qed

section \<open>What a commit does to the machine\<close>

lemma commitApply_cases:
  obtains (invalid) err where "Apply (m_state m) e = Inl err" and "commitApply ctx e r m = (Inl err, m)"
  | (failed) s err st where "Apply (m_state m) e = Inr s" and "m_commit m ctx e (m_store m) = (Some err, st)"
      and "commitApply ctx e r m =
        (Inl (DomainErr ErrorStorage ''transition'' ''durable commit failed'' [] (Some err)), m\<lparr>m_store := st\<rparr>)"
  | (committed) s st where "Apply (m_state m) e = Inr s" and "m_commit m ctx e (m_store m) = (None, st)"
      and "commitApply ctx e r m = (Inr r, m\<lparr>m_store := st, m_state := s\<rparr>)"
proof (cases "Apply (m_state m) e")
  case (Inl err)
  with invalid show thesis by (simp add: commitApply_def)
next
  case (Inr s)
  obtain out st where c: "m_commit m ctx e (m_store m) = (out, st)" by fastforce
  show thesis
    using Inr c failed committed by (cases out) (simp_all add: commitApply_def)
qed

text \<open>Either a command leaves the published state alone, or it moved it by one transition it had
  issued and committed.\<close>

lemma exec_state_cases:
  assumes "exec ctx c m = (out, m')"
  obtains (same) "m_state m' = m_state m" and "m_commit m' = m_commit m" and "m_check m' = m_check m"
  | (moved) e r st where "issued (m_state m) c e r" and "Apply (m_state m) e = Inr (m_state m')"
      and "m_commit m ctx e (m_store m) = (None, st)" and "out = Inr r"
      and "m' = m\<lparr>m_store := st, m_state := m_state m'\<rparr>"
      and "retried (m_state m) (operation_of c) = None"
proof (cases rule: exec_cases [of m c ctx])
  case (commit e r)
  show thesis
  proof (cases rule: commitApply_cases [of m e ctx r])
    case (committed s st)
    with commit assms show thesis by (intro moved [of e r st]) auto
  qed (use commit assms same in auto)
qed (use assms same in auto)

text \<open>A command that returns an error leaves the published state exactly as it was, whatever
  the store did with the transition it was handed.\<close>

theorem exec_error_keeps_state:
  assumes "exec ctx c m = (Inl err, m')"
  shows "m_state m' = m_state m"
  using assms by (cases rule: exec_state_cases) auto

text \<open>A command that moved the state has recorded its result under its operation ID, and a
  command whose ID is recorded changes nothing.\<close>

lemma moved_operation_known:
  assumes "exec ctx c m = (out, m')" and "m_state m' \<noteq> m_state m" and "operation_of c \<noteq> ''''"
  obtains r where "out = Inr r" and "ResultFor (m_state m') (operation_of c) = Some r"
  using assms(1)
proof (cases rule: exec_state_cases)
  case (moved e r st)
  then show thesis
    using that issued_facts [OF moved(1)] assms(3) by (simp add: ResultFor_def Apply_Operations [OF moved(2)])
qed (use assms(2) in auto)

lemma known_operation_keeps:
  "operation_of c \<noteq> '''' \<Longrightarrow> ResultFor (m_state m) (operation_of c) = Some r \<Longrightarrow> snd (exec ctx c m) = m"
  by (cases rule: exec_cases [of m c ctx]) (auto simp: retried_def)

text \<open>C7: A retried command is idempotent: once a command with a non-empty operation ID has
  succeeded, repeating any command under the same ID commits nothing, changes nothing, and a
  registration or deletion repeats the recorded result.\<close>

theorem operation_retry_idempotent:
  assumes "exec ctx c m = (Inr r, m')" and "m_state m' \<noteq> m_state m" and "operation_of c \<noteq> ''''"
  shows "ResultFor (m_state m') (operation_of c) = Some r
    \<and> exec ctx' c m' = (Inr r, m')
    \<and> (operation_of c' = operation_of c \<longrightarrow> snd (exec ctx' c' m') = m')"
proof (intro conjI impI)
  from assms(1) obtain e where i: "issued (m_state m) c e r" and a: "Apply (m_state m) e = Inr (m_state m')"
    by (cases rule: exec_state_cases) (use assms(2) in auto)
  have op: "env_OperationID e = operation_of c" and res: "env_Result e = r"
    using issued_facts [OF i] by simp_all
  show known: "ResultFor (m_state m') (operation_of c) = Some r"
    using assms(3) op res by (simp add: ResultFor_def Apply_Operations [OF a])
  then have retried: "retried (m_state m') (operation_of c) = Some r"
    using assms(3) by (simp add: retried_def)
  show "snd (exec ctx' c' m') = m'" if "operation_of c' = operation_of c"
    using known_operation_keeps [of c' m'] assms(3) known that by simp
  show "exec ctx' c m' = (Inr r, m')"
    using i retried
    by (cases rule: issued.cases) (simp_all add: command_defs)
qed

end
