(* ===== verification/Machine_Invariants.thy ===== *)
theory Machine_Invariants
  imports Machine
begin

text \<open>
  What the command processor maintains beyond the checks of \<open>validate\<close>: schema IDs and
  identities correspond one to one, the next ID is above every ID in use, every version carries
  the sequence of its own registration, and all stored strings are UTF-8.
\<close>

section \<open>The registry invariant\<close>

definition ids_ok :: "State \<Rightarrow> bool" where
  "ids_ok s \<longleftrightarrow> fmpred (\<lambda>sid schema. sch_ID schema = sid \<and> sid \<noteq> 0 \<and> sid < snap_NextSchemaID s
     \<and> fmlookup (snap_IdentityToID s) (sch_Identity schema) = Some sid) (snap_Schemas s)"

definition sequences_ok :: "State \<Rightarrow> bool" where
  "sequences_ok s \<longleftrightarrow>
     (\<forall>subject. \<forall>i \<in> set (versions_of s subject). sv_Sequence i \<le> snap_Sequence s)
     \<and> (\<forall>subject subject'. \<forall>i \<in> set (versions_of s subject). \<forall>j \<in> set (versions_of s subject').
          sv_Sequence i = sv_Sequence j \<longrightarrow> subject = subject' \<and> sv_Version i = sv_Version j)"

definition snapshot_utf8 :: "Snapshot \<Rightarrow> bool" where
  "snapshot_utf8 s \<longleftrightarrow>
     fmpred (\<lambda>_ schema. coerce_Schema schema = schema) (snap_Schemas s)
     \<and> fmpred (\<lambda>identity _. valid_utf8 identity) (snap_IdentityToID s)
     \<and> fmpred (\<lambda>subject vs. valid_utf8 subject \<and> (\<forall>v \<in> set vs. valid_utf8 (sv_Subject v))) (snap_Subjects s)
     \<and> valid_utf8 (snap_GlobalCompatibility s)
     \<and> fmpred (\<lambda>subject level. valid_utf8 subject \<and> valid_utf8 level) (snap_SubjectCompatibility s)
     \<and> valid_utf8 (snap_GlobalMode s)
     \<and> fmpred (\<lambda>subject mode. valid_utf8 subject \<and> valid_utf8 mode) (snap_SubjectModes s)
     \<and> fmpred (\<lambda>op r. valid_utf8 op \<and> valid_utf8 (res_GUID r)) (snap_Operations s)"

definition registry_inv :: "State \<Rightarrow> bool" where
  "registry_inv s \<longleftrightarrow> state_ok s \<and> ids_ok s \<and> sequences_ok s \<and> snapshot_utf8 s"

text \<open>Commands whose operation ID, and identity where they register, are UTF-8. Identities are
  hexadecimal digests; operation IDs come from a request header.\<close>

fun command_utf8 :: "command \<Rightarrow> bool" where
  "command_utf8 (CRegister c) \<longleftrightarrow> valid_utf8 (rc_OperationID c) \<and> valid_utf8 (rc_Identity c)"
| "command_utf8 c \<longleftrightarrow> valid_utf8 (operation_of c)"

lemma ids_okD:
  "ids_ok s \<Longrightarrow> fmlookup (snap_Schemas s) sid = Some schema \<Longrightarrow>
     sch_ID schema = sid \<and> sid \<noteq> 0 \<and> sid < snap_NextSchemaID s
     \<and> fmlookup (snap_IdentityToID s) (sch_Identity schema) = Some sid"
  by (simp add: ids_ok_def fmpred_iff)

lemma snapshot_utf8_schema:
  "snapshot_utf8 s \<Longrightarrow> fmlookup (snap_Schemas s) sid = Some schema \<Longrightarrow> coerce_Schema schema = schema"
  by (simp add: snapshot_utf8_def fmpred_iff)

lemma NewState_inv [simp]: "registry_inv NewState"
proof -
  have "ids_ok NewState" and "sequences_ok NewState" and "snapshot_utf8 NewState"
    by (simp_all add: ids_ok_def sequences_ok_def snapshot_utf8_def NewState_def versions_of_def)
  then show ?thesis by (simp add: registry_inv_def)
qed

section \<open>Deletion and configuration keep the schemas\<close>

definition same_schemas :: "State \<Rightarrow> State \<Rightarrow> bool" where
  "same_schemas s n \<longleftrightarrow> snap_Schemas n = snap_Schemas s \<and> snap_IdentityToID n = snap_IdentityToID s
     \<and> snap_NextSchemaID n = snap_NextSchemaID s"

lemma markDeleted_same: "markDeleted s u v p = Some n \<Longrightarrow> same_schemas s n"
  by (auto simp: markDeleted_def same_schemas_def)

lemma markAll_same: "markAll s u vs p = Inr n \<Longrightarrow> same_schemas s n"
  by (induction s u vs p rule: markAll.induct)
    (auto simp: same_schemas_def dest!: markDeleted_same split: option.splits)

lemma ids_ok_same: "same_schemas s n \<Longrightarrow> ids_ok s \<Longrightarrow> ids_ok n"
  by (simp add: ids_ok_def same_schemas_def)

lemma ids_ok_irrelevant [simp]:
  "ids_ok (n\<lparr>snap_Sequence := q, snap_Operations := f\<rparr>) = ids_ok n"
  by (simp add: ids_ok_def)

text \<open>Deletion marks keep what identifies a version.\<close>

definition same_versions :: "State \<Rightarrow> State \<Rightarrow> bool" where
  "same_versions s n \<longleftrightarrow> (\<forall>subject. list_all2 sv_evolves (versions_of s subject) (versions_of n subject))
     \<and> (\<forall>u. u |\<in>| fmdom (snap_Subjects n) \<longrightarrow> u |\<in>| fmdom (snap_Subjects s))"

lemma list_all2_evolves_trans:
  "list_all2 sv_evolves a b \<Longrightarrow> list_all2 sv_evolves b c \<Longrightarrow> list_all2 sv_evolves a c"
  by (rule list_all2_trans) (auto intro: sv_evolves_trans)

lemma same_versions_refl: "snap_Subjects n = snap_Subjects s \<Longrightarrow> same_versions s n"
  by (simp add: same_versions_def versions_of_def list_all2_refl)

lemma markDeleted_versions: "markDeleted s u v p = Some n \<Longrightarrow> same_versions s n"
proof -
  assume "markDeleted s u v p = Some n"
  then obtain vs where vs: "mark_versions v p (versions_of s u) = Some vs"
    and n: "n = s\<lparr>snap_Subjects := fmupd u vs (snap_Subjects s)\<rparr>"
    by (auto simp: markDeleted_def)
  have "list_all2 sv_evolves (versions_of s subject) (versions_of n subject)" for subject
    using mark_versions_evolves [OF vs]
    by (cases "subject = u") (simp_all add: n versions_of_def list_all2_refl)
  moreover have "u |\<in>| fmdom (snap_Subjects s)"
    using vs by (auto simp: versions_of_def fmlookup_dom_iff split: option.splits)
  ultimately show ?thesis by (auto simp: same_versions_def n)
qed

lemma same_versions_trans: "same_versions s t \<Longrightarrow> same_versions t u \<Longrightarrow> same_versions s u"
  unfolding same_versions_def by (blast intro: list_all2_evolves_trans)

lemma markAll_versions: "markAll s u vs p = Inr n \<Longrightarrow> same_versions s n"
  by (induction s u vs p rule: markAll.induct)
    (auto simp: same_versions_refl dest: markDeleted_versions intro: same_versions_trans split: option.splits)

lemma list_all2_evolves_mem:
  assumes "list_all2 sv_evolves vs ws" and "j \<in> set ws"
  obtains i where "i \<in> set vs" and "sv_evolves i j"
  using assms by (metis in_set_conv_nth list_all2_conv_all_nth)

lemma sequences_okD:
  assumes "sequences_ok s" and "i \<in> set (versions_of s subject)"
  shows "sv_Sequence i \<le> snap_Sequence s"
    and "j \<in> set (versions_of s subject') \<Longrightarrow> sv_Sequence i = sv_Sequence j \<Longrightarrow>
      subject = subject' \<and> sv_Version i = sv_Version j"
  using assms unfolding sequences_ok_def by blast+

lemma sequences_okI:
  assumes "\<And>subject i. i \<in> set (versions_of s subject) \<Longrightarrow> sv_Sequence i \<le> snap_Sequence s"
    and "\<And>subject subject' i j. i \<in> set (versions_of s subject) \<Longrightarrow> j \<in> set (versions_of s subject') \<Longrightarrow>
      sv_Sequence i = sv_Sequence j \<Longrightarrow> subject = subject' \<and> sv_Version i = sv_Version j"
  shows "sequences_ok s"
  using assms unfolding sequences_ok_def by blast

lemma sequences_ok_same:
  assumes "same_versions s n" and "sequences_ok s" and "snap_Sequence s \<le> snap_Sequence n"
  shows "sequences_ok n"
proof -
  have pre: "\<exists>i \<in> set (versions_of s subject). sv_Sequence j = sv_Sequence i \<and> sv_Version j = sv_Version i"
    if "j \<in> set (versions_of n subject)" for j subject
    using that assms(1) unfolding same_versions_def
    by (meson list_all2_evolves_mem sv_evolves_fields)
  show ?thesis
  proof (rule sequences_okI)
    fix subject j
    assume "j \<in> set (versions_of n subject)"
    from pre [OF this] show "sv_Sequence j \<le> snap_Sequence n"
      using sequences_okD(1) [OF assms(2)] assms(3) by (metis order_trans)
  next
    fix subject subject' j k
    assume "j \<in> set (versions_of n subject)" "k \<in> set (versions_of n subject')" "sv_Sequence j = sv_Sequence k"
    with pre [OF this(1)] pre [OF this(2)] show "subject = subject' \<and> sv_Version j = sv_Version k"
      using sequences_okD(2) [OF assms(2)] by metis
  qed
qed
section \<open>Registration\<close>

lemma choose_id_cases:
  assumes "choose_id s c = Inr sid" and "ids_ok s" and "state_ok s"
    and "\<forall>existing. fmlookup (snap_Schemas s) sid = Some existing \<longrightarrow> sch_Identity existing = rc_Identity c"
  obtains (known) schema where "fmlookup (snap_IdentityToID s) (rc_Identity c) = Some sid"
      and "fmlookup (snap_Schemas s) sid = Some schema" and "sch_Identity schema = rc_Identity c"
      and "candidate_schema s c sid = schema" and "sch_ID schema = sid" and "sid < snap_NextSchemaID s" and "sid \<noteq> 0"
  | (new) "fmlookup (snap_IdentityToID s) (rc_Identity c) = None"
      and "fmlookup (snap_Schemas s) sid = None" and "sid \<noteq> 0"
      and "sid = (if rc_RequestedID c = 0 then snap_NextSchemaID s else rc_RequestedID c)"
proof (cases "fmlookup (snap_IdentityToID s) (rc_Identity c)")
  case (Some k)
  with assms(3) obtain schema where schema: "fmlookup (snap_Schemas s) k = Some schema"
    "sch_Identity schema = rc_Identity c"
    by (auto dest: state_okD(4))
  with assms(2) have k: "k \<noteq> 0" "sch_ID schema = k" "k < snap_NextSchemaID s"
    by (auto simp: ids_ok_def fmpred_iff)
  then have "sid = k" using assms(1) Some by (auto simp: choose_id_def split: if_splits)
  with Some schema k known [of schema] show thesis by (simp add: candidate_schema_def)
next
  case None
  then have sid: "sid = (if rc_RequestedID c = 0 then snap_NextSchemaID s else rc_RequestedID c)"
    using assms(1) by (auto simp: choose_id_def)
  have "(1::int64) \<le> snap_NextSchemaID s" using assms(3) by (rule state_okD)
  then have "sid \<noteq> 0" using sid by (auto simp: int64_ge1_iff)
  moreover have "fmlookup (snap_Schemas s) sid = None"
  proof (rule ccontr)
    assume "fmlookup (snap_Schemas s) sid \<noteq> None"
    then obtain existing where e: "fmlookup (snap_Schemas s) sid = Some existing" by blast
    with assms(4) None ids_okD [OF assms(2) e] show False by simp
  qed
  ultimately show thesis using None sid new by blast
qed

lemma candidate_coerced:
  assumes "valid_utf8 (rc_Identity c)" and "snapshot_utf8 s"
  shows "sch_ID (coerce_Schema (candidate_schema s c sid)) = sch_ID (candidate_schema s c sid)"
    and "sch_Identity (coerce_Schema (candidate_schema s c sid)) = sch_Identity (candidate_schema s c sid)"
    and "valid_utf8 (sch_GUID (candidate_schema s c sid))"
    and "coerce_Schema (coerce_Schema (candidate_schema s c sid)) = coerce_Schema (candidate_schema s c sid)"
proof -
  have cc: "coerce_Schema (coerce_Schema x) = coerce_Schema x" for x
    by (simp add: coerce_Schema_def coerce_Reference_def comp_def)
  then show "coerce_Schema (coerce_Schema (candidate_schema s c sid)) = coerce_Schema (candidate_schema s c sid)" .
  show "sch_ID (coerce_Schema (candidate_schema s c sid)) = sch_ID (candidate_schema s c sid)"
    by (simp add: coerce_Schema_def)
  have g: "coerce_Schema x = x \<Longrightarrow> valid_utf8 (sch_GUID x)" for x
    by (cases x) (simp add: coerce_Schema_def coerce_utf8_eq_iff)
  show "sch_Identity (coerce_Schema (candidate_schema s c sid)) = sch_Identity (candidate_schema s c sid)"
  proof (cases "fmlookup (snap_Schemas s) sid")
    case None
    then show ?thesis using assms(1) by (simp add: candidate_schema_def coerce_Schema_def)
  next
    case (Some x)
    then show ?thesis using snapshot_utf8_schema [OF assms(2) Some] by (simp add: candidate_schema_def)
  qed
  show "valid_utf8 (sch_GUID (candidate_schema s c sid))"
  proof (cases "fmlookup (snap_Schemas s) sid")
    case (Some x)
    then show ?thesis using g [OF snapshot_utf8_schema [OF assms(2) Some]] by (simp add: candidate_schema_def)
  qed (simp add: candidate_schema_def)
qed

text \<open>A committed registration: the identity keeps or gets its ID, the subject one version more.\<close>

lemma registration_applied:
  assumes "Apply s (newEnvelope (snap_Sequence s + 1) op TransitionSchemaRegistered
      (enc_registration (planned_registration s c sid)) r) = Inr s'"
    and "valid_utf8 (rc_Identity c)" and "snapshot_utf8 s"
  obtains schema version where "schema = coerce_Schema (candidate_schema s c sid)"
    and "version = (rt_Version (planned_registration s c sid))\<lparr>sv_Subject := coerce_utf8 (rc_Subject c)\<rparr>"
    and "s' = s\<lparr>snap_Sequence := snap_Sequence s + 1,
         snap_Schemas := fmupd (sch_ID schema) schema (snap_Schemas s),
         snap_IdentityToID := fmupd (sch_Identity schema) (sch_ID schema) (snap_IdentityToID s),
         snap_Subjects := fmupd (coerce_utf8 (rc_Subject c))
           (versions_of s (coerce_utf8 (rc_Subject c)) @ [version]) (snap_Subjects s),
         snap_NextSchemaID := (if sch_ID schema \<ge> snap_NextSchemaID s then sch_ID schema + 1 else snap_NextSchemaID s),
         snap_Operations := (if op = '''' then snap_Operations s else fmupd op r (snap_Operations s))\<rparr>"
    and "state_ok s'"
proof -
  let ?p = "coerce_registration (planned_registration s c sid)"
  from assms(1) obtain n where n: "apply_registration s ?p = Inr n" and s': "state_ok s'"
    "s' = n\<lparr>snap_Sequence := snap_Sequence s + 1,
       snap_Operations := (if op = '''' then snap_Operations n else fmupd op r (snap_Operations n))\<rparr>"
    by (rule Apply_issuedD) (simp add: applyPayload_issued)
  have p: "rt_Schema ?p = coerce_Schema (candidate_schema s c sid)"
    "rt_Version ?p = (rt_Version (planned_registration s c sid))\<lparr>sv_Subject := coerce_utf8 (rc_Subject c)\<rparr>"
    by (simp_all add: coerce_registration_def planned_registration_def coerce_SubjectVersion_def)
  show thesis
    using n s' unfolding apply_registration_Inr p
    by (intro that [OF refl refl]) simp_all
qed

lemma registration_ids_ok:
  assumes "issued s (CRegister c) e r" and "Apply s e = Inr s'" and "registry_inv s" and "valid_utf8 (rc_Identity c)"
  shows "ids_ok s'"
proof -
  have inv: "ids_ok s" "state_ok s" "snapshot_utf8 s" using assms(3) by (simp_all add: registry_inv_def)
  from assms(1) obtain sid where sid: "choose_id s c = Inr sid"
    "\<forall>existing. fmlookup (snap_Schemas s) sid = Some existing \<longrightarrow> sch_Identity existing = rc_Identity c"
    and e: "e = newEnvelope (snap_Sequence s + 1) (rc_OperationID c) TransitionSchemaRegistered
          (enc_registration (planned_registration s c sid)) r"
    by (elim issued_register) auto
  have cand: "sch_ID (candidate_schema s c sid) = sid" "sch_Identity (candidate_schema s c sid) = rc_Identity c"
    "sid \<noteq> 0"
    by (cases rule: choose_id_cases [OF sid(1) inv(1,2) sid(2)]; simp add: candidate_schema_def)+
  have other: "sch_Identity x \<noteq> rc_Identity c" if "fmlookup (snap_Schemas s) k = Some x" "k \<noteq> sid" for k x
    using ids_okD [OF inv(1) that(1)] that(2)
    by (cases rule: choose_id_cases [OF sid(1) inv(1,2) sid(2)]) auto
  from assms(2) [unfolded e] assms(4) inv(3) show ?thesis
  proof (rule registration_applied)
    fix schema version
    assume schema: "schema = coerce_Schema (candidate_schema s c sid)"
      and s': "s' = s\<lparr>snap_Sequence := snap_Sequence s + 1,
         snap_Schemas := fmupd (sch_ID schema) schema (snap_Schemas s),
         snap_IdentityToID := fmupd (sch_Identity schema) (sch_ID schema) (snap_IdentityToID s),
         snap_Subjects := fmupd (coerce_utf8 (rc_Subject c))
           (versions_of s (coerce_utf8 (rc_Subject c)) @ [version]) (snap_Subjects s),
         snap_NextSchemaID := (if sch_ID schema \<ge> snap_NextSchemaID s then sch_ID schema + 1 else snap_NextSchemaID s),
         snap_Operations := (if rc_OperationID c = '''' then snap_Operations s
           else fmupd (rc_OperationID c) r (snap_Operations s))\<rparr>"
      and ok: "state_ok s'"
    have sc: "sch_ID schema = sid" "sch_Identity schema = rc_Identity c"
      using candidate_coerced [OF assms(4) inv(3), of sid] cand schema by simp_all
    have next_ok: "k < snap_NextSchemaID s'" if "k = sid \<or> k < snap_NextSchemaID s" for k
    proof (cases "snap_NextSchemaID s \<le> sid")
      case True
      have "0 \<le> sid" "1 \<le> sid + 1"
        using state_okD(1) [OF inv(2)] state_okD(1) [OF ok] True by (auto simp: s' sc less_eq_int64_def)
      then have "sid < sid + 1" by (intro int64_plus1_greater)
      with True that show ?thesis by (auto simp: s' sc)
    next
      case False
      with that show ?thesis by (auto simp: s' sc)
    qed
    show "ids_ok s'"
      unfolding ids_ok_def fmpred_iff
    proof (intro allI impI)
      fix k x
      assume "fmlookup (snap_Schemas s') k = Some x"
      then consider "k = sid" "x = schema" | "k \<noteq> sid" "fmlookup (snap_Schemas s) k = Some x"
        by (auto simp: s' sc split: if_splits)
      then show "sch_ID x = k \<and> k \<noteq> 0 \<and> k < snap_NextSchemaID s' \<and>
          fmlookup (snap_IdentityToID s') (sch_Identity x) = Some k"
      proof cases
        case 1
        with next_ok [of k] cand(3) show ?thesis by (simp add: s' sc)
      next
        case 2
        with next_ok [of k] ids_okD [OF inv(1) 2(2)] other [OF 2(2,1)] show ?thesis by (auto simp: s' sc)
      qed
    qed
  qed
qed

lemma versions_of_fmupd:
  "snap_Subjects s' = fmupd u ws (snap_Subjects s) \<Longrightarrow>
     versions_of s' subject = (if subject = u then ws else versions_of s subject)"
  by (simp add: versions_of_def)

lemma snapshot_utf8_versions:
  assumes "snapshot_utf8 s" and "v \<in> set (versions_of s u)"
  shows "valid_utf8 (sv_Subject v)"
proof (cases "fmlookup (snap_Subjects s) u")
  case (Some vs)
  with assms(2) have "v \<in> set vs" by (simp add: versions_of_def)
  with assms(1) Some show ?thesis unfolding snapshot_utf8_def fmpred_iff by blast
qed (use assms(2) in \<open>simp add: versions_of_def\<close>)

lemma registration_sequences_ok:
  assumes "Apply s (newEnvelope (snap_Sequence s + 1) op TransitionSchemaRegistered
      (enc_registration (planned_registration s c sid)) r) = Inr s'"
    and "valid_utf8 (rc_Identity c)" and "registry_inv s"
  shows "sequences_ok s'"
proof -
  have inv: "sequences_ok s" "snapshot_utf8 s" using assms(3) by (simp_all add: registry_inv_def)
  have lt: "snap_Sequence s < snap_Sequence s + 1"
    using assms(1) by (rule Apply_issuedD) (auto intro: u64_plus1_greater)
  obtain version where seq: "snap_Sequence s' = snap_Sequence s + 1"
    and vs: "\<And>subject. versions_of s' subject =
      versions_of s subject @ (if subject = coerce_utf8 (rc_Subject c) then [version] else [])"
    and v: "sv_Sequence version = snap_Sequence s + 1"
    using assms(1,2) inv(2)
  proof (rule registration_applied)
    fix schema version
    assume v: "version = (rt_Version (planned_registration s c sid))\<lparr>sv_Subject := coerce_utf8 (rc_Subject c)\<rparr>"
      and s': "s' = s\<lparr>snap_Sequence := snap_Sequence s + 1,
         snap_Schemas := fmupd (sch_ID schema) schema (snap_Schemas s),
         snap_IdentityToID := fmupd (sch_Identity schema) (sch_ID schema) (snap_IdentityToID s),
         snap_Subjects := fmupd (coerce_utf8 (rc_Subject c))
           (versions_of s (coerce_utf8 (rc_Subject c)) @ [version]) (snap_Subjects s),
         snap_NextSchemaID := (if sch_ID schema \<ge> snap_NextSchemaID s then sch_ID schema + 1 else snap_NextSchemaID s),
         snap_Operations := (if op = '''' then snap_Operations s else fmupd op r (snap_Operations s))\<rparr>"
    have "versions_of s' subject = versions_of s subject @ (if subject = coerce_utf8 (rc_Subject c) then [version] else [])"
      for subject
      using versions_of_fmupd [of s' "coerce_utf8 (rc_Subject c)"
          "versions_of s (coerce_utf8 (rc_Subject c)) @ [version]" s subject]
      by (simp add: s')
    then show thesis
      using that [of version] v s' by (simp add: planned_registration_def)
  qed
  show ?thesis
  proof (rule sequences_okI)
    fix subject i
    assume "i \<in> set (versions_of s' subject)"
    then show "sv_Sequence i \<le> snap_Sequence s'"
      using sequences_okD(1) [OF inv(1), of i subject] lt v seq vs [of subject]
      by (auto split: if_splits)
  next
    fix subject subject' i j
    assume "i \<in> set (versions_of s' subject)" "j \<in> set (versions_of s' subject')" "sv_Sequence i = sv_Sequence j"
    moreover have "sv_Sequence k \<noteq> snap_Sequence s + 1" if "k \<in> set (versions_of s u)" for k u
      using sequences_okD(1) [OF inv(1) that] lt by auto
    ultimately show "subject = subject' \<and> sv_Version i = sv_Version j"
      using sequences_okD(2) [OF inv(1), of i subject j subject'] v vs [of subject] vs [of subject']
      by (auto split: if_splits) metis+
  qed
qed

section \<open>UTF-8\<close>

lemma snapshot_utf8_subjects:
  assumes "same_versions s n"
    and "fmpred (\<lambda>subject vs. valid_utf8 subject \<and> (\<forall>v \<in> set vs. valid_utf8 (sv_Subject v))) (snap_Subjects s)"
  shows "fmpred (\<lambda>subject vs. valid_utf8 subject \<and> (\<forall>v \<in> set vs. valid_utf8 (sv_Subject v))) (snap_Subjects n)"
proof (rule fmpredI)
  fix u ws
  assume u: "fmlookup (snap_Subjects n) u = Some ws"
  then obtain vs where vs: "fmlookup (snap_Subjects s) u = Some vs"
    using assms(1) by (auto simp: same_versions_def fmlookup_dom_iff)
  have "list_all2 sv_evolves vs ws"
    using assms(1) u vs by (auto simp: same_versions_def versions_of_def dest: spec [of _ u])
  moreover have "valid_utf8 u" and "\<forall>v \<in> set vs. valid_utf8 (sv_Subject v)"
    using assms(2) vs by (auto simp: fmpred_iff)
  ultimately show "valid_utf8 u \<and> (\<forall>v \<in> set ws. valid_utf8 (sv_Subject v))"
    by (metis list_all2_evolves_mem sv_evolves_fields)
qed

lemma fmpred_upd_drop:
  "fmpred P m \<Longrightarrow> P k v \<Longrightarrow> fmpred P (fmupd k v m)" "fmpred P m \<Longrightarrow> fmpred P (fmdrop k m)"
  by (auto simp: fmpred_iff split: if_splits)

text \<open>The part of a snapshot that markings and configuration changes may touch.\<close>

lemma snapshot_utf8_step:
  assumes "snapshot_utf8 s" and "same_schemas s n" and "same_versions s n" and "snap_Operations n = snap_Operations s"
    and "valid_utf8 (snap_GlobalCompatibility n)" and "valid_utf8 (snap_GlobalMode n)"
    and "fmpred (\<lambda>subject level. valid_utf8 subject \<and> valid_utf8 level) (snap_SubjectCompatibility n)"
    and "fmpred (\<lambda>subject mode. valid_utf8 subject \<and> valid_utf8 mode) (snap_SubjectModes n)"
    and "valid_utf8 op" and "valid_utf8 (res_GUID r)"
  shows "snapshot_utf8 (n\<lparr>snap_Sequence := q,
    snap_Operations := (if op = '''' then snap_Operations n else fmupd op r (snap_Operations n))\<rparr>)"
  using assms snapshot_utf8_subjects [OF assms(3)]
  by (simp add: snapshot_utf8_def same_schemas_def fmpred_upd_drop)

lemma markDeleted_config: "markDeleted s u v p = Some n \<Longrightarrow> snap_Subjects s = snap_Subjects n \<or>
    n = s\<lparr>snap_Subjects := snap_Subjects n\<rparr>"
  by (auto simp: markDeleted_def)

lemma markAll_config: "markAll s u vs p = Inr n \<Longrightarrow> n = s\<lparr>snap_Subjects := snap_Subjects n\<rparr>"
  by (induction s u vs p rule: markAll.induct) (auto simp: markDeleted_def split: option.splits)

lemma registration_utf8:
  assumes "Apply s (newEnvelope (snap_Sequence s + 1) op TransitionSchemaRegistered
      (enc_registration (planned_registration s c sid)) (planned_result s c sid)) = Inr s'"
    and "valid_utf8 (rc_Identity c)" and "snapshot_utf8 s" and "valid_utf8 op"
    and "sch_Identity (candidate_schema s c sid) = rc_Identity c"
  shows "snapshot_utf8 s'"
  using assms(1-3)
proof (rule registration_applied)
  fix schema version
  assume schema: "schema = coerce_Schema (candidate_schema s c sid)"
    and version: "version = (rt_Version (planned_registration s c sid))\<lparr>sv_Subject := coerce_utf8 (rc_Subject c)\<rparr>"
    and s': "s' = s\<lparr>snap_Sequence := snap_Sequence s + 1,
         snap_Schemas := fmupd (sch_ID schema) schema (snap_Schemas s),
         snap_IdentityToID := fmupd (sch_Identity schema) (sch_ID schema) (snap_IdentityToID s),
         snap_Subjects := fmupd (coerce_utf8 (rc_Subject c))
           (versions_of s (coerce_utf8 (rc_Subject c)) @ [version]) (snap_Subjects s),
         snap_NextSchemaID := (if sch_ID schema \<ge> snap_NextSchemaID s then sch_ID schema + 1 else snap_NextSchemaID s),
         snap_Operations := (if op = '''' then snap_Operations s
           else fmupd op (planned_result s c sid) (snap_Operations s))\<rparr>"
  note cand = candidate_coerced [OF assms(2,3), of sid]
  have "coerce_Schema schema = schema" and "valid_utf8 (sch_Identity schema)"
    using cand(2,4) assms(2,5) schema by simp_all
  moreover have "valid_utf8 (res_GUID (planned_result s c sid))"
    using cand(3) by (simp add: planned_result_def)
  moreover have "\<forall>v \<in> set (versions_of s (coerce_utf8 (rc_Subject c)) @ [version]). valid_utf8 (sv_Subject v)"
    using snapshot_utf8_versions [OF assms(3)] by (auto simp: version)
  ultimately show "snapshot_utf8 s'"
    using assms(3,4) by (simp add: snapshot_utf8_def s' fmpred_upd_drop)
qed

section \<open>Every command keeps the invariant\<close>

lemma sequences_ok_irrelevant [simp]:
  "sequences_ok (n\<lparr>snap_Sequence := q, snap_Operations := f\<rparr>) = sequences_ok (n\<lparr>snap_Sequence := q\<rparr>)"
  by (simp add: sequences_ok_def versions_of_def)

lemma unchanged_schemas_inv:
  assumes "Apply s (newEnvelope (snap_Sequence s + 1) op k p r) = Inr s'" and "registry_inv s"
    and "applyPayload s (newEnvelope (snap_Sequence s + 1) op k p r) = Inr n"
    and "same_schemas s n" and "same_versions s n"
    and "snap_Operations n = snap_Operations s"
    and "valid_utf8 (snap_GlobalCompatibility n)" and "valid_utf8 (snap_GlobalMode n)"
    and "fmpred (\<lambda>subject level. valid_utf8 subject \<and> valid_utf8 level) (snap_SubjectCompatibility n)"
    and "fmpred (\<lambda>subject mode. valid_utf8 subject \<and> valid_utf8 mode) (snap_SubjectModes n)"
    and "valid_utf8 op" and "valid_utf8 (res_GUID r)"
  shows "registry_inv s'"
proof -
  have inv: "ids_ok s" "sequences_ok s" "snapshot_utf8 s" using assms(2) by (simp_all add: registry_inv_def)
  obtain ok: "state_ok s'" and lt: "snap_Sequence s < snap_Sequence s + 1"
    and s': "s' = n\<lparr>snap_Sequence := snap_Sequence s + 1,
       snap_Operations := (if op = '''' then snap_Operations n else fmupd op r (snap_Operations n))\<rparr>"
    using assms(1)
  proof (rule Apply_issuedD)
    fix n'
    assume a: "applyPayload s (newEnvelope (snap_Sequence s + 1) op k p r) = Inr n'" "state_ok s'"
      "snap_Sequence s + 1 \<noteq> 0"
      "s' = n'\<lparr>snap_Sequence := snap_Sequence s + 1,
         snap_Operations := (if op = '''' then snap_Operations n' else fmupd op r (snap_Operations n'))\<rparr>"
    have "n' = n" using a(1) assms(3) by simp
    with a u64_plus1_greater [OF a(3)] that show thesis by blast
  qed
  have "same_versions s (n\<lparr>snap_Sequence := snap_Sequence s + 1\<rparr>)"
    using assms(5) by (simp add: same_versions_def versions_of_def)
  from sequences_ok_same [OF this inv(2)] lt have "sequences_ok s'" by (simp add: s')
  moreover have "ids_ok s'" using ids_ok_same [OF assms(4) inv(1)] by (simp add: s')
  moreover have "snapshot_utf8 s'"
    unfolding s' using inv(3) assms(4-12) by (intro snapshot_utf8_step)
  ultimately show ?thesis using ok by (simp add: registry_inv_def)
qed

lemma registration_inv:
  assumes "issued s (CRegister c) e r" and "Apply s e = Inr s'" and "registry_inv s"
    and "command_utf8 (CRegister c)"
  shows "registry_inv s'"
proof -
  have inv: "ids_ok s" "state_ok s" "snapshot_utf8 s" using assms(3) by (simp_all add: registry_inv_def)
  from assms(1) obtain sid where sid: "choose_id s c = Inr sid"
    "\<forall>existing. fmlookup (snap_Schemas s) sid = Some existing \<longrightarrow> sch_Identity existing = rc_Identity c"
    and e: "e = newEnvelope (snap_Sequence s + 1) (rc_OperationID c) TransitionSchemaRegistered
          (enc_registration (planned_registration s c sid)) (planned_result s c sid)"
    by (elim issued_register) auto
  have "sch_Identity (candidate_schema s c sid) = rc_Identity c"
    by (cases rule: choose_id_cases [OF sid(1) inv(1,2) sid(2)]; simp add: candidate_schema_def)
  moreover have c: "valid_utf8 (rc_Identity c)" "valid_utf8 (rc_OperationID c)" using assms(4) by simp_all
  ultimately have "snapshot_utf8 s'"
    by (intro registration_utf8 [OF assms(2) [unfolded e] c(1) inv(3) c(2)])
  moreover have "sequences_ok s'"
    by (rule registration_sequences_ok [OF assms(2) [unfolded e] c(1) assms(3)])
  moreover have "ids_ok s'"
    by (rule registration_ids_ok [OF assms(1-3) c(1)])
  ultimately show ?thesis using Apply_ok [OF assms(2)] by (simp add: registry_inv_def)
qed

lemma zero_Result_GUID [simp]: "res_GUID zero_Result = ''''"
  by (simp add: zero_Result_def)

lemma markAll_inv:
  assumes "Apply s (newEnvelope (snap_Sequence s + 1) op k p r) = Inr s'" and "registry_inv s"
    and "applyPayload s (newEnvelope (snap_Sequence s + 1) op k p r) = markAll s u vs b"
    and "valid_utf8 op" and "valid_utf8 (res_GUID r)"
  shows "registry_inv s'"
proof -
  from assms(1) obtain n where "applyPayload s (newEnvelope (snap_Sequence s + 1) op k p r) = Inr n"
    by (rule Apply_issuedD)
  with assms(3) have n: "markAll s u vs b = Inr n"
    "applyPayload s (newEnvelope (snap_Sequence s + 1) op k p r) = Inr n" by simp_all
  have "snap_Operations n = snap_Operations s" "snap_GlobalCompatibility n = snap_GlobalCompatibility s"
    "snap_GlobalMode n = snap_GlobalMode s" "snap_SubjectCompatibility n = snap_SubjectCompatibility s"
    "snap_SubjectModes n = snap_SubjectModes s"
    using markAll_config [OF n(1)] by (metis Snapshot.select_convs Snapshot.surjective Snapshot.update_convs(6))+
  then show ?thesis
    using assms(2,4,5)
    by (intro unchanged_schemas_inv [OF assms(1,2) n(2) markAll_same [OF n(1)] markAll_versions [OF n(1)]])
      (simp_all add: registry_inv_def snapshot_utf8_def)
qed

lemma valid_utf8_levels:
  "CompatibilityLevel_Valid l \<Longrightarrow> valid_utf8 l" "Mode_Valid mo \<Longrightarrow> valid_utf8 mo"
  by (auto simp: CompatibilityLevel_Valid_def Mode_Valid_def)

lemma config_inv:
  assumes "Apply s (newEnvelope (snap_Sequence s + 1) op k p zero_Result) = Inr s'" and "registry_inv s"
    and "applyPayload s (newEnvelope (snap_Sequence s + 1) op k p zero_Result) = Inr n"
    and "n = s\<lparr>snap_GlobalCompatibility := gc, snap_SubjectCompatibility := sc, snap_GlobalMode := gm,
      snap_SubjectModes := sm\<rparr>"
    and "valid_utf8 gc" and "valid_utf8 gm" and "valid_utf8 op"
    and "fmpred (\<lambda>subject level. valid_utf8 subject \<and> valid_utf8 level) sc"
    and "fmpred (\<lambda>subject mode. valid_utf8 subject \<and> valid_utf8 mode) sm"
  shows "registry_inv s'"
  using assms
  by (intro unchanged_schemas_inv [OF assms(1-3)]) (simp_all add: same_schemas_def same_versions_refl)

lemma issued_Apply_inv:
  assumes "issued s c e r" and "Apply s e = Inr s'" and "registry_inv s" and "command_utf8 c"
  shows "registry_inv s'"
  using assms(1)
proof (cases rule: issued.cases)
  case (register c' sid)
  with assms show ?thesis by (auto intro: registration_inv)
next
  case (delete_version c' item schema)
  with markAll_inv [OF _ assms(3) applyPayload_issued(2)] assms(2,4) show ?thesis by simp
next
  case (delete_subject c')
  with markAll_inv [OF _ assms(3) applyPayload_issued(3)] assms(2,4) show ?thesis by simp
next
  case (set_compatibility level op scope)
  have u: "snapshot_utf8 s" using assms(3) by (simp add: registry_inv_def)
  show ?thesis
    using assms(3,4) set_compatibility u
    by (intro config_inv [OF assms(2) [unfolded set_compatibility] assms(3) applyPayload_issued(4),
          where gm = "snap_GlobalMode s" and sm = "snap_SubjectModes s"
          and gc = "if sc_Subject scope = '''' then level else snap_GlobalCompatibility s"
          and sc = "if sc_Subject scope = '''' then snap_SubjectCompatibility s
            else fmupd (coerce_utf8 (sc_Subject scope)) level (snap_SubjectCompatibility s)"])
      (auto simp: valid_utf8_levels snapshot_utf8_def fmpred_upd_drop)
next
  case (delete_compatibility subject op)
  have u: "snapshot_utf8 s" using assms(3) by (simp add: registry_inv_def)
  show ?thesis
    using assms(3,4) delete_compatibility u
    by (intro config_inv [OF assms(2) [unfolded delete_compatibility] assms(3) applyPayload_issued(5),
          where gm = "snap_GlobalMode s" and sm = "snap_SubjectModes s"
          and gc = "snap_GlobalCompatibility s"
          and sc = "fmdrop (coerce_utf8 subject) (snap_SubjectCompatibility s)"])
      (auto simp: snapshot_utf8_def fmpred_upd_drop)
next
  case (set_mode mode op scope)
  have u: "snapshot_utf8 s" using assms(3) by (simp add: registry_inv_def)
  show ?thesis
    using assms(3,4) set_mode u
    by (intro config_inv [OF assms(2) [unfolded set_mode] assms(3) applyPayload_issued(6), where gc = "snap_GlobalCompatibility s" and sc = "snap_SubjectCompatibility s"
          and gm = "if sc_Subject scope = '''' then mode else snap_GlobalMode s"
          and sm = "if sc_Subject scope = '''' then snap_SubjectModes s
            else fmupd (coerce_utf8 (sc_Subject scope)) mode (snap_SubjectModes s)"])
      (auto simp: valid_utf8_levels snapshot_utf8_def fmpred_upd_drop)
next
  case (delete_mode subject op)
  have u: "snapshot_utf8 s" using assms(3) by (simp add: registry_inv_def)
  show ?thesis
    using assms(3,4) delete_mode u
    by (intro config_inv [OF assms(2) [unfolded delete_mode] assms(3) applyPayload_issued(7), where gc = "snap_GlobalCompatibility s" and sc = "snap_SubjectCompatibility s"
          and gm = "snap_GlobalMode s" and sm = "fmdrop (coerce_utf8 subject) (snap_SubjectModes s)"])
      (auto simp: snapshot_utf8_def fmpred_upd_drop)
qed

text \<open>The machines that a sequence of commands can reach. Operation IDs and identities are UTF-8: the
  identities of the engines are digests, the operation IDs come from the clients unchecked.\<close>

inductive runs :: "'st Machine \<Rightarrow> 'st Machine \<Rightarrow> bool" where
  start: "runs m m"
| step: "runs m m' \<Longrightarrow> command_utf8 c \<Longrightarrow> exec ctx c m' = (out, m'') \<Longrightarrow> runs m m''"

lemma exec_inv:
  assumes "exec ctx c m = (out, m')" and "registry_inv (m_state m)" and "command_utf8 c"
  shows "registry_inv (m_state m')"
  using assms(1)
  by (cases rule: exec_state_cases) (use assms(2,3) issued_Apply_inv in auto)

text \<open>C2: Every state a machine reaches by any sequence of commands, successful or not, from a
  state that satisfies the registry invariant satisfies it too: what \<open>validate\<close> checks, one
  schema ID for each identity with the next ID above all of them, distinct sequence numbers for
  all versions, and UTF-8 in every stored string. The commands are those with a UTF-8 operation ID and
  identity; a transition with any other operation ID is the exception C32.\<close>

theorem runs_registry_inv:
  assumes "runs m m'" and "registry_inv (m_state m)"
  shows "registry_inv (m_state m')"
  using assms by (induction rule: runs.induct) (auto intro: exec_inv)

end
