(* ===== verification/Machine_Behaviour.thy ===== *)
theory Machine_Behaviour
  imports Machine_Invariants
begin

text \<open>
  What the commands of \<open>internal/domain/machine.go\<close> do, branch by branch, in a machine that
  satisfies the registry invariant: what a registration, a deletion and a configuration change
  leave behind, when they are refused, that a command whose checks passed cannot fail to apply,
  and that replicas which apply the committed transitions follow the leader.
\<close>

section \<open>Registration\<close>

lemma nextVersion_bound:
  "(let mx = foldl (\<lambda>maximum item. if sv_Version item > maximum then sv_Version item else maximum) k vs in
    k \<le> mx \<and> (\<forall>i \<in> set vs. sv_Version i \<le> mx))"
proof (induction vs arbitrary: k)
  case (Cons v vs)
  let ?k = "if sv_Version v > k then sv_Version v else k"
  have "k \<le> ?k" and "sv_Version v \<le> ?k" by auto
  with Cons [of ?k] show ?case unfolding Let_def
    by (metis (no_types, lifting) foldl_Cons order_trans set_ConsD)
qed simp

lemma nextVersion_greater:
  assumes "1 \<le> nextVersion vs" and "i \<in> set vs"
  shows "sv_Version i < nextVersion vs"
proof -
  let ?mx = "foldl (\<lambda>maximum item. if sv_Version item > maximum then sv_Version item else maximum) 0 vs"
  have b: "0 \<le> ?mx" "sv_Version i \<le> ?mx"
    using nextVersion_bound [of 0 vs] assms(2) by (auto simp: Let_def)
  have "?mx < ?mx + 1"
    using assms(1) b(1) by (intro int64_plus1_greater) (simp_all add: nextVersion_def)
  with b(2) show ?thesis by (simp add: nextVersion_def)
qed

lemma committed_registration:
  assumes "Register ctx c m = (Inr r, m')" and "retried (m_state m) (rc_OperationID c) = None"
  obtains (known) sid item where "m' = m" and "may_register (m_state m) c"
      and "fmlookup (snap_IdentityToID (m_state m)) (rc_Identity c) = Some sid"
      and "existing_version (m_state m) (rc_Subject c) sid = Some item"
      and "res_SchemaID r = sid" and "res_Version r = sv_Version item"
  | (new) e where "issued (m_state m) (CRegister c) e r" and "Apply (m_state m) e = Inr (m_state m')"
proof (cases rule: exec_cases [of m "CRegister c" ctx])
  case (known c' r')
  then have "planRegister m c = Inr (zero_Envelope, r)" and "m' = m" using assms by auto
  then show thesis
  proof (cases rule: planRegister_cases)
    case new
    then have "env_Kind zero_Envelope \<noteq> ''''" by (rule issued_facts)
    then show thesis by (simp add: zero_Envelope_def)
  qed (use \<open>m' = m\<close> that(1) in auto)
next
  case (commit e r')
  then show thesis
    by (cases rule: commitApply_cases [of m e ctx r']) (use assms(1) new in auto)
qed (use assms in auto)

text \<open>What is visible after a registration that was not found to be registered already.\<close>

lemma registration_visible:
  assumes "issued s (CRegister c) e r" and "Apply s e = Inr s'" and "registry_inv s"
    and "command_utf8 (CRegister c)" and "valid_utf8 (rc_Subject c)"
  obtains schema version where
    "versions_of s' (rc_Subject c) = versions_of s (rc_Subject c) @ [version]"
    and "\<And>u. u \<noteq> rc_Subject c \<Longrightarrow> versions_of s' u = versions_of s u"
    and "fmlookup (snap_Schemas s') (res_SchemaID r) = Some schema"
    and "sch_ID schema = res_SchemaID r" and "sch_Identity schema = rc_Identity c"
    and "fmlookup (snap_IdentityToID s') (rc_Identity c) = Some (res_SchemaID r)"
    and "sv_Version version = res_Version r" and "sv_SchemaID version = res_SchemaID r"
    and "sv_Sequence version = snap_Sequence s + 1" and "active version"
    and "res_Version r = planned_version s c" and "choose_id s c = Inr (res_SchemaID r)"
    and "sv_Timestamp version = rc_Timestamp c"
proof -
  have inv: "ids_ok s" "state_ok s" "snapshot_utf8 s" using assms(3) by (simp_all add: registry_inv_def)
  from assms(1) obtain sid where sid: "choose_id s c = Inr sid"
    "\<forall>existing. fmlookup (snap_Schemas s) sid = Some existing \<longrightarrow> sch_Identity existing = rc_Identity c"
    and r: "r = planned_result s c sid"
    and e: "e = newEnvelope (snap_Sequence s + 1) (rc_OperationID c) TransitionSchemaRegistered
          (enc_registration (planned_registration s c sid)) r"
    by (elim issued_register) auto
  have cand: "sch_Identity (candidate_schema s c sid) = rc_Identity c" "sch_ID (candidate_schema s c sid) = sid"
    by (cases rule: choose_id_cases [OF sid(1) inv(1,2) sid(2)]; simp add: candidate_schema_def)+
  have u: "valid_utf8 (rc_Identity c)" using assms(4) by simp
  note cc = candidate_coerced [OF u inv(3), of sid]
  from assms(2) [unfolded e] u inv(3) show thesis
  proof (rule registration_applied)
    fix schema version
    assume schema: "schema = coerce_Schema (candidate_schema s c sid)"
      and version: "version = (rt_Version (planned_registration s c sid))\<lparr>sv_Subject := coerce_utf8 (rc_Subject c)\<rparr>"
      and s': "s' = s\<lparr>snap_Sequence := snap_Sequence s + 1,
         snap_Schemas := fmupd (sch_ID schema) schema (snap_Schemas s),
         snap_IdentityToID := fmupd (sch_Identity schema) (sch_ID schema) (snap_IdentityToID s),
         snap_Subjects := fmupd (coerce_utf8 (rc_Subject c))
           (versions_of s (coerce_utf8 (rc_Subject c)) @ [version]) (snap_Subjects s),
         snap_NextSchemaID := (if sch_ID schema \<ge> snap_NextSchemaID s then sch_ID schema + 1 else snap_NextSchemaID s),
         snap_Operations := (if rc_OperationID c = '''' then snap_Operations s
           else fmupd (rc_OperationID c) r (snap_Operations s))\<rparr>"
    have sc: "sch_ID schema = sid" "sch_Identity schema = rc_Identity c"
      using cc cand schema by simp_all
    have vs: "versions_of s' u = (if u = rc_Subject c then versions_of s (rc_Subject c) @ [version] else versions_of s u)" for u
      using assms(5) by (intro versions_of_fmupd) (simp add: s')
    have f: "snap_Schemas s' = fmupd sid schema (snap_Schemas s)"
      "snap_IdentityToID s' = fmupd (rc_Identity c) sid (snap_IdentityToID s)"
      by (simp_all add: s' sc)
    show thesis
      using sc assms(5) sid(1)
      by (intro that [of version schema]) (simp_all add: vs f r planned_result_def version planned_registration_def active_def)
  qed
qed

lemma registration_reads_back:
  assumes "registry_inv (m_state m)" and "command_utf8 (CRegister c)" and "valid_utf8 (rc_Subject c)"
    and "retried (m_state m) (rc_OperationID c) = None" and "Register ctx c m = (Inr r, m')"
  shows "\<exists>item schema. Lookup (m_state m') (rc_Subject c) (res_Version r) False = (item, schema, True)
    \<and> sv_SchemaID item = res_SchemaID r \<and> sch_ID schema = res_SchemaID r
    \<and> sch_Identity schema = rc_Identity c
    \<and> fmlookup (snap_IdentityToID (m_state m')) (rc_Identity c) = Some (res_SchemaID r)"
  using assms(5,4)
proof (cases rule: committed_registration)
  case (known sid item)
  have ok: "state_ok (m_state m)" and ids: "ids_ok (m_state m)"
    using assms(1) by (simp_all add: registry_inv_def)
  from state_okD(4) [OF ok known(3)] obtain schema
    where schema: "fmlookup (snap_Schemas (m_state m)) sid = Some schema" "sch_Identity schema = rc_Identity c"
    by blast
  have item: "item \<in> set (versions_of (m_state m) (rc_Subject c))" "sv_SchemaID item = sid" "active item"
    using find_SomeD [OF known(4) [unfolded existing_version_def]] by auto
  have "Lookup (m_state m) (rc_Subject c) (res_Version r) False = (item, schema, True)"
    using item schema known by (simp add: Lookup_True [OF ok] active_def visible_def)
  with known item schema ids_okD [OF ids schema(1)] show ?thesis by auto
next
  case (new e)
  have ok: "state_ok (m_state m')" using new(2) by (rule Apply_ok)
  from new assms(1-3) show ?thesis
  proof (rule registration_visible)
    fix schema version
    assume "versions_of (m_state m') (rc_Subject c) = versions_of (m_state m) (rc_Subject c) @ [version]"
      and schema: "fmlookup (snap_Schemas (m_state m')) (res_SchemaID r) = Some schema"
        "sch_ID schema = res_SchemaID r" "sch_Identity schema = rc_Identity c"
        "fmlookup (snap_IdentityToID (m_state m')) (rc_Identity c) = Some (res_SchemaID r)"
      and version: "sv_Version version = res_Version r" "sv_SchemaID version = res_SchemaID r" "active version"
    then have "Lookup (m_state m') (rc_Subject c) (res_Version r) False = (version, schema, True)"
      by (simp add: Lookup_True [OF ok] active_def visible_def)
    with schema version show ?thesis by blast
  qed
qed

text \<open>A registration that succeeds can be read back: the result names an active version of
  the subject whose schema has the returned ID and the identity of the command, whether the
  schema was stored now or found registered, and the identity resolves to that ID.\<close>

theorem Register_read_back:
  assumes "registry_inv (m_state m)" and "command_utf8 (CRegister c)" and "valid_utf8 (rc_Subject c)"
    and "retried (m_state m) (rc_OperationID c) = None" and "Register ctx c m = (Inr r, m')"
  shows "\<exists>item schema. Lookup (m_state m') (rc_Subject c) (res_Version r) False = (item, schema, True)
    \<and> sv_SchemaID item = res_SchemaID r \<and> sch_ID schema = res_SchemaID r
    \<and> sch_Identity schema = rc_Identity c
    \<and> fmlookup (snap_IdentityToID (m_state m')) (rc_Identity c) = Some (res_SchemaID r)"
  using registration_reads_back [OF assms] .

text \<open>C5: A registration that stores a new version without asking for a number gets a positive
  number above every version the subject ever had, permanently deleted ones included, so that a
  version number is never used twice; it is the only change to the versions of any subject.\<close>

theorem Register_version_fresh:
  assumes "registry_inv (m_state m)" and "command_utf8 (CRegister c)" and "valid_utf8 (rc_Subject c)"
    and "Register ctx c m = (Inr r, m')" and "m_state m' \<noteq> m_state m" and "rc_RequestedVersion c = 0"
  shows "1 \<le> res_Version r
    \<and> (\<forall>i \<in> set (versions_of (m_state m) (rc_Subject c)). sv_Version i < res_Version r)
    \<and> (\<exists>item. versions_of (m_state m') (rc_Subject c) = versions_of (m_state m) (rc_Subject c) @ [item]
      \<and> sv_Version item = res_Version r)
    \<and> (\<forall>subject. subject \<noteq> rc_Subject c \<longrightarrow> versions_of (m_state m') subject = versions_of (m_state m) subject)"
proof (intro conjI)
  have "exec ctx (CRegister c) m = (Inr r, m')" using assms(4) by simp
  then obtain e where i: "issued (m_state m) (CRegister c) e r" and a: "Apply (m_state m) e = Inr (m_state m')"
    by (cases rule: exec_state_cases) (use assms(5) in auto)
  have ok: "state_ok (m_state m')" using a by (rule Apply_ok)
  from i a assms(1-3) obtain version where
    v: "versions_of (m_state m') (rc_Subject c) = versions_of (m_state m) (rc_Subject c) @ [version]"
      "\<And>u. u \<noteq> rc_Subject c \<Longrightarrow> versions_of (m_state m') u = versions_of (m_state m) u"
      "sv_Version version = res_Version r" "res_Version r = planned_version (m_state m) c"
    by (rule registration_visible) blast
  have one: "1 \<le> sv_Version version"
    using state_ok_versions [OF ok, of "rc_Subject c"] v(1) by (simp add: versions_ok_def)
  have next_: "res_Version r = nextVersion (versions_of (m_state m) (rc_Subject c))"
    using v(4) assms(6) by (simp add: planned_version_def)
  show "1 \<le> res_Version r" using one v(3) by simp
  show "\<forall>i \<in> set (versions_of (m_state m) (rc_Subject c)). sv_Version i < res_Version r"
    using one v(3) next_ nextVersion_greater by auto
  show "\<exists>item. versions_of (m_state m') (rc_Subject c) = versions_of (m_state m) (rc_Subject c) @ [item]
      \<and> sv_Version item = res_Version r"
    using v by blast
  show "\<forall>subject. subject \<noteq> rc_Subject c \<longrightarrow> versions_of (m_state m') subject = versions_of (m_state m) subject"
    using v(2) by blast
qed

text \<open>Global schema IDs: a registration of a known identity returns the ID it has, whatever
  subject it is registered under; one of a new identity without a requested ID gets the next ID,
  which no schema had, and the next ID moves past it.\<close>

theorem Register_id:
  assumes "registry_inv (m_state m)" and "command_utf8 (CRegister c)" and "valid_utf8 (rc_Subject c)"
    and "retried (m_state m) (rc_OperationID c) = None" and "Register ctx c m = (Inr r, m')"
  shows "(case fmlookup (snap_IdentityToID (m_state m)) (rc_Identity c) of
      Some sid \<Rightarrow> res_SchemaID r = sid
    | None \<Rightarrow> rc_RequestedID c = 0 \<longrightarrow>
      res_SchemaID r = snap_NextSchemaID (m_state m)
      \<and> fmlookup (snap_Schemas (m_state m)) (res_SchemaID r) = None
      \<and> res_SchemaID r < snap_NextSchemaID (m_state m'))"
proof -
  have inv: "ids_ok (m_state m)" "state_ok (m_state m)" using assms(1) by (simp_all add: registry_inv_def)
  have known: "res_SchemaID r = sid" if k: "fmlookup (snap_IdentityToID (m_state m)) (rc_Identity c) = Some sid" for sid
    using assms(5,4)
  proof (cases rule: committed_registration)
    case (new e)
    from new assms(1-3) have "choose_id (m_state m) c = Inr (res_SchemaID r)"
      by (rule registration_visible)
    with k show ?thesis
      using state_okD(4) [OF inv(2) k] ids_okD [OF inv(1)]
      by (auto simp: choose_id_def split: if_splits)
  qed (use k in auto)
  have new: "res_SchemaID r = snap_NextSchemaID (m_state m)
      \<and> fmlookup (snap_Schemas (m_state m)) (res_SchemaID r) = None
      \<and> res_SchemaID r < snap_NextSchemaID (m_state m')"
    if n: "fmlookup (snap_IdentityToID (m_state m)) (rc_Identity c) = None" "rc_RequestedID c = 0"
    using assms(5,4)
  proof (cases rule: committed_registration)
    case (new e)
    have inv': "ids_ok (m_state m')"
      using issued_Apply_inv [OF new assms(1,2)] by (simp add: registry_inv_def)
    from new assms(1-3) obtain schema where c: "choose_id (m_state m) c = Inr (res_SchemaID r)"
      and s: "fmlookup (snap_Schemas (m_state m')) (res_SchemaID r) = Some schema"
      by (rule registration_visible) blast
    have id: "res_SchemaID r = snap_NextSchemaID (m_state m)"
      using c n by (simp add: choose_id_def)
    moreover have "fmlookup (snap_Schemas (m_state m)) (res_SchemaID r) = None"
    proof (rule ccontr)
      assume "fmlookup (snap_Schemas (m_state m)) (res_SchemaID r) \<noteq> None"
      then obtain x where "fmlookup (snap_Schemas (m_state m)) (res_SchemaID r) = Some x" by blast
      from ids_okD [OF inv(1) this] id show False by simp
    qed
    ultimately show ?thesis using ids_okD [OF inv' s] by simp
  qed (use n in auto)
  from known new show ?thesis
    by (cases "fmlookup (snap_IdentityToID (m_state m)) (rc_Identity c)") auto
qed

section \<open>Deletion\<close>

definition mark :: "int64 list \<Rightarrow> bool \<Rightarrow> SubjectVersion \<Rightarrow> SubjectVersion" where
  "mark vs permanent i =
     (if sv_Version i \<in> set vs then i\<lparr>sv_Deleted := True, sv_Permanent := permanent\<rparr> else i)"

lemma sv_Version_mark [simp]: "sv_Version (mark vs p i) = sv_Version i"
  by (simp add: mark_def)

lemma mark_single:
  "mark [v] p = (\<lambda>i. if sv_Version i = v then i\<lparr>sv_Deleted := True, sv_Permanent := p\<rparr> else i)"
  by (simp add: fun_eq_iff mark_def)

lemma markAll_marks:
  assumes "distinct (map sv_Version (versions_of s u))" and "distinct vs"
    and "\<forall>v \<in> set vs. \<exists>i \<in> set (versions_of s u). sv_Version i = v \<and> \<not> sv_Permanent i"
  shows "\<exists>n. markAll s u vs p = Inr n \<and> versions_of n u = map (mark vs p) (versions_of s u)
    \<and> (\<forall>u'. u' \<noteq> u \<longrightarrow> versions_of n u' = versions_of s u')"
  using assms
proof (induction vs arbitrary: s)
  case Nil
  then show ?case by (auto simp: mark_def intro: map_idI [symmetric])
next
  case (Cons v vs)
  let ?ws = "map (mark [v] p) (versions_of s u)"
  let ?s1 = "s\<lparr>snap_Subjects := fmupd u ?ws (snap_Subjects s)\<rparr>"
  have "list_ex (\<lambda>i. sv_Version i = v \<and> \<not> sv_Permanent i) (versions_of s u)"
    using Cons.prems(3) by (auto simp: list_ex_iff)
  then have s1: "markDeleted s u v p = Some ?s1"
    by (simp add: markDeleted_def mark_versions_distinct [OF Cons.prems(1)] mark_single)
  have vs1: "versions_of ?s1 u = ?ws" "\<And>u'. u' \<noteq> u \<Longrightarrow> versions_of ?s1 u' = versions_of s u'"
    by (simp_all add: versions_of_def)
  have "\<exists>n. markAll ?s1 u vs p = Inr n \<and> versions_of n u = map (mark vs p) (versions_of ?s1 u)
    \<and> (\<forall>u'. u' \<noteq> u \<longrightarrow> versions_of n u' = versions_of ?s1 u')"
  proof (rule Cons.IH)
    show "distinct (map sv_Version (versions_of ?s1 u))"
      using Cons.prems(1) by (simp add: vs1 comp_def)
    show "distinct vs" using Cons.prems(2) by simp
    show "\<forall>w \<in> set vs. \<exists>i \<in> set (versions_of ?s1 u). sv_Version i = w \<and> \<not> sv_Permanent i"
    proof
      fix w assume w: "w \<in> set vs"
      with Cons.prems(3) obtain i where i: "i \<in> set (versions_of s u)" "sv_Version i = w" "\<not> sv_Permanent i"
        by auto
      then have "mark [v] p i = i" using w Cons.prems(2) by (auto simp: mark_def)
      with i show "\<exists>i \<in> set (versions_of ?s1 u). sv_Version i = w \<and> \<not> sv_Permanent i"
        by (metis image_eqI set_map vs1(1))
    qed
  qed
  moreover have "mark vs p (mark [v] p i) = mark (v # vs) p i" for i
    using Cons.prems(2) by (auto simp: mark_def)
  ultimately show ?case using s1 vs1 by (auto simp: comp_def)
qed

text \<open>What a committed deletion of versions leaves behind.\<close>

lemma deletion_applied:
  assumes "Apply s e = Inr s'" and "state_ok s"
    and "e = newEnvelope (snap_Sequence s + 1) op k p r" and "applyPayload s e = markAll s u vs b"
    and "distinct vs" and "\<forall>v \<in> set vs. \<exists>i \<in> set (versions_of s u). sv_Version i = v \<and> \<not> sv_Permanent i"
  shows "versions_of s' u = map (mark vs b) (versions_of s u)"
    and "\<And>u'. u' \<noteq> u \<Longrightarrow> versions_of s' u' = versions_of s u'"
    and "snap_Schemas s' = snap_Schemas s"
proof -
  have d: "distinct (map sv_Version (versions_of s u))"
    using state_ok_versions [OF assms(2), of u] by (simp add: versions_ok_def)
  from markAll_marks [OF d assms(5,6), of b] obtain n where n: "markAll s u vs b = Inr n"
    "versions_of n u = map (mark vs b) (versions_of s u)" "\<And>u'. u' \<noteq> u \<Longrightarrow> versions_of n u' = versions_of s u'"
    by blast
  have s': "s' = n\<lparr>snap_Sequence := env_Sequence e, snap_Operations := snap_Operations s'\<rparr>"
    using assms(1,4) n(1) by (auto elim!: Apply_Inr)
  have "versions_of s' u' = versions_of n u'" for u'
    using arg_cong [OF s', of snap_Subjects] by (simp add: versions_of_def)
  with n show "versions_of s' u = map (mark vs b) (versions_of s u)"
    and "\<And>u'. u' \<noteq> u \<Longrightarrow> versions_of s' u' = versions_of s u'" by simp_all
  show "snap_Schemas s' = snap_Schemas s"
    using arg_cong [OF s', of snap_Schemas] markAll_same [OF n(1)] by (simp add: same_schemas_def)
qed

lemma visible_not_permanent: "visible b i \<Longrightarrow> \<not> sv_Permanent i"
  by (simp add: visible_def)

lemma exec_moved:
  assumes "exec ctx c m = (Inr r, m')" and "m_state m' \<noteq> m_state m"
  obtains e where "issued (m_state m) c e r" and "Apply (m_state m) e = Inr (m_state m')"
  using assms(1) by (cases rule: exec_state_cases) (use assms(2) that in auto)

lemma version_deleted:
  assumes "state_ok (m_state m)" and "valid_utf8 (dv_Subject c)"
    and "DeleteVersion ctx c m = (Inr r, m')" and "m_state m' \<noteq> m_state m"
  shows "(\<exists>item \<in> set (versions_of (m_state m) (dv_Subject c)). sv_Version item = dv_Version c
      \<and> \<not> sv_Permanent item \<and> sv_Deleted item = dv_Permanent c)
    \<and> (dv_Permanent c \<longrightarrow> ReferencedBy (m_state m) (dv_Subject c) (dv_Version c) = [])
    \<and> versions_of (m_state m') (dv_Subject c) =
        map (\<lambda>i. if sv_Version i = dv_Version c
           then i\<lparr>sv_Deleted := True, sv_Permanent := dv_Permanent c\<rparr> else i) (versions_of (m_state m) (dv_Subject c))
    \<and> (\<forall>subject. subject \<noteq> dv_Subject c \<longrightarrow> versions_of (m_state m') subject = versions_of (m_state m) subject)"
proof -
  have "exec ctx (CDeleteVersion c) m = (Inr r, m')" using assms(3) by simp
  then obtain e where i: "issued (m_state m) (CDeleteVersion c) e r" and a: "Apply (m_state m) e = Inr (m_state m')"
    using assms(4) by (rule exec_moved)
  from i obtain item schema where
    l: "Lookup (m_state m) (dv_Subject c) (dv_Version c) (dv_Permanent c) = (item, schema, True)"
    and p: "dv_Permanent c \<longrightarrow> sv_Deleted item \<and> ReferencedBy (m_state m) (dv_Subject c) (dv_Version c) = []"
    and e: "e = newEnvelope (snap_Sequence (m_state m) + 1) (dv_OperationID c) TransitionVersionDeleted
      (enc_deleteVersion \<lparr>dvt_Subject = dv_Subject c, dvt_Version = dv_Version c, dvt_Permanent = dv_Permanent c\<rparr>) r"
    by (elim issued_delete_version) auto
  have item: "item \<in> set (versions_of (m_state m) (dv_Subject c))" "sv_Version item = dv_Version c"
    "visible (dv_Permanent c) item"
    using l by (auto simp: Lookup_True [OF assms(1)])
  have pay: "applyPayload (m_state m) e =
      markAll (m_state m) (dv_Subject c) [dv_Version c] (dv_Permanent c)"
    using assms(2) by (simp add: e)
  note eff = deletion_applied [OF a assms(1) e pay]
  have "versions_of (m_state m') (dv_Subject c) =
      map (mark [dv_Version c] (dv_Permanent c)) (versions_of (m_state m) (dv_Subject c))"
    and "\<forall>subject. subject \<noteq> dv_Subject c \<longrightarrow> versions_of (m_state m') subject = versions_of (m_state m) subject"
    using item visible_not_permanent by (intro eff(1) allI impI eff(2); auto)+
  moreover have "\<not> sv_Permanent item" and "sv_Deleted item = dv_Permanent c"
    using item(3) p by (auto simp: visible_def)
  ultimately show ?thesis using item p by (auto simp: mark_single)
qed

text \<open>C11: Deleting a version marks exactly that version: softly if it was active, permanently only
  if it was softly deleted before and no active version of any subject refers to it. Nothing else
  of any subject changes.\<close>

theorem DeleteVersion_effect:
  assumes "state_ok (m_state m)" and "valid_utf8 (dv_Subject c)"
    and "DeleteVersion ctx c m = (Inr r, m')" and "m_state m' \<noteq> m_state m"
  shows "(\<exists>item \<in> set (versions_of (m_state m) (dv_Subject c)). sv_Version item = dv_Version c
      \<and> \<not> sv_Permanent item \<and> sv_Deleted item = dv_Permanent c)
    \<and> (dv_Permanent c \<longrightarrow> ReferencedBy (m_state m) (dv_Subject c) (dv_Version c) = [])
    \<and> versions_of (m_state m') (dv_Subject c) =
        map (\<lambda>i. if sv_Version i = dv_Version c
           then i\<lparr>sv_Deleted := True, sv_Permanent := dv_Permanent c\<rparr> else i) (versions_of (m_state m) (dv_Subject c))
    \<and> (\<forall>subject. subject \<noteq> dv_Subject c \<longrightarrow> versions_of (m_state m') subject = versions_of (m_state m) subject)"
  using assms by (rule version_deleted)

lemma distinct_Versions: "state_ok s \<Longrightarrow> distinct (Versions s u b)"
  using state_ok_versions [of s u] by (simp add: Versions_def versions_ok_def distinct_map_filter)

lemma Versions_Nil: "Versions s u b = [] \<longleftrightarrow> (\<forall>i \<in> set (versions_of s u). \<not> visible b i)"
proof -
  have "Versions s u b = [] \<longleftrightarrow> set (Versions s u b) = {}" by simp
  then show ?thesis by (auto simp: set_Versions)
qed

lemma Versions_not_permanent:
  "\<forall>v \<in> set (Versions s u b). \<exists>i \<in> set (versions_of s u). sv_Version i = v \<and> \<not> sv_Permanent i"
  by (auto simp: set_Versions visible_not_permanent)

text \<open>Deleting a subject marks every version the command sees (the active ones, or with
  \<open>permanent\<close> all that are not yet permanently deleted), returns their numbers in ascending
  order, and leaves none behind; a permanent deletion happens only when all of them were softly
  deleted before and none is referred to by an active version.\<close>

theorem DeleteSubject_effect:
  assumes "state_ok (m_state m)" and "valid_utf8 (ds_Subject c)"
    and "DeleteSubject ctx c m = (Inr r, m')" and "m_state m' \<noteq> m_state m"
  shows "res_Versions r = Versions (m_state m) (ds_Subject c) (ds_Permanent c) \<and> sorted (res_Versions r)
    \<and> Versions (m_state m') (ds_Subject c) (ds_Permanent c) = []
    \<and> (ds_Permanent c \<longrightarrow> Versions (m_state m) (ds_Subject c) False = []
        \<and> (\<forall>v \<in> set (res_Versions r). ReferencedBy (m_state m) (ds_Subject c) v = []))
    \<and> versions_of (m_state m') (ds_Subject c) =
        map (mark (res_Versions r) (ds_Permanent c)) (versions_of (m_state m) (ds_Subject c))
    \<and> (\<forall>subject. subject \<noteq> ds_Subject c \<longrightarrow> versions_of (m_state m') subject = versions_of (m_state m) subject)"
proof -
  let ?s = "m_state m" and ?u = "ds_Subject c" and ?b = "ds_Permanent c"
  let ?vs = "Versions ?s ?u ?b"
  have "exec ctx (CDeleteSubject c) m = (Inr r, m')" using assms(3) by simp
  then obtain e where i: "issued ?s (CDeleteSubject c) e r" and a: "Apply ?s e = Inr (m_state m')"
    using assms(4) by (rule exec_moved)
  from i have r: "res_Versions r = ?vs"
    and p: "?b \<longrightarrow> check_permanent ?s ?u (Versions ?s ?u True) = None"
    and e: "e = newEnvelope (snap_Sequence ?s + 1) (ds_OperationID c) TransitionSubjectDeleted
      (enc_deleteSubject \<lparr>dst_Subject = ?u, dst_Versions = ?vs, dst_Permanent = ?b\<rparr>) r"
    by (auto elim!: issued_delete_subject)
  have pay: "applyPayload ?s e = markAll ?s ?u ?vs ?b" using assms(2) by (simp add: e)
  note eff = deletion_applied [OF a assms(1) e pay distinct_Versions [OF assms(1)] Versions_not_permanent]
  have perm: "(\<exists>i \<in> set (versions_of ?s ?u). sv_Version i = v \<and> sv_Deleted i) \<and> ReferencedBy ?s ?u v = []"
    if "check_permanent ?s ?u ws = None" "v \<in> set ws" "v \<in> set (Versions ?s ?u True)" for ws v
    using that
  proof (induction ws)
    case (Cons w ws)
    then show ?case
      by (cases rule: Lookup_cases [OF assms(1), of ?u w True])
        (auto simp: zero_SubjectVersion_def split: if_splits)
  qed simp
  have soft: "Versions ?s ?u False = []" if b: ?b
  proof -
    have "sv_Deleted i" if i: "i \<in> set (versions_of ?s ?u)" "visible True i" for i
    proof -
      have "sv_Version i \<in> set (Versions ?s ?u True)" using i by (auto simp: set_Versions)
      with perm [of "Versions ?s ?u True" "sv_Version i"] p b
      obtain j where j: "j \<in> set (versions_of ?s ?u)" "sv_Version j = sv_Version i" "sv_Deleted j" by auto
      then have "j = i"
        using i state_ok_versions [OF assms(1), of ?u] by (auto simp: versions_ok_def distinct_map inj_on_def)
      with j show ?thesis by simp
    qed
    then show ?thesis by (auto simp: Versions_Nil visible_def)
  qed
  have gone: "Versions (m_state m') ?u ?b = []"
    by (auto simp: Versions_Nil eff(1) mark_def set_Versions visible_def split: if_splits)
  show ?thesis
    using r p perm soft eff gone by (auto simp: Versions_def)
qed

text \<open>In READONLY mode, global or of the subject, registrations and deletions are refused and
  the machine, store included, is left as it was.\<close>

theorem readonly_refuses:
  assumes "EffectiveMode (m_state m) (case c of CRegister x \<Rightarrow> rc_Subject x | CDeleteVersion x \<Rightarrow> dv_Subject x
      | CDeleteSubject x \<Rightarrow> ds_Subject x | _ \<Rightarrow> '''') = ModeReadOnly"
    and "retried (m_state m) (operation_of c) = None"
    and "(\<exists>x. c = CRegister x) \<or> (\<exists>x. c = CDeleteVersion x) \<or> (\<exists>x. c = CDeleteSubject x)"
  shows "\<exists>err. exec ctx c m = (Inl err, m) \<and> (CategoryOf err = ErrorReadOnly \<or> CategoryOf err = ErrorInvalid)"
  using assms
  by (auto simp: Register_def planRegister_def DeleteVersion_def DeleteSubject_def Let_def)

section \<open>References\<close>

text \<open>Every reference of an active version leads to a version that is not permanently deleted.\<close>

definition resolves :: "State \<Rightarrow> Reference \<Rightarrow> bool" where
  "resolves s ref \<longleftrightarrow> (\<exists>j \<in> set (versions_of s (ref_Subject ref)). sv_Version j = ref_Version ref \<and> \<not> sv_Permanent j)"

definition references_ok :: "State \<Rightarrow> bool" where
  "references_ok s \<longleftrightarrow>
     (\<forall>u. \<forall>i \<in> set (versions_of s u). active i \<longrightarrow> (\<forall>ref \<in> set (references_of s i). resolves s ref))"

text \<open>The identity of a schema covers its references: a registration of a known identity carries
  the references the schema has.\<close>

definition references_match :: "State \<Rightarrow> command \<Rightarrow> bool" where
  "references_match s c = (case c of
     CRegister x \<Rightarrow> (\<forall>schema \<in> fmran' (snap_Schemas s). sch_Identity schema = rc_Identity x \<longrightarrow>
       sch_References schema = rc_References x)
   | _ \<Rightarrow> True)"

lemma subject_utf8:
  assumes "snapshot_utf8 s" and "versions_of s u \<noteq> []"
  shows "valid_utf8 u"
proof (cases "fmlookup (snap_Subjects s) u")
  case (Some vs)
  with assms(1) show ?thesis unfolding snapshot_utf8_def fmpred_iff by blast
qed (use assms(2) in \<open>simp add: versions_of_def\<close>)

lemma check_references_resolves:
  assumes "state_ok s" and "check_references s refs = None" and "ref \<in> set refs"
  shows "resolves s ref"
  using assms(2,3)
proof (induction refs)
  case (Cons r refs)
  then show ?case
    by (cases rule: Lookup_cases [OF assms(1), of "ref_Subject r" "ref_Version r" False])
      (auto simp: resolves_def visible_def split: if_splits)
qed simp

lemma ReferencedBy_Nil:
  assumes "state_ok s" and "ReferencedBy s u v = []" and "i \<in> set (versions_of s w)" and "active i"
    and "ref \<in> set (references_of s i)"
  shows "\<not> (ref_Subject ref = u \<and> ref_Version ref = v)"
proof -
  have ok: "entries_ok s (entries s)" using assms(1) by (intro entries_ok_perm) simp_all
  have "i \<in> set (items (entries s))"
  proof (cases "fmlookup (snap_Subjects s) w")
    case (Some vs)
    then have "(w, vs) \<in> set (entries s)" and "i \<in> set vs"
      using assms(3) by (simp_all add: set_entries versions_of_def)
    then show ?thesis by force
  qed (use assms(3) in \<open>simp add: versions_of_def\<close>)
  moreover have "filter (\<lambda>i. active i \<and> list_ex (\<lambda>r. ref_Subject r = u \<and> ref_Version r = v) (references_of s i))
      (items (entries s)) = []"
    using assms(2) by (simp only: ReferencedBy_def ReferencedBy_items [OF ok] sort_slice_Nil_iff)
  ultimately have "\<not> list_ex (\<lambda>r. ref_Subject r = u \<and> ref_Version r = v) (references_of s i)"
    using assms(4) unfolding filter_empty_conv by blast
  then show ?thesis using assms(5) by (auto simp: list_ex_iff)
qed

lemma references_ok_extended:
  assumes "references_ok s" and vs: "\<And>w. versions_of s' w = (if w = u then versions_of s u @ [version] else versions_of s w)"
    and old: "\<And>i w. i \<in> set (versions_of s w) \<Longrightarrow> references_of s' i = references_of s i"
    and new: "\<And>ref. ref \<in> set (references_of s' version) \<Longrightarrow> resolves s ref"
  shows "references_ok s'"
  unfolding references_ok_def
proof (intro allI ballI impI)
  fix w i ref
  assume "i \<in> set (versions_of s' w)" and a: "active i" and ref: "ref \<in> set (references_of s' i)"
  then consider "i \<in> set (versions_of s w)" | "i = version" by (auto simp: vs split: if_splits)
  then have "resolves s ref"
  proof cases
    case 1
    with a ref assms(1) old show ?thesis unfolding references_ok_def by metis
  qed (use ref new in auto)
  then show "resolves s' ref" by (auto simp: resolves_def vs)
qed

text \<open>The schema a registration writes is new, or it is the one already held under that ID.\<close>

lemma candidate_keeps_schemas:
  assumes "choose_id s c = Inr sid" and "registry_inv s"
    and "\<forall>existing. fmlookup (snap_Schemas s) sid = Some existing \<longrightarrow> sch_Identity existing = rc_Identity c"
    and "k \<in> fset (fmdom (snap_Schemas s))"
  shows "fmlookup (fmupd sid (coerce_Schema (candidate_schema s c sid)) (snap_Schemas s)) k = fmlookup (snap_Schemas s) k"
proof -
  have inv: "ids_ok s" "state_ok s" "snapshot_utf8 s" using assms(2) by (simp_all add: registry_inv_def)
  from assms(1) inv(1,2) assms(3) show ?thesis
  proof (cases rule: choose_id_cases)
    case (known x)
    then have "coerce_Schema (candidate_schema s c sid) = x" using snapshot_utf8_schema [OF inv(3) known(2)] by simp
    with known(2) show ?thesis by auto
  next
    case new
    with assms(4) show ?thesis by (auto simp: fmlookup_dom_iff)
  qed
qed

lemma accepted_references_resolve:
  assumes "may_register s c" and "registry_inv s" and "ref \<in> set (map coerce_Reference (rc_References c))"
  shows "resolves s ref"
proof -
  from assms(3) obtain ref0 where ref0: "ref0 \<in> set (rc_References c)" "ref = coerce_Reference ref0" by auto
  have res: "resolves s ref0"
    using assms(1,2) ref0(1) by (intro check_references_resolves) (auto simp: may_register_def registry_inv_def)
  then have "valid_utf8 (ref_Subject ref0)"
    using assms(2) by (intro subject_utf8) (auto simp: resolves_def registry_inv_def)
  with res ref0(2) show ?thesis by (simp add: resolves_def coerce_Reference_def)
qed

lemma references_ok_registration:
  assumes "issued s (CRegister c) e r" and "Apply s e = Inr s'" and "registry_inv s" and "command_utf8 (CRegister c)"
    and "references_match s (CRegister c)" and "references_ok s"
  shows "references_ok s'"
proof -
  have inv: "ids_ok s" "state_ok s" "snapshot_utf8 s" using assms(3) by (simp_all add: registry_inv_def)
  from assms(1) obtain sid where sid: "choose_id s c = Inr sid"
    "\<forall>existing. fmlookup (snap_Schemas s) sid = Some existing \<longrightarrow> sch_Identity existing = rc_Identity c"
    and may: "may_register s c"
    and e: "e = newEnvelope (snap_Sequence s + 1) (rc_OperationID c) TransitionSchemaRegistered
          (enc_registration (planned_registration s c sid)) (planned_result s c sid)"
    by (elim issued_register) auto
  have u: "valid_utf8 (rc_Identity c)" using assms(4) by simp
  note choice = choose_id_cases [OF sid(1) inv(1,2) sid(2)]
  have cand: "sch_ID (candidate_schema s c sid) = sid" "sch_References (candidate_schema s c sid) = rc_References c"
    using assms(5) by (cases rule: choice; auto simp: candidate_schema_def references_match_def fmran'_def fmlookup_ran'_iff)+
  from assms(2) [unfolded e] u inv(3) show ?thesis
  proof (rule registration_applied)
    fix schema version
    assume schema: "schema = coerce_Schema (candidate_schema s c sid)"
      and version: "version = (rt_Version (planned_registration s c sid))\<lparr>sv_Subject := coerce_utf8 (rc_Subject c)\<rparr>"
      and s': "s' = s\<lparr>snap_Sequence := snap_Sequence s + 1,
         snap_Schemas := fmupd (sch_ID schema) schema (snap_Schemas s),
         snap_IdentityToID := fmupd (sch_Identity schema) (sch_ID schema) (snap_IdentityToID s),
         snap_Subjects := fmupd (coerce_utf8 (rc_Subject c))
           (versions_of s (coerce_utf8 (rc_Subject c)) @ [version]) (snap_Subjects s),
         snap_NextSchemaID := (if sch_ID schema \<ge> snap_NextSchemaID s then sch_ID schema + 1 else snap_NextSchemaID s),
         snap_Operations := (if rc_OperationID c = '''' then snap_Operations s
           else fmupd (rc_OperationID c) (planned_result s c sid) (snap_Operations s))\<rparr>"
    have id: "sch_ID schema = sid" using cand(1) schema by (simp add: coerce_Schema_def)
    have vs: "versions_of s' w = (if w = coerce_utf8 (rc_Subject c)
        then versions_of s (coerce_utf8 (rc_Subject c)) @ [version] else versions_of s w)" for w
      by (intro versions_of_fmupd) (simp add: s')
    have schemas: "snap_Schemas s' = fmupd sid (coerce_Schema (candidate_schema s c sid)) (snap_Schemas s)"
      using id by (simp add: s' schema)
    show "references_ok s'"
      using assms(6) vs
    proof (rule references_ok_extended)
      fix i w
      assume "i \<in> set (versions_of s w)"
      then have "sv_SchemaID i \<in> fset (fmdom (snap_Schemas s))"
        using state_ok_versions [OF inv(2), of w] by (simp add: versions_ok_def)
      from candidate_keeps_schemas [OF sid(1) assms(3) sid(2) this]
      show "references_of s' i = references_of s i" by (simp only: references_of_def schemas)
    next
      fix ref
      assume "ref \<in> set (references_of s' version)"
      moreover have "references_of s' version = map coerce_Reference (rc_References c)"
        using cand(2) by (simp add: references_of_def schemas version planned_registration_def coerce_Schema_def)
      ultimately show "resolves s ref" using accepted_references_resolve [OF may assms(3)] by simp
    qed
  qed
qed

lemma references_ok_deletion:
  assumes "references_ok s" and "state_ok s"
    and "versions_of s' u = map (mark vs p) (versions_of s u)" and "\<And>w. w \<noteq> u \<Longrightarrow> versions_of s' w = versions_of s w"
    and "snap_Schemas s' = snap_Schemas s"
    and "\<And>v. p \<Longrightarrow> v \<in> set vs \<Longrightarrow> ReferencedBy s u v = []"
  shows "references_ok s'"
  unfolding references_ok_def
proof (intro allI ballI impI)
  fix w i ref
  assume i: "i \<in> set (versions_of s' w)" and a: "active i" and ref: "ref \<in> set (references_of s' i)"
  have i': "i \<in> set (versions_of s w)"
  proof (cases "w = u")
    case True
    with i assms(3) obtain k where "k \<in> set (versions_of s u)" "i = mark vs p k" by auto
    with a True show ?thesis by (auto simp: mark_def active_def split: if_splits)
  qed (use i assms(4) in auto)
  have ref': "ref \<in> set (references_of s i)" using ref by (simp add: references_of_def assms(5))
  with i' a assms(1) obtain j where j: "j \<in> set (versions_of s (ref_Subject ref))"
    "sv_Version j = ref_Version ref" "\<not> sv_Permanent j"
    unfolding references_ok_def resolves_def by blast
  show "resolves s' ref"
  proof (cases "ref_Subject ref = u")
    case True
    have "\<not> (p \<and> sv_Version j \<in> set vs)"
      using ReferencedBy_Nil [OF assms(2) assms(6) i' a ref'] True j(2) by auto
    then have "\<not> sv_Permanent (mark vs p j)" using j(3) by (auto simp: mark_def)
    moreover have "mark vs p j \<in> set (versions_of s' (ref_Subject ref))" using j(1) True assms(3) by simp
    ultimately show ?thesis using j(2) unfolding resolves_def by (metis sv_Version_mark)
  next
    case False
    with j assms(4) show ?thesis by (auto simp: resolves_def)
  qed
qed

lemma issued_delete_subject_unreferenced:
  assumes "issued s (CDeleteSubject c) e r" and "ds_Permanent c" and "v \<in> set (Versions s (ds_Subject c) True)"
  shows "ReferencedBy s (ds_Subject c) v = []"
proof -
  have "check_permanent s u ws = None \<Longrightarrow> v \<in> set ws \<Longrightarrow> ReferencedBy s u v = []" for u ws
    by (induction ws) (auto split: if_splits prod.splits)
  with assms show ?thesis by (auto elim!: issued_delete_subject)
qed

lemma references_ok_config:
  assumes "references_ok s" and "snap_Subjects s' = snap_Subjects s" and "snap_Schemas s' = snap_Schemas s"
  shows "references_ok s'"
  using assms by (simp add: references_ok_def resolves_def references_of_def versions_of_def)

text \<open>What a deletion that was issued does to the state: it marks versions that are there.\<close>

lemma issued_delete_version_marks:
  assumes "issued s (CDeleteVersion x) e r" and "state_ok s" and "snapshot_utf8 s"
  shows "applyPayload s e = markAll s (dv_Subject x) [dv_Version x] (dv_Permanent x)"
    and "\<exists>i \<in> set (versions_of s (dv_Subject x)). sv_Version i = dv_Version x \<and> \<not> sv_Permanent i"
proof -
  from assms(1) show there: "\<exists>i \<in> set (versions_of s (dv_Subject x)). sv_Version i = dv_Version x \<and> \<not> sv_Permanent i"
    by (cases rule: issued.cases) (auto simp: Lookup_True [OF assms(2)] visible_def)
  have "valid_utf8 (dv_Subject x)" using there by (intro subject_utf8 [OF assms(3)]) auto
  with assms(1) show "applyPayload s e = markAll s (dv_Subject x) [dv_Version x] (dv_Permanent x)"
    by (cases rule: issued.cases) simp_all
qed

lemma issued_delete_subject_marks:
  assumes "issued s (CDeleteSubject x) e r" and "snapshot_utf8 s"
  shows "applyPayload s e = markAll s (ds_Subject x) (Versions s (ds_Subject x) (ds_Permanent x)) (ds_Permanent x)"
proof -
  from assms(1) have "versions_of s (ds_Subject x) \<noteq> []"
    by (cases rule: issued.cases) (auto simp: Versions_def)
  then have "valid_utf8 (ds_Subject x)" by (rule subject_utf8 [OF assms(2)])
  with assms(1) show ?thesis by (cases rule: issued.cases) simp_all
qed

text \<open>C3: No command leaves a dangling reference: as long as identities cover the references of
  their schemas, every reference of an active version keeps leading to a version that is not
  permanently deleted, because permanent deletion refuses versions that active ones refer to and
  registration refuses references that are not active.\<close>

theorem no_dangling_references:
  assumes "exec ctx c m = (out, m')" and "registry_inv (m_state m)" and "command_utf8 c"
    and "references_match (m_state m) c" and "references_ok (m_state m)"
  shows "references_ok (m_state m')"
  using assms(1)
proof (cases rule: exec_state_cases)
  case (moved e r st)
  let ?s = "m_state m" and ?s' = "m_state m'"
  have inv: "state_ok ?s" "snapshot_utf8 ?s" using assms(2) by (simp_all add: registry_inv_def)
  note a = moved(2)
  have config: "references_ok ?s'"
    if "\<And>n. applyPayload ?s e = Inr n \<Longrightarrow> snap_Subjects n = snap_Subjects ?s \<and> snap_Schemas n = snap_Schemas ?s"
    using a that by (intro references_ok_config [OF assms(5)]) (auto elim!: Apply_Inr)
  from moved(1) show ?thesis
  proof (cases rule: issued.cases)
    case (register x sid)
    then show ?thesis using references_ok_registration moved(1,2) assms(2-5) by blast
  next
    case (delete_version x item schema)
    note marks = issued_delete_version_marks [OF moved(1) [unfolded delete_version(1)] inv]
    from deletion_applied [OF a inv(1) delete_version(2) marks(1)] marks(2)
    show ?thesis
      using delete_version(5)
      by (intro references_ok_deletion [OF assms(5) inv(1), where u = "dv_Subject x" and vs = "[dv_Version x]"
            and p = "dv_Permanent x"]) auto
  next
    case (delete_subject x)
    note marks = issued_delete_subject_marks [OF moved(1) [unfolded delete_subject(1)] inv(2)]
    from deletion_applied [OF a inv(1) delete_subject(2) marks distinct_Versions [OF inv(1)] Versions_not_permanent]
    show ?thesis
      using issued_delete_subject_unreferenced [of ?s x e r] moved(1) delete_subject(1)
      by (intro references_ok_deletion [OF assms(5) inv(1), where u = "ds_Subject x"
            and vs = "Versions ?s (ds_Subject x) (ds_Permanent x)" and p = "ds_Permanent x"]) auto
  next
    case (set_compatibility level op scope)
    then show ?thesis by (intro config) (auto split: if_splits)
  next
    case (delete_compatibility subject op)
    then show ?thesis by (intro config) auto
  next
    case (set_mode mode op scope)
    then show ?thesis by (intro config) (auto split: if_splits)
  next
    case (delete_mode subject op)
    then show ?thesis by (intro config) auto
  qed
qed (use assms(5) in simp)

section \<open>A command whose checks passed applies\<close>

lemma versions_ok_evolves:
  assumes "versions_ok s u vs" and "list_all2 sv_evolves vs ws" and "snap_Schemas n = snap_Schemas s"
  shows "versions_ok n u ws"
proof -
  have "map sv_Version ws = map sv_Version vs"
    using assms(2) by (induction rule: list_all2_induct) (auto dest: sv_evolves_fields)
  moreover have "sv_Subject j = u \<and> 1 \<le> sv_Version j \<and> sv_SchemaID j \<in> fset (fmdom (snap_Schemas n))"
    if "j \<in> set ws" for j
  proof -
    from assms(2) that obtain i where "i \<in> set vs" "sv_evolves i j" by (rule list_all2_evolves_mem)
    then show ?thesis using assms(1,3) sv_evolves_fields [of i j] by (auto simp: versions_ok_def)
  qed
  ultimately show ?thesis using assms(1) by (simp add: versions_ok_def)
qed

lemma state_ok_same:
  assumes "state_ok s" and "same_schemas s n" and "same_versions s n"
    and "CompatibilityLevel_Valid (snap_GlobalCompatibility n)" and "Mode_Valid (snap_GlobalMode n)"
  shows "state_ok n"
proof -
  have "versions_ok n u ws" if u: "fmlookup (snap_Subjects n) u = Some ws" for u ws
  proof -
    have "list_all2 sv_evolves (versions_of s u) ws"
      using assms(3) u by (auto simp: same_versions_def versions_of_def dest: spec [of _ u])
    with versions_ok_evolves [OF state_ok_versions [OF assms(1)]] assms(2) show ?thesis
      by (auto simp: same_schemas_def)
  qed
  then show ?thesis using assms by (simp add: state_ok_def same_schemas_def fmpred_iff)
qed

lemma state_ok_irrelevant [simp]:
  "state_ok (n\<lparr>snap_Sequence := q, snap_Operations := f\<rparr>) = state_ok n"
  by (simp add: state_ok_def versions_ok_def fmpred_iff)

lemma Apply_issued_ex:
  assumes "e = newEnvelope (snap_Sequence s + 1) op k p r" and "k \<noteq> ''''" and "snap_Sequence s + 1 \<noteq> 0"
    and "applyPayload s e = Inr n" and "state_ok n"
  shows "\<exists>s'. Apply s e = Inr s'"
  by (intro exI, rule Apply_issued [OF assms(1-4) refl]) (use assms(5) in simp)

definition max_int64 :: int64 where "max_int64 = int64_of (2 ^ 63 - 1)"

text \<open>What the transition of a command needs to apply: room in the counters, which are 64-bit integers,
  a positive version and a subject that survives the coding.\<close>

definition applicable :: "State \<Rightarrow> command \<Rightarrow> bool" where
  "applicable s c \<longleftrightarrow> snap_Sequence s + 1 \<noteq> 0 \<and>
     (case c of CRegister x \<Rightarrow>
        1 \<le> planned_version s x \<and> valid_utf8 (rc_Subject x)
        \<and> snap_NextSchemaID s \<noteq> max_int64 \<and> rc_RequestedID x \<noteq> max_int64
      | _ \<Rightarrow> True)"

lemma int64_successor: "1 \<le> x \<Longrightarrow> x \<noteq> max_int64 \<Longrightarrow> 1 \<le> x + (1::int64)"
proof -
  assume a: "1 \<le> x" "x \<noteq> max_int64"
  have "sint64 max_int64 = 2 ^ 63 - 1" by (simp add: max_int64_def sint64_int64_of)
  with a(2) sint64_inject [of x max_int64] have "sint64 x \<noteq> 2 ^ 63 - 1" by metis
  with a(1) show ?thesis using sint64_upper [of x]
    by (auto simp: int64_ge1_iff sint64_plus1)
qed

text \<open>The state a registration leaves is well formed.\<close>

lemma registered_state_ok:
  assumes ok: "state_ok s" and id: "sch_Identity schema = k" and sid: "snap_NextSchemaID s \<le> sid \<Longrightarrow> sid \<noteq> max_int64"
    and held: "\<forall>existing. fmlookup (snap_Schemas s) sid = Some existing \<longrightarrow> sch_Identity existing = k"
    and v: "sv_Subject v = u" "1 \<le> sv_Version v" "sv_SchemaID v = sid" "sv_Version v \<notin> sv_Version ` set (versions_of s u)"
  shows "state_ok (s\<lparr>snap_Schemas := fmupd sid schema (snap_Schemas s),
      snap_IdentityToID := fmupd k sid (snap_IdentityToID s),
      snap_Subjects := fmupd u (versions_of s u @ [v]) (snap_Subjects s),
      snap_NextSchemaID := (if sid \<ge> snap_NextSchemaID s then sid + 1 else snap_NextSchemaID s)\<rparr>)" (is "state_ok ?n")
proof -
  have "1 \<le> snap_NextSchemaID ?n"
    using sid state_okD(1) [OF ok] by (auto simp: int64_successor)
  moreover have "versions_ok ?n w ws" if "fmlookup (snap_Subjects ?n) w = Some ws" for w ws
  proof -
    have "versions_ok ?n w (versions_of s w)"
      using state_ok_versions [OF ok, of w] by (auto simp: versions_ok_def)
    moreover have "ws = (if w = u then versions_of s u @ [v] else versions_of s w)"
      using that by (auto simp: versions_of_def split: if_splits)
    ultimately show ?thesis using v by (auto simp: versions_ok_def)
  qed
  moreover have "map_option sch_Identity (fmlookup (snap_Schemas ?n) j) = Some i"
    if "fmlookup (snap_IdentityToID ?n) i = Some j" for i j
  proof (cases "i = k")
    case True
    with that id show ?thesis by simp
  next
    case False
    with that have "fmlookup (snap_IdentityToID s) i = Some j" by simp
    note j = state_okD(4) [OF ok this]
    with False held have "j \<noteq> sid" by auto
    with j show ?thesis by auto
  qed
  ultimately show ?thesis
    using state_okD(2,3) [OF ok] by (simp add: state_ok_def fmpred_iff)
qed

lemma registration_applies:
  assumes "issued s (CRegister c) e r" and "registry_inv s" and "command_utf8 (CRegister c)"
    and "applicable s (CRegister c)"
  shows "\<exists>s'. Apply s e = Inr s'"
proof -
  have inv: "ids_ok s" "state_ok s" "snapshot_utf8 s" using assms(2) by (simp_all add: registry_inv_def)
  have room: "snap_Sequence s + 1 \<noteq> 0" "1 \<le> planned_version s c" "valid_utf8 (rc_Subject c)"
    "snap_NextSchemaID s \<noteq> max_int64" "rc_RequestedID c \<noteq> max_int64"
    using assms(4) by (simp_all add: applicable_def)
  from assms(1) obtain sid where sid: "choose_id s c = Inr sid"
    "\<forall>existing. fmlookup (snap_Schemas s) sid = Some existing \<longrightarrow> sch_Identity existing = rc_Identity c"
    and fresh: "planned_version s c \<notin> sv_Version ` set (versions_of s (rc_Subject c))"
    and e: "e = newEnvelope (snap_Sequence s + 1) (rc_OperationID c) TransitionSchemaRegistered
          (enc_registration (planned_registration s c sid)) r"
    by (elim issued_register) auto
  have u: "valid_utf8 (rc_Identity c)" using assms(3) by simp
  let ?p = "coerce_registration (planned_registration s c sid)"
  let ?schema = "coerce_Schema (candidate_schema s c sid)"
  have cand: "sch_ID ?schema = sid" "sch_Identity ?schema = rc_Identity c"
    "sid = snap_NextSchemaID s \<or> sid = rc_RequestedID c \<or> sid < snap_NextSchemaID s"
    unfolding candidate_coerced(1,2) [OF u inv(3), of sid]
    by (cases rule: choose_id_cases [OF sid(1) inv(1,2) sid(2)]; simp add: candidate_schema_def)+
  have p: "rt_Schema ?p = ?schema"
    "rt_Version ?p = \<lparr>sv_Subject = rc_Subject c, sv_Version = planned_version s c, sv_SchemaID = sid,
        sv_Timestamp = rc_Timestamp c, sv_Sequence = snap_Sequence s + 1, sv_Deleted = False, sv_Permanent = False\<rparr>"
    using room(3) by (simp_all add: coerce_registration_def planned_registration_def coerce_SubjectVersion_def)
  let ?n = "s\<lparr>snap_Schemas := fmupd sid ?schema (snap_Schemas s),
         snap_IdentityToID := fmupd (rc_Identity c) sid (snap_IdentityToID s),
         snap_Subjects := fmupd (rc_Subject c) (versions_of s (rc_Subject c) @ [rt_Version ?p]) (snap_Subjects s),
         snap_NextSchemaID := (if sid \<ge> snap_NextSchemaID s then sid + 1 else snap_NextSchemaID s)\<rparr>"
  have n: "applyPayload s e = Inr ?n"
    unfolding e applyPayload_issued apply_registration_Inr
    using sid(2) cand by (auto simp: p)
  have "state_ok ?n"
    using cand(2,3) sid(2) room(2,4,5) fresh by (intro registered_state_ok [OF inv(2)]) (auto simp: p)
  then show ?thesis by (intro Apply_issued_ex [OF e _ room(1) n]) simp
qed

lemma deletion_applies:
  assumes "e = newEnvelope (snap_Sequence s + 1) op k p r" and "k \<noteq> ''''" and "snap_Sequence s + 1 \<noteq> 0"
    and "applyPayload s e = markAll s u vs b" and "state_ok s" and "distinct vs"
    and "\<forall>v \<in> set vs. \<exists>i \<in> set (versions_of s u). sv_Version i = v \<and> \<not> sv_Permanent i"
  shows "\<exists>s'. Apply s e = Inr s'"
proof -
  have "distinct (map sv_Version (versions_of s u))"
    using state_ok_versions [OF assms(5), of u] by (simp add: versions_ok_def)
  from markAll_marks [OF this assms(6,7), of b] obtain n where n: "markAll s u vs b = Inr n" by blast
  have "snap_GlobalCompatibility n = snap_GlobalCompatibility s" "snap_GlobalMode n = snap_GlobalMode s"
    using markAll_config [OF n] by (metis Snapshot.select_convs Snapshot.surjective Snapshot.update_convs(6))+
  then have "state_ok n"
    using state_okD(2,3) [OF assms(5)]
    by (intro state_ok_same [OF assms(5) markAll_same [OF n] markAll_versions [OF n]]) simp_all
  with assms(1-4) n show ?thesis by (intro Apply_issued_ex) simp_all
qed

lemma issued_applies:
  assumes "issued s c e r" and "registry_inv s" and "command_utf8 c" and "applicable s c"
  shows "\<exists>s'. Apply s e = Inr s'"
proof -
  have inv: "state_ok s" "snapshot_utf8 s" using assms(2) by (simp_all add: registry_inv_def)
  have seq: "snap_Sequence s + 1 \<noteq> 0" using assms(4) by (simp add: applicable_def)
  have config: "\<exists>s'. Apply s e = Inr s'"
    if "e = newEnvelope (snap_Sequence s + 1) op k p r'" "k \<noteq> ''''"
      "\<exists>n. applyPayload s e = Inr n \<and> same_schemas s n \<and> snap_Subjects n = snap_Subjects s
        \<and> CompatibilityLevel_Valid (snap_GlobalCompatibility n) \<and> Mode_Valid (snap_GlobalMode n)" for op k p r'
  proof -
    from that(3) obtain n where "applyPayload s e = Inr n" and "state_ok n"
      using state_ok_same [OF inv(1)] same_versions_refl by blast
    with that(1,2) seq show ?thesis by (intro Apply_issued_ex)
  qed
  from assms(1) show ?thesis
  proof (cases rule: issued.cases)
    case (register x sid)
    with registration_applies assms show ?thesis by metis
  next
    case (delete_version x item schema)
    note marks = issued_delete_version_marks [OF assms(1) [unfolded delete_version(1)] inv]
    from deletion_applies [OF delete_version(2) _ seq marks(1) inv(1)] marks(2) show ?thesis by auto
  next
    case (delete_subject x)
    note marks = issued_delete_subject_marks [OF assms(1) [unfolded delete_subject(1)] inv(2)]
    from deletion_applies [OF delete_subject(2) _ seq marks inv(1) distinct_Versions [OF inv(1)] Versions_not_permanent]
    show ?thesis by simp
  next
    case (set_compatibility level op scope)
    show ?thesis
      using set_compatibility state_okD(2,3) [OF inv(1)] valid_utf8_levels(1) [of level]
      by (intro config [OF set_compatibility(2)]) (auto simp: same_schemas_def)
  next
    case (delete_compatibility subject op)
    show ?thesis
      using delete_compatibility state_okD(2,3) [OF inv(1)]
      by (intro config [OF delete_compatibility(2)]) (auto simp: same_schemas_def)
  next
    case (set_mode mode op scope)
    show ?thesis
      using set_mode state_okD(2,3) [OF inv(1)] valid_utf8_levels(2) [of mode]
      by (intro config [OF set_mode(2)]) (auto simp: same_schemas_def)
  next
    case (delete_mode subject op)
    show ?thesis
      using delete_mode state_okD(2,3) [OF inv(1)]
      by (intro config [OF delete_mode(2)]) (auto simp: same_schemas_def)
  qed
qed

text \<open>Room in the counters alone.\<close>

definition headroom :: "State \<Rightarrow> command \<Rightarrow> bool" where
  "headroom s c \<longleftrightarrow> snap_Sequence s + 1 \<noteq> 0 \<and>
     (case c of CRegister x \<Rightarrow>
        1 \<le> nextVersion (versions_of s (rc_Subject x)) \<and> snap_NextSchemaID s \<noteq> max_int64 \<and> rc_RequestedID x \<noteq> max_int64
      | _ \<Rightarrow> True)"

text \<open>The two things about its target that a registration does not check: the sign of a version that is
  asked for, and that the subject is UTF-8.\<close>

definition misaddressed :: "command \<Rightarrow> bool" where
  "misaddressed c \<longleftrightarrow>
     (case c of CRegister x \<Rightarrow> rc_RequestedVersion x < 0 \<or> \<not> valid_utf8 (rc_Subject x) | _ \<Rightarrow> False)"

lemma int64_sign: "x \<noteq> 0 \<Longrightarrow> 1 \<le> x \<longleftrightarrow> \<not> x < (0::int64)"
  using sint64_inject [of x 0] by (auto simp: int64_ge1_iff less_int64_def)

lemma headroom_applicable: "headroom s c \<Longrightarrow> \<not> misaddressed c \<Longrightarrow> applicable s c"
  by (cases c) (auto simp: headroom_def misaddressed_def applicable_def planned_version_def int64_sign)

text \<open>C12: A command reports corruption of a healthy registry only where a registration is misaddressed,
  and then it has changed nothing. While the 64-bit counters have room, an error is a refusal (invalid,
  not found, conflict, incompatible, read-only), with nothing handed to the store; or the store's own
  failure wrapped as a storage error; or, for a registration with a negative version or a subject that
  is not UTF-8 only, the refusal to apply a transition the machine has built itself, again with nothing
  handed to the store. In all other cases the transition a command builds applies to the state it was
  built from.\<close>

theorem commands_never_corrupt:
  assumes "registry_inv (m_state m)" and "command_utf8 c" and "headroom (m_state m) c"
    and "exec ctx c m = (Inl err, m')"
  shows "refusal err \<and> m' = m
    \<or> (\<exists>e cause st. m_commit m ctx e (m_store m) = (Some cause, st) \<and> m' = m\<lparr>m_store := st\<rparr>
        \<and> err = DomainErr ErrorStorage ''transition'' ''durable commit failed'' [] (Some cause))
    \<or> (\<exists>e r. misaddressed c \<and> m' = m \<and> issued (m_state m) c e r \<and> Apply (m_state m) e = Inl err)"
proof (cases rule: exec_cases [of m c ctx])
  case (commit e r)
  have "misaddressed c" if "Apply (m_state m) e = Inl err'" for err'
    using issued_applies [OF commit(1) assms(1,2)] headroom_applicable [OF assms(3)] that by auto
  with commit assms(4) show ?thesis
    by (cases rule: commitApply_cases [of m e ctx r]) auto
qed (use assms(4) in auto)

text \<open>The exception is real: a negative version is planned like any other in IMPORT mode, and the
  transition it gives never applies.\<close>

theorem negative_version_never_applies:
  assumes "issued s (CRegister c) e r" and "rc_RequestedVersion c < 0"
  shows "\<exists>err. Apply s e = Inl err"
proof (cases "Apply s e")
  case (Inr s')
  from assms(1) obtain sid where e: "e = newEnvelope (snap_Sequence s + 1) (rc_OperationID c) TransitionSchemaRegistered
          (enc_registration (planned_registration s c sid)) r"
    by (elim issued_register) auto
  let ?v = "rt_Version (coerce_registration (planned_registration s c sid))"
  from Inr obtain n where n: "applyPayload s e = Inr n" and s': "state_ok s'" "snap_Subjects s' = snap_Subjects n"
    by (elim Apply_Inr) auto
  have "?v \<in> set (versions_of s' (sv_Subject ?v))"
    using n unfolding e applyPayload_issued apply_registration_Inr by (auto simp: versions_of_def s'(2))
  then have "1 \<le> sv_Version ?v"
    using state_ok_versions [OF s'(1)] by (auto simp: versions_ok_def)
  then show ?thesis
    using assms(2) int64_sign [of "rc_RequestedVersion c"]
    by (auto simp: coerce_registration_def planned_registration_def coerce_SubjectVersion_def planned_version_def
        split: if_splits)
qed simp

section \<open>Configuration\<close>

text \<open>Configuration takes effect where it was set and is inherited elsewhere: setting the level
  of a subject changes that subject's effective level only, setting the global one changes every
  subject without a level of its own, and deleting a subject's level gives it the global one. The
  same holds for modes.\<close>

theorem configuration_effect:
  assumes "m_state m' \<noteq> m_state m" and "valid_utf8 subject" and "exec ctx c m = (out, m')"
    and "c \<in> {CSetCompatibility op \<lparr>sc_Subject = subject\<rparr> level, CSetMode op \<lparr>sc_Subject = subject\<rparr> level,
        CDeleteCompatibility op subject, CDeleteMode op subject}"
  shows "EffectiveCompatibility (m_state m') other =
      (if c = CSetCompatibility op \<lparr>sc_Subject = subject\<rparr> level
            \<and> (if subject = '''' then SubjectCompatibility (m_state m) other = None else other = subject) then level
       else if c = CDeleteCompatibility op subject \<and> other = subject then snap_GlobalCompatibility (m_state m)
       else EffectiveCompatibility (m_state m) other)
    \<and> EffectiveMode (m_state m') other =
      (if c = CSetMode op \<lparr>sc_Subject = subject\<rparr> level
            \<and> (if subject = '''' then SubjectMode (m_state m) other = None else other = subject) then level
       else if c = CDeleteMode op subject \<and> other = subject then snap_GlobalMode (m_state m)
       else EffectiveMode (m_state m) other)"
proof -
  from assms(3) obtain e r where i: "issued (m_state m) c e r" and a: "Apply (m_state m) e = Inr (m_state m')"
    by (cases rule: exec_state_cases) (use assms(1) in auto)
  from a obtain n where n: "applyPayload (m_state m) e = Inr n"
    and f: "snap_SubjectCompatibility (m_state m') = snap_SubjectCompatibility n"
      "snap_GlobalCompatibility (m_state m') = snap_GlobalCompatibility n"
      "snap_SubjectModes (m_state m') = snap_SubjectModes n" "snap_GlobalMode (m_state m') = snap_GlobalMode n"
    by (elim Apply_Inr) auto
  note defs = EffectiveCompatibility_def EffectiveMode_def SubjectCompatibility_def SubjectMode_def
  from i show ?thesis
  proof (cases rule: issued.cases)
    case (set_compatibility l op' scope)
    then have c: "c = CSetCompatibility op \<lparr>sc_Subject = subject\<rparr> level" "l = level" "scope = \<lparr>sc_Subject = subject\<rparr>"
      and l: "valid_utf8 level"
      using assms(4) valid_utf8_levels(1) by auto
    have "n = (if subject = '''' then (m_state m)\<lparr>snap_GlobalCompatibility := level\<rparr>
        else (m_state m)\<lparr>snap_SubjectCompatibility := fmupd subject level (snap_SubjectCompatibility (m_state m))\<rparr>)"
      using n l assms(2) unfolding set_compatibility(2) applyPayload_issued(4) c(2,3) by (auto split: if_splits)
    then show ?thesis by (simp add: defs f c(1) split: option.split)
  next
    case (delete_compatibility u op')
    then have c: "c = CDeleteCompatibility op subject" "u = subject" using assms(4) by auto
    have "n = (m_state m)\<lparr>snap_SubjectCompatibility := fmdrop subject (snap_SubjectCompatibility (m_state m))\<rparr>"
      using n assms(2) unfolding delete_compatibility(2) applyPayload_issued(5) c(2) by simp
    then show ?thesis by (simp add: defs f c(1) split: option.split)
  next
    case (set_mode l op' scope)
    then have c: "c = CSetMode op \<lparr>sc_Subject = subject\<rparr> level" "l = level" "scope = \<lparr>sc_Subject = subject\<rparr>"
      and l: "valid_utf8 level"
      using assms(4) valid_utf8_levels(2) by auto
    have "n = (if subject = '''' then (m_state m)\<lparr>snap_GlobalMode := level\<rparr>
        else (m_state m)\<lparr>snap_SubjectModes := fmupd subject level (snap_SubjectModes (m_state m))\<rparr>)"
      using n l assms(2) unfolding set_mode(2) applyPayload_issued(6) c(2,3) by (auto split: if_splits)
    then show ?thesis by (simp add: defs f c(1) split: option.split)
  next
    case (delete_mode u op')
    then have c: "c = CDeleteMode op subject" "u = subject" using assms(4) by auto
    have "n = (m_state m)\<lparr>snap_SubjectModes := fmdrop subject (snap_SubjectModes (m_state m))\<rparr>"
      using n assms(2) unfolding delete_mode(2) applyPayload_issued(7) c(2) by simp
    then show ?thesis by (simp add: defs f c(1) split: option.split)
  qed (use assms(4) in auto)
qed

section \<open>Followers\<close>

text \<open>Delivering transitions to a machine one by one; a replica stops at the first error.\<close>

fun follow :: "Envelope list \<Rightarrow> 'st Machine \<Rightarrow> go_error option \<times> 'st Machine" where
  "follow [] m = (None, m)"
| "follow (e # es) m = (case ApplyCommitted e m of (Some err, m') \<Rightarrow> (Some err, m') | (None, m') \<Rightarrow> follow es m')"

lemma Apply_sequence_less: "Apply s e = Inr s' \<Longrightarrow> snap_Sequence s < env_Sequence e \<and> snap_Sequence s' = env_Sequence e"
  by (erule Apply_Inr) (auto simp: Validate_None_iff intro: u64_plus1_greater)

lemma apply_all_bounds:
  "apply_all s es = Inr s' \<Longrightarrow>
     snap_Sequence s \<le> snap_Sequence s' \<and> (\<forall>e \<in> set es. env_Sequence e \<le> snap_Sequence s')"
proof (induction es arbitrary: s)
  case (Cons e es)
  then obtain t where t: "Apply s e = Inr t" "apply_all t es = Inr s'"
    by (auto split: sum.splits)
  from Cons.IH [OF t(2)] Apply_sequence_less [OF t(1)] show ?case by auto
qed simp

lemma follow_append:
  "follow (xs @ ys) m = (case follow xs m of (Some err, m') \<Rightarrow> (Some err, m') | (None, m') \<Rightarrow> follow ys m')"
  by (induction xs arbitrary: m) (auto split: prod.split option.split)

lemma follow_apply_all:
  "apply_all (m_state m) es = Inr s' \<Longrightarrow> follow es m = (None, m\<lparr>m_state := s'\<rparr>)"
proof (induction es arbitrary: m)
  case (Cons e es)
  then obtain t where t: "Apply (m_state m) e = Inr t" "apply_all t es = Inr s'"
    by (auto split: sum.splits)
  have "\<not> env_Sequence e \<le> snap_Sequence (m_state m)" using Apply_sequence_less [OF t(1)] by auto
  with t Cons.IH [of "m\<lparr>m_state := t\<rparr>"] show ?case by (simp add: ApplyCommitted_def)
qed simp

lemma follow_stale:
  "\<forall>e \<in> set es. env_Sequence e \<le> snap_Sequence (m_state m) \<Longrightarrow> follow es m = (None, m)"
  by (induction es) (simp_all add: ApplyCommitted_def)

text \<open>C20: Replicas converge: a machine that is delivered the transitions committed after its own
  state, each followed or not by any transitions already delivered, ends in the state those
  transitions lead to, without calling its committer; a stale or repeated transition changes
  nothing.\<close>

theorem followers_converge:
  assumes "apply_all (m_state m) (es @ fs) = Inr s'" and "set stale \<subseteq> set es" and "set stale' \<subseteq> set (es @ fs)"
  shows "follow (es @ stale @ fs @ stale') m = (None, m\<lparr>m_state := s'\<rparr>)"
proof -
  from assms(1) obtain t where t: "apply_all (m_state m) es = Inr t" "apply_all t fs = Inr s'"
    by (auto simp: apply_all_append split: sum.splits)
  have "follow stale (m\<lparr>m_state := t\<rparr>) = (None, m\<lparr>m_state := t\<rparr>)"
    using apply_all_bounds [OF t(1)] assms(2) by (intro follow_stale) auto
  moreover have "follow stale' (m\<lparr>m_state := s'\<rparr>) = (None, m\<lparr>m_state := s'\<rparr>)"
    using apply_all_bounds [OF assms(1)] assms(3) by (intro follow_stale) auto
  ultimately show ?thesis
    using follow_apply_all [OF t(1)] follow_apply_all [of "m\<lparr>m_state := t\<rparr>" fs s'] t(2)
    by (simp add: follow_append)
qed

text \<open>C21: History is append-only: whatever valid transitions a state takes, every version it had
  keeps its subject, number, schema, timestamp and sequence and can only gain deletion marks, new
  versions come after the old ones, every schema ID keeps its identity, and the next schema ID
  never goes down.\<close>

theorem transitions_append_only:
  assumes "apply_all s es = Inr s'" and "validate s = None"
  shows "history_extends s s' \<and> validate s' = None \<and> snap_Sequence s' = snap_Sequence s + of_nat (length es)"
  using assms apply_all_history [OF assms(1)] apply_all_ok [OF assms(1)] apply_all_Sequence [OF assms(1)]
  by (simp add: validate_None_iff)

end
