(* ===== verification/Formats.thy ===== *)
theory Formats
  imports Machine_Behaviour
begin

text \<open>
  \<open>internal/formats/engine.go\<close>, the contract between the registry and the schema formats, and
  the compatibility callback \<open>internal/app/app.go\<close> builds on it. An engine is a value of the
  Go interface: a record of its three methods, over a type \<open>'n\<close> of its own parsed values. The
  callers of an engine read nothing of its error but the text, so the error is its text.
\<close>

record Limits =
  lim_MaxSchemaBytes :: nat
  lim_MaxReferences :: nat
  lim_MaxReferenceDepth :: nat

definition DefaultLimits :: Limits where
  "DefaultLimits = \<lparr>lim_MaxSchemaBytes = 1048576, lim_MaxReferences = 100, lim_MaxReferenceDepth = 20\<rparr>"

record ParseRequest =
  pr_Definition :: string
  pr_References :: "Reference list"
  pr_Normalize :: bool
  pr_Limits :: Limits

record 'n Parsed =
  p_Type :: string
  p_Definition :: string
  p_Canonical :: string
  p_Identity :: string
  p_References :: "Reference list"
  p_Native :: 'n

type_synonym Resolver = "ctx \<Rightarrow> Reference \<Rightarrow> string + Schema"

record 'n Engine =
  en_Type :: string
  en_Parse :: "ctx \<Rightarrow> ParseRequest \<Rightarrow> Resolver \<Rightarrow> string + 'n Parsed"
  en_Compatible :: "ctx \<Rightarrow> string \<Rightarrow> 'n Parsed \<Rightarrow> 'n Parsed list \<Rightarrow> string + bool \<times> string list"

text \<open>The resolver of the application and of the REST adapter: active versions only.\<close>

definition appResolver_Resolve :: "State \<Rightarrow> Resolver" where
  "appResolver_Resolve s ctx reference =
     (case Lookup s (ref_Subject reference) (ref_Version reference) False of
        (_, schema, ok) \<Rightarrow> if \<not> ok then Inl ''referenced schema not found'' else Inr schema)"

text \<open>A stored schema is parsed again as it is, never normalised.\<close>

definition stored_request :: "Schema \<Rightarrow> ParseRequest" where
  "stored_request schema =
     \<lparr>pr_Definition = sch_Definition schema, pr_References = sch_References schema,
      pr_Normalize = False, pr_Limits = DefaultLimits\<rparr>"

fun parse_previous :: "'n Engine \<Rightarrow> ctx \<Rightarrow> Resolver \<Rightarrow> Schema list \<Rightarrow> string + 'n Parsed list" where
  "parse_previous engine ctx resolver [] = Inr []"
| "parse_previous engine ctx resolver (schema # rest) =
     (case en_Parse engine ctx (stored_request schema) resolver of
        Inl err \<Rightarrow> Inl err
      | Inr parsed \<Rightarrow> map_sum (\<lambda>e. e) ((#) parsed) (parse_previous engine ctx resolver rest))"

definition compatibilityChecker :: "ctx \<Rightarrow> (string \<Rightarrow> 'n Engine option) \<Rightarrow> compatibility_check" where
  "compatibilityChecker ctx engines current level candidate previous =
     (case engines (sch_Type candidate) of
        None \<Rightarrow> (False, [''schema format engine is unavailable''])
      | Some engine \<Rightarrow>
          (case en_Parse engine ctx (stored_request candidate) (appResolver_Resolve current) of
             Inl err \<Rightarrow> (False, [err])
           | Inr parsedCandidate \<Rightarrow>
               (case parse_previous engine ctx (appResolver_Resolve current) previous of
                  Inl err \<Rightarrow> (False, [err])
                | Inr parsedPrevious \<Rightarrow>
                    (case en_Compatible engine ctx level parsedCandidate parsedPrevious of
                       Inl err \<Rightarrow> (False, [err])
                     | Inr (compatible, messages) \<Rightarrow> (compatible, messages)))))"

end
