(* ===== verification/Http.thy ===== *)
theory Http
  imports Domain_Types
begin

text \<open>
  What the HTTP layers of the program use of \<open>net/http\<close>, \<open>net/url\<close> and
  \<open>encoding/base64\<close>. A request is what the handlers read of it: the method, the segments of its
  path, decoded and as they are escaped in the URL, the raw query, the headers (names up to canonicalisation), the peer
  address and the body; the 16 bytes \<open>crypto/rand\<close> would give (\<open>None\<close> where it fails) and
  the clock are fields too. A response is its status, headers and body.

  The text of an error that \<open>encoding/json\<close> or the domain produces is not rendered: such a
  message is the error itself behind its prefix.
\<close>

section \<open>Requests and responses\<close>

record request =
  rq_Method :: string
  rq_Path :: "string list"
  rq_Escaped :: "string list"
  rq_RawQuery :: string
  rq_Header :: "(string \<times> string) list"
  rq_RemoteAddr :: string
  rq_Body :: string
  rq_Ctx :: ctx
  rq_Random :: "string option"
  rq_Now :: int64
  rq_PathValues :: "(string \<times> string) list"

datatype message = MText string | MErr string go_error

datatype body =
    BJson json
  | BText string
  | BError nat message
  | BDefault
  | BRedirect "string list" string
  | BPanic

record response =
  rs_Status :: nat
  rs_Header :: "(string \<times> string) list"
  rs_Body :: body

abbreviation HeaderGet :: "(string \<times> string) list \<Rightarrow> string \<Rightarrow> string" where
  "HeaderGet h k \<equiv> (case map_of h k of None \<Rightarrow> '''' | Some v \<Rightarrow> v)"

definition HeaderSet :: "string \<Rightarrow> string \<Rightarrow> (string \<times> string) list \<Rightarrow> (string \<times> string) list" where
  "HeaderSet k v h = (k, v) # filter (\<lambda>(n, _). n \<noteq> k) h"

lemma HeaderGet_Set [simp]: "map_of (HeaderSet k v h) n = (if n = k then Some v else map_of h n)"
  by (induction h) (auto simp: HeaderSet_def)

definition PathValue :: "request \<Rightarrow> string \<Rightarrow> string" where
  "PathValue r name = (case map_of (rq_PathValues r) name of None \<Rightarrow> '''' | Some v \<Rightarrow> v)"

text \<open>\<open>URL.Path\<close>.\<close>

definition URL_Path :: "request \<Rightarrow> string" where
  "URL_Path r = (if rq_Path r = [] then ''/'' else concat (map (\<lambda>x. CHR ''/'' # x) (rq_Path r)))"

section \<open>Paths that are not clean\<close>

text \<open>Before it looks for a pattern, \<open>http.ServeMux\<close> cleans the escaped path: it removes empty
  segments and \<open>.\<close>, resolves \<open>..\<close>, and keeps a slash at the end. If that changes the path, the
  answer is a redirection to the clean one, with the query, whatever the patterns are; only CONNECT
  requests are exempt. The segments of the path \<open>/\<close> are one that is empty, those of the empty path are
  none. The status is that of the Go release the module asks for (301 up to Go 1.25); the text of the
  location is not rendered.\<close>

fun clean_segments :: "string list \<Rightarrow> string list \<Rightarrow> string list" where
  "clean_segments acc [] = rev acc"
| "clean_segments acc (x # xs) =
     (if x = '''' \<or> x = ''.'' then clean_segments acc xs
      else if x = ''..'' then clean_segments (tl acc) xs
      else clean_segments (x # acc) xs)"

definition cleanPath :: "string list \<Rightarrow> string list" where
  "cleanPath xs =
     (let ys = clean_segments [] xs in
      if ys = [] then [''''] else if last xs = '''' then ys @ [''''] else ys)"

definition redirects :: "request \<Rightarrow> bool" where
  "redirects r \<longleftrightarrow> rq_Method r \<noteq> ''CONNECT'' \<and> cleanPath (rq_Escaped r) \<noteq> rq_Escaped r"

definition redirect_response :: "request \<Rightarrow> response" where
  "redirect_response r =
     \<lparr>rs_Status = 307,
      rs_Header = (if rq_Method r \<in> {''GET'', ''HEAD''} then [(''Content-Type'', ''text/html; charset=utf-8'')] else []),
      rs_Body = BRedirect (cleanPath (rq_Escaped r)) (rq_RawQuery r)\<rparr>"

lemma clean_segments_clean: "list_all (\<lambda>x. x \<notin> {'''', ''.'', ''..''}) xs \<Longrightarrow> clean_segments acc xs = rev acc @ xs"
  by (induction xs arbitrary: acc) simp_all

lemma clean_segments_skip:
  "list_all (\<lambda>x. x \<notin> {'''', ''.'', ''..''}) xs \<Longrightarrow> clean_segments acc (xs @ ['''']) = rev acc @ xs"
  by (induction xs arbitrary: acc) simp_all

lemma cleanPath_clean: "list_all (\<lambda>x. x \<notin> {'''', ''.'', ''..''}) xs \<Longrightarrow> xs \<noteq> [] \<Longrightarrow> cleanPath xs = xs"
  using last_in_set [of xs] by (auto simp: cleanPath_def clean_segments_clean list_all_iff)

lemma clean_segments_result:
  "list_all (\<lambda>x. x \<notin> {'''', ''.'', ''..''}) acc \<Longrightarrow> list_all (\<lambda>x. x \<notin> {'''', ''.'', ''..''}) (clean_segments acc xs)"
proof (induction xs arbitrary: acc)
  case (Cons x xs)
  then show ?case by (cases acc) simp_all
qed (simp add: list_all_iff)

text \<open>A redirection leads to a path that is not redirected again.\<close>

lemma cleanPath_idem [simp]: "cleanPath (cleanPath xs) = cleanPath xs"
proof -
  have "list_all (\<lambda>x. x \<notin> {'''', ''.'', ''..''}) (clean_segments [] xs)" by (rule clean_segments_result) simp
  then have clean: "clean_segments [] (clean_segments [] xs @ zs) = clean_segments [] xs @ clean_segments [] zs" if "zs \<in> {[], ['''']}" for zs
    using that clean_segments_clean [of "clean_segments [] xs"] clean_segments_skip [of "clean_segments [] xs"] by auto
  show ?thesis
  proof (cases "clean_segments [] xs = [] \<or> last xs = ''''")
    case True
    then show ?thesis using clean [of "['''']"] by (auto simp: cleanPath_def Let_def)
  next
    case False
    then show ?thesis
      using cleanPath_clean [of "clean_segments [] xs"] clean_segments_result [of "[]" xs] by (simp add: cleanPath_def)
  qed
qed

section \<open>URLs\<close>

text \<open>\<open>url.unescape\<close>, which reads a plus as a blank in queries only.\<close>

fun url_unescape :: "bool \<Rightarrow> string \<Rightarrow> string option" where
  "url_unescape query [] = Some []"
| "url_unescape query (c # s) =
     (if c = CHR ''%'' then
        (case s of a # b # r \<Rightarrow>
           (case (hex_val a, hex_val b) of
              (Some x, Some y) \<Rightarrow> map_option ((#) (char_of (16 * x + y))) (url_unescape query r)
            | _ \<Rightarrow> None)
         | _ \<Rightarrow> None)
      else map_option ((#) (if query \<and> c = CHR ''+'' then CHR '' '' else c)) (url_unescape query s))"

definition Cut :: "char \<Rightarrow> string \<Rightarrow> string \<times> string" where
  "Cut c s = (takeWhile (\<lambda>x. x \<noteq> c) s, tl (dropWhile (\<lambda>x. x \<noteq> c) s))"

definition query_pair :: "string \<Rightarrow> (string \<times> string) list" where
  "query_pair s =
     (if CHR '';'' \<in> set s \<or> s = '''' then []
      else case (url_unescape True (fst (Cut (CHR ''='') s)), url_unescape True (snd (Cut (CHR ''='') s))) of
        (Some k, Some v) \<Rightarrow> [(k, v)]
      | _ \<Rightarrow> [])"

definition ParseQuery :: "string \<Rightarrow> (string \<times> string) list" where
  "ParseQuery raw = concat (map query_pair (Split (CHR ''&'') raw))"

definition Query_Get :: "request \<Rightarrow> string \<Rightarrow> string" where
  "Query_Get r key = (case map_of (ParseQuery (rq_RawQuery r)) key of None \<Rightarrow> '''' | Some v \<Rightarrow> v)"

text \<open>\<open>url.Parse\<close> of a target that starts with a slash: the fragment, then the query, then an
  authority behind two slashes are cut off; the path is unescaped. Whether \<open>net/url\<close> accepts
  an authority is a parameter. A path in a valid encoding is split before it is unescaped and is its
  own escaped form; any other is split after, and is escaped anew.\<close>

definition url_escape :: "string \<Rightarrow> string" where
  "url_escape s = concat (map (\<lambda>c.
     if c \<in> set ''abcdefghijklmnopqrstuvwxyzABCDEFGHIJKLMNOPQRSTUVWXYZ0123456789'' \<or> c \<in> set ''-_.~$&+,/:;=@'' then [c]
     else [CHR ''%'', ''0123456789ABCDEF'' ! (byte c div 16), ''0123456789ABCDEF'' ! (byte c mod 16)]) s)"

definition valid_encoded :: "string \<Rightarrow> bool" where
  "valid_encoded s \<longleftrightarrow> list_all (\<lambda>c. c \<in> set ''abcdefghijklmnopqrstuvwxyzABCDEFGHIJKLMNOPQRSTUVWXYZ0123456789''
     \<or> c \<in> set ''-_.~!$&()*+,;=:@[]%/'' \<or> c = CHR 0x27) s"

definition ctl_byte :: "char \<Rightarrow> bool" where
  "ctl_byte c \<longleftrightarrow> byte c < 32 \<or> byte c = 127"

definition path_segments :: "string \<Rightarrow> (string list \<times> string list) option" where
  "path_segments raw =
     (case url_unescape False raw of
        None \<Rightarrow> None
      | Some path \<Rightarrow>
          (let escaped = tl (Split (CHR ''/'') raw) in
           if raw = ''/'' \<or> raw = '''' then Some ([], escaped)
           else if valid_encoded raw then map_option (\<lambda>segments. (segments, escaped)) (those (map (url_unescape False) escaped))
           else Some (tl (Split (CHR ''/'') path), map url_escape (tl (Split (CHR ''/'') path)))))"

definition url_Parse :: "(string \<Rightarrow> bool) \<Rightarrow> string \<Rightarrow> (string list \<times> string list \<times> string) option" where
  "url_Parse authority_ok target =
     (let (u, frag) = Cut (CHR ''#'') target; (rest, query) = Cut (CHR ''?'') u in
      if list_ex ctl_byte u \<or> url_unescape False frag = None then None
      else if HasPrefix rest ''//'' \<and> \<not> HasPrefix rest ''///''
      then (let authority = takeWhile (\<lambda>c. c \<noteq> CHR ''/'') (drop 2 rest);
                path = dropWhile (\<lambda>c. c \<noteq> CHR ''/'') (drop 2 rest) in
            if authority_ok authority then map_option (\<lambda>(p, e). (p, e, query)) (path_segments path) else None)
      else map_option (\<lambda>(p, e). (p, e, query)) (path_segments rest))"

lemma url_unescape_plain: "CHR ''%'' \<notin> set s \<Longrightarrow> url_unescape False s = Some s"
  by (induction s) auto

lemma Split_no: "c \<notin> set s \<Longrightarrow> Split c s = [s]"
  by (induction s) auto

lemma Split_append: "c \<notin> set s \<Longrightarrow> Split c (s @ c # t) = s # Split c t"
  by (induction s) auto

lemma Split_segments:
  "(\<forall>x \<in> set xs. c \<notin> set x) \<Longrightarrow> xs \<noteq> [] \<Longrightarrow> Split c (concat (map (\<lambda>x. c # x) xs)) = [] # xs"
proof (induction xs)
  case (Cons x xs)
  then show ?case by (cases xs) (auto simp: Split_no Split_append)
qed simp

lemma Cut_append: "c \<notin> set s \<Longrightarrow> Cut c (s @ c # t) = (s, t)"
  unfolding Cut_def by (induction s) auto

lemma Cut_no: "c \<notin> set s \<Longrightarrow> Cut c s = (s, [])"
  unfolding Cut_def by (induction s) auto

text \<open>Segments that mean the same escaped and unescaped.\<close>

definition segment_plain :: "string \<Rightarrow> bool" where
  "segment_plain x \<longleftrightarrow> x \<noteq> [] \<and> list_all (\<lambda>c. c \<notin> {CHR ''%'', CHR ''?'', CHR ''#'', CHR ''/''} \<and> \<not> ctl_byte c) x"

definition query_plain :: "string \<Rightarrow> bool" where
  "query_plain q \<longleftrightarrow> list_all (\<lambda>c. c \<noteq> CHR ''#'' \<and> \<not> ctl_byte c) q"

text \<open>How a plain path is escaped when it is parsed.\<close>

definition escaped_form :: "request \<Rightarrow> string list" where
  "escaped_form r = (if valid_encoded (URL_Path r) then rq_Path r else map url_escape (rq_Path r))"

lemma url_escape_dots: "url_escape x \<in> {'''', ''.'', ''..''} \<Longrightarrow> x \<in> {'''', ''.'', ''..''}"
  by (cases x; cases "tl x"; cases "tl (tl x)") (auto simp: url_escape_def split: if_splits)

lemma escaped_form_clean:
  assumes "rq_Path r \<noteq> []" and "list_all (\<lambda>x. x \<notin> {'''', ''.'', ''..''}) (rq_Path r)"
  shows "cleanPath (escaped_form r) = escaped_form r"
proof (rule cleanPath_clean)
  show "list_all (\<lambda>x. x \<notin> {'''', ''.'', ''..''}) (escaped_form r)"
    using assms(2) url_escape_dots by (auto simp: escaped_form_def list_all_iff)
  show "escaped_form r \<noteq> []" using assms(1) by (simp add: escaped_form_def)
qed

lemma url_Parse_plain:
  assumes "list_all segment_plain (rq_Path r)" and "rq_Path r \<noteq> []" and "query_plain q"
  shows "url_Parse ok (URL_Path r @ (if q = '''' then '''' else CHR ''?'' # q)) = Some (rq_Path r, escaped_form r, q)"
proof -
  let ?p = "URL_Path r" and ?t = "URL_Path r @ (if q = '''' then '''' else CHR ''?'' # q)"
  have p: "?p = concat (map (\<lambda>x. CHR ''/'' # x) (rq_Path r))" using assms(2) by (simp add: URL_Path_def)
  have "\<not> ctl_byte (CHR ''/'')" "\<not> ctl_byte (CHR ''?'')" by (simp_all add: ctl_byte_def)
  then have chars: "c \<notin> {CHR ''%'', CHR ''?'', CHR ''#''} \<and> \<not> ctl_byte c" if "c \<in> set ?p" for c
  proof -
    from that consider "c = CHR ''/''" | x where "x \<in> set (rq_Path r)" "c \<in> set x"
      unfolding p by (auto split: if_splits)
    then show ?thesis
    proof cases
      case 2
      with assms(1) show ?thesis unfolding segment_plain_def list_all_iff by blast
    qed (use \<open>\<not> ctl_byte (CHR ''/'')\<close> in simp)
  qed
  have frag: "Cut (CHR ''#'') ?t = (?t, [])"
    using chars assms(3) by (intro Cut_no) (auto simp: query_plain_def list_all_iff)
  have query: "Cut (CHR ''?'') ?t = (?p, q)"
  proof -
    have "CHR ''?'' \<notin> set ?p" using chars by blast
    then show ?thesis by (simp add: Cut_no Cut_append)
  qed
  have ctl: "\<not> list_ex ctl_byte ?t"
    using chars assms(3) \<open>\<not> ctl_byte (CHR ''?'')\<close> by (auto simp: list_ex_iff query_plain_def list_all_iff)
  have noslash: "\<forall>x \<in> set (rq_Path r). CHR ''/'' \<notin> set x"
    using assms(1) by (auto simp: list_all_iff segment_plain_def)
  have split: "Split (CHR ''/'') ?p = [] # rq_Path r"
    using Split_segments [OF noslash assms(2)] by (simp add: p)
  have un: "url_unescape False ?p = Some ?p" using chars by (intro url_unescape_plain) blast
  have each: "those (map (url_unescape False) (rq_Path r)) = Some (rq_Path r)"
    using those_map_Some [of "rq_Path r" "url_unescape False" "\<lambda>x. x"] assms(1)
    by (force simp: list_all_iff segment_plain_def intro: url_unescape_plain)
  obtain x xs where x: "rq_Path r = x # xs" "x \<noteq> []" "hd x \<noteq> CHR ''/''"
    using assms(1,2) by (cases "rq_Path r") (auto simp: segment_plain_def list_all_iff)
  then have "\<not> HasPrefix ?p ''//''" and "?p \<noteq> ''/''" and "?p \<noteq> ''''"
    by (cases x; auto simp: p HasPrefix_def)+
  then show ?thesis
    using frag query ctl un split each
    by (simp add: url_Parse_def path_segments_def escaped_form_def Let_def del: list_ex_append append_assoc)
qed

section \<open>Base 64\<close>

definition b64_alphabet :: string where
  "b64_alphabet = ''ABCDEFGHIJKLMNOPQRSTUVWXYZabcdefghijklmnopqrstuvwxyz0123456789+/''"

definition b64_char :: "nat \<Rightarrow> char" where
  "b64_char n = b64_alphabet ! n"

definition b64_val :: "char \<Rightarrow> nat option" where
  "b64_val c = map_option fst (find (\<lambda>(i, d). d = c) (enumerate 0 b64_alphabet))"

fun b64_encode :: "string \<Rightarrow> string" where
  "b64_encode [] = []"
| "b64_encode [a] = [b64_char (byte a div 4), b64_char (byte a mod 4 * 16), CHR ''='', CHR ''='']"
| "b64_encode [a, b] =
     [b64_char (byte a div 4), b64_char (byte a mod 4 * 16 + byte b div 16), b64_char (byte b mod 16 * 4), CHR ''='']"
| "b64_encode (a # b # c # s) =
     b64_char (byte a div 4) # b64_char (byte a mod 4 * 16 + byte b div 16)
       # b64_char (byte b mod 16 * 4 + byte c div 64) # b64_char (byte c mod 64) # b64_encode s"

fun b64_quanta :: "string \<Rightarrow> string option" where
  "b64_quanta [] = Some []"
| "b64_quanta (a # b # c # d # s) =
     (case (b64_val a, b64_val b) of
        (Some w, Some x) \<Rightarrow>
          if c = CHR ''='' then (if d = CHR ''='' \<and> s = [] then Some [char_of (w * 4 + x div 16)] else None)
          else
            (case b64_val c of None \<Rightarrow> None
             | Some y \<Rightarrow>
                 if d = CHR ''=''
                 then (if s = [] then Some [char_of (w * 4 + x div 16), char_of (x mod 16 * 16 + y div 4)] else None)
                 else (case b64_val d of None \<Rightarrow> None
                   | Some z \<Rightarrow> map_option (\<lambda>t. char_of (w * 4 + x div 16) # char_of (x mod 16 * 16 + y div 4)
                       # char_of (y mod 4 * 64 + z) # t) (b64_quanta s)))
      | _ \<Rightarrow> None)"
| "b64_quanta s = None"

text \<open>Line breaks inside are skipped.\<close>

definition b64_decode :: "string \<Rightarrow> string option" where
  "b64_decode s = b64_quanta (filter (\<lambda>c. c \<noteq> CHR 0x0A \<and> c \<noteq> CHR 0x0D) s)"

lemma b64_val_char: "n < 64 \<Longrightarrow> b64_val (b64_char n) = Some n"
proof -
  have "list_all (\<lambda>n. b64_val (b64_char n) = Some n) [0..<64]"
    by code_simp
  then show "n < 64 \<Longrightarrow> b64_val (b64_char n) = Some n" by (simp add: list_all_iff)
qed

lemma b64_char_ne: "n < 64 \<Longrightarrow> b64_char n \<noteq> CHR ''='' \<and> b64_char n \<noteq> CHR 0x0A \<and> b64_char n \<noteq> CHR 0x0D"
proof -
  have "list_all (\<lambda>n. b64_char n \<noteq> CHR ''='' \<and> b64_char n \<noteq> CHR 0x0A \<and> b64_char n \<noteq> CHR 0x0D) [0..<64]"
    by code_simp
  then show "n < 64 \<Longrightarrow> b64_char n \<noteq> CHR ''='' \<and> b64_char n \<noteq> CHR 0x0A \<and> b64_char n \<noteq> CHR 0x0D"
    by (simp add: list_all_iff)
qed

lemma b64_sextets:
  fixes a b c :: char
  shows "byte a div 4 < 64" "byte a mod 4 * 16 < 64" "byte a mod 4 * 16 + byte b div 16 < 64"
    "byte b mod 16 * 4 < 64" "byte b mod 16 * 4 + byte c div 64 < 64" "byte c mod 64 < 64"
  using nat_of_char_less_256 [of a] nat_of_char_less_256 [of b] nat_of_char_less_256 [of c] by linarith+

lemma b64_octets:
  fixes a b c :: char
  shows "byte a div 4 * 4 + (byte a mod 4 * 16 + byte b div 16) div 16 = byte a"
    "(byte a mod 4 * 16 + byte b div 16) mod 16 * 16 + (byte b mod 16 * 4 + byte c div 64) div 4 = byte b"
    "(byte b mod 16 * 4 + byte c div 64) mod 4 * 64 + byte c mod 64 = byte c"
proof -
  have b: "byte b div 16 < 16" and c: "byte c div 64 < 4"
    using nat_of_char_less_256 [of b] nat_of_char_less_256 [of c] by linarith+
  have w: "(x * n + y) div n = x" "(x * n + y) mod n = y" if "y < n" for x y n :: nat
    using that by simp_all
  show "byte a div 4 * 4 + (byte a mod 4 * 16 + byte b div 16) div 16 = byte a"
    "(byte a mod 4 * 16 + byte b div 16) mod 16 * 16 + (byte b mod 16 * 4 + byte c div 64) div 4 = byte b"
    "(byte b mod 16 * 4 + byte c div 64) mod 4 * 64 + byte c mod 64 = byte c"
    by (simp_all only: w [OF b] w [OF c] div_mult_mod_eq)
qed

lemmas b64_simps = b64_val_char [OF b64_sextets(1)] b64_val_char [OF b64_sextets(2)] b64_val_char [OF b64_sextets(3)]
  b64_val_char [OF b64_sextets(4)] b64_val_char [OF b64_sextets(5)] b64_val_char [OF b64_sextets(6)]
  b64_char_ne [OF b64_sextets(1)] b64_char_ne [OF b64_sextets(2)] b64_char_ne [OF b64_sextets(3)]
  b64_char_ne [OF b64_sextets(4)] b64_char_ne [OF b64_sextets(5)] b64_char_ne [OF b64_sextets(6)]

lemma b64_roundtrip [simp]: "b64_decode (b64_encode s) = Some s"
proof -
  have "filter (\<lambda>c. c \<noteq> CHR 0x0A \<and> c \<noteq> CHR 0x0D) (b64_encode s) = b64_encode s"
    by (induction s rule: b64_encode.induct) (simp_all add: b64_simps)
  moreover have "b64_quanta (b64_encode s) = Some s"
  proof (induction s rule: b64_encode.induct)
    case (2 a)
    have "char_of (byte a div 4 * 4 + byte a mod 4 * 16 div 16) = a"
      using b64_octets(1) [of a "CHR 0x00"] by simp
    then show ?case by (simp only: b64_encode.simps b64_quanta.simps b64_simps prod.case option.case if_True) simp
  next
    case (3 a b)
    have "char_of ((byte a mod 4 * 16 + byte b div 16) mod 16 * 16 + byte b mod 16 * 4 div 4) = b"
      using b64_octets(2) [of a b "CHR 0x00"] by simp
    then show ?case
      by (simp only: b64_encode.simps b64_quanta.simps b64_simps prod.case option.case b64_octets) simp
  next
    case (4 a b c s)
    then show ?case
      by (simp only: b64_encode.simps b64_quanta.simps b64_simps prod.case option.case b64_octets) simp
  qed simp
  ultimately show ?thesis by (simp add: b64_decode_def)
qed

lemma length_b64_encode: "length (b64_encode s) = 4 * ((length s + 2) div 3)"
proof (induction s rule: b64_encode.induct)
  case (4 a b c s)
  have "(length (a # b # c # s) + 2) div 3 = Suc ((length s + 2) div 3)" by simp
  with 4 show ?case by (simp only: b64_encode.simps list.size) simp
qed simp_all

end
