(* ===== verification/Server.thy ===== *)
theory Server
  imports Formats Http
begin

text \<open>
  \<open>internal/transport/confluent/server.go\<close>: the REST adapter. A handler that only reads the
  published state is a function of the server and the request; one that runs a command returns
  the server it leaves. A handler runs to its end before another command changes the machine.
\<close>

section \<open>Responses\<close>

definition vendorContentType :: string where
  "vendorContentType = ''application/vnd.schemaregistry.v1+json''"

definition maxRequestBytes :: nat where
  "maxRequestBytes = 2097152"

text \<open>What \<open>json.Encoder\<close> sends for a value: its text and a line feed.\<close>

definition encode_body :: "json \<Rightarrow> string" where
  "encode_body j = print_json j @ [CHR 0x0A]"

definition writeJSON :: "nat \<Rightarrow> body \<Rightarrow> response" where
  "writeJSON status v =
     \<lparr>rs_Status = status, rs_Header = [(''Content-Type'', vendorContentType)], rs_Body = v\<rparr>"

definition writeAPIError :: "nat \<Rightarrow> nat \<Rightarrow> message \<Rightarrow> response" where
  "writeAPIError status code msg = writeJSON status (BError code msg)"

text \<open>\<open>errors.As\<close> for a domain error.\<close>

fun as_domain :: "go_error \<Rightarrow> go_error option" where
  "as_domain (DomainErr c r f as w) = Some (DomainErr c r f as w)"
| "as_domain (FmtErr f as (Some e)) = as_domain e"
| "as_domain (FmtErr f as None) = None"
| "as_domain (Sentinel n) = None"

definition writeDomainError :: "go_error \<Rightarrow> response" where
  "writeDomainError err =
     (case as_domain err of
        None \<Rightarrow> writeAPIError 500 50001 (MText ''Internal server error'')
      | Some domainErr \<Rightarrow>
          (let category = CategoryOf domainErr; resource = err_Resource domainErr in
           if category = ErrorInvalid then writeAPIError 422 42201 (MErr '''' domainErr)
           else if category = ErrorNotFound
           then writeAPIError 404
             (if resource = ''version'' \<or> resource = ''reference'' then 40402 else 40401) (MErr '''' domainErr)
           else if category = ErrorConflict \<or> category = ErrorIncompatible
           then writeAPIError 409 409 (MErr '''' domainErr)
           else if category = ErrorReadOnly then writeAPIError 422 42205 (MErr '''' domainErr)
           else writeAPIError 500 50001 (MErr '''' domainErr)))"

definition queryBool :: "request \<Rightarrow> string \<Rightarrow> bool" where
  "queryBool r key = (case ParseBool (Query_Get r key) of None \<Rightarrow> False | Some b \<Rightarrow> b)"

definition operationID :: "request \<Rightarrow> string" where
  "operationID r =
     (if HeaderGet (rq_Header r) ''X-Request-ID'' \<noteq> '''' then HeaderGet (rq_Header r) ''X-Request-ID''
      else case rq_Random r of
        Some value \<Rightarrow> hex_encode value
      | None \<Rightarrow> map (\<lambda>c. if c = CHR '':'' then CHR ''-'' else c) (rq_RemoteAddr r))"

section \<open>Request bodies\<close>

text \<open>Two calls of \<open>Decoder.Decode\<close> on a body cut off, with an error and not the end of the
  stream, after \<open>maxRequestBytes\<close>. Of a cut-off stream the decoder takes a value that reaches
  its end only if it is an object or an array, whose last byte closes it.\<close>

definition decodeJSON :: "'a decoder \<Rightarrow> 'a \<Rightarrow> string \<Rightarrow> go_error + 'a" where
  "decodeJSON dec z body =
     (let whole = (length body \<le> maxRequestBytes) in
      case decode_stream (take maxRequestBytes body) of
        None \<Rightarrow> Inl JsonErr
      | Some (j, rest) \<Rightarrow>
          if \<not> whole \<and> rest = [] \<and> (case j of JObj _ \<Rightarrow> False | JArr _ \<Rightarrow> False | _ \<Rightarrow> True)
          then Inl JsonErr
          else (case dec j z of
              None \<Rightarrow> Inl JsonErr
            | Some v \<Rightarrow>
                if whole \<and> skip_ws rest = [] then Inr v
                else Inl (FmtErr ''request must contain one JSON value'' [] None)))"

record schemaRequest =
  sr_Schema :: string
  sr_SchemaType :: string
  sr_References :: "Reference list"
  sr_ID :: int64
  sr_Version :: int64
  sr_Metadata :: string
  sr_RuleSet :: string

definition zero_schemaRequest :: schemaRequest where
  "zero_schemaRequest = \<lparr>sr_Schema = '''', sr_SchemaType = '''', sr_References = [], sr_ID = 0,
     sr_Version = 0, sr_Metadata = '''', sr_RuleSet = ''''\<rparr>"

definition request_fields :: "(string \<times> schemaRequest decoder) list" where
  "request_fields =
     [(''schema'', field dec_string sr_Schema sr_Schema_update),
      (''schemaType'', field dec_string sr_SchemaType sr_SchemaType_update),
      (''references'', field (dec_slice (dec_Reference True) zero_Reference) sr_References sr_References_update),
      (''id'', field dec_i64 sr_ID sr_ID_update),
      (''version'', field dec_i64 sr_Version sr_Version_update),
      (''metadata'', \<lambda>j r. Some r),
      (''ruleSet'', \<lambda>j r. Some r)]"

text \<open>The two \<open>json.RawMessage\<close> fields keep the text of their value as it stands in the body:
  the members of the object with that text, of which the last one for a field counts.\<close>

fun raw_members :: "nat \<Rightarrow> string \<Rightarrow> (string \<times> string) list" where
  "raw_members 0 s = []"
| "raw_members (Suc n) s =
     (case parse_lit (tl (skip_ws s)) of
        None \<Rightarrow> []
      | Some (k, r1) \<Rightarrow>
          (let v = skip_ws (tl (skip_ws r1)) in
           case decode_stream v of
             None \<Rightarrow> []
           | Some (j, r2) \<Rightarrow>
               (unquote k, take (length v - length r2) v)
                 # (if take 1 (skip_ws r2) = '','' then raw_members n (tl (skip_ws r2)) else [])))"

definition raw_field_in :: "string list \<Rightarrow> string \<Rightarrow> string \<Rightarrow> string" where
  "raw_field_in names name body =
     (if take 1 (skip_ws body) \<noteq> ''{'' then ''''
      else
        (let owner = (\<lambda>k. if k \<in> set names then Some k else find (\<lambda>n. fold_name n = fold_name k) names)
         in foldl (\<lambda>raw (k, v). if owner k = Some name then v else raw) ''''
              (raw_members (length body) (tl (skip_ws body)))))"

definition raw_field :: "string \<Rightarrow> string \<Rightarrow> string" where
  "raw_field name body = raw_field_in (map fst request_fields) name body"

definition decode_schemaRequest :: "string \<Rightarrow> go_error + schemaRequest" where
  "decode_schemaRequest body =
     map_sum (\<lambda>e. e)
       (\<lambda>input. input\<lparr>sr_Metadata := raw_field ''metadata'' body, sr_RuleSet := raw_field ''ruleSet'' body\<rparr>)
       (decodeJSON (dec_struct True request_fields) zero_schemaRequest body)"

definition emptyAdvancedField :: "string \<Rightarrow> bool" where
  "emptyAdvancedField value \<longleftrightarrow>
     (let trimmed = TrimSpace value in trimmed = '''' \<or> trimmed = ''null'' \<or> trimmed = ''{}'')"

section \<open>The server\<close>

record ('n, 'st) Server =
  srv_machine :: "'st Machine"
  srv_engines :: "string \<Rightarrow> 'n Engine option"
  srv_ready :: bool

definition NewServer :: "'st Machine \<Rightarrow> 'n Engine list \<Rightarrow> ('n, 'st) Server" where
  "NewServer machine engines =
     \<lparr>srv_machine = machine,
      srv_engines = foldl (\<lambda>byType engine. byType(en_Type engine \<mapsto> engine)) Map.empty engines,
      srv_ready = True\<rparr>"

text \<open>\<open>s.machine.State()\<close>.\<close>

abbreviation srv_state :: "('n, 'st) Server \<Rightarrow> State" where
  "srv_state s \<equiv> m_state (srv_machine s)"

definition stateResolver_Resolve :: "State \<Rightarrow> Resolver" where
  "stateResolver_Resolve s ctx reference =
     (case Lookup s (ref_Subject reference) (ref_Version reference) False of
        (_, schema, ok) \<Rightarrow> if \<not> ok then Inl ''referenced schema not found'' else Inr schema)"

definition parseRequest :: "('n, 'st) Server \<Rightarrow> request \<Rightarrow> response + schemaRequest \<times> 'n Parsed" where
  "parseRequest s r =
     (case decode_schemaRequest (rq_Body r) of
        Inl err \<Rightarrow> Inl (writeAPIError 422 42201 (MErr ''Invalid schema: '' err))
      | Inr decoded \<Rightarrow>
          (let input = (if sr_SchemaType decoded = '''' then decoded\<lparr>sr_SchemaType := SchemaTypeAvro\<rparr> else decoded) in
           if \<not> emptyAdvancedField (sr_Metadata input) \<or> \<not> emptyAdvancedField (sr_RuleSet input)
           then Inl (writeAPIError 422 42201
             (MText ''Schema metadata and rule sets are not supported in compatibility v1''))
           else case srv_engines s (sr_SchemaType input) of
             None \<Rightarrow> Inl (writeAPIError 422 42201 (MText (''Invalid schema type '' @ sr_SchemaType input)))
           | Some engine \<Rightarrow>
               (case en_Parse engine (rq_Ctx r)
                  \<lparr>pr_Definition = sr_Schema input, pr_References = sr_References input,
                   pr_Normalize = queryBool r ''normalize'', pr_Limits = DefaultLimits\<rparr>
                  (stateResolver_Resolve (srv_state s)) of
                  Inl err \<Rightarrow> Inl (writeAPIError 422 42201 (MText (''Invalid schema: '' @ err)))
                | Inr parsed \<Rightarrow> Inr (input, parsed))))"

section \<open>Schema responses\<close>

record schemaResponse =
  so_Subject :: string
  so_Version :: int64
  so_ID :: int64
  so_GUID :: string
  so_SchemaType :: string
  so_References :: "Reference list"
  so_Schema :: string
  so_Timestamp :: int64
  so_Deleted :: "bool option"

definition enc_schemaResponse :: "schemaResponse \<Rightarrow> json" where
  "enc_schemaResponse o' = obj
     (omitempty ''subject'' (so_Subject o' = '''') (enc_string (so_Subject o'))
      @ omitempty ''version'' (so_Version o' = 0) (enc_i64 (so_Version o'))
      @ omitempty ''id'' (so_ID o' = 0) (enc_i64 (so_ID o'))
      @ omitempty ''guid'' (so_GUID o' = '''') (enc_string (so_GUID o'))
      @ omitempty ''schemaType'' (so_SchemaType o' = '''') (enc_string (so_SchemaType o'))
      @ omitempty ''references'' (so_References o' = []) (JArr (map enc_Reference (so_References o')))
      @ [(''schema'', enc_string (so_Schema o'))]
      @ omitempty ''ts'' (so_Timestamp o' = 0) (enc_i64 (so_Timestamp o'))
      @ (case so_Deleted o' of None \<Rightarrow> [] | Some b \<Rightarrow> [(''deleted'', JBool b)]))"

definition responseFor :: "SubjectVersion \<Rightarrow> Schema \<Rightarrow> schemaResponse" where
  "responseFor item schema =
     \<lparr>so_Subject = sv_Subject item, so_Version = sv_Version item, so_ID = sv_SchemaID item,
      so_GUID = sch_GUID schema, so_SchemaType = sch_Type schema, so_References = sch_References schema,
      so_Schema = sch_Definition schema, so_Timestamp = sv_Timestamp item,
      so_Deleted = Some (sv_Deleted item)\<rparr>"

definition responseForLookup :: "SubjectVersion \<Rightarrow> Schema \<Rightarrow> schemaResponse" where
  "responseForLookup item schema = (responseFor item schema)\<lparr>so_Timestamp := 0, so_Deleted := None\<rparr>"

definition responseForRegistration :: "SubjectVersion \<Rightarrow> Schema \<Rightarrow> schemaResponse" where
  "responseForRegistration item schema = (responseForLookup item schema)\<lparr>so_Subject := ''''\<rparr>"

section \<open>Path vals\<close>

definition subject_not_found :: "string \<Rightarrow> message" where
  "subject_not_found subject = MText (''Subject '' @ [CHR 0x27] @ subject @ [CHR 0x27] @ '' not found.'')"

definition parseVersionPath :: "State \<Rightarrow> string \<Rightarrow> string \<Rightarrow> bool \<Rightarrow> response + int64" where
  "parseVersionPath s subject value includeDeleted =
     (if value = ''latest''
      then (let versions = Versions s subject includeDeleted in
            if versions = [] then Inl (writeAPIError 404 40401 (subject_not_found subject))
            else Inr (last versions))
      else case ParseInt value of
          None \<Rightarrow> Inl (writeAPIError 422 42202 (MText ''Invalid version''))
        | Some parsed \<Rightarrow>
            if parsed < 1 then Inl (writeAPIError 422 42202 (MText ''Invalid version'')) else Inr parsed)"

definition parseID :: "string \<Rightarrow> response + int64" where
  "parseID value =
     (case ParseInt value of
        None \<Rightarrow> Inl (writeAPIError 404 40403 (MText ''Schema not found''))
      | Some parsed \<Rightarrow>
          if parsed < 1 then Inl (writeAPIError 404 40403 (MText ''Schema not found'')) else Inr parsed)"

definition lookupVersion :: "('n, 'st) Server \<Rightarrow> request \<Rightarrow> bool \<Rightarrow> response + SubjectVersion \<times> Schema" where
  "lookupVersion s r includeDeleted =
     (let subject = PathValue r ''subject'' in
      case parseVersionPath (srv_state s) subject (PathValue r ''version'') includeDeleted of
        Inl e \<Rightarrow> Inl e
      | Inr version \<Rightarrow>
          (case Lookup (srv_state s) subject version includeDeleted of
             (item, schema, found) \<Rightarrow>
               if \<not> found
               then Inl (writeAPIError 404 40402 (MText (''Version '' @ fmt_i64 version @ '' not found'')))
               else Inr (item, schema)))"

section \<open>Handlers that read\<close>

text \<open>A value, or the response already written.\<close>

fun answer :: "('a \<Rightarrow> response) \<Rightarrow> response + 'a \<Rightarrow> response" where
  "answer f (Inl e) = e"
| "answer f (Inr x) = f x"

definition lookupSchema :: "('n, 'st) Server \<Rightarrow> request \<Rightarrow> response" where
  "lookupSchema s r = answer
     (\<lambda>(_, parsed).
        case FindSubjectSchema (srv_state s) (PathValue r ''subject'') (p_Identity parsed) of
          None \<Rightarrow> writeAPIError 404 40403 (MText ''Schema not found'')
        | Some (item, schema) \<Rightarrow> writeJSON 200 (BJson (enc_schemaResponse (responseForLookup item schema))))
     (parseRequest s r)"

definition schemaTypes :: "('n, 'st) Server \<Rightarrow> request \<Rightarrow> response" where
  "schemaTypes s r =
     writeJSON 200 (BJson (JArr (map enc_string [SchemaTypeJSON, SchemaTypeProtobuf, SchemaTypeAvro])))"

definition schema_missing :: "int64 \<Rightarrow> response" where
  "schema_missing sid = writeAPIError 404 40403 (MText (''Schema '' @ fmt_i64 sid @ '' not found''))"

definition schemaByID :: "('n, 'st) Server \<Rightarrow> request \<Rightarrow> response" where
  "schemaByID s r = answer
     (\<lambda>sid. case SchemaByID (srv_state s) sid of
          None \<Rightarrow> schema_missing sid
        | Some schema \<Rightarrow>
            (let response = \<lparr>so_Subject = '''', so_Version = 0, so_ID = 0, so_GUID = sch_GUID schema,
                   so_SchemaType = sch_Type schema, so_References = sch_References schema,
                   so_Schema = sch_Definition schema, so_Timestamp = 0, so_Deleted = None\<rparr>;
                 response' = (case LatestForID (srv_state s) sid (Query_Get r ''subject'') of
                     None \<Rightarrow> response
                   | Some item \<Rightarrow> response\<lparr>so_Subject := sv_Subject item, so_Version := sv_Version item,
                       so_Timestamp := sv_Timestamp item, so_Deleted := Some (sv_Deleted item)\<rparr>)
             in writeJSON 200 (BJson (enc_schemaResponse response'))))
     (parseID (PathValue r ''id''))"

definition schemaTextByID :: "('n, 'st) Server \<Rightarrow> request \<Rightarrow> response" where
  "schemaTextByID s r = answer
     (\<lambda>sid. case SchemaByID (srv_state s) sid of
          None \<Rightarrow> schema_missing sid
        | Some schema \<Rightarrow>
            \<lparr>rs_Status = 200, rs_Header = [(''Content-Type'', vendorContentType)], rs_Body = BText (sch_Definition schema)\<rparr>)
     (parseID (PathValue r ''id''))"

definition versionsByID :: "('n, 'st) Server \<Rightarrow> request \<Rightarrow> response" where
  "versionsByID s r = answer
     (\<lambda>sid. case SchemaByID (srv_state s) sid of
          None \<Rightarrow> schema_missing sid
        | Some _ \<Rightarrow> writeJSON 200 (BJson (JArr (map
            (\<lambda>item. obj [(''subject'', enc_string (sv_Subject item)), (''version'', enc_i64 (sv_Version item))])
            (VersionsForID (srv_state s) sid)))))
     (parseID (PathValue r ''id''))"

definition subjects_handler :: "('n, 'st) Server \<Rightarrow> request \<Rightarrow> response" where
  "subjects_handler s r =
     writeJSON 200 (BJson (JArr (map enc_string (Subjects (srv_state s) (queryBool r ''deleted'')))))"

definition versions_handler :: "('n, 'st) Server \<Rightarrow> request \<Rightarrow> response" where
  "versions_handler s r =
     (let subject = PathValue r ''subject'';
          versions = Versions (srv_state s) subject (queryBool r ''deleted'') in
      if versions = [] then writeAPIError 404 40401 (subject_not_found subject)
      else writeJSON 200 (BJson (JArr (map enc_i64 versions))))"

definition version_handler :: "('n, 'st) Server \<Rightarrow> request \<Rightarrow> response" where
  "version_handler s r = answer
     (\<lambda>(item, schema). writeJSON 200 (BJson (enc_schemaResponse (responseFor item schema))))
     (lookupVersion s r (queryBool r ''deleted''))"

definition referencedBy :: "('n, 'st) Server \<Rightarrow> request \<Rightarrow> response" where
  "referencedBy s r = answer
     (\<lambda>(item, _). writeJSON 200 (BJson (JArr (map (\<lambda>reference. enc_i64 (sv_SchemaID reference))
        (ReferencedBy (srv_state s) (sv_Subject item) (sv_Version item))))))
     (lookupVersion s r True)"

definition level_response :: "string \<Rightarrow> string \<Rightarrow> response" where
  "level_response key v = writeJSON 200 (BJson (obj [(key, enc_string v)]))"

definition getGlobalConfig :: "('n, 'st) Server \<Rightarrow> request \<Rightarrow> response" where
  "getGlobalConfig s r = level_response ''compatibilityLevel'' (snap_GlobalCompatibility (srv_state s))"

definition no_subject_level :: "string \<Rightarrow> string \<Rightarrow> message" where
  "no_subject_level subject what =
     MText (''Subject '' @ [CHR 0x27] @ subject @ [CHR 0x27] @ '' does not have subject-level '' @ what @ '' configured'')"

definition getSubjectConfig :: "('n, 'st) Server \<Rightarrow> request \<Rightarrow> response" where
  "getSubjectConfig s r =
     (let subject = PathValue r ''subject'' in
      case SubjectCompatibility (srv_state s) subject of
        None \<Rightarrow>
          if \<not> queryBool r ''defaultToGlobal''
          then writeAPIError 404 40408 (no_subject_level subject ''compatibility'')
          else level_response ''compatibilityLevel'' (snap_GlobalCompatibility (srv_state s))
      | Some level \<Rightarrow> level_response ''compatibilityLevel'' level)"

definition getGlobalMode :: "('n, 'st) Server \<Rightarrow> request \<Rightarrow> response" where
  "getGlobalMode s r = level_response ''mode'' (snap_GlobalMode (srv_state s))"

definition getSubjectMode :: "('n, 'st) Server \<Rightarrow> request \<Rightarrow> response" where
  "getSubjectMode s r =
     (let subject = PathValue r ''subject'' in
      case SubjectMode (srv_state s) subject of
        None \<Rightarrow> writeAPIError 404 40409 (no_subject_level subject ''mode'')
      | Some mode \<Rightarrow> level_response ''mode'' mode)"

text \<open>The engine of the candidate's own type; calling a method of an absent one panics,
  and no response is written.\<close>

definition compatibility_handler :: "('n, 'st) Server \<Rightarrow> request \<Rightarrow> response" where
  "compatibility_handler s r = answer
     (\<lambda>(_, candidate).
        (let subject = PathValue r ''subject''; state = srv_state s in
         answer
           (\<lambda>version.
              case Lookup state subject version False of
                (_, previousSchema, found) \<Rightarrow>
                  if \<not> found then writeAPIError 404 40402 (MText ''Version not found'')
                  else case srv_engines s (p_Type candidate) of
                    None \<Rightarrow> \<lparr>rs_Status = 0, rs_Header = [], rs_Body = BPanic\<rparr>
                  | Some engine \<Rightarrow>
                      (case en_Parse engine (rq_Ctx r) (stored_request previousSchema) (stateResolver_Resolve state) of
                         Inl err \<Rightarrow> writeAPIError 500 50001 (MText err)
                       | Inr previous \<Rightarrow>
                           (case en_Compatible engine (rq_Ctx r) (EffectiveCompatibility state subject) candidate [previous] of
                              Inl err \<Rightarrow> writeAPIError 500 50001 (MText err)
                            | Inr (compatible, messages) \<Rightarrow>
                                writeJSON 200 (BJson (obj ([(''is_compatible'', JBool compatible)]
                                  @ (if queryBool r ''verbose'' then [(''messages'', JArr (map enc_string messages))] else [])))))))
           (parseVersionPath state subject (PathValue r ''version'') False)))
     (parseRequest s r)"

definition healthLive :: "('n, 'st) Server \<Rightarrow> request \<Rightarrow> response" where
  "healthLive s r = level_response ''status'' ''live''"

definition healthReady :: "('n, 'st) Server \<Rightarrow> request \<Rightarrow> response" where
  "healthReady s r =
     (if \<not> srv_ready s then writeJSON 503 (BJson (obj [(''status'', enc_string ''not_ready'')]))
      else level_response ''status'' ''ready'')"

section \<open>Handlers that run a command\<close>

definition register :: "('n, 'st) Server \<Rightarrow> request \<Rightarrow> response \<times> ('n, 'st) Server" where
  "register s r =
     (let subject = PathValue r ''subject'' in
      case parseRequest s r of
        Inl e \<Rightarrow> (e, s)
      | Inr (input, parsed) \<Rightarrow>
          (case Register (rq_Ctx r)
             \<lparr>rc_OperationID = operationID r, rc_Subject = subject, rc_Identity = p_Identity parsed,
              rc_Type = p_Type parsed, rc_Definition = p_Definition parsed, rc_References = p_References parsed,
              rc_RequestedID = sr_ID input, rc_RequestedVersion = sr_Version input,
              rc_Timestamp = rq_Now r\<rparr> (srv_machine s) of
             (Inl err, m) \<Rightarrow> (writeDomainError err, s\<lparr>srv_machine := m\<rparr>)
           | (Inr result, m) \<Rightarrow>
               (case Lookup (m_state m) subject (res_Version result) True of
                  (item, schema, found) \<Rightarrow>
                    if \<not> found
                    then (writeAPIError 500 50001 (MText ''Registered schema could not be read''), s\<lparr>srv_machine := m\<rparr>)
                    else (writeJSON 200 (BJson (enc_schemaResponse (responseForRegistration item schema))),
                          s\<lparr>srv_machine := m\<rparr>))))"

definition deleteVersion :: "('n, 'st) Server \<Rightarrow> request \<Rightarrow> response \<times> ('n, 'st) Server" where
  "deleteVersion s r =
     (case parseVersionPath (srv_state s) (PathValue r ''subject'') (PathValue r ''version'') True of
        Inl e \<Rightarrow> (e, s)
      | Inr version \<Rightarrow>
          (case DeleteVersion (rq_Ctx r)
             \<lparr>dv_OperationID = operationID r, dv_Subject = PathValue r ''subject'', dv_Version = version,
              dv_Permanent = queryBool r ''permanent''\<rparr> (srv_machine s) of
             (Inl err, m) \<Rightarrow> (writeDomainError err, s\<lparr>srv_machine := m\<rparr>)
           | (Inr result, m) \<Rightarrow> (writeJSON 200 (BJson (enc_i64 (res_Version result))), s\<lparr>srv_machine := m\<rparr>)))"

text \<open>The nil slice of a result without versions is written as \<open>null\<close>.\<close>

definition deleteSubject :: "('n, 'st) Server \<Rightarrow> request \<Rightarrow> response \<times> ('n, 'st) Server" where
  "deleteSubject s r =
     (case DeleteSubject (rq_Ctx r)
        \<lparr>ds_OperationID = operationID r, ds_Subject = PathValue r ''subject'',
         ds_Permanent = queryBool r ''permanent''\<rparr> (srv_machine s) of
        (Inl err, m) \<Rightarrow> (writeDomainError err, s\<lparr>srv_machine := m\<rparr>)
      | (Inr result, m) \<Rightarrow>
          (writeJSON 200 (BJson (if res_Versions result = [] then JNull else JArr (map enc_i64 (res_Versions result)))),
           s\<lparr>srv_machine := m\<rparr>))"

text \<open>The end of a handler whose command returns an error or nothing.\<close>

fun configured :: "('n, 'st) Server \<Rightarrow> response \<Rightarrow> go_error option \<times> 'st Machine \<Rightarrow> response \<times> ('n, 'st) Server" where
  "configured s ok (Some err, m) = (writeDomainError err, s\<lparr>srv_machine := m\<rparr>)"
| "configured s ok (None, m) = (ok, s\<lparr>srv_machine := m\<rparr>)"

definition putConfig :: "('n, 'st) Server \<Rightarrow> request \<Rightarrow> string \<Rightarrow> response \<times> ('n, 'st) Server" where
  "putConfig s r subject =
     (case decodeJSON (dec_struct True [(''compatibility'', dec_string)]) '''' (rq_Body r) of
        Inl _ \<Rightarrow> (writeAPIError 422 42203 (MText ''Invalid compatibility level''), s)
      | Inr level \<Rightarrow>
          if \<not> CompatibilityLevel_Valid level
          then (writeAPIError 422 42203 (MText ''Invalid compatibility level''), s)
          else configured s (level_response ''compatibility'' level)
            (SetCompatibility (rq_Ctx r) (operationID r) \<lparr>sc_Subject = subject\<rparr> level (srv_machine s)))"

definition putGlobalConfig :: "('n, 'st) Server \<Rightarrow> request \<Rightarrow> response \<times> ('n, 'st) Server" where
  "putGlobalConfig s r = putConfig s r ''''"

definition putSubjectConfig :: "('n, 'st) Server \<Rightarrow> request \<Rightarrow> response \<times> ('n, 'st) Server" where
  "putSubjectConfig s r = putConfig s r (PathValue r ''subject'')"

definition deleteSubjectConfig :: "('n, 'st) Server \<Rightarrow> request \<Rightarrow> response \<times> ('n, 'st) Server" where
  "deleteSubjectConfig s r =
     (let subject = PathValue r ''subject'' in
      case SubjectCompatibility (srv_state s) subject of
        None \<Rightarrow> (writeAPIError 404 40408 (no_subject_level subject ''compatibility''), s)
      | Some level \<Rightarrow> configured s (level_response ''compatibilityLevel'' level)
          (DeleteCompatibility (rq_Ctx r) (operationID r) subject (srv_machine s)))"

definition putMode :: "('n, 'st) Server \<Rightarrow> request \<Rightarrow> string \<Rightarrow> response \<times> ('n, 'st) Server" where
  "putMode s r subject =
     (case decodeJSON (dec_struct True [(''mode'', dec_string)]) '''' (rq_Body r) of
        Inl _ \<Rightarrow> (writeAPIError 422 42204 (MText ''Invalid mode''), s)
      | Inr mode \<Rightarrow>
          if \<not> Mode_Valid mode
          then (writeAPIError 422 42204 (MText ''Invalid mode''), s)
          else configured s (level_response ''mode'' mode)
            (SetMode (rq_Ctx r) (operationID r) \<lparr>sc_Subject = subject\<rparr> mode (srv_machine s)))"

definition putGlobalMode :: "('n, 'st) Server \<Rightarrow> request \<Rightarrow> response \<times> ('n, 'st) Server" where
  "putGlobalMode s r = putMode s r ''''"

definition putSubjectMode :: "('n, 'st) Server \<Rightarrow> request \<Rightarrow> response \<times> ('n, 'st) Server" where
  "putSubjectMode s r = putMode s r (PathValue r ''subject'')"

definition deleteSubjectMode :: "('n, 'st) Server \<Rightarrow> request \<Rightarrow> response \<times> ('n, 'st) Server" where
  "deleteSubjectMode s r =
     (let subject = PathValue r ''subject'' in
      case SubjectMode (srv_state s) subject of
        None \<Rightarrow> (writeAPIError 404 40409 (no_subject_level subject ''mode''), s)
      | Some mode \<Rightarrow> configured s (level_response ''mode'' mode)
          (DeleteMode (rq_Ctx r) (operationID r) subject (srv_machine s)))"

section \<open>Routes\<close>

text \<open>The part of \<open>http.ServeMux\<close> that the patterns use: a path that is not clean is redirected; a
  pattern matches a path of its length segment by segment, a wildcard any segment but the empty one,
  and \<open>GET\<close> also a \<open>HEAD\<close> request. No two of the patterns match the same request, and none ends in a
  slash. Where none matches, the multiplexer answers by itself: 405, with the methods it would take,
  if a pattern of another method matches, and 404 otherwise.\<close>

datatype segment = Lit string | Wild string

fun match_path :: "segment list \<Rightarrow> string list \<Rightarrow> (string \<times> string) list option" where
  "match_path [] [] = Some []"
| "match_path (Lit l # ps) (x # xs) = (if l = x then match_path ps xs else None)"
| "match_path (Wild n # ps) (x # xs) =
     (if x = '''' then None else map_option ((#) (n, x)) (match_path ps xs))"
| "match_path _ _ = None"

datatype ('n, 'st) endpoint =
    Reads "('n, 'st) Server \<Rightarrow> request \<Rightarrow> response"
  | Runs "('n, 'st) Server \<Rightarrow> request \<Rightarrow> response \<times> ('n, 'st) Server"

type_synonym ('n, 'st) route = "string \<times> segment list \<times> ('n, 'st) endpoint"

definition routes :: "('n, 'st) route list" where
  "routes =
     [(''GET'', [Lit ''health'', Lit ''live''], Reads healthLive),
      (''GET'', [Lit ''health'', Lit ''ready''], Reads healthReady),
      (''GET'', [Lit ''schemas'', Lit ''types''], Reads schemaTypes),
      (''GET'', [Lit ''schemas'', Lit ''ids'', Wild ''id''], Reads schemaByID),
      (''GET'', [Lit ''schemas'', Lit ''ids'', Wild ''id'', Lit ''schema''], Reads schemaTextByID),
      (''GET'', [Lit ''schemas'', Lit ''ids'', Wild ''id'', Lit ''versions''], Reads versionsByID),
      (''GET'', [Lit ''subjects''], Reads subjects_handler),
      (''POST'', [Lit ''subjects'', Wild ''subject''], Reads lookupSchema),
      (''GET'', [Lit ''subjects'', Wild ''subject'', Lit ''versions''], Reads versions_handler),
      (''POST'', [Lit ''subjects'', Wild ''subject'', Lit ''versions''], Runs register),
      (''GET'', [Lit ''subjects'', Wild ''subject'', Lit ''versions'', Wild ''version''], Reads version_handler),
      (''DELETE'', [Lit ''subjects'', Wild ''subject'', Lit ''versions'', Wild ''version''], Runs deleteVersion),
      (''GET'', [Lit ''subjects'', Wild ''subject'', Lit ''versions'', Wild ''version'', Lit ''referencedby''],
        Reads referencedBy),
      (''DELETE'', [Lit ''subjects'', Wild ''subject''], Runs deleteSubject),
      (''GET'', [Lit ''config''], Reads getGlobalConfig),
      (''PUT'', [Lit ''config''], Runs putGlobalConfig),
      (''GET'', [Lit ''config'', Wild ''subject''], Reads getSubjectConfig),
      (''PUT'', [Lit ''config'', Wild ''subject''], Runs putSubjectConfig),
      (''DELETE'', [Lit ''config'', Wild ''subject''], Runs deleteSubjectConfig),
      (''GET'', [Lit ''mode''], Reads getGlobalMode),
      (''PUT'', [Lit ''mode''], Runs putGlobalMode),
      (''GET'', [Lit ''mode'', Wild ''subject''], Reads getSubjectMode),
      (''PUT'', [Lit ''mode'', Wild ''subject''], Runs putSubjectMode),
      (''DELETE'', [Lit ''mode'', Wild ''subject''], Runs deleteSubjectMode),
      (''POST'', [Lit ''compatibility'', Lit ''subjects'', Wild ''subject'', Lit ''versions'', Wild ''version''],
        Reads compatibility_handler)]"

definition method_matches :: "string \<Rightarrow> string \<Rightarrow> bool" where
  "method_matches p m \<longleftrightarrow> p = m \<or> p = ''GET'' \<and> m = ''HEAD''"

fun run_endpoint :: "('n, 'st) endpoint \<Rightarrow> ('n, 'st) Server \<Rightarrow> request \<Rightarrow> response \<times> ('n, 'st) Server" where
  "run_endpoint (Reads h) s r = (h s r, s)"
| "run_endpoint (Runs h) s r = h s r"

fun join_methods :: "string list \<Rightarrow> string" where
  "join_methods [] = ''''"
| "join_methods [m] = m"
| "join_methods (m # ms) = m @ '', '' @ join_methods ms"

definition plain_response :: "string list \<Rightarrow> response" where
  "plain_response methods =
     \<lparr>rs_Status = (if methods = [] then 404 else 405),
      rs_Header =
        (if methods = [] then []
         else [(''Allow'', join_methods (sort (remdups (methods @ (if ''GET'' \<in> set methods then [''HEAD''] else [])))))])
        @ [(''Content-Type'', ''text/plain; charset=utf-8''), (''X-Content-Type-Options'', ''nosniff'')],
      rs_Body = BDefault\<rparr>"

fun dispatch :: "('n, 'st) route list \<Rightarrow> string list \<Rightarrow> ('n, 'st) Server \<Rightarrow> request \<Rightarrow> response \<times> ('n, 'st) Server" where
  "dispatch [] other s r = (plain_response other, s)"
| "dispatch ((m, p, h) # rest) other s r =
     (case match_path p (rq_Path r) of
        None \<Rightarrow> dispatch rest other s r
      | Some vals \<Rightarrow>
          if method_matches m (rq_Method r) then run_endpoint h s (r\<lparr>rq_PathValues := vals\<rparr>)
          else dispatch rest (m # other) s r)"

definition mux :: "('n, 'st) Server \<Rightarrow> request \<Rightarrow> response \<times> ('n, 'st) Server" where
  "mux s r = (if redirects r then (redirect_response r, s) else dispatch routes [] s r)"

text \<open>\<open>middleware\<close> and \<open>Handler\<close>. The body limit is part of \<open>decodeJSON\<close>; the request
  ID is set on the request and on the response.\<close>

definition set_id :: "string \<Rightarrow> request \<Rightarrow> request" where
  "set_id requestID r = r\<lparr>rq_Header := HeaderSet ''X-Request-ID'' requestID (rq_Header r)\<rparr>"

definition echo_id :: "string \<Rightarrow> response \<Rightarrow> response" where
  "echo_id requestID rs = rs\<lparr>rs_Header := HeaderSet ''X-Request-ID'' requestID (rs_Header rs)\<rparr>"

definition middleware ::
  "(('n, 'st) Server \<Rightarrow> request \<Rightarrow> response \<times> ('n, 'st) Server) \<Rightarrow> ('n, 'st) Server \<Rightarrow> request
     \<Rightarrow> response \<times> ('n, 'st) Server" where
  "middleware next s r =
     (let requestID = operationID r; (rs, s') = next s (set_id requestID r)
      in (echo_id requestID rs, s'))"

definition Handler :: "('n, 'st) Server \<Rightarrow> request \<Rightarrow> response \<times> ('n, 'st) Server" where
  "Handler = middleware mux"

section \<open>What a request does\<close>

text \<open>The identities the engines of a server give, and what a command takes from its request.\<close>

definition engine_identities :: "('n, 'st) Server \<Rightarrow> string set" where
  "engine_identities s = {p_Identity parsed | parsed. \<exists>t engine ctx pr resolver.
     srv_engines s t = Some engine \<and> en_Parse engine ctx pr resolver = Inr parsed}"

fun command_subject :: "command \<Rightarrow> string" where
  "command_subject (CRegister c) = rc_Subject c"
| "command_subject (CDeleteVersion c) = dv_Subject c"
| "command_subject (CDeleteSubject c) = ds_Subject c"
| "command_subject (CSetCompatibility op scope level) = sc_Subject scope"
| "command_subject (CDeleteCompatibility op subject) = subject"
| "command_subject (CSetMode op scope mode) = sc_Subject scope"
| "command_subject (CDeleteMode op subject) = subject"

definition command_from :: "('n, 'st) Server \<Rightarrow> request \<Rightarrow> command \<Rightarrow> bool" where
  "command_from s r c \<longleftrightarrow>
     operation_of c = operationID r
     \<and> (command_subject c = '''' \<or> command_subject c = PathValue r ''subject'')
     \<and> (\<forall>rc. c = CRegister rc \<longrightarrow> rc_Identity rc \<in> engine_identities s)"

text \<open>A request is answered from the published state, or runs one command and answers by its
  outcome; a registration is read back, which may fail.\<close>

inductive handled :: "('n, 'st) Server \<Rightarrow> request \<Rightarrow> response \<Rightarrow> ('n, 'st) Server \<Rightarrow> bool"
  for s :: "('n, 'st) Server" and r :: request where
  answered: "handled s r rs s"
| refused:
    "exec (rq_Ctx r) c (srv_machine s) = (Inl err, m) \<Longrightarrow> command_from s r c \<Longrightarrow>
     handled s r (writeDomainError err) (s\<lparr>srv_machine := m\<rparr>)"
| ran:
    "exec (rq_Ctx r) c (srv_machine s) = (Inr res, m) \<Longrightarrow> command_from s r c \<Longrightarrow> rs_Status rs = 200 \<Longrightarrow>
     handled s r rs (s\<lparr>srv_machine := m\<rparr>)"
| unread:
    "Register (rq_Ctx r) rc (srv_machine s) = (Inr res, m) \<Longrightarrow> command_from s r (CRegister rc) \<Longrightarrow>
     Lookup (m_state m) (rc_Subject rc) (res_Version res) True = (item, schema, False) \<Longrightarrow>
     handled s r rs (s\<lparr>srv_machine := m\<rparr>)"

lemma writeJSON_status [simp]: "rs_Status (writeJSON n v) = n"
  by (simp add: writeJSON_def)

lemma level_response_status [simp]: "rs_Status (level_response k v) = 200"
  by (simp add: level_response_def)

lemma parseRequest_identity:
  assumes "parseRequest s r = Inr (input, parsed)"
  shows "p_Identity parsed \<in> engine_identities s"
  using assms unfolding parseRequest_def Let_def
  by (auto simp: engine_identities_def split: sum.splits if_splits option.splits; blast)

lemma configured_handled:
  assumes "exec (rq_Ctx r) c (srv_machine s) = of_error x" and "command_from s r c" and "rs_Status ok = 200"
    and "configured s ok x = (rs, s')"
  shows "handled s r rs s'"
proof -
  obtain e m where x: "x = (e, m)" by (cases x)
  show ?thesis
  proof (cases e)
    case None
    then have "exec (rq_Ctx r) c (srv_machine s) = (Inr zero_Result, m)"
      using assms(1) x by (simp add: of_error_def)
    from handled.ran [OF this assms(2,3)] show ?thesis using assms(4) x None by auto
  next
    case (Some err)
    then have "exec (rq_Ctx r) c (srv_machine s) = (Inl err, m)"
      using assms(1) x by (simp add: of_error_def)
    from handled.refused [OF this assms(2)] show ?thesis using assms(4) x Some by auto
  qed
qed

lemma put_handled:
  "putConfig s r '''' = (rs, s') \<Longrightarrow> handled s r rs s'"
  "putConfig s r (PathValue r ''subject'') = (rs, s') \<Longrightarrow> handled s r rs s'"
  "putMode s r '''' = (rs, s') \<Longrightarrow> handled s r rs s'"
  "putMode s r (PathValue r ''subject'') = (rs, s') \<Longrightarrow> handled s r rs s'"
proof -
  have C: "handled s r rs s'" if h: "putConfig s r u = (rs, s')" and u: "u = '''' \<or> u = PathValue r ''subject''" for u
  proof -
    consider "s' = s" | level where
      "configured s (level_response ''compatibility'' level)
         (SetCompatibility (rq_Ctx r) (operationID r) \<lparr>sc_Subject = u\<rparr> level (srv_machine s)) = (rs, s')"
      using h by (auto simp: putConfig_def split: sum.splits if_splits)
    then show ?thesis
    proof cases
      case 2
      show ?thesis
        by (rule configured_handled [OF _ _ _ 2,
              where c = "CSetCompatibility (operationID r) \<lparr>sc_Subject = u\<rparr> level"])
          (use u in \<open>auto simp: command_from_def\<close>)
    qed (simp add: answered)
  qed
  have M: "handled s r rs s'" if h: "putMode s r u = (rs, s')" and u: "u = '''' \<or> u = PathValue r ''subject''" for u
  proof -
    consider "s' = s" | mode where
      "configured s (level_response ''mode'' mode)
         (SetMode (rq_Ctx r) (operationID r) \<lparr>sc_Subject = u\<rparr> mode (srv_machine s)) = (rs, s')"
      using h by (auto simp: putMode_def split: sum.splits if_splits)
    then show ?thesis
    proof cases
      case 2
      show ?thesis
        by (rule configured_handled [OF _ _ _ 2,
              where c = "CSetMode (operationID r) \<lparr>sc_Subject = u\<rparr> mode"])
          (use u in \<open>auto simp: command_from_def\<close>)
    qed (simp add: answered)
  qed
  show "putConfig s r '''' = (rs, s') \<Longrightarrow> handled s r rs s'"
    "putConfig s r (PathValue r ''subject'') = (rs, s') \<Longrightarrow> handled s r rs s'"
    "putMode s r '''' = (rs, s') \<Longrightarrow> handled s r rs s'"
    "putMode s r (PathValue r ''subject'') = (rs, s') \<Longrightarrow> handled s r rs s'"
    by (auto intro: C M)
qed

lemma delete_level_handled:
  "deleteSubjectConfig s r = (rs, s') \<Longrightarrow> handled s r rs s'"
  "deleteSubjectMode s r = (rs, s') \<Longrightarrow> handled s r rs s'"
proof -
  let ?u = "PathValue r ''subject''"
  have "configured s (level_response k l) (DeleteCompatibility (rq_Ctx r) (operationID r) ?u (srv_machine s)) = (rs, s')
      \<Longrightarrow> handled s r rs s'" for k l
    by (rule configured_handled [where c = "CDeleteCompatibility (operationID r) ?u"])
      (simp_all add: command_from_def)
  then show "deleteSubjectConfig s r = (rs, s') \<Longrightarrow> handled s r rs s'"
    by (auto simp: deleteSubjectConfig_def Let_def answered split: option.splits)
  have "configured s (level_response k l) (DeleteMode (rq_Ctx r) (operationID r) ?u (srv_machine s)) = (rs, s')
      \<Longrightarrow> handled s r rs s'" for k l
    by (rule configured_handled [where c = "CDeleteMode (operationID r) ?u"])
      (simp_all add: command_from_def)
  then show "deleteSubjectMode s r = (rs, s') \<Longrightarrow> handled s r rs s'"
    by (auto simp: deleteSubjectMode_def Let_def answered split: option.splits)
qed

lemma delete_handled:
  "deleteVersion s r = (rs, s') \<Longrightarrow> handled s r rs s'"
  "deleteSubject s r = (rs, s') \<Longrightarrow> handled s r rs s'"
proof -
  show "deleteVersion s r = (rs, s') \<Longrightarrow> handled s r rs s'"
    by (auto simp: deleteVersion_def command_from_def answered split: sum.splits prod.splits
        intro: handled.refused [where c = "CDeleteVersion c" for c] handled.ran [where c = "CDeleteVersion c" for c])
  show "deleteSubject s r = (rs, s') \<Longrightarrow> handled s r rs s'"
    by (auto simp: deleteSubject_def command_from_def answered split: sum.splits prod.splits
        intro: handled.refused [where c = "CDeleteSubject c" for c] handled.ran [where c = "CDeleteSubject c" for c])
qed

text \<open>The command of a registration.\<close>

definition register_command :: "request \<Rightarrow> schemaRequest \<Rightarrow> 'n Parsed \<Rightarrow> RegisterCommand" where
  "register_command r input parsed =
     \<lparr>rc_OperationID = operationID r, rc_Subject = PathValue r ''subject'', rc_Identity = p_Identity parsed,
      rc_Type = p_Type parsed, rc_Definition = p_Definition parsed, rc_References = p_References parsed,
      rc_RequestedID = sr_ID input, rc_RequestedVersion = sr_Version input, rc_Timestamp = rq_Now r\<rparr>"

lemma register_cases:
  assumes "register s r = (rs, s')"
  obtains (unparsed) "parseRequest s r = Inl rs" and "s' = s"
  | (refused) input parsed err m where "parseRequest s r = Inr (input, parsed)"
      and "Register (rq_Ctx r) (register_command r input parsed) (srv_machine s) = (Inl err, m)"
      and "rs = writeDomainError err" and "s' = s\<lparr>srv_machine := m\<rparr>"
  | (unread) input parsed res m item schema where "parseRequest s r = Inr (input, parsed)"
      and "Register (rq_Ctx r) (register_command r input parsed) (srv_machine s) = (Inr res, m)"
      and "Lookup (m_state m) (PathValue r ''subject'') (res_Version res) True = (item, schema, False)"
      and "rs = writeAPIError 500 50001 (MText ''Registered schema could not be read'')"
      and "s' = s\<lparr>srv_machine := m\<rparr>"
  | (registered) input parsed res m item schema where "parseRequest s r = Inr (input, parsed)"
      and "Register (rq_Ctx r) (register_command r input parsed) (srv_machine s) = (Inr res, m)"
      and "Lookup (m_state m) (PathValue r ''subject'') (res_Version res) True = (item, schema, True)"
      and "rs = writeJSON 200 (BJson (enc_schemaResponse (responseForRegistration item schema)))"
      and "s' = s\<lparr>srv_machine := m\<rparr>"
  using assms that
  by (auto simp: register_def register_command_def Let_def split: sum.splits prod.splits if_splits)

lemma register_handled: "register s r = (rs, s') \<Longrightarrow> handled s r rs s'"
proof (erule register_cases)
  have cf: "command_from s r (CRegister (register_command r input parsed))"
    if "parseRequest s r = Inr (input, parsed)" for input parsed
    using parseRequest_identity [OF that] by (simp add: command_from_def register_command_def)
  show "handled s r rs s'" if "parseRequest s r = Inl rs" "s' = s"
    using that by (simp add: answered)
  show "handled s r rs s'"
    if "parseRequest s r = Inr (input, parsed)"
      "Register (rq_Ctx r) (register_command r input parsed) (srv_machine s) = (Inl err, m)"
      "rs = writeDomainError err" "s' = s\<lparr>srv_machine := m\<rparr>" for input parsed err m
    using that cf handled.refused [of r "CRegister (register_command r input parsed)" s] by simp
  show "handled s r rs s'"
    if "parseRequest s r = Inr (input, parsed)"
      "Register (rq_Ctx r) (register_command r input parsed) (srv_machine s) = (Inr res, m)"
      "Lookup (m_state m) (PathValue r ''subject'') (res_Version res) True = (item, schema, False)"
      "s' = s\<lparr>srv_machine := m\<rparr>" for input parsed res m item schema
    using that cf by (auto intro: handled.unread simp: register_command_def)
  show "handled s r rs s'"
    if "parseRequest s r = Inr (input, parsed)"
      "Register (rq_Ctx r) (register_command r input parsed) (srv_machine s) = (Inr res, m)"
      "rs = writeJSON 200 (BJson (enc_schemaResponse (responseForRegistration item schema)))"
      "s' = s\<lparr>srv_machine := m\<rparr>" for input parsed res m item schema
    using that cf handled.ran [of r "CRegister (register_command r input parsed)" s] by simp
qed

lemma routes_handled:
  assumes "(m, p, h) \<in> set routes" and "run_endpoint h s r = (rs, s')"
  shows "handled s r rs s'"
proof (cases h)
  case (Runs g)
  with assms(1) consider "g = register" | "g = deleteVersion" | "g = deleteSubject" | "g = putGlobalConfig"
    | "g = putSubjectConfig" | "g = deleteSubjectConfig" | "g = putGlobalMode" | "g = putSubjectMode"
    | "g = deleteSubjectMode"
    by (auto simp: routes_def)
  then show ?thesis
    using assms(2) Runs
    by cases (simp_all add: putGlobalConfig_def putSubjectConfig_def putGlobalMode_def putSubjectMode_def
        put_handled delete_level_handled delete_handled register_handled)
qed (use assms(2) in \<open>auto intro: answered\<close>)

text \<open>The methods of the patterns a path matches.\<close>

definition path_methods :: "('n, 'st) route list \<Rightarrow> request \<Rightarrow> string set" where
  "path_methods rts r = {m. \<exists>p h. (m, p, h) \<in> set rts \<and> match_path p (rq_Path r) \<noteq> None}"

lemma path_methods_Cons [simp]:
  "path_methods ((m, p, h) # rts) r = (if match_path p (rq_Path r) \<noteq> None then {m} else {}) \<union> path_methods rts r"
  "path_methods [] r = {}"
  by (auto simp: path_methods_def)

lemma dispatch_ex:
  "dispatch rts other s r = (rs, s') \<Longrightarrow>
     (\<exists>methods. rs = plain_response methods \<and> s' = s \<and> set methods = set other \<union> path_methods rts r
        \<and> (\<forall>m \<in> path_methods rts r. \<not> method_matches m (rq_Method r)))
     \<or> (\<exists>m p h vals. (m, p, h) \<in> set rts \<and> match_path p (rq_Path r) = Some vals
          \<and> method_matches m (rq_Method r) \<and> run_endpoint h s (r\<lparr>rq_PathValues := vals\<rparr>) = (rs, s'))"
proof (induction rts arbitrary: other)
  case (Cons x rts)
  obtain m p h where x: "x = (m, p, h)" by (cases x)
  show ?case
  proof (cases "match_path p (rq_Path r) \<noteq> None \<and> method_matches m (rq_Method r)")
    case True
    with Cons.prems show ?thesis by (intro disjI2 exI [of _ m] exI [of _ p] exI [of _ h]) (auto simp: x)
  next
    case False
    with Cons.prems have "dispatch rts (if match_path p (rq_Path r) \<noteq> None then m # other else other) s r = (rs, s')"
      by (cases "match_path p (rq_Path r)") (auto simp: x)
    from Cons.IH [OF this] show ?thesis
    proof (elim disjE exE conjE)
      fix methods
      assume "rs = plain_response methods" "s' = s"
        "set methods = set (if match_path p (rq_Path r) \<noteq> None then m # other else other) \<union> path_methods rts r"
        "\<forall>m \<in> path_methods rts r. \<not> method_matches m (rq_Method r)"
      with False show ?thesis by (intro disjI1 exI [of _ methods]) (auto simp: x)
    next
      fix m' p' h' vals
      assume "(m', p', h') \<in> set rts" "match_path p' (rq_Path r) = Some vals" "method_matches m' (rq_Method r)"
        "run_endpoint h' s (r\<lparr>rq_PathValues := vals\<rparr>) = (rs, s')"
      then show ?thesis by (intro disjI2 exI [of _ m'] exI [of _ p'] exI [of _ h'] exI [of _ vals]) simp
    qed
  qed
qed (auto split: if_splits)

lemma operationID_idem [simp]: "operationID (set_id (operationID r) r) = operationID r"
  by (auto simp: operationID_def set_id_def split: option.splits)

lemma set_id_fields [simp]:
  "rq_Method (set_id i r) = rq_Method r" "rq_Path (set_id i r) = rq_Path r" "rq_Ctx (set_id i r) = rq_Ctx r"
  "redirects (set_id i r) = redirects r" "redirect_response (set_id i r) = redirect_response r"
  by (simp_all add: set_id_def redirects_def redirect_response_def)

lemma rs_Status_echo [simp]: "rs_Status (echo_id i rs) = rs_Status rs" "rs_Body (echo_id i rs) = rs_Body rs"
  by (simp_all add: echo_id_def)

lemma echoed_id [simp]: "map_of (rs_Header (echo_id i rs)) ''X-Request-ID'' = Some i"
  by (simp add: echo_id_def)

lemma operationID_PathValues [simp]: "operationID (r\<lparr>rq_PathValues := v\<rparr>) = operationID r"
  by (auto simp: operationID_def split: option.split)

text \<open>The request a routed handler sees.\<close>

definition routed_request :: "request \<Rightarrow> (string \<times> string) list \<Rightarrow> request" where
  "routed_request r vals = (set_id (operationID r) r)\<lparr>rq_PathValues := vals\<rparr>"

lemma operationID_routed [simp]: "operationID (routed_request r vals) = operationID r"
  by (simp add: routed_request_def)

lemma Handler_cases:
  fixes s :: "('n, 'st) Server"
  assumes "Handler s r = (rs, s')"
  obtains (redirected) "redirects r" and "rs = echo_id (operationID r) (redirect_response r)" and "s' = s"
  | (plain) methods where "\<not> redirects r" and "rs = echo_id (operationID r) (plain_response methods)" and "s' = s"
      and "set methods = path_methods (routes :: ('n, 'st) route list) r"
      and "\<forall>m \<in> path_methods (routes :: ('n, 'st) route list) r. \<not> method_matches m (rq_Method r)"
  | (routed) m p h vals rs0 where "(m, p, h) \<in> set routes" and "match_path p (rq_Path r) = Some vals"
      and "method_matches m (rq_Method r)" and "run_endpoint h s (routed_request r vals) = (rs0, s')"
      and "rs = echo_id (operationID r) rs0" and "\<not> redirects r"
proof -
  obtain rs0 where m: "mux s (set_id (operationID r) r) = (rs0, s')"
    and rs: "rs = echo_id (operationID r) rs0"
    using assms by (auto simp: Handler_def middleware_def Let_def split: prod.splits)
  show thesis
  proof (cases "redirects r")
    case True
    with m rs redirected show thesis by (simp add: mux_def)
  next
    case False
    with m have d: "dispatch routes [] s (set_id (operationID r) r) = (rs0, s')" by (simp add: mux_def)
    have methods: "path_methods rts (set_id i r) = path_methods rts r" for rts :: "('n, 'st) route list" and i
      by (simp add: path_methods_def)
    from dispatch_ex [OF d] show thesis
      by (elim disjE exE conjE) (use plain routed rs False in \<open>auto simp: routed_request_def methods\<close>)
  qed
qed

lemma match_path_values: "match_path p xs = Some vals \<Longrightarrow> (n, v) \<in> set vals \<Longrightarrow> v \<in> set xs \<and> v \<noteq> ''''"
  by (induction p xs arbitrary: vals rule: match_path.induct) (auto split: if_splits)

lemma PathValue_mem: "PathValue r n \<noteq> '''' \<Longrightarrow> (n, PathValue r n) \<in> set (rq_PathValues r)"
  by (auto simp: PathValue_def dest: map_of_SomeD split: option.splits)

lemma PathValue_routed:
  assumes "match_path p (rq_Path r) = Some vals"
  shows "PathValue (routed_request r vals) n = '''' \<or> PathValue (routed_request r vals) n \<in> set (rq_Path r)"
  using PathValue_mem [of "routed_request r vals" n] match_path_values [OF assms, of n]
  by (auto simp: routed_request_def)

lemma Handler_handled:
  assumes "Handler s r = (rs, s')"
  obtains "s' = s" | vals rs0 where "handled s (routed_request r vals) rs0 s'"
    and "rs = echo_id (operationID r) rs0"
    and "PathValue (routed_request r vals) ''subject'' \<in> insert '''' (set (rq_Path r))"
  using assms
proof (cases rule: Handler_cases)
  case (routed m p h vals rs0)
  show thesis
    using that(2) [OF routes_handled [OF routed(1,4)] routed(5)] PathValue_routed [OF routed(2), of "''subject''"]
    by blast
qed (use that(1) in auto)

end
