(* ===== verification/Server_Guarantees.thy ===== *)
theory Server_Guarantees
  imports Server
begin

text \<open>
  What the REST adapter guarantees of the registry behind it: reads read, refusals change
  nothing, request IDs make retries safe, a registration can be read back over HTTP, and every
  answer is well formed. The format engines are parameters; what is asked of them is that an
  identity is UTF-8 (it is a hexadecimal digest) and that a parsed schema has a registered type.
\<close>

definition identities_utf8 :: "('n, 'st) Server \<Rightarrow> bool" where
  "identities_utf8 s \<longleftrightarrow> (\<forall>identity \<in> engine_identities s. valid_utf8 identity)"

lemma identities_utf8_machine [simp]: "identities_utf8 (s\<lparr>srv_machine := m\<rparr>) = identities_utf8 s"
  by (simp add: identities_utf8_def engine_identities_def)

lemma command_from_utf8:
  assumes "command_from s r c" and "identities_utf8 s" and "valid_utf8 (operationID r)"
  shows "command_utf8 c"
  using assms by (cases c) (auto simp: command_from_def identities_utf8_def)

section \<open>Requests that read\<close>

text \<open>A request whose method is none of POST, PUT and DELETE leaves the server as it is,
  whatever its path, query and body: machine, state and store.\<close>

theorem reads_change_nothing:
  assumes "rq_Method r \<notin> {''POST'', ''PUT'', ''DELETE''}"
  shows "snd (Handler s r) = s"
proof (cases "Handler s r")
  case (Pair rs s')
  then have "s' = s"
  proof (cases rule: Handler_cases)
    case (routed m p h vals rs0)
    have "\<exists>g. h = Reads g"
      using routed(1,3) assms by (auto simp: routes_def method_matches_def)
    then show ?thesis using routed(4) by auto
  qed simp
  with Pair show ?thesis by simp
qed

section \<open>Requests that run a command\<close>

lemma Handler_step:
  assumes "Handler s r = (rs, s')" and "s' \<noteq> s"
  obtains c out m vals where "exec (rq_Ctx r) c (srv_machine s) = (out, m)" and "s' = s\<lparr>srv_machine := m\<rparr>"
    and "command_from s (routed_request r vals) c" and "operation_of c = operationID r"
    and "command_subject c \<in> insert '''' (set (rq_Path r))"
    and "\<forall>res. out = Inr res \<longrightarrow> rs_Status rs = 200 \<or> (\<exists>rc item schema. c = CRegister rc
       \<and> Lookup (m_state m) (rc_Subject rc) (res_Version res) True = (item, schema, False))"
  using assms(1)
proof (cases rule: Handler_handled)
  case (2 vals rs0)
  have q: "rq_Ctx (routed_request r vals) = rq_Ctx r" by (simp add: routed_request_def)
  have u: "operation_of c = operationID r \<and> command_subject c \<in> insert '''' (set (rq_Path r))"
    if "command_from s (routed_request r vals) c" for c
    using that 2(3) by (auto simp: command_from_def)
  from 2(1) show thesis
  proof (cases rule: handled.cases)
    case (refused c err m)
    with u q show thesis by (intro that [of c "Inl err" m vals]) simp_all
  next
    case (ran c res' m)
    with u q 2(2) show thesis by (intro that [of c "Inr res'" m vals]) simp_all
  next
    case (unread rc res' m item schema)
    with u [of "CRegister rc"] q show thesis by (intro that [of "CRegister rc" "Inr res'" m vals]) auto
  qed (use assms(2) in simp)
qed (use assms(2) in simp)

text \<open>A sequence of requests, one after the other.\<close>

fun serve :: "('n, 'st) Server \<Rightarrow> request list \<Rightarrow> ('n, 'st) Server" where
  "serve s [] = s"
| "serve s (r # rs) = serve (snd (Handler s r)) rs"

lemma Handler_inv:
  assumes "registry_inv (srv_state s)" and "identities_utf8 s" and "valid_utf8 (operationID r)"
    and "Handler s r = (rs, s')"
  shows "registry_inv (srv_state s') \<and> identities_utf8 s'"
proof (cases "s' = s")
  case False
  from assms(4) False show ?thesis
  proof (rule Handler_step)
    fix c out m vals
    assume c: "exec (rq_Ctx r) c (srv_machine s) = (out, m)" "s' = s\<lparr>srv_machine := m\<rparr>"
      and from': "command_from s (routed_request r vals) c"
    have "command_utf8 c" using command_from_utf8 [OF from' assms(2)] assms(3) by simp
    then show ?thesis using exec_inv [OF c(1) assms(1)] assms(2) c(2) by simp
  qed
qed (use assms in simp)

text \<open>Whatever requests a server is sent, in whatever order and however many are refused,
  the registry it publishes keeps its invariant, provided the request IDs are UTF-8.\<close>

theorem serve_registry_inv:
  assumes "registry_inv (srv_state s)" and "identities_utf8 s" and "\<forall>r \<in> set rs. valid_utf8 (operationID r)"
  shows "registry_inv (srv_state (serve s rs))"
  using assms
proof (induction rs arbitrary: s)
  case (Cons r rs)
  then show ?case using Handler_inv [of s r "fst (Handler s r)" "snd (Handler s r)"] by simp
qed simp

text \<open>C13: An answer other than 200 means that the published registry is the one before the
  request, provided the path and the request ID are UTF-8.\<close>

theorem refusal_changes_nothing:
  assumes "registry_inv (srv_state s)" and "identities_utf8 s" and "valid_utf8 (operationID r)"
    and "\<forall>x \<in> set (rq_Path r). valid_utf8 x" and "Handler s r = (rs, s')" and "rs_Status rs \<noteq> 200"
  shows "srv_state s' = srv_state s"
proof (rule ccontr)
  assume moved: "srv_state s' \<noteq> srv_state s"
  then have "s' \<noteq> s" by auto
  with assms(5) show False
  proof (rule Handler_step)
    fix c out m vals
    assume c: "exec (rq_Ctx r) c (srv_machine s) = (out, m)" "s' = s\<lparr>srv_machine := m\<rparr>"
      and from': "command_from s (routed_request r vals) c"
      and u: "command_subject c \<in> insert '''' (set (rq_Path r))"
      and nf: "\<forall>res. out = Inr res \<longrightarrow> rs_Status rs = 200 \<or> (\<exists>rc item schema. c = CRegister rc
       \<and> Lookup (m_state m) (rc_Subject rc) (res_Version res) True = (item, schema, False))"
    have utf8: "command_utf8 c" using command_from_utf8 [OF from' assms(2)] assms(3) by simp
    from c(1) show False
    proof (cases rule: exec_state_cases)
      case same
      with moved c(2) show False by simp
    next
      case (moved e res st)
      from nf moved(4) assms(6) obtain rc item schema where rc: "c = CRegister rc"
        and l: "Lookup (m_state m) (rc_Subject rc) (res_Version res) True = (item, schema, False)" by blast
      have "valid_utf8 (rc_Subject rc)" using u assms(4) rc by auto
      then obtain i sch where "Lookup (m_state m) (rc_Subject rc) (res_Version res) False = (i, sch, True)"
        using registration_reads_back [OF assms(1), of rc "rq_Ctx r" res m] utf8 moved(4,6) c(1) rc by auto
      from Lookup_include [OF Apply_ok [OF moved(2)] this] l show False by simp
    qed
  qed
qed

text \<open>An operation the registry knows stays known, whatever is asked of the server, and a request with
  its ID changes nothing.\<close>

lemma exec_keeps_operations:
  assumes "exec ctx c m = (out, m')" and "ResultFor (m_state m) opid = Some res" and "opid \<noteq> ''''"
  shows "ResultFor (m_state m') opid = Some res"
  using assms(1)
proof (cases rule: exec_state_cases)
  case (moved e r st)
  have "env_OperationID e = operation_of c" using issued_facts [OF moved(1)] by simp
  moreover have "operation_of c \<noteq> opid" using moved(6) assms(2,3) by (auto simp: retried_def)
  ultimately show ?thesis using assms(2) by (simp add: ResultFor_def Apply_Operations [OF moved(2)])
qed (use assms(2) in simp)

lemma Handler_keeps_operations:
  assumes "ResultFor (srv_state s) opid = Some res" and "opid \<noteq> ''''"
  shows "ResultFor (srv_state (snd (Handler s r))) opid = Some res"
proof (cases "snd (Handler s r) = s")
  case False
  with prod.collapse [symmetric, of "Handler s r"] show ?thesis
  proof (rule Handler_step)
    fix c out m
    assume "exec (rq_Ctx r) c (srv_machine s) = (out, m)" and "snd (Handler s r) = s\<lparr>srv_machine := m\<rparr>"
    then show ?thesis using exec_keeps_operations [of "rq_Ctx r" c "srv_machine s" out m opid res] assms by simp
  qed
qed (use assms(1) in simp)

lemma serve_keeps_operations:
  "ResultFor (srv_state s) opid = Some res \<Longrightarrow> opid \<noteq> '''' \<Longrightarrow> ResultFor (srv_state (serve s qs)) opid = Some res"
  by (induction qs arbitrary: s) (simp_all add: Handler_keeps_operations)

lemma request_known:
  assumes "srv_state (snd (Handler s r)) \<noteq> srv_state s" and "operationID r \<noteq> ''''"
  obtains res where "ResultFor (srv_state (snd (Handler s r))) (operationID r) = Some res"
proof -
  have "snd (Handler s r) \<noteq> s" using assms(1) by auto
  with prod.collapse [symmetric, of "Handler s r"] show thesis
  proof (rule Handler_step)
    fix c out m
    assume c: "exec (rq_Ctx r) c (srv_machine s) = (out, m)" "snd (Handler s r) = s\<lparr>srv_machine := m\<rparr>"
      "operation_of c = operationID r"
    show thesis by (rule moved_operation_known [OF c(1)]) (use assms c that in auto)
  qed
qed

lemma known_request_keeps:
  assumes "ResultFor (srv_state s) (operationID r) = Some res" and "operationID r \<noteq> ''''"
  shows "snd (Handler s r) = s"
proof (rule ccontr)
  assume "snd (Handler s r) \<noteq> s"
  with prod.collapse [symmetric, of "Handler s r"] show False
  proof (rule Handler_step)
    fix c out m
    assume "exec (rq_Ctx r) c (srv_machine s) = (out, m)" "operation_of c = operationID r"
      "snd (Handler s r) = s\<lparr>srv_machine := m\<rparr>"
    with known_operation_keeps [of c "srv_machine s" res "rq_Ctx r"] assms \<open>snd (Handler s r) \<noteq> s\<close> show False by simp
  qed
qed

text \<open>C8: Once a request with an ID has changed the registry, no request with the same ID does, however
  many other requests come in between: neither the published state nor the store nor anything else of
  the server changes, whatever the later request asks for.\<close>

theorem request_retry_safe:
  assumes "Handler s r = (rs, s')" and "srv_state s' \<noteq> srv_state s" and "HeaderGet (rq_Header r) ''X-Request-ID'' \<noteq> ''''"
    and "HeaderGet (rq_Header r') ''X-Request-ID'' = HeaderGet (rq_Header r) ''X-Request-ID''"
  shows "snd (Handler (serve s' qs) r') = serve s' qs"
proof -
  have op: "operationID r \<noteq> ''''" "operationID r' = operationID r"
    using assms(3,4) by (simp_all add: operationID_def)
  obtain res where "ResultFor (srv_state s') (operationID r) = Some res"
    using request_known [of s r] assms(1,2) op(1) by auto
  from serve_keeps_operations [OF this op(1), of qs] show ?thesis
    using known_request_keeps [of "serve s' qs" r' res] op by simp
qed

text \<open>How many of a sequence of requests change the registry under an ID: one at most.\<close>

fun changes :: "string \<Rightarrow> ('n, 'st) Server \<Rightarrow> request list \<Rightarrow> nat" where
  "changes opid s [] = 0"
| "changes opid s (r # rs) =
     (if operationID r = opid \<and> srv_state (snd (Handler s r)) \<noteq> srv_state s then 1 else 0) + changes opid (snd (Handler s r)) rs"

lemma no_changes_known:
  "ResultFor (srv_state s) opid = Some res \<Longrightarrow> opid \<noteq> '''' \<Longrightarrow> changes opid s qs = 0"
  by (induction qs arbitrary: s) (auto simp: Handler_keeps_operations known_request_keeps)

lemma changes_at_most_once: "opid \<noteq> '''' \<Longrightarrow> changes opid s qs \<le> 1"
proof (induction qs arbitrary: s)
  case (Cons q qs)
  show ?case
  proof (cases "operationID q = opid \<and> srv_state (snd (Handler s q)) \<noteq> srv_state s")
    case True
    then obtain res where "ResultFor (srv_state (snd (Handler s q))) opid = Some res"
      using request_known [of s q] Cons.prems by auto
    then show ?thesis using Cons.prems by (simp add: no_changes_known)
  next
    case False
    then have "changes opid s (q # qs) = changes opid (snd (Handler s q)) qs" by auto
    with Cons show ?thesis by simp
  qed
qed simp

section \<open>Reading back over HTTP\<close>

lemma Handler_routes:
  assumes "u \<noteq> ''''" and "v \<noteq> ''''" and "\<not> redirects r"
  shows "rq_Method r = ''POST'' \<Longrightarrow> rq_Path r = [''subjects'', u, ''versions''] \<Longrightarrow>
      Handler s r = (let (rs, s') = register s (routed_request r [(''subject'', u)])
        in (echo_id (operationID r) rs, s'))"
    and "rq_Method r = ''GET'' \<Longrightarrow> rq_Path r = [''subjects'', u, ''versions'', v] \<Longrightarrow>
      Handler s r = (echo_id (operationID r) (version_handler s (routed_request r [(''subject'', u), (''version'', v)])), s)"
    and "rq_Method r = ''GET'' \<Longrightarrow> rq_Path r = [''schemas'', ''ids'', v, ''schema''] \<Longrightarrow>
      Handler s r = (echo_id (operationID r) (schemaTextByID s (routed_request r [(''id'', v)])), s)"
  using assms
  by (simp_all add: Handler_def middleware_def mux_def routes_def method_matches_def routed_request_def Let_def)

lemma redirected_status: "redirects r \<Longrightarrow> rs_Status (fst (Handler s r)) = 307"
  by (simp add: Handler_def middleware_def mux_def redirect_response_def Let_def)

lemma PathValue_routed_request [simp]:
  "PathValue (routed_request r vals) n = (case map_of vals n of None \<Rightarrow> '''' | Some v \<Rightarrow> v)"
  by (simp add: PathValue_def routed_request_def)

lemma fmt_i64_not_latest: "fmt_i64 v \<noteq> ''latest''" "fmt_i64 v \<noteq> ''''"
proof -
  have "ParseInt ''latest'' = None" "ParseInt '''' = None"
    by (simp_all add: ParseInt_def parse_nat_def is_digit_def)
  then show "fmt_i64 v \<noteq> ''latest''" "fmt_i64 v \<noteq> ''''"
    using ParseInt_fmt_i64 [of v] by (metis option.distinct(1))+
qed

text \<open>The 200 answer a request gets.\<close>

definition ok_response :: "request \<Rightarrow> body \<Rightarrow> response" where
  "ok_response r v = echo_id (operationID r) (writeJSON 200 v)"

lemma parseRequest_refuses: "parseRequest s r = Inl rs \<Longrightarrow> rs_Status rs = 422"
  by (auto simp: parseRequest_def Let_def writeAPIError_def split: sum.splits if_splits option.splits)

lemma version_readable:
  assumes "state_ok (srv_state s)" and "Lookup (srv_state s) u v False = (item, schema, True)" and "u \<noteq> ''''"
    and "rq_Method q = ''GET''" and "rq_Path q = [''subjects'', u, ''versions'', fmt_i64 v]" and "\<not> redirects q"
  shows "fst (Handler s q) = ok_response q (BJson (enc_schemaResponse (responseFor item schema)))"
proof -
  have "1 \<le> v"
    using assms(2) state_ok_versions [OF assms(1), of u] by (auto simp: Lookup_True [OF assms(1)] versions_ok_def)
  moreover have "Lookup (srv_state s) u v b = (item, schema, True)" for b
    using assms(2) Lookup_include [OF assms(1,2)] by (cases b) simp_all
  ultimately show ?thesis
    using assms(3-6) fmt_i64_not_latest [of v]
    by (simp add: Handler_routes(2) version_handler_def lookupVersion_def parseVersionPath_def ok_response_def not_less)
qed

lemma text_readable:
  assumes "fmlookup (snap_Schemas (srv_state s)) sid = Some schema" and "1 \<le> sid"
    and "rq_Method q = ''GET''" and "rq_Path q = [''schemas'', ''ids'', fmt_i64 sid, ''schema'']" and "\<not> redirects q"
  shows "fst (Handler s q) = ok_response q (BText (sch_Definition schema))"
  using assms fmt_i64_not_latest [of sid]
  by (simp add: Handler_routes(3) [of "''x''"] schemaTextByID_def parseID_def SchemaByID_def ok_response_def
      not_less writeJSON_def)

text \<open>C4: A registration answered with 200 can be read back over HTTP: the version the answer
  names is served under its number with the same schema, the schema is the one with the identity
  the engine gave the request, and its text is served under its ID where the ID is positive. The
  paths are the clean ones; the multiplexer redirects any other.\<close>

theorem registration_read_back_over_http:
  assumes "registry_inv (srv_state s)" and "identities_utf8 s" and "valid_utf8 (operationID r)"
    and "valid_utf8 u" and "u \<noteq> ''''" and "rq_Method r = ''POST''" and "rq_Path r = [''subjects'', u, ''versions'']"
    and "retried (srv_state s) (operationID r) = None"
    and "Handler s r = (rs, s')" and "rs_Status rs = 200"
  shows "\<exists>item schema parsed input. sv_Subject item = u
    \<and> parseRequest s (routed_request r [(''subject'', u)]) = Inr (input, parsed)
    \<and> sch_Identity schema = p_Identity parsed
    \<and> rs_Body rs = BJson (enc_schemaResponse (responseForRegistration item schema))
    \<and> (\<forall>q. \<not> redirects q \<and> rq_Method q = ''GET'' \<and> rq_Path q = [''subjects'', u, ''versions'', fmt_i64 (sv_Version item)] \<longrightarrow>
         fst (Handler s' q) = ok_response q (BJson (enc_schemaResponse (responseFor item schema))))
    \<and> (\<forall>q. 1 \<le> sv_SchemaID item \<and> \<not> redirects q \<and> rq_Method q = ''GET''
           \<and> rq_Path q = [''schemas'', ''ids'', fmt_i64 (sv_SchemaID item), ''schema''] \<longrightarrow>
         fst (Handler s' q) = ok_response q (BText (sch_Definition schema)))"
proof -
  let ?r = "routed_request r [(''subject'', u)]"
  have clean: "\<not> redirects r" using redirected_status [of r s] assms(9,10) by auto
  obtain rs0 where h: "register s ?r = (rs0, s')" and rs: "rs = echo_id (operationID r) rs0"
    using assms(9) Handler_routes(1) [OF assms(5,5) clean assms(6,7), of s] by (auto simp: Let_def split: prod.splits)
  from h show ?thesis
  proof (cases rule: register_cases)
    case (registered input parsed res m item schema)
    let ?c = "register_command ?r input parsed"
    have c: "rc_Subject ?c = u" "rc_Identity ?c = p_Identity parsed" "rc_OperationID ?c = operationID r"
      by (simp_all add: register_command_def)
    have utf8: "command_utf8 (CRegister ?c)"
      using parseRequest_identity [OF registered(1)] assms(2,3) c by (simp add: identities_utf8_def)
    from registration_reads_back [OF assms(1) utf8 _ _ registered(2)] assms(4,8) c
    obtain item' schema' where l: "Lookup (m_state m) u (res_Version res) False = (item', schema', True)"
      "sv_SchemaID item' = res_SchemaID res" "sch_Identity schema' = p_Identity parsed"
      "fmlookup (snap_IdentityToID (m_state m)) (p_Identity parsed) = Some (res_SchemaID res)"
      by auto
    have ok: "state_ok (m_state m)"
      using exec_inv [of _ "CRegister ?c", OF _ assms(1) utf8] registered(2) by (simp add: registry_inv_def)
    have same: "item' = item" "schema' = schema"
      using Lookup_include [OF ok l(1)] registered(3) by simp_all
    have item: "item \<in> set (versions_of (m_state m) u)" "sv_Version item = res_Version res"
      "fmlookup (snap_Schemas (m_state m)) (sv_SchemaID item) = Some schema"
      using l(1) same by (simp_all add: Lookup_True [OF ok])
    have "sv_Subject item = u"
      using state_ok_versions [OF ok, of u] item(1) by (auto simp: versions_ok_def)
    moreover have "srv_state s' = m_state m" using registered(5) by simp
    ultimately show ?thesis
      using registered(1,4) rs l(1,3) same item version_readable [of s' u "res_Version res" item schema] ok assms(5)
        text_readable [of s' "sv_SchemaID item" schema]
      by (intro exI [of _ item] exI [of _ schema] exI [of _ parsed] exI [of _ input]) (simp add: writeJSON_def)
  qed (use assms(10) rs in \<open>auto simp: writeDomainError_def writeAPIError_def Let_def parseRequest_refuses
        split: option.splits if_splits\<close>)
qed

section \<open>Versions and answers\<close>

text \<open>C15: The version a path names is a positive 64-bit number: the number written, or for
  \<open>latest\<close> the greatest of the versions the caller may see, which exists unless the subject
  has none.\<close>

theorem version_path_bounds:
  assumes "state_ok s"
  shows "(\<forall>v. parseVersionPath s u p b = Inr v \<longrightarrow>
      1 \<le> v \<and> (if p = ''latest'' then v \<in> set (Versions s u b) \<and> (\<forall>w \<in> set (Versions s u b). w \<le> v)
                else ParseInt p = Some v))
    \<and> (p = ''latest'' \<and> Versions s u b \<noteq> [] \<longrightarrow> (\<exists>v. parseVersionPath s u p b = Inr v))
    \<and> (\<forall>v. 1 \<le> v \<longrightarrow> parseVersionPath s u (fmt_i64 v) b = Inr v)"
proof (intro conjI allI impI)
  show "\<exists>v. parseVersionPath s u p b = Inr v" if "p = ''latest'' \<and> Versions s u b \<noteq> []"
    using that by (simp add: parseVersionPath_def)
  show "parseVersionPath s u (fmt_i64 v) b = Inr v" if "1 \<le> v" for v
    using that fmt_i64_not_latest [of v] by (simp add: parseVersionPath_def not_less)
next
  fix v
  assume v: "parseVersionPath s u p b = Inr v"
  have sorted: "w \<le> last (Versions s u b)" if "w \<in> set (Versions s u b)" for w
  proof -
    have s: "sorted (Versions s u b)" by (simp add: Versions_def)
    have "Versions s u b = butlast (Versions s u b) @ [last (Versions s u b)]"
      using that by (cases "Versions s u b" rule: rev_cases) auto
    with s that show ?thesis
      by (metis Un_iff empty_iff insert_iff list.set(1,2) order_refl set_append sorted_append)
  qed
  have pos: "1 \<le> w" if "w \<in> set (Versions s u b)" for w
    using that state_ok_versions [OF assms, of u] by (auto simp: set_Versions versions_ok_def)
  have last: "last (Versions s u b) \<in> set (Versions s u b)" if "Versions s u b \<noteq> []"
    using that by (rule last_in_set)
  show "1 \<le> v"
    using v last pos by (auto simp: parseVersionPath_def Let_def not_less split: if_splits option.splits)
  show "if p = ''latest'' then v \<in> set (Versions s u b) \<and> (\<forall>w \<in> set (Versions s u b). w \<le> v) else ParseInt p = Some v"
    using v last sorted by (auto simp: parseVersionPath_def Let_def split: if_splits option.splits)
qed

text \<open>The statuses, codes and content types of the API.\<close>

definition api_errors :: "(nat \<times> nat) set" where
  "api_errors = {(404, 40401), (404, 40402), (404, 40403), (404, 40408), (404, 40409), (409, 409),
     (422, 42201), (422, 42202), (422, 42203), (422, 42204), (422, 42205), (500, 50001)}"

fun body_ok :: "nat \<Rightarrow> body \<Rightarrow> bool" where
  "body_ok status (BJson j) \<longleftrightarrow> status \<in> {200, 503} \<and> json_ok j"
| "body_ok status (BText t) \<longleftrightarrow> status = 200"
| "body_ok status (BError code msg) \<longleftrightarrow> (status, code) \<in> api_errors"
| "body_ok status _ \<longleftrightarrow> False"

definition response_ok :: "response \<Rightarrow> bool" where
  "response_ok rs \<longleftrightarrow> body_ok (rs_Status rs) (rs_Body rs)
     \<and> HeaderGet (rs_Header rs) ''Content-Type'' = vendorContentType"

lemma encode_body_reads_back:
  assumes "json_ok j"
  shows "parse_json (encode_body j) = Some j"
proof -
  have "ends [CHR 0x0A]" by (simp add: ends_def num_char_def is_digit_def)
  then have "parse_value (2 * length (encode_body j) + 1) (encode_body j) = Some (j, [CHR 0x0A])"
    using print_json_reads_back [OF json_ok_text [OF assms]] unfolding reads_back_def encode_body_def
    by (simp del: parse_value.simps)
  then show ?thesis
    unfolding parse_json_def decode_stream_def by (simp add: skip_ws_def is_ws_def del: parse_value.simps)
qed

lemma response_ok_basic [simp]:
  "response_ok (writeJSON 200 (BJson j)) = json_ok j" "response_ok (writeJSON 503 (BJson j)) = json_ok j"
  "response_ok (writeAPIError status code msg) \<longleftrightarrow> (status, code) \<in> api_errors"
  "response_ok (level_response k v)" "response_ok (schema_missing sid)"
  "response_ok (echo_id i rs) = response_ok rs"
  by (auto simp: response_ok_def echo_id_def writeJSON_def writeAPIError_def level_response_def plain_response_def
      schema_missing_def api_errors_def)

lemma response_ok_writeDomainError [simp]: "response_ok (writeDomainError err)"
  by (auto simp: writeDomainError_def Let_def api_errors_def split: option.splits)

lemma json_ok_schemaResponse [simp]: "json_ok (enc_schemaResponse o')"
  by (auto simp: enc_schemaResponse_def enc_Reference_def omitempty_def ball_Un split: option.splits)

lemma response_ok_answer: "(\<And>e. x = Inl e \<Longrightarrow> response_ok e) \<Longrightarrow> (\<And>y. x = Inr y \<Longrightarrow> response_ok (f y)) \<Longrightarrow> response_ok (answer f x)"
  by (cases x) simp_all

lemma response_ok_Inl:
  "parseRequest s r = Inl e \<Longrightarrow> response_ok e" "parseVersionPath st u p b = Inl e \<Longrightarrow> response_ok e"
  "parseID p = Inl e \<Longrightarrow> response_ok e" "lookupVersion s r b = Inl e \<Longrightarrow> response_ok e"
proof -
  show "parseRequest s r = Inl e \<Longrightarrow> response_ok e"
    by (auto simp: parseRequest_def Let_def api_errors_def split: sum.splits if_splits option.splits)
  show v: "parseVersionPath st u p b = Inl e \<Longrightarrow> response_ok e" for st u p b
    by (auto simp: parseVersionPath_def Let_def api_errors_def split: if_splits option.splits)
  show "parseID p = Inl e \<Longrightarrow> response_ok e"
    by (auto simp: parseID_def api_errors_def split: if_splits option.splits)
  show "lookupVersion s r b = Inl e \<Longrightarrow> response_ok e"
    by (auto simp: lookupVersion_def Let_def api_errors_def split: sum.splits if_splits prod.splits dest: v)
qed

text \<open>A parsed schema has a type some engine of the server handles.\<close>

definition types_known :: "('n, 'st) Server \<Rightarrow> bool" where
  "types_known s \<longleftrightarrow> (\<forall>t engine ctx pr resolver parsed.
     srv_engines s t = Some engine \<and> en_Parse engine ctx pr resolver = Inr parsed \<longrightarrow>
     srv_engines s (p_Type parsed) \<noteq> None)"

lemma parseRequest_type:
  assumes "types_known s" and "parseRequest s r = Inr (input, parsed)"
  shows "srv_engines s (p_Type parsed) \<noteq> None"
proof -
  from assms(2) obtain t engine ctx pr resolver where
    "srv_engines s t = Some engine" "en_Parse engine ctx pr resolver = Inr parsed"
    unfolding parseRequest_def Let_def by (auto split: sum.splits if_splits option.splits)
  with assms(1) show ?thesis unfolding types_known_def by blast
qed

lemma response_ok_text [simp]:
  "response_ok \<lparr>rs_Status = 200, rs_Header = [(''Content-Type'', vendorContentType)], rs_Body = BText t\<rparr>"
  by (simp add: response_ok_def)

lemma reads_ok:
  "response_ok (lookupSchema s r)" "response_ok (schemaByID s r)" "response_ok (schemaTextByID s r)"
  "response_ok (versionsByID s r)" "response_ok (version_handler s r)" "response_ok (referencedBy s r)"
proof -
  show "response_ok (lookupSchema s r)"
    unfolding lookupSchema_def
    by (rule response_ok_answer, erule response_ok_Inl) (auto simp: api_errors_def split: option.splits)
  show "response_ok (schemaByID s r)"
    unfolding schemaByID_def by (rule response_ok_answer, erule response_ok_Inl) (auto simp: Let_def split: option.splits)
  show "response_ok (schemaTextByID s r)"
    unfolding schemaTextByID_def by (rule response_ok_answer, erule response_ok_Inl) (auto split: option.splits)
  show "response_ok (versionsByID s r)"
    unfolding versionsByID_def by (rule response_ok_answer, erule response_ok_Inl) (auto split: option.splits)
  show "response_ok (version_handler s r)"
    unfolding version_handler_def by (rule response_ok_answer, erule response_ok_Inl) auto
  show "response_ok (referencedBy s r)"
    unfolding referencedBy_def by (rule response_ok_answer, erule response_ok_Inl) auto
qed

lemma plain_reads_ok:
  "response_ok (schemaTypes s r)" "response_ok (subjects_handler s r)" "response_ok (versions_handler s r)"
  "response_ok (getGlobalConfig s r)" "response_ok (getSubjectConfig s r)" "response_ok (getGlobalMode s r)"
  "response_ok (getSubjectMode s r)" "response_ok (healthLive s r)" "response_ok (healthReady s r)"
  by (auto simp: schemaTypes_def subjects_handler_def versions_handler_def getGlobalConfig_def getSubjectConfig_def
      getGlobalMode_def getSubjectMode_def healthLive_def healthReady_def Let_def api_errors_def split: option.split)

lemma compatibility_ok:
  assumes "types_known s"
  shows "response_ok (compatibility_handler s r)"
  unfolding compatibility_handler_def Let_def
proof (rule response_ok_answer, erule response_ok_Inl, clarsimp, rule response_ok_answer, erule response_ok_Inl)
  fix input parsed v
  assume "parseRequest s r = Inr (input, parsed)"
  then obtain engine where "srv_engines s (p_Type parsed) = Some engine"
    using parseRequest_type [OF assms] by blast
  then show "response_ok
      (case Lookup (srv_state s) (PathValue r ''subject'') v False of
         (_, previousSchema, found) \<Rightarrow>
           if \<not> found then writeAPIError 404 40402 (MText ''Version not found'')
           else case srv_engines s (p_Type parsed) of
             None \<Rightarrow> \<lparr>rs_Status = 0, rs_Header = [], rs_Body = BPanic\<rparr>
           | Some engine \<Rightarrow>
               (case en_Parse engine (rq_Ctx r) (stored_request previousSchema) (stateResolver_Resolve (srv_state s)) of
                  Inl err \<Rightarrow> writeAPIError 500 50001 (MText err)
                | Inr previous \<Rightarrow>
                    (case en_Compatible engine (rq_Ctx r) (EffectiveCompatibility (srv_state s) (PathValue r ''subject'')) parsed [previous] of
                       Inl err \<Rightarrow> writeAPIError 500 50001 (MText err)
                     | Inr (compatible, messages) \<Rightarrow>
                         writeJSON 200 (BJson (obj ([(''is_compatible'', JBool compatible)]
                           @ (if queryBool r ''verbose'' then [(''messages'', JArr (map enc_string messages))] else [])))))))"
    by (auto simp: api_errors_def ball_Un split: sum.splits prod.splits)
qed

lemma configured_ok: "response_ok ok \<Longrightarrow> response_ok (fst (configured s ok x))"
  by (cases "(s, ok, x)" rule: configured.cases) auto

lemma register_ok: "response_ok (fst (register s r))"
  by (rule register_cases [of s r "fst (register s r)" "snd (register s r)"])
    (auto simp: response_ok_Inl(1) api_errors_def)

lemma runs_ok:
  "response_ok (fst (deleteVersion s r))" "response_ok (fst (deleteSubject s r))"
  "response_ok (fst (putConfig s r u))" "response_ok (fst (deleteSubjectConfig s r))"
  "response_ok (fst (putMode s r u))" "response_ok (fst (deleteSubjectMode s r))"
  by (auto simp: deleteVersion_def deleteSubject_def putConfig_def deleteSubjectConfig_def putMode_def
      deleteSubjectMode_def Let_def api_errors_def response_ok_Inl(2)
      intro: configured_ok split: sum.split prod.split option.split)

lemma endpoint_ok:
  assumes "(m, p, h) \<in> set routes" and "types_known s"
  shows "response_ok (fst (run_endpoint h s r))"
proof (cases h)
  case (Reads g)
  with assms(1) have "g \<in> {healthLive, healthReady, schemaTypes, schemaByID, schemaTextByID, versionsByID,
      subjects_handler, lookupSchema, versions_handler, version_handler, referencedBy, getGlobalConfig,
      getSubjectConfig, getGlobalMode, getSubjectMode, compatibility_handler}"
    by (auto simp: routes_def)
  with Reads show ?thesis using reads_ok plain_reads_ok compatibility_ok [OF assms(2)] by auto
next
  case (Runs g)
  with assms(1) have "g \<in> {register, deleteVersion, deleteSubject, putGlobalConfig, putSubjectConfig,
      deleteSubjectConfig, putGlobalMode, putSubjectMode, deleteSubjectMode}"
    by (auto simp: routes_def)
  with Runs show ?thesis
    using register_ok runs_ok
    by (auto simp: putGlobalConfig_def putSubjectConfig_def putGlobalMode_def putSubjectMode_def)
qed


end
