(* ===== verification/Security.thy ===== *)
theory Security
  imports Server_Guarantees
begin

text \<open>
  \<open>internal/security/http.go\<close>: authentication and the guard of administrative mutations, as
  handlers around a handler, and the order in which \<open>internal/app/app.go\<close> stacks them on the
  public API; and \<open>TrustedProxySet\<close>, which nothing in the program uses, with what \<open>net\<close> reads of
  addresses and networks as an argument.
\<close>

type_synonym 'w handler = "'w \<Rightarrow> request \<Rightarrow> response \<times> 'w"

record AuthConfig =
  ac_Mode :: string
  ac_Username :: string
  ac_Password :: string
  ac_BearerToken :: string

definition constantEqual :: "string \<Rightarrow> string \<Rightarrow> bool" where
  "constantEqual left right \<longleftrightarrow> length left = length right \<and> left = right"

definition writeAuthError :: "nat \<Rightarrow> nat \<Rightarrow> string \<Rightarrow> response" where
  "writeAuthError status code msg =
     \<lparr>rs_Status = status, rs_Header = [(''Content-Type'', ''application/vnd.schemaregistry.v1+json'')],
      rs_Body = BError code (MText msg)\<rparr>"

text \<open>\<open>Request.BasicAuth\<close>: the scheme in any case, then the encoded pair.\<close>

definition BasicAuth :: "request \<Rightarrow> (string \<times> string) option" where
  "BasicAuth r =
     (let auth = HeaderGet (rq_Header r) ''Authorization'' in
      if map fold_char (take 6 auth) \<noteq> ''BASIC '' then None
      else case b64_decode (drop 6 auth) of
        None \<Rightarrow> None
      | Some c \<Rightarrow> if CHR '':'' \<in> set c then Some (Cut (CHR '':'') c) else None)"

definition authorized :: "AuthConfig \<Rightarrow> request \<Rightarrow> bool" where
  "authorized config r =
     (if ac_Mode config = '''' \<or> ac_Mode config = ''anonymous'' then True
      else if ac_Mode config = ''basic'' then
        (case BasicAuth r of
           None \<Rightarrow> False
         | Some (username, password) \<Rightarrow>
             constantEqual username (ac_Username config) \<and> constantEqual password (ac_Password config))
      else if ac_Mode config = ''bearer'' then
        (let v = HeaderGet (rq_Header r) ''Authorization'' in
         HasPrefix v ''Bearer '' \<and> constantEqual (TrimPrefix v ''Bearer '') (ac_BearerToken config))
      else False)"

definition Authenticate :: "AuthConfig \<Rightarrow> 'w handler \<Rightarrow> 'w handler" where
  "Authenticate config next w r =
     (if \<not> authorized config r
      then (let rs = writeAuthError 401 40101 ''Unauthorized'' in
            (rs\<lparr>rs_Header := HeaderSet ''WWW-Authenticate''
               (''Basic realm='' @ [CHR 0x22] @ ''riquet'' @ [CHR 0x22] @ '', Bearer'') (rs_Header rs)\<rparr>, w))
      else next w r)"

definition isAdministrativeMutation :: "request \<Rightarrow> bool" where
  "isAdministrativeMutation r \<longleftrightarrow>
     (let path = URL_Path r in
      rq_Method r = ''PUT'' \<and> (path = ''/config'' \<or> HasPrefix path ''/config/'' \<or> path = ''/mode''
        \<or> HasPrefix path ''/mode/'')
      \<or> rq_Method r = ''DELETE'')"

definition ProtectAdministration :: "string \<Rightarrow> 'w handler \<Rightarrow> 'w handler" where
  "ProtectAdministration token next w r =
     (if token = '''' \<or> \<not> isAdministrativeMutation r then next w r
      else
        (let provided = HeaderGet (rq_Header r) ''X-Riquet-Admin-Token'' in
         if token = '''' \<or> \<not> constantEqual provided token
         then (writeAuthError 403 40301 ''Administrative mutation is forbidden'', w)
         else next w r))"

definition public_handler :: "AuthConfig \<Rightarrow> string \<Rightarrow> 'w handler \<Rightarrow> 'w handler" where
  "public_handler config adminToken internal =
     Authenticate config (ProtectAdministration adminToken internal)"

section \<open>Trusted proxies\<close>

text \<open>The functions of \<open>net\<close>; an address that cannot be read is nil, which no network contains.\<close>

record ('n, 'i) net =
  net_ParseCIDR :: "string \<Rightarrow> go_error + 'n"
  net_Contains :: "'n \<Rightarrow> 'i \<Rightarrow> bool"
  net_ParseIP :: "string \<Rightarrow> 'i option"
  net_SplitHostPort :: "string \<Rightarrow> string option"

fun NewTrustedProxySet :: "('n, 'i) net \<Rightarrow> string list \<Rightarrow> go_error + 'n list" where
  "NewTrustedProxySet n [] = Inr []"
| "NewTrustedProxySet n (cidr # rest) =
     (case net_ParseCIDR n cidr of
        Inl err \<Rightarrow> Inl err
      | Inr network \<Rightarrow> (case NewTrustedProxySet n rest of Inl err \<Rightarrow> Inl err | Inr networks \<Rightarrow> Inr (network # networks)))"

definition peer_address :: "('n, 'i) net \<Rightarrow> request \<Rightarrow> 'i option" where
  "peer_address n r =
     net_ParseIP n (case net_SplitHostPort n (rq_RemoteAddr r) of None \<Rightarrow> rq_RemoteAddr r | Some host \<Rightarrow> host)"

definition trusted_peer :: "('n, 'i) net \<Rightarrow> 'n list \<Rightarrow> request \<Rightarrow> bool" where
  "trusted_peer n networks r \<longleftrightarrow>
     list_ex (\<lambda>network. case peer_address n r of None \<Rightarrow> False | Some ip \<Rightarrow> net_Contains n network ip) networks"

definition ClientIP :: "('n, 'i) net \<Rightarrow> 'n list \<Rightarrow> request \<Rightarrow> 'i option" where
  "ClientIP n networks r =
     (if trusted_peer n networks r
      then (case net_ParseIP n (TrimSpace (hd (Split (CHR '','') (HeaderGet (rq_Header r) ''X-Forwarded-For'')))) of
              Some forwarded \<Rightarrow> Some forwarded
            | None \<Rightarrow> peer_address n r)
      else peer_address n r)"

text \<open>A peer that is not trusted cannot choose its address: the header has no effect.\<close>

lemma ClientIP_untrusted:
  assumes "\<not> trusted_peer n networks r" and "rq_RemoteAddr r' = rq_RemoteAddr r"
  shows "ClientIP n networks r' = peer_address n r"
proof -
  have "peer_address n r' = peer_address n r" unfolding peer_address_def assms(2) ..
  with assms(1) show ?thesis by (simp add: ClientIP_def trusted_peer_def)
qed

section \<open>What a request may do without the administration token\<close>

lemma constantEqual_iff [simp]: "constantEqual a b \<longleftrightarrow> a = b"
  by (auto simp: constantEqual_def)

lemma match_path_prefix:
  "match_path (Lit l # p) xs = Some vals \<Longrightarrow> xs = l # tl xs \<and> match_path p (tl xs) = Some vals"
  by (cases xs) (auto split: if_splits)

lemma match_path_Nil: "match_path [] xs = Some vals \<Longrightarrow> xs = []"
  by (cases xs) simp_all

lemma match_path_one: "match_path [Wild n] xs = Some vals \<Longrightarrow> \<exists>x. xs = [x]"
  by (cases xs) (auto dest: match_path_Nil split: if_splits)

text \<open>The mutations that are not administrative are registrations.\<close>

lemma mutation_is_registration:
  assumes "(m, p, Runs h) \<in> set routes" and "match_path p (rq_Path r) = Some vals"
    and "method_matches m (rq_Method r)" and "\<not> isAdministrativeMutation r"
  shows "h = register"
proof -
  have "m = ''DELETE'' \<Longrightarrow> isAdministrativeMutation r"
    using assms(3) by (auto simp: method_matches_def isAdministrativeMutation_def)
  moreover have "isAdministrativeMutation r" if "m = ''PUT''" "p = [Lit x] \<or> p = [Lit x, Wild n]" "x \<in> {''config'', ''mode''}" for x n
  proof -
    have "rq_Path r = [x] \<or> (\<exists>y. rq_Path r = [x, y])"
      using assms(2) that(2) by (auto dest!: match_path_prefix match_path_one match_path_Nil)
    then show ?thesis
      using that(1,3) assms(3) by (auto simp: isAdministrativeMutation_def URL_Path_def HasPrefix_def method_matches_def)
  qed
  ultimately show ?thesis
    using assms(1,4) by (auto simp: routes_def)
qed

lemma registration_only:
  assumes "Handler s r = (rs, s')" and "\<not> isAdministrativeMutation r"
  obtains "s' = s" | c out m where "exec (rq_Ctx r) (CRegister c) (srv_machine s) = (out, m)" and "s' = s\<lparr>srv_machine := m\<rparr>"
  using assms(1)
proof (cases rule: Handler_cases)
  case (routed m p h vals rs0)
  show thesis
  proof (cases h)
    case (Reads g)
    then show thesis using routed(4) that(1) by auto
  next
    case (Runs g)
    then have "register s (routed_request r vals) = (rs0, s')"
      using mutation_is_registration [of m p g r vals] routed assms(2) by simp
    moreover have "rq_Ctx (routed_request r vals) = rq_Ctx r" by (simp add: routed_request_def)
    ultimately show thesis
      by (cases rule: register_cases) (use that in auto)
  qed
qed (use that in auto)

lemma registration_frame:
  assumes "issued s (CRegister c) e r" and "Apply s e = Inr s'"
  shows "snap_GlobalCompatibility s' = snap_GlobalCompatibility s \<and> snap_SubjectCompatibility s' = snap_SubjectCompatibility s
    \<and> snap_GlobalMode s' = snap_GlobalMode s \<and> snap_SubjectModes s' = snap_SubjectModes s
    \<and> (\<forall>u. \<exists>new. versions_of s' u = versions_of s u @ new)"
proof -
  from assms(1) obtain sid where e: "e = newEnvelope (snap_Sequence s + 1) (rc_OperationID c) TransitionSchemaRegistered
      (enc_registration (planned_registration s c sid)) (planned_result s c sid)"
    by (elim issued_register) auto
  let ?p = "coerce_registration (planned_registration s c sid)"
  from assms(2) [unfolded e] obtain n where "apply_registration s ?p = Inr n"
    "s' = n\<lparr>snap_Sequence := snap_Sequence s + 1,
       snap_Operations := (if rc_OperationID c = '''' then snap_Operations n
         else fmupd (rc_OperationID c) (planned_result s c sid) (snap_Operations n))\<rparr>"
    by (rule Apply_issuedD) (simp add: applyPayload_issued)
  then show ?thesis
    by (auto simp: apply_registration_Inr versions_of_def split: option.splits)
qed


end
