(* ===== verification/Snapshot_Codec.thy ===== *)
theory Snapshot_Codec
  imports Machine_Invariants
begin

text \<open>
  The JSON coding of snapshots (the struct tags of \<open>Snapshot\<close> in \<open>internal/domain/state.go\<close>),
  as the stores and logical backups write and read them.
\<close>

definition zero_Snapshot :: Snapshot where
  "zero_Snapshot = \<lparr>snap_FormatVersion = 0, snap_Sequence = 0, snap_NextSchemaID = 0,
     snap_Schemas = fmempty, snap_IdentityToID = fmempty, snap_Subjects = fmempty,
     snap_GlobalCompatibility = '''', snap_SubjectCompatibility = fmempty,
     snap_GlobalMode = '''', snap_SubjectModes = fmempty, snap_Operations = fmempty\<rparr>"

definition enc_Snapshot :: "Snapshot \<Rightarrow> json" where
  "enc_Snapshot s = obj
     [(''formatVersion'', enc_i64 (snap_FormatVersion s)), (''sequence'', enc_u64 (snap_Sequence s)),
      (''nextSchemaId'', enc_i64 (snap_NextSchemaID s)),
      (''schemas'', enc_map fmt_i64 enc_Schema (snap_Schemas s)),
      (''identityToId'', enc_map (\<lambda>k. k) enc_i64 (snap_IdentityToID s)),
      (''subjects'', enc_map (\<lambda>k. k) (\<lambda>vs. JArr (map enc_SubjectVersion vs)) (snap_Subjects s)),
      (''globalCompatibility'', enc_string (snap_GlobalCompatibility s)),
      (''subjectCompatibility'', enc_map (\<lambda>k. k) enc_string (snap_SubjectCompatibility s)),
      (''globalMode'', enc_string (snap_GlobalMode s)),
      (''subjectModes'', enc_map (\<lambda>k. k) enc_string (snap_SubjectModes s)),
      (''operations'', enc_map (\<lambda>k. k) enc_Result (snap_Operations s))]"

definition dec_Snapshot :: "bool \<Rightarrow> Snapshot decoder" where
  "dec_Snapshot strict = dec_struct strict
     [(''formatVersion'', field dec_i64 snap_FormatVersion snap_FormatVersion_update),
      (''sequence'', field dec_u64 snap_Sequence snap_Sequence_update),
      (''nextSchemaId'', field dec_i64 snap_NextSchemaID snap_NextSchemaID_update),
      (''schemas'', field (dec_map ParseInt (dec_Schema strict) zero_Schema) snap_Schemas snap_Schemas_update),
      (''identityToId'', field (dec_map Some dec_i64 0) snap_IdentityToID snap_IdentityToID_update),
      (''subjects'', field (dec_map Some (dec_slice (dec_SubjectVersion strict) zero_SubjectVersion) [])
         snap_Subjects snap_Subjects_update),
      (''globalCompatibility'', field dec_string snap_GlobalCompatibility snap_GlobalCompatibility_update),
      (''subjectCompatibility'', field (dec_map Some dec_string '''') snap_SubjectCompatibility
         snap_SubjectCompatibility_update),
      (''globalMode'', field dec_string snap_GlobalMode snap_GlobalMode_update),
      (''subjectModes'', field (dec_map Some dec_string '''') snap_SubjectModes snap_SubjectModes_update),
      (''operations'', field (dec_map Some (dec_Result strict) zero_Result) snap_Operations snap_Operations_update)]"

definition marshal_Snapshot :: "Snapshot \<Rightarrow> string" where
  "marshal_Snapshot s = print_json (enc_Snapshot s)"

definition unmarshal_Snapshot :: "string \<Rightarrow> Snapshot option" where
  "unmarshal_Snapshot t =
     (case parse_json t of None \<Rightarrow> None | Some j \<Rightarrow> dec_Snapshot False j zero_Snapshot)"

section \<open>Round trip\<close>

lemma enc_Snapshot_ok [simp]: "json_ok (enc_Snapshot s)"
  by (simp add: enc_Snapshot_def enc_map_ok)

lemma dec_schemas:
  assumes "snapshot_utf8 s"
  shows "dec_map ParseInt (dec_Schema strict) zero_Schema (enc_map fmt_i64 enc_Schema (snap_Schemas s)) fmempty
    = Some (snap_Schemas s)"
  using assms by (intro dec_map_enc_map) (auto simp: snapshot_utf8_schema)

lemma dec_subjects:
  assumes "snapshot_utf8 s"
  shows "dec_map Some (dec_slice (dec_SubjectVersion strict) zero_SubjectVersion) []
    (enc_map (\<lambda>k. k) (\<lambda>vs. JArr (map enc_SubjectVersion vs)) (snap_Subjects s)) fmempty = Some (snap_Subjects s)"
proof (rule dec_map_enc_map)
  fix k vs
  assume "fmlookup (snap_Subjects s) k = Some vs"
  with assms have k: "valid_utf8 k" and vs: "\<forall>v \<in> set vs. valid_utf8 (sv_Subject v)"
    unfolding snapshot_utf8_def fmpred_iff by blast+
  have "dec_slice (dec_SubjectVersion strict) zero_SubjectVersion (JArr (map enc_SubjectVersion vs)) []
      = Some (map coerce_SubjectVersion vs)"
    by (rule dec_slice_JArr) simp
  moreover have "map coerce_SubjectVersion vs = vs"
    using vs by (intro map_idI) (simp add: coerce_SubjectVersion_def)
  ultimately show "Some (coerce_utf8 k) = Some k
      \<and> dec_slice (dec_SubjectVersion strict) zero_SubjectVersion (JArr (map enc_SubjectVersion vs)) [] = Some vs"
    using k by simp
qed

lemma dec_string_maps:
  assumes "snapshot_utf8 s"
  shows "dec_map Some dec_i64 0 (enc_map (\<lambda>k. k) enc_i64 (snap_IdentityToID s)) fmempty = Some (snap_IdentityToID s)"
    and "dec_map Some dec_string '''' (enc_map (\<lambda>k. k) enc_string (snap_SubjectCompatibility s)) fmempty
      = Some (snap_SubjectCompatibility s)"
    and "dec_map Some dec_string '''' (enc_map (\<lambda>k. k) enc_string (snap_SubjectModes s)) fmempty
      = Some (snap_SubjectModes s)"
    and "dec_map Some (dec_Result strict) zero_Result (enc_map (\<lambda>k. k) enc_Result (snap_Operations s)) fmempty
      = Some (snap_Operations s)"
  using assms
  by (intro dec_map_enc_map; auto simp: snapshot_utf8_def fmpred_iff coerce_Result_def)+

lemma dec_enc_Snapshot [codec]:
  assumes "snapshot_utf8 s"
  shows "dec_Snapshot strict (enc_Snapshot s) zero_Snapshot = Some s"
proof -
  have "valid_utf8 (snap_GlobalCompatibility s)" "valid_utf8 (snap_GlobalMode s)"
    using assms by (simp_all add: snapshot_utf8_def)
  then show ?thesis
    unfolding dec_Snapshot_def enc_Snapshot_def
    by (simp add: dec_struct_simps zero_Snapshot_def dec_schemas [OF assms] dec_subjects [OF assms]
        dec_string_maps [OF assms])
qed

lemma unmarshal_marshal_Snapshot [codec]:
  assumes "snapshot_utf8 s"
  shows "unmarshal_Snapshot (marshal_Snapshot s) = Some s"
  by (simp add: unmarshal_Snapshot_def marshal_Snapshot_def parse_print_json dec_enc_Snapshot [OF assms])

text \<open>The snapshot of any state a machine reaches from an empty registry, written by a store or
  a backup, reads back as the same state: every map, every version with its marks, every
  operation result.\<close>

theorem snapshot_roundtrip:
  assumes "runs (NewMachine NewState committer check st) m"
  shows "unmarshal_Snapshot (marshal_Snapshot (m_state m)) = Some (m_state m)"
proof -
  have inv: "registry_inv (m_state (NewMachine NewState committer check st))"
    by (simp add: NewMachine_def)
  have "registry_inv (m_state m)"
    using assms inv by (induction rule: runs.induct) (auto intro: exec_inv)
  then show ?thesis by (intro unmarshal_marshal_Snapshot) (simp add: registry_inv_def)
qed

end
