(* ===== verification/Storage.thy ===== *)
theory Storage
  imports Snapshot_Codec
begin

text \<open>
  \<open>internal/storage/store.go\<close> and \<open>recoverState\<close> of \<open>internal/app/app.go\<close>: the
  boundary between the registry and a durable store. A store is the record of the functions of
  the Go interface over a state of its own type. The callback that \<open>Replay\<close> is given folds
  the transitions into a value. A context is polled more than once in a loop, so a loop takes the
  answers of its polls.
\<close>

section \<open>The interface\<close>

abbreviation ErrNotPrimary :: go_error where
  "ErrNotPrimary \<equiv> Sentinel ''replica is not the current primary''"

record Capabilities =
  cap_Writable :: bool
  cap_Replay :: bool
  cap_Snapshots :: bool
  cap_Backup :: bool
  cap_MultiReplica :: bool
  cap_Leadership :: bool
  cap_ConsistentSequence :: bool

record Health =
  he_Healthy :: bool
  he_Writable :: bool
  he_LastSequence :: u64
  he_Detail :: "go_error option"
  he_Closed :: bool

record Lease =
  le_Holder :: string
  le_Epoch :: u64

type_synonym polls = "nat \<Rightarrow> go_error option"
type_synonym 'a callback = "'a \<Rightarrow> Envelope \<Rightarrow> go_error + 'a"

record 'st Store =
  st_Commit :: "'st committer"
  st_LoadSnapshot :: "ctx \<Rightarrow> 'st \<Rightarrow> (go_error + Snapshot option) \<times> 'st"
  st_SaveSnapshot :: "ctx \<Rightarrow> Snapshot \<Rightarrow> 'st \<Rightarrow> go_error option \<times> 'st"
  st_Replay :: "polls \<Rightarrow> u64 \<Rightarrow> State callback \<Rightarrow> State \<Rightarrow> 'st \<Rightarrow> (go_error + State) \<times> 'st"
  st_RestoreSnapshot :: "(ctx \<Rightarrow> Snapshot \<Rightarrow> 'st \<Rightarrow> go_error option \<times> 'st) option"

section \<open>Recovery\<close>

definition recoverState :: "'st Store \<Rightarrow> ctx \<Rightarrow> polls \<Rightarrow> 'st \<Rightarrow> (go_error + State) \<times> 'st" where
  "recoverState store ctx polls st =
     (case st_LoadSnapshot store ctx st of
        (Inl err, st1) \<Rightarrow> (Inl err, st1)
      | (Inr snapshot, st1) \<Rightarrow>
          (case (case snapshot of None \<Rightarrow> Inr NewState | Some sn \<Rightarrow> Restore sn) of
             Inl err \<Rightarrow> (Inl err, st1)
           | Inr s \<Rightarrow> st_Replay store polls (snap_Sequence s) Apply s st1))"

section \<open>The contract of a durable committer\<close>

text \<open>What the machine relies on: \<open>holds st s\<close> says that recovery from the store \<open>st\<close>
  gives the state \<open>s\<close>. A commit that reports success makes the transition part of what is
  recovered; one that reports an error leaves what is recovered as it was.\<close>

locale durable_committer =
  fixes commit :: "'st committer"
    and holds :: "'st \<Rightarrow> State \<Rightarrow> bool"
  assumes commit_success:
    "holds st s \<Longrightarrow> registry_inv s \<Longrightarrow> Apply s e = Inr s' \<Longrightarrow> payload_ok e \<Longrightarrow> envelope_utf8 e \<Longrightarrow>
       commit ctx e st = (None, st') \<Longrightarrow> holds st' s'"
    and commit_failure:
    "holds st s \<Longrightarrow> registry_inv s \<Longrightarrow> Apply s e = Inr s' \<Longrightarrow> payload_ok e \<Longrightarrow> envelope_utf8 e \<Longrightarrow>
       commit ctx e st = (Some err, st') \<Longrightarrow> holds st' s"

lemma issued_envelope_utf8:
  assumes "issued s c e r" and "registry_inv s" and "command_utf8 c"
  shows "envelope_utf8 e"
proof -
  have u: "snapshot_utf8 s" using assms(2) by (simp add: registry_inv_def)
  have "valid_utf8 (res_GUID r)"
    using assms(1)
  proof (cases rule: issued.cases)
    case (register x sid)
    with assms(3) candidate_coerced(3) [of x s sid] u show ?thesis by (simp add: planned_result_def)
  qed simp_all
  moreover have "valid_utf8 (operation_of c)" using assms(3) by (cases c) simp_all
  ultimately show ?thesis
    using issued_facts [OF assms(1)] by (simp add: envelope_utf8_def)
qed

context durable_committer
begin

definition in_sync :: "'st Machine \<Rightarrow> bool" where
  "in_sync m \<longleftrightarrow> m_commit m = commit \<and> holds (m_store m) (m_state m)"

lemma exec_in_sync:
  assumes "exec ctx c m = (out, m')" and "in_sync m" and "registry_inv (m_state m)" and "command_utf8 c"
  shows "in_sync m'"
proof (cases rule: exec_cases [of m c ctx])
  case (commit e r)
  have e: "payload_ok e" "envelope_utf8 e"
    using issued_facts [OF commit(1)] issued_envelope_utf8 [OF commit(1) assms(3,4)] by simp_all
  show ?thesis
  proof (cases rule: commitApply_cases [of m e ctx r])
    case (failed s err st)
    then have "holds st (m_state m)"
      using commit_failure [OF _ assms(3) _ e] assms(2) by (auto simp: in_sync_def)
    with failed commit assms(1,2) show ?thesis by (auto simp: in_sync_def)
  next
    case (committed s st)
    then have "holds st s"
      using commit_success [OF _ assms(3) _ e] assms(2) by (auto simp: in_sync_def)
    with committed commit assms(1,2) show ?thesis by (auto simp: in_sync_def)
  qed (use commit assms(1,2) in auto)
qed (use assms(1,2) in auto)

lemma runs_in_sync:
  assumes "runs m m'" and "in_sync m" and "registry_inv (m_state m)"
  shows "in_sync m' \<and> registry_inv (m_state m')"
  using assms by (induction rule: runs.induct) (auto intro: exec_in_sync exec_inv)

text \<open>Whatever commands ran and however they ended, the store holds the published state.\<close>

lemma store_holds_state:
  assumes "runs m m'" and "m_commit m = commit" and "holds (m_store m) (m_state m)" and "registry_inv (m_state m)"
  shows "holds (m_store m') (m_state m')"
  using runs_in_sync [OF assms(1)] assms(2-4) by (simp add: in_sync_def)

end

end
