(* ===== verification/Kafka_Layout.thy ===== *)
theory Kafka_Layout
  imports Storage
begin

text \<open>
  \<open>internal/storage/kafka/layout.go\<close>, \<open>config.go\<close> and the record values of
  \<open>coordinator.go\<close> and \<open>store.go\<close>: the keys of the state topic, the options of a store and
  the JSON of its records. Durations are nanoseconds. The TLS and SASL settings are handed to the
  client library unchanged and are left out.
\<close>

section \<open>Record keys\<close>

abbreviation stateFormatVersion :: int64 where "stateFormatVersion \<equiv> 1"
abbreviation topicPartition :: int where "topicPartition \<equiv> 0"
abbreviation transitionPrefix :: string where "transitionPrefix \<equiv> ''v1/transition/''"
abbreviation snapshotRecordKey :: string where "snapshotRecordKey \<equiv> ''v1/snapshot''"
abbreviation primaryRecordKey :: string where "primaryRecordKey \<equiv> ''v1/coordination/primary''"
abbreviation restoreRecordKey :: string where "restoreRecordKey \<equiv> ''v1/restore/checkpoint''"

definition transitionKey :: "u64 \<Rightarrow> string" where
  "transitionKey sequence = transitionPrefix @ fmt_pad20 sequence"

text \<open>A number above the 64-bit range parses to the largest value and an error.\<close>

definition parseTransitionKey :: "string \<Rightarrow> u64 \<times> bool" where
  "parseTransitionKey key =
     (if \<not> HasPrefix key transitionPrefix then (0, False)
      else let raw = TrimPrefix key transitionPrefix in
        if length raw \<noteq> 20 then (0, False)
        else case parse_nat raw of
          None \<Rightarrow> (0, False)
        | Some n \<Rightarrow> if n < 2 ^ 64 then (of_nat n, n > 0) else (- 1, False))"

lemma parse_nat_digits: "parse_nat s = Some n \<longleftrightarrow> s \<noteq> [] \<and> list_all is_digit s \<and> nat_of_digits s = n"
  by (auto simp: parse_nat_def)

lemma parse_nat_fmt_pad20: "parse_nat (fmt_pad20 x) = Some (unat x)"
  using ParseUint_fmt_pad20 [of x]
  by (auto simp: ParseUint_def unat_of_nat_u64 split: option.splits if_splits)

text \<open>Digit strings of one length are ordered and told apart by their value.\<close>

lemma digit_val_inj: "is_digit c \<Longrightarrow> is_digit d \<Longrightarrow> digit_val c = digit_val d \<Longrightarrow> c = d"
  by (metis add_diff_inverse_nat digit_val_def is_digit_def leD of_char_eq_iff)

lemma nat_of_digits_inj:
  "length s = length t \<Longrightarrow> list_all is_digit s \<Longrightarrow> list_all is_digit t \<Longrightarrow> nat_of_digits s = nat_of_digits t \<Longrightarrow> s = t"
proof (induction s arbitrary: t rule: rev_induct)
  case (snoc c s)
  then obtain u d where t: "t = u @ [d]" by (metis append_is_Nil_conv length_0_conv list.distinct(1) rev_exhaust)
  have lt: "digit_val x < 10" if "is_digit x" for x using that by (auto simp: digit_val_def is_digit_def)
  have c: "is_digit c" and d: "is_digit d" using snoc.prems t by simp_all
  have "10 * nat_of_digits s + digit_val c = 10 * nat_of_digits u + digit_val d"
    using snoc.prems t by simp
  moreover from this have "nat_of_digits s = nat_of_digits u"
    using lt [OF c] lt [OF d] by linarith
  ultimately have "nat_of_digits s = nat_of_digits u" and "digit_val c = digit_val d" by simp_all
  with snoc t c d show ?case by (auto dest: digit_val_inj)
qed simp

lemma parse_transitionKey [simp]: "parseTransitionKey (transitionKey q) = (q, q \<noteq> 0)"
proof -
  have "HasPrefix (transitionKey q) transitionPrefix" "TrimPrefix (transitionKey q) transitionPrefix = fmt_pad20 q"
    unfolding transitionKey_def by (rule HasPrefix_append, rule TrimPrefix_append)
  then show ?thesis
    using unat_lt_2_64 [of q] by (simp add: parseTransitionKey_def parse_nat_fmt_pad20 unat_gt_0)
qed

lemma parse_TransitionKeyD:
  assumes "parseTransitionKey key = (q, True)"
  shows "key = transitionKey q" and "q \<noteq> 0"
proof -
  let ?raw = "TrimPrefix key transitionPrefix"
  from assms have key: "HasPrefix key transitionPrefix" "length ?raw = 20"
    by (auto simp: parseTransitionKey_def Let_def split: if_splits)
  with assms obtain n where n: "parse_nat ?raw = Some n" "n < 2 ^ 64" "0 < n" "q = of_nat n"
    by (auto simp: parseTransitionKey_def Let_def split: if_splits option.splits)
  have "?raw = fmt_pad20 q"
  proof (rule nat_of_digits_inj)
    show "nat_of_digits ?raw = nat_of_digits (fmt_pad20 q)"
      using n parse_nat_fmt_pad20 [of q] by (simp add: parse_nat_digits unat_of_nat_u64)
  qed (use n(1) parse_nat_fmt_pad20 [of q] key in \<open>simp_all add: parse_nat_digits\<close>)
  then show key': "key = transitionKey q" using HasPrefixD [OF key(1)] by (simp only: transitionKey_def)
  show "q \<noteq> 0" using assms unfolding key' by simp
qed

lemma other_keys [simp]:
  "parseTransitionKey snapshotRecordKey = (0, False)" "parseTransitionKey primaryRecordKey = (0, False)"
  "parseTransitionKey restoreRecordKey = (0, False)"
  by (simp_all add: parseTransitionKey_def HasPrefix_def)

text \<open>Transition keys are a bijection: the key of a sequence parses back to it, a key that
  parses as a transition is the key of the sequence it parses to, and no other record key of the
  topic parses as a transition.\<close>

theorem transition_keys:
  "parseTransitionKey (transitionKey q) = (q, q \<noteq> 0)
    \<and> (parseTransitionKey key = (q, True) \<longleftrightarrow> key = transitionKey q \<and> q \<noteq> 0)
    \<and> list_all (\<lambda>key. \<not> snd (parseTransitionKey key)) [snapshotRecordKey, primaryRecordKey, restoreRecordKey]"
  by (auto dest: parse_TransitionKeyD)

section \<open>Options\<close>

record Options =
  ko_Brokers :: "string list"
  ko_Topic :: string
  ko_ClientID :: string
  ko_TransactionalID :: string
  ko_ReplicationFactor :: int
  ko_AutoCreateTopic :: bool
  ko_TransactionTimeout :: int
  ko_OperationTimeout :: int
  ko_RequireLeadership :: bool
  ko_MaxReadyLag :: int

definition DefaultTopic :: string where "DefaultTopic = ''_riquet_state''"
definition DefaultTransactionTimeout :: int where "DefaultTransactionTimeout = 30 * 10 ^ 9"
definition DefaultOperationTimeout :: int where "DefaultOperationTimeout = 30 * 10 ^ 9"

definition normalized :: "Options \<Rightarrow> go_error + Options" where
  "normalized o0 =
     (if ko_Brokers o0 = [] then Inl (FmtErr ''at least one Kafka broker is required'' [] None)
      else if list_ex (\<lambda>broker. TrimSpace broker = '''') (ko_Brokers o0)
      then Inl (FmtErr ''kafka broker address cannot be empty'' [] None)
      else
        (let o1 = (if ko_Topic o0 = '''' then o0\<lparr>ko_Topic := DefaultTopic\<rparr> else o0);
             o2 = (if ko_ClientID o1 = '''' then o1\<lparr>ko_ClientID := ''riquet''\<rparr> else o1);
             o3 = (if ko_TransactionalID o2 = '''' then o2\<lparr>ko_TransactionalID := ''riquet-'' @ ko_Topic o2\<rparr> else o2);
             o4 = (if ko_ReplicationFactor o3 = 0 then o3\<lparr>ko_ReplicationFactor := 1\<rparr> else o3)
         in if ko_ReplicationFactor o4 < 1
            then Inl (FmtErr ''kafka replication factor must be positive'' [] None)
            else
              (let o5 = (if ko_TransactionTimeout o4 \<le> 0
                         then o4\<lparr>ko_TransactionTimeout := DefaultTransactionTimeout\<rparr> else o4);
                   o6 = (if ko_OperationTimeout o5 \<le> 0
                         then o5\<lparr>ko_OperationTimeout := DefaultOperationTimeout\<rparr> else o5)
               in if ko_MaxReadyLag o6 < 0
                  then Inl (FmtErr ''maximum ready lag cannot be negative'' [] None)
                  else Inr o6)))"

section \<open>Record values\<close>

record primaryAnnouncement =
  pa_FormatVersion :: int64
  pa_Holder :: string
  pa_Epoch :: u64
  pa_Address :: string

definition zero_primaryAnnouncement :: primaryAnnouncement where
  "zero_primaryAnnouncement = \<lparr>pa_FormatVersion = 0, pa_Holder = '''', pa_Epoch = 0, pa_Address = ''''\<rparr>"

definition enc_primaryAnnouncement :: "primaryAnnouncement \<Rightarrow> json" where
  "enc_primaryAnnouncement p = obj
     [(''formatVersion'', enc_i64 (pa_FormatVersion p)), (''holder'', enc_string (pa_Holder p)),
      (''epoch'', enc_u64 (pa_Epoch p)), (''address'', enc_string (pa_Address p))]"

definition dec_primaryAnnouncement :: "primaryAnnouncement decoder" where
  "dec_primaryAnnouncement = dec_struct False
     [(''formatVersion'', field dec_i64 pa_FormatVersion pa_FormatVersion_update),
      (''holder'', field dec_string pa_Holder pa_Holder_update),
      (''epoch'', field dec_u64 pa_Epoch pa_Epoch_update),
      (''address'', field dec_string pa_Address pa_Address_update)]"

definition validate_primary :: "primaryAnnouncement \<Rightarrow> go_error option" where
  "validate_primary p =
     (if pa_FormatVersion p \<noteq> stateFormatVersion
      then Some (FmtErr ''unsupported Kafka coordination record version %d'' [AInt (pa_FormatVersion p)] None)
      else if pa_Holder p = '''' \<or> pa_Epoch p = 0 \<or> pa_Address p = ''''
      then Some (FmtErr ''kafka coordination record is missing holder, epoch, or address'' [] None)
      else None)"

record restoreCheckpoint =
  rs_FormatVersion :: int64
  rs_Sequence :: u64
  rs_Checksum :: string

definition zero_restoreCheckpoint :: restoreCheckpoint where
  "zero_restoreCheckpoint = \<lparr>rs_FormatVersion = 0, rs_Sequence = 0, rs_Checksum = ''''\<rparr>"

definition enc_restoreCheckpoint :: "restoreCheckpoint \<Rightarrow> json" where
  "enc_restoreCheckpoint c = obj
     [(''formatVersion'', enc_i64 (rs_FormatVersion c)), (''sequence'', enc_u64 (rs_Sequence c)),
      (''checksum'', enc_string (rs_Checksum c))]"

definition dec_restoreCheckpoint :: "restoreCheckpoint decoder" where
  "dec_restoreCheckpoint = dec_struct False
     [(''formatVersion'', field dec_i64 rs_FormatVersion rs_FormatVersion_update),
      (''sequence'', field dec_u64 rs_Sequence rs_Sequence_update),
      (''checksum'', field dec_string rs_Checksum rs_Checksum_update)]"

definition snapshotChecksum :: "string \<Rightarrow> string" where
  "snapshotChecksum encoded = hex_encode (sha256 encoded)"

text \<open>\<open>json.Unmarshal\<close> of a record value into a zero struct.\<close>

definition unmarshal :: "'a decoder \<Rightarrow> 'a \<Rightarrow> string \<Rightarrow> 'a option" where
  "unmarshal d z text = (case parse_json text of None \<Rightarrow> None | Some j \<Rightarrow> d j z)"

lemma unmarshal_print: "json_ok j \<Longrightarrow> unmarshal d z (print_json j) = d j z"
  by (simp add: unmarshal_def parse_print_json)

lemma valid_utf8_snapshotChecksum [simp]: "valid_utf8 (snapshotChecksum s)"
  by (simp add: snapshotChecksum_def valid_utf8_ascii_list ascii_hex_encode)

lemma unmarshal_primaryAnnouncement [codec]:
  assumes "valid_utf8 (pa_Holder p)" and "valid_utf8 (pa_Address p)"
  shows "unmarshal dec_primaryAnnouncement zero_primaryAnnouncement (print_json (enc_primaryAnnouncement p)) = Some p"
proof -
  have "json_ok (enc_primaryAnnouncement p)" by (simp add: enc_primaryAnnouncement_def)
  then show ?thesis using assms
    by (cases p) (simp add: unmarshal_print dec_primaryAnnouncement_def enc_primaryAnnouncement_def dec_struct_simps
      zero_primaryAnnouncement_def)
qed

lemma unmarshal_restoreCheckpoint [codec]:
  assumes "valid_utf8 (rs_Checksum c)"
  shows "unmarshal dec_restoreCheckpoint zero_restoreCheckpoint (print_json (enc_restoreCheckpoint c)) = Some c"
proof -
  have "json_ok (enc_restoreCheckpoint c)" by (simp add: enc_restoreCheckpoint_def)
  then show ?thesis using assms
    by (cases c) (simp add: unmarshal_print dec_restoreCheckpoint_def enc_restoreCheckpoint_def dec_struct_simps
      zero_restoreCheckpoint_def)
qed

end
