(* ===== verification/Kafka_Store.thy ===== *)
theory Kafka_Store
  imports Kafka_Layout
begin

text \<open>
  \<open>internal/storage/kafka/store.go\<close>: the store that keeps the registry in one compacted Kafka
  topic. The broker is third-party code: what a poll, a request or a producer call returns is an
  argument. A loop that waits for the consumer takes the list of what wakes it, and is \<open>None\<close>
  while it is still waiting at the end of that list. Mutexes make each of the steps below atomic.
  Offsets are integers. The test hook \<open>afterCommit\<close> is nil in a production build.
\<close>

section \<open>State\<close>

record kafka_record =
  kr_Offset :: int
  kr_Key :: string
  kr_Value :: "string option"
  kr_Control :: bool

record fetch_partition =
  fp_Topic :: string
  fp_Partition :: int
  fp_LastStableOffset :: int
  fp_Records :: "kafka_record list"

record fetches =
  fx_Errors :: "go_error option list"
  fx_Partitions :: "fetch_partition list"

text \<open>\<open>ks_consuming\<close> says that the consumer goroutine has not returned (\<open>consumeDone\<close> is open);
  the snapshot is empty where Go has a nil slice.\<close>

record KafkaStore =
  ks_options :: Options
  ks_closed :: bool
  ks_ready :: bool
  ks_lastErr :: "go_error option"
  ks_fatalErr :: "go_error option"
  ks_position :: int
  ks_end :: int
  ks_items :: "(u64, string) fmap"
  ks_snapshot :: string
  ks_primary :: primaryAnnouncement
  ks_lease :: Lease
  ks_base :: u64
  ks_consuming :: bool

definition zero_Lease :: Lease where
  "zero_Lease = \<lparr>le_Holder = '''', le_Epoch = 0\<rparr>"

definition new_KafkaStore :: "Options \<Rightarrow> KafkaStore" where
  "new_KafkaStore options = \<lparr>ks_options = options, ks_closed = False, ks_ready = False, ks_lastErr = None,
     ks_fatalErr = None, ks_position = 0, ks_end = 0, ks_items = fmempty, ks_snapshot = '''',
     ks_primary = zero_primaryAnnouncement, ks_lease = zero_Lease, ks_base = 0, ks_consuming = False\<rparr>"

definition kafka_Capabilities :: Capabilities where
  "kafka_Capabilities = \<lparr>cap_Writable = True, cap_Replay = True, cap_Snapshots = True, cap_Backup = True,
     cap_MultiReplica = True, cap_Leadership = True, cap_ConsistentSequence = True\<rparr>"

text \<open>\<open>s.items[sequence]\<close>: nil where the map has no entry.\<close>

definition item_at :: "KafkaStore \<Rightarrow> u64 \<Rightarrow> string" where
  "item_at st q = (case fmlookup (ks_items st) q of None \<Rightarrow> '''' | Some raw \<Rightarrow> raw)"

definition lastSequence :: "KafkaStore \<Rightarrow> u64" where
  "lastSequence st =
     foldl (\<lambda>last q. if q > last then q else last) (ks_base st) (map fst (sorted_list_of_fmap (ks_items st)))"

definition ignorable :: "go_error \<Rightarrow> bool" where
  "ignorable err \<longleftrightarrow> errors_Is err ''context canceled'' \<or> errors_Is err ''context deadline exceeded''"

definition kafka_recordError :: "go_error option \<Rightarrow> KafkaStore \<Rightarrow> KafkaStore" where
  "kafka_recordError err st =
     (case err of None \<Rightarrow> st
      | Some e \<Rightarrow> if ignorable e then st else st\<lparr>ks_lastErr := Some e, ks_ready := False\<rparr>)"

definition recordFatalError :: "go_error option \<Rightarrow> KafkaStore \<Rightarrow> KafkaStore" where
  "recordFatalError err st =
     (case err of None \<Rightarrow> st
      | Some e \<Rightarrow> if ignorable e then st
                  else st\<lparr>ks_fatalErr := Some e, ks_lastErr := Some e, ks_ready := False\<rparr>)"

section \<open>Consuming the topic\<close>

definition apply_transition_record :: "u64 \<Rightarrow> string option \<Rightarrow> KafkaStore \<Rightarrow> go_error + KafkaStore" where
  "apply_transition_record q value st =
     (case value of
        None \<Rightarrow> Inl (FmtErr ''transition %d was compacted or deleted'' [ANat q] None)
      | Some raw \<Rightarrow>
          (case unmarshal_Envelope raw of
             None \<Rightarrow> Inl (FmtErr ''decode transition %d: %w'' [ANat q] (Some JsonErr))
           | Some e \<Rightarrow>
               if env_Sequence e \<noteq> q
               then Inl (FmtErr ''transition key sequence %d contains sequence %d'' [ANat q, ANat (env_Sequence e)] None)
               else (case Validate e of Some err \<Rightarrow> Inl err
                 | None \<Rightarrow>
                     if \<exists>previous \<in> set_option (fmlookup (ks_items st) q). previous \<noteq> raw
                     then Inl (FmtErr ''conflicting Kafka records for transition sequence %d'' [ANat q] None)
                     else Inr (st\<lparr>ks_items := fmupd q raw (ks_items st)\<rparr>))))"

definition apply_snapshot_record :: "string option \<Rightarrow> KafkaStore \<Rightarrow> go_error + KafkaStore" where
  "apply_snapshot_record value st =
     (case value of
        None \<Rightarrow> Inr (st\<lparr>ks_snapshot := ''''\<rparr>)
      | Some raw \<Rightarrow>
          (case unmarshal_Snapshot raw of
             None \<Rightarrow> Inl (FmtErr ''decode Kafka snapshot: %w'' [] (Some JsonErr))
           | Some sn \<Rightarrow>
               (case Restore sn of Inl err \<Rightarrow> Inl err | Inr _ \<Rightarrow> Inr (st\<lparr>ks_snapshot := raw\<rparr>))))"

definition apply_primary_record :: "string option \<Rightarrow> KafkaStore \<Rightarrow> go_error + KafkaStore" where
  "apply_primary_record value st =
     (case value of
        None \<Rightarrow> Inr (st\<lparr>ks_primary := zero_primaryAnnouncement\<rparr>)
      | Some raw \<Rightarrow>
          (case unmarshal dec_primaryAnnouncement zero_primaryAnnouncement raw of
             None \<Rightarrow> Inl (FmtErr ''decode Kafka primary announcement: %w'' [] (Some JsonErr))
           | Some p \<Rightarrow>
               (case validate_primary p of Some err \<Rightarrow> Inl err
                | None \<Rightarrow>
                    if pa_Epoch p < pa_Epoch (ks_primary st)
                    then Inl (FmtErr ''kafka primary epoch regressed from %d to %d''
                           [ANat (pa_Epoch (ks_primary st)), ANat (pa_Epoch p)] None)
                    else Inr (st\<lparr>ks_primary := p\<rparr>))))"

definition apply_restore_record :: "string option \<Rightarrow> KafkaStore \<Rightarrow> go_error + KafkaStore" where
  "apply_restore_record value st =
     (case unmarshal dec_restoreCheckpoint zero_restoreCheckpoint (case value of None \<Rightarrow> '''' | Some raw \<Rightarrow> raw) of
        None \<Rightarrow> Inl (FmtErr ''decode Kafka restore checkpoint: %w'' [] (Some JsonErr))
      | Some c \<Rightarrow>
          if rs_FormatVersion c \<noteq> stateFormatVersion \<or> rs_Sequence c = 0
             \<or> rs_Checksum c \<noteq> snapshotChecksum (ks_snapshot st)
          then Inl (FmtErr ''invalid Kafka restore checkpoint'' [] None)
          else Inr (st\<lparr>ks_base := rs_Sequence c\<rparr>))"

definition applyRecord :: "kafka_record \<Rightarrow> KafkaStore \<Rightarrow> go_error + KafkaStore" where
  "applyRecord r st =
     (case parseTransitionKey (kr_Key r) of
        (q, True) \<Rightarrow> apply_transition_record q (kr_Value r) st
      | (_, False) \<Rightarrow>
          if kr_Key r = snapshotRecordKey then apply_snapshot_record (kr_Value r) st
          else if kr_Key r = primaryRecordKey then apply_primary_record (kr_Value r) st
          else if kr_Key r = restoreRecordKey then apply_restore_record (kr_Value r) st
          else Inl (FmtErr ''unsupported Kafka state record key %q'' [AStr (kr_Key r)] None))"

text \<open>The records of one partition, up to the first that fails; a control record only moves the
  position.\<close>

fun apply_records :: "kafka_record list \<Rightarrow> KafkaStore \<Rightarrow> go_error option \<times> KafkaStore" where
  "apply_records [] st = (None, st)"
| "apply_records (r # rs) st =
     (case (if kr_Control r then Inr st else applyRecord r st) of
        Inl err \<Rightarrow> (Some err, st)
      | Inr st' \<Rightarrow> apply_records rs
          (if kr_Offset r + 1 > ks_position st' then st'\<lparr>ks_position := kr_Offset r + 1\<rparr> else st'))"

definition apply_partition :: "fetch_partition \<Rightarrow> KafkaStore \<Rightarrow> go_error option \<times> KafkaStore" where
  "apply_partition p st =
     (if fp_Topic p \<noteq> ko_Topic (ks_options st) \<or> fp_Partition p \<noteq> topicPartition then (None, st)
      else
        (let st1 = (if fp_LastStableOffset p > ks_end st then st\<lparr>ks_end := fp_LastStableOffset p\<rparr> else st)
         in case apply_records (fp_Records p) st1 of
              (err, st2) \<Rightarrow>
                (err, if fp_Records p = [] \<and> fp_LastStableOffset p > ks_position st2
                      then st2\<lparr>ks_position := fp_LastStableOffset p\<rparr> else st2)))"

fun apply_partitions :: "fetch_partition list \<Rightarrow> KafkaStore \<Rightarrow> go_error option \<times> KafkaStore" where
  "apply_partitions [] st = (None, st)"
| "apply_partitions (p # ps) st =
     (case apply_partition p st of (Some err, st') \<Rightarrow> (Some err, st') | (None, st') \<Rightarrow> apply_partitions ps st')"

definition applyFetches :: "fetches \<Rightarrow> KafkaStore \<Rightarrow> go_error option \<times> KafkaStore" where
  "applyFetches f st =
     (case find (\<lambda>err. err \<noteq> None) (fx_Errors f) of
        Some err \<Rightarrow> (err, st)
      | None \<Rightarrow> apply_partitions (fx_Partitions f) st)"

text \<open>Polls until the position reaches the target: \<open>None\<close> if the polls do not suffice.\<close>

fun consume_polls :: "fetches list \<Rightarrow> int \<Rightarrow> KafkaStore \<Rightarrow> (go_error option \<times> KafkaStore) option" where
  "consume_polls polled target st =
     (if ks_position st \<ge> target then Some (None, st)
      else case polled of
        [] \<Rightarrow> None
      | f # rest \<Rightarrow>
          (case applyFetches f st of
             (Some err, st') \<Rightarrow> Some (Some err, st')
           | (None, st') \<Rightarrow> consume_polls rest target st'))"

declare consume_polls.simps [simp del]

definition consumeThrough :: "fetches list \<Rightarrow> int \<Rightarrow> KafkaStore \<Rightarrow> (go_error option \<times> KafkaStore) option" where
  "consumeThrough polled target st = (if target = 0 then Some (None, st) else consume_polls polled target st)"

text \<open>One turn of the consumer goroutine, whose context is not cancelled.\<close>

definition consumeLoop_turn :: "fetches \<Rightarrow> KafkaStore \<Rightarrow> KafkaStore" where
  "consumeLoop_turn f st =
     (case fx_Errors f of
        err # _ \<Rightarrow> kafka_recordError err st
      | [] \<Rightarrow>
          (case applyFetches f st of
             (Some err, st') \<Rightarrow> (recordFatalError (Some err) st')\<lparr>ks_consuming := False\<rparr>
           | (None, st') \<Rightarrow> st'\<lparr>ks_lastErr := None, ks_ready := True\<rparr>))"

section \<open>Opening and closing\<close>

text \<open>The answer to a \<open>ListOffsets\<close> request: topics, their partitions, each with its error and offset.\<close>

definition committedEnd :: "go_error + (go_error option \<times> int) list list \<Rightarrow> go_error + int" where
  "committedEnd response =
     (case response of
        Inl err \<Rightarrow> Inl (FmtErr ''read Kafka committed end offset: %w'' [] (Some err))
      | Inr topics \<Rightarrow>
          (case topics of
             [[(code, offset)]] \<Rightarrow>
               (case code of
                  Some err \<Rightarrow> Inl (FmtErr ''read Kafka committed end offset: %w'' [] (Some err))
                | None \<Rightarrow> Inr offset)
           | _ \<Rightarrow> Inl (FmtErr ''kafka returned no committed end offset'' [] None)))"

definition sequence_range :: "u64 \<Rightarrow> u64 \<Rightarrow> u64 list" where
  "sequence_range after upper = map of_nat [unat after + 1..<unat upper + 1]"

definition validateReplay :: "KafkaStore \<Rightarrow> go_error option" where
  "validateReplay st =
     (case find (\<lambda>q. item_at st q = '''') (sequence_range (ks_base st) (lastSequence st)) of
        Some q \<Rightarrow> Some (FmtErr ''kafka transition sequence %d is missing'' [ANat q] None)
      | None \<Rightarrow> None)"

text \<open>What the client library and the broker answer while a store is opened.\<close>

record open_answers =
  oa_admin :: "go_error option"
  oa_ping :: "go_error option"
  oa_topic :: "Options \<Rightarrow> go_error option"
  oa_producer :: "go_error option"
  oa_consumer :: "go_error option"
  oa_offsets :: "go_error + (go_error option \<times> int) list list"
  oa_polled :: "fetches list"

definition kafka_Open :: "open_answers \<Rightarrow> Options \<Rightarrow> (go_error + KafkaStore) option" where
  "kafka_Open a raw =
     (case normalized raw of Inl err \<Rightarrow> Some (Inl err)
      | Inr options \<Rightarrow>
        (case oa_admin a of
           Some err \<Rightarrow> Some (Inl (FmtErr ''create Kafka administration client: %w'' [] (Some err)))
         | None \<Rightarrow>
        (case oa_ping a of
           Some err \<Rightarrow> Some (Inl (FmtErr ''connect to Kafka: %w'' [] (Some err)))
         | None \<Rightarrow>
        (case oa_topic a options of
           Some err \<Rightarrow> Some (Inl err)
         | None \<Rightarrow>
        (case oa_producer a of
           Some err \<Rightarrow> Some (Inl (FmtErr ''create Kafka transactional producer: %w'' [] (Some err)))
         | None \<Rightarrow>
        (case oa_consumer a of
           Some err \<Rightarrow> Some (Inl (FmtErr ''create Kafka replay consumer: %w'' [] (Some err)))
         | None \<Rightarrow>
        (case committedEnd (oa_offsets a) of
           Inl err \<Rightarrow> Some (Inl err)
         | Inr target \<Rightarrow>
        (case consumeThrough (oa_polled a) target ((new_KafkaStore options)\<lparr>ks_end := target\<rparr>) of
           None \<Rightarrow> None
         | Some (Some err, _) \<Rightarrow> Some (Inl (FmtErr ''replay Kafka state topic: %w'' [] (Some err)))
         | Some (None, st) \<Rightarrow>
        (case validateReplay st of
           Some err \<Rightarrow> Some (Inl err)
         | None \<Rightarrow> Some (Inr (st\<lparr>ks_ready := True, ks_consuming := True\<rparr>)))))))))))"

definition kafka_Close :: "KafkaStore \<Rightarrow> KafkaStore" where
  "kafka_Close st =
     (if ks_closed st then st else st\<lparr>ks_closed := True, ks_ready := False, ks_consuming := False\<rparr>)"

section \<open>Health\<close>

text \<open>A health check: what the ping and the offset request answered, and the context afterwards.\<close>

definition observe_end :: "go_error option \<Rightarrow> go_error + int \<Rightarrow> KafkaStore \<Rightarrow> KafkaStore" where
  "observe_end ping committed st =
     (case ping of
        Some err \<Rightarrow> kafka_recordError (Some err) st
      | None \<Rightarrow>
          (case committed of
             Inl err \<Rightarrow> kafka_recordError (Some err) st
           | Inr target \<Rightarrow>
               (let st1 = (if target > ks_end st then st\<lparr>ks_end := target\<rparr> else st)
                in if ks_fatalErr st1 = None
                   then (let st2 = st1\<lparr>ks_lastErr := None\<rparr>
                         in if ks_position st2 \<ge> ks_end st2 then st2\<lparr>ks_ready := True\<rparr> else st2)
                   else st1)))"

definition replay_lag :: "KafkaStore \<Rightarrow> int" where
  "replay_lag st = (let lag = ks_end st - ks_position st in if lag < 0 then 0 else lag)"

definition kafka_Health :: "ctx \<Rightarrow> go_error option \<Rightarrow> go_error + int \<Rightarrow> KafkaStore \<Rightarrow> Health \<times> KafkaStore" where
  "kafka_Health ctx ping committed st =
     (let st' = observe_end ping committed st;
          lag = replay_lag st';
          healthy = (\<not> ks_closed st' \<and> ks_ready st' \<and> ks_lastErr st' = None \<and> ctx = None
                     \<and> lag \<le> ko_MaxReadyLag (ks_options st'))
      in (\<lparr>he_Healthy = healthy, he_Writable = healthy, he_LastSequence = lastSequence st',
           he_Detail =
             (if ks_closed st' then Some (FmtErr ''closed'' [] None)
              else if ctx \<noteq> None then ctx
              else if ks_lastErr st' \<noteq> None then ks_lastErr st'
              else if \<not> ks_ready st' then Some (FmtErr ''replaying'' [] None)
              else if lag > ko_MaxReadyLag (ks_options st')
              then Some (FmtErr ''Kafka replay lag %d exceeds ready limit %d''
                     [AInt (int64_of lag), AInt (int64_of (ko_MaxReadyLag (ks_options st')))] None)
              else None),
           he_Closed = ks_closed st'\<rparr>, st'))"

record Status =
  ss_Ready :: bool
  ss_Role :: string
  ss_Epoch :: u64
  ss_AppliedPosition :: int
  ss_CommittedPosition :: int
  ss_Lag :: int
  ss_BackendHealthy :: bool

definition kafka_Status :: "KafkaStore \<Rightarrow> Status" where
  "kafka_Status st =
     (let lag = replay_lag st;
          backendHealthy = (\<not> ks_closed st \<and> ks_lastErr st = None)
      in \<lparr>ss_Ready = (backendHealthy \<and> ks_ready st \<and> lag \<le> ko_MaxReadyLag (ks_options st)),
          ss_Role =
            (if \<not> ks_ready st then ''replaying''
             else if ks_lease st \<noteq> zero_Lease \<and> pa_Holder (ks_primary st) = le_Holder (ks_lease st)
                  \<and> pa_Epoch (ks_primary st) = le_Epoch (ks_lease st)
             then ''primary'' else ''follower''),
          ss_Epoch = pa_Epoch (ks_primary st), ss_AppliedPosition = ks_position st,
          ss_CommittedPosition = ks_end st, ss_Lag = lag, ss_BackendHealthy = backendHealthy\<rparr>)"

definition metric_line :: "string \<Rightarrow> string \<Rightarrow> string \<Rightarrow> string" where
  "metric_line name help value =
     ''# HELP '' @ name @ '' '' @ help @ [CHR 0x0A] @ ''# TYPE '' @ name @ '' gauge'' @ [CHR 0x0A]
     @ name @ '' '' @ value @ [CHR 0x0A]"

definition kafka_WriteMetrics :: "KafkaStore \<Rightarrow> string" where
  "kafka_WriteMetrics st =
     (let status = kafka_Status st
      in metric_line ''riquet_kafka_primary'' ''Whether this replica is the fenced primary.''
           (if ss_Role status = ''primary'' then ''1'' else ''0'')
         @ metric_line ''riquet_kafka_epoch'' ''Last observed primary epoch.'' (fmt_u64 (ss_Epoch status))
         @ metric_line ''riquet_kafka_applied_position'' ''Next applied state-topic offset.''
             (fmt_int (ss_AppliedPosition status))
         @ metric_line ''riquet_kafka_committed_position'' ''Last stable state-topic offset.''
             (fmt_int (ss_CommittedPosition status))
         @ metric_line ''riquet_kafka_replay_lag'' ''Committed offsets not yet applied.'' (fmt_int (ss_Lag status))
         @ metric_line ''riquet_kafka_ready'' ''Whether replay and backend state permit serving.''
             (if ss_Ready status then ''1'' else ''0''))"

definition kafka_Position :: "KafkaStore \<Rightarrow> int \<times> int" where
  "kafka_Position st = (ks_position st, ks_end st)"

end
