(* ===== verification/Observability.thy ===== *)
theory Observability
  imports Security Kafka_Store
begin

text \<open>
  \<open>internal/observability/http.go\<close>: the health endpoints, the request log and the HTTP metrics.
  What a request does to the metrics is a sequence of atomic operations, interleaved with those of
  other requests; a request that panics leaves its handler before the second of them. The duration of
  a request is an argument. The order in which a map is written and the text of a floating point
  number are arguments too.
\<close>

section \<open>Health\<close>

record ObservedState =
  ob_Started :: bool
  ob_Ready :: bool
  ob_BackendHealthy :: bool
  ob_Role :: string
  ob_Epoch :: u64
  ob_AppliedPosition :: int64
  ob_CommittedPosition :: int64
  ob_Lag :: int64
  ob_Reason :: string

definition enc_ObservedState :: "ObservedState \<Rightarrow> json" where
  "enc_ObservedState s = obj
     ([(''started'', JBool (ob_Started s)), (''ready'', JBool (ob_Ready s)),
       (''backendHealthy'', JBool (ob_BackendHealthy s))]
      @ omitempty ''role'' (ob_Role s = '''') (enc_string (ob_Role s))
      @ omitempty ''epoch'' (ob_Epoch s = 0) (enc_u64 (ob_Epoch s))
      @ omitempty ''appliedPosition'' (ob_AppliedPosition s = 0) (enc_i64 (ob_AppliedPosition s))
      @ omitempty ''committedPosition'' (ob_CommittedPosition s = 0) (enc_i64 (ob_CommittedPosition s))
      @ omitempty ''lag'' (ob_Lag s = 0) (enc_i64 (ob_Lag s))
      @ omitempty ''reason'' (ob_Reason s = '''') (enc_string (ob_Reason s)))"

definition writeHealth :: "nat \<Rightarrow> json \<Rightarrow> response" where
  "writeHealth status value =
     \<lparr>rs_Status = status, rs_Header = [(''Content-Type'', ''application/json'')], rs_Body = BJson value\<rparr>"

definition health_live :: "ObservedState \<Rightarrow> response" where
  "health_live s = writeHealth 200 (obj [(''status'', enc_string ''live'')])"

definition health_startup :: "ObservedState \<Rightarrow> response" where
  "health_startup s = writeHealth (if \<not> ob_Started s then 503 else 200) (enc_ObservedState s)"

definition health_ready :: "ObservedState \<Rightarrow> response" where
  "health_ready s = writeHealth (if \<not> ob_Ready s then 503 else 200) (enc_ObservedState s)"

definition health_routes :: "(segment list \<times> (ObservedState \<Rightarrow> response)) list" where
  "health_routes =
     [([Lit ''health'', Lit ''live''], health_live),
      ([Lit ''health'', Lit ''startup''], health_startup),
      ([Lit ''health'', Lit ''ready''], health_ready)]"

text \<open>Every pattern is one of \<open>GET\<close>; \<open>provider\<close> reads the state behind the endpoints.\<close>

definition HealthHandler :: "('w \<Rightarrow> ObservedState) \<Rightarrow> 'w handler" where
  "HealthHandler provider w r =
     (if redirects r then (redirect_response r, w)
      else case find (\<lambda>(p, _). match_path p (rq_Path r) \<noteq> None) health_routes of
        None \<Rightarrow> (plain_response [], w)
      | Some (_, h) \<Rightarrow>
          (if method_matches ''GET'' (rq_Method r) then h (provider w) else plain_response [''GET''], w))"

section \<open>The request log\<close>

text \<open>The status a handler ended with, or that it panicked.\<close>

definition panicked :: "response \<Rightarrow> bool" where
  "panicked rs \<longleftrightarrow> rs_Body rs = BPanic"

record log_entry =
  lg_Method :: string
  lg_Status :: nat
  lg_DurationMs :: int64

definition LogMiddleware :: "(request \<Rightarrow> int64) \<Rightarrow> 'w handler \<Rightarrow> (log_entry list \<times> 'w) handler" where
  "LogMiddleware duration next w r = (case w of (log, v) \<Rightarrow>
     (case next v r of
        (rs, v') \<Rightarrow>
          (rs, if panicked rs then log
               else log @ [\<lparr>lg_Method = rq_Method r, lg_Status = rs_Status rs, lg_DurationMs = duration r\<rparr>], v')))"

section \<open>Metrics\<close>

record HTTPMetrics =
  hm_requests :: u64
  hm_inflight :: int64
  hm_nanos :: u64
  hm_results :: "(nat, u64) fmap"

definition NewHTTPMetrics :: HTTPMetrics where
  "NewHTTPMetrics = \<lparr>hm_requests = 0, hm_inflight = 0, hm_nanos = 0, hm_results = fmempty\<rparr>"

abbreviation result_of :: "HTTPMetrics \<Rightarrow> nat \<Rightarrow> u64" where
  "result_of m status \<equiv> (case fmlookup (hm_results m) status of None \<Rightarrow> 0 | Some n \<Rightarrow> n)"

definition enter :: "HTTPMetrics \<Rightarrow> HTTPMetrics" where
  "enter m = m\<lparr>hm_inflight := hm_inflight m + 1\<rparr>"

definition leave :: "HTTPMetrics \<Rightarrow> HTTPMetrics" where
  "leave m = m\<lparr>hm_inflight := hm_inflight m + int64_of (- 1)\<rparr>"

definition count_request :: "HTTPMetrics \<Rightarrow> HTTPMetrics" where
  "count_request m = m\<lparr>hm_requests := hm_requests m + 1\<rparr>"

definition add_nanos :: "u64 \<Rightarrow> HTTPMetrics \<Rightarrow> HTTPMetrics" where
  "add_nanos elapsed m = m\<lparr>hm_nanos := hm_nanos m + elapsed\<rparr>"

definition count_result :: "nat \<Rightarrow> HTTPMetrics \<Rightarrow> HTTPMetrics" where
  "count_result status m = m\<lparr>hm_results := fmupd status (result_of m status + 1) (hm_results m)\<rparr>"

text \<open>The middleware around one request with no other in between.\<close>

definition Middleware :: "(request \<Rightarrow> u64) \<Rightarrow> 'w handler \<Rightarrow> (HTTPMetrics \<times> 'w) handler" where
  "Middleware elapsed next w r = (case w of (m, v) \<Rightarrow>
     (let m1 = enter m in
      case next v r of
        (rs, v') \<Rightarrow>
          if panicked rs then (rs, m1, v')
          else (rs, count_result (rs_Status rs) (add_nanos (elapsed r) (count_request (leave m1))), v')))"

definition nl :: string where
  "nl = [CHR 0x0A]"

definition result_line :: "nat \<times> u64 \<Rightarrow> string" where
  "result_line x = (case x of (status, n) \<Rightarrow>
     ''riquet_http_responses_total{status='' @ [dquote] @ fmt_nat status @ [dquote] @ ''} '' @ fmt_u64 n @ nl)"

text \<open>\<open>seconds\<close> is the text of a number of nanoseconds divided by a second, \<open>walk\<close> the order of the
  map, \<open>extra\<close> what the store adds.\<close>

definition metrics_text ::
  "(u64 \<Rightarrow> string) \<Rightarrow> ((nat, u64) fmap \<Rightarrow> (nat \<times> u64) list) \<Rightarrow> string option \<Rightarrow> HTTPMetrics \<Rightarrow> string" where
  "metrics_text seconds walk extra m =
     ''# TYPE riquet_http_requests_total counter'' @ nl @ ''riquet_http_requests_total '' @ fmt_u64 (hm_requests m) @ nl
     @ ''# TYPE riquet_http_inflight gauge'' @ nl @ ''riquet_http_inflight '' @ fmt_i64 (hm_inflight m) @ nl
     @ ''# TYPE riquet_http_request_duration_seconds_sum counter'' @ nl
     @ ''riquet_http_request_duration_seconds_sum '' @ seconds (hm_nanos m) @ nl
     @ concat (map result_line (walk (hm_results m)))
     @ (case extra of None \<Rightarrow> '''' | Some text \<Rightarrow> text)"

definition metrics_Handler ::
  "(u64 \<Rightarrow> string) \<Rightarrow> ((nat, u64) fmap \<Rightarrow> (nat \<times> u64) list) \<Rightarrow> ('w \<Rightarrow> string option) \<Rightarrow> (HTTPMetrics \<times> 'w) handler" where
  "metrics_Handler seconds walk extra w r = (case w of (m, v) \<Rightarrow>
     (\<lparr>rs_Status = 200, rs_Header = [(''Content-Type'', ''text/plain; version=0.0.4'')],
       rs_Body = BText (metrics_text seconds walk (extra v) m)\<rparr>, w))"

section \<open>Requests in parallel\<close>

text \<open>Where a request is between the atomic operations of the middleware, with the status it will
  count: in its handler, after leaving, after counting itself, after adding its time.\<close>

datatype phase = Running | Left nat | Counted nat | Timed nat

text \<open>The metrics, the requests under way, the statuses recorded so far, and how many requests
  panicked.\<close>

inductive serving :: "HTTPMetrics \<Rightarrow> phase multiset \<Rightarrow> nat list \<Rightarrow> nat \<Rightarrow> bool" where
  idle: "serving NewHTTPMetrics {#} [] 0"
| arrives: "serving m ts ss k \<Longrightarrow> serving (enter m) (add_mset Running ts) ss k"
| returns: "serving m (add_mset Running ts) ss k \<Longrightarrow> serving (leave m) (add_mset (Left status) ts) ss k"
| counts: "serving m (add_mset (Left status) ts) ss k \<Longrightarrow> serving (count_request m) (add_mset (Counted status) ts) ss k"
| times: "serving m (add_mset (Counted status) ts) ss k \<Longrightarrow>
    serving (add_nanos elapsed m) (add_mset (Timed status) ts) ss k"
| records: "serving m (add_mset (Timed status) ts) ss k \<Longrightarrow> serving (count_result status m) ts (ss @ [status]) k"
| panics: "serving m (add_mset Running ts) ss k \<Longrightarrow> serving m ts ss (Suc k)"

fun counted :: "phase \<Rightarrow> bool" where
  "counted (Counted _) = True"
| "counted (Timed _) = True"
| "counted _ = False"

abbreviation counted_in :: "phase multiset \<Rightarrow> nat" where
  "counted_in ts \<equiv> size (filter_mset counted ts)"

lemmas metrics_defs = NewHTTPMetrics_def enter_def leave_def count_request_def add_nanos_def count_result_def

lemma int64_of_plus: "int64_of a + int64_of b = int64_of (a + b)"
  by (simp add: int64_of_def plus_int64_def)

lemma one_int64_of: "(1::int64) = int64_of 1"
  by (simp add: int64_of_def one_int64_def)

lemma zero_int64_of: "(0::int64) = int64_of 0"
  by (simp add: int64_of_def zero_int64_def)

text \<open>The middleware is the steps of one request in a row.\<close>

lemma Middleware_serving:
  assumes "serving m ts ss k" and "Middleware elapsed next (m, v) r = (rs, m', v')"
  shows "if panicked rs then serving m' ts ss (Suc k) else serving m' ts (ss @ [rs_Status rs]) k"
proof -
  have enter: "serving (enter m) (add_mset Running ts) ss k" using assms(1) by (rule arrives)
  have "serving (count_result status (add_nanos t (count_request (leave (enter m))))) ts (ss @ [status]) k" for status t
    by (intro records times counts returns enter)
  moreover have "serving (enter m) ts ss (Suc k)" using enter by (rule panics)
  ultimately show ?thesis
    using assms(2) by (auto simp: Middleware_def Let_def split: prod.splits if_splits)
qed

lemma serving_account:
  assumes "serving m ts ss k"
  shows "hm_inflight m = int64_of (int (count ts Running + k))"
    and "hm_requests m = of_nat (length ss + counted_in ts)"
    and "result_of m status = of_nat (count_list ss status)"
    and "fset (fmdom (hm_results m)) = set ss"
proof -
  show "hm_inflight m = int64_of (int (count ts Running + k))"
    using assms by induction (auto simp: metrics_defs int64_of_plus one_int64_of zero_int64_of algebra_simps)
  show "hm_requests m = of_nat (length ss + counted_in ts)"
    using assms by induction (auto simp: metrics_defs)
  show "result_of m status = of_nat (count_list ss status)"
    using assms by induction (auto simp: metrics_defs)
  show "fset (fmdom (hm_results m)) = set ss"
    using assms by induction (auto simp: metrics_defs)
qed

text \<open>C19: However the requests overlap, the metrics account for them: the gauge is the number of
  requests in a handler and of those that panicked there, the counter is the number of requests
  that have counted themselves, each status has the number of its recorded responses; and when
  no request is under way, the counts of all statuses add up to the counter, with the wrap-around of
  their width.\<close>

theorem metrics_account:
  assumes "serving m ts ss k"
  shows "hm_inflight m = int64_of (int (count ts Running + k))
    \<and> hm_requests m = of_nat (length ss + counted_in ts)
    \<and> (\<forall>status. result_of m status = of_nat (count_list ss status))
    \<and> (ts = {#} \<longrightarrow> (\<Sum>status \<in> fset (fmdom (hm_results m)). result_of m status) = hm_requests m)"
proof -
  have "(\<Sum>status \<in> set ss. (of_nat (count_list ss status) :: u64)) = of_nat (length ss)"
    by (simp add: sum_count_set flip: of_nat_sum)
  then show ?thesis
    using serving_account [OF assms] by simp
qed

lemma metrics_account_witness:
  "serving (count_result 200 (add_nanos 7 (count_request (leave (enter NewHTTPMetrics))))) {#} [200] 0
    \<and> result_of (count_result 200 (add_nanos 7 (count_request (leave (enter NewHTTPMetrics))))) 200 = 1"
proof -
  have "serving (count_result 200 (add_nanos 7 (count_request (leave (enter NewHTTPMetrics))))) {#} ([] @ [200]) 0"
    by (intro records times counts returns arrives idle)
  then show ?thesis using metrics_account [of _ "{#}" "[200]" 0] by simp
qed

end
