(* ===== verification/Json_Text.thy ===== *)
theory Json_Text
  imports Json
begin

text \<open>
  What reading a JSON text gives: the literals in the tree read back whatever follows them, the
  strings they stand for are UTF-8, and writing the tree without white space
  (\<open>json.Compact\<close>) is a text of the same tree.
\<close>

section \<open>Literals\<close>

lemma hex4_append: "hex4 s = Some (n, r) \<Longrightarrow> \<exists>u. s = u @ r \<and> (\<forall>r'. hex4 (u @ r') = Some (n, r'))"
  by (auto simp: hex4_def split: list.splits option.splits)

text \<open>A prefix that was read is read in the same way before another rest, up to the closing
  quote, which no escape and no rune reaches over.\<close>

definition reads_prefix :: "string \<Rightarrow> string \<Rightarrow> string \<Rightarrow> bool" where
  "reads_prefix s t rest \<longleftrightarrow>
     (\<exists>raw. s = raw @ dquote # rest \<and> (\<forall>rest'. parse_str (raw @ dquote # rest') = Some (t, rest')))"

lemma hex4_before_quote:
  "map_option fst (hex4 (u @ dquote # r)) = map_option fst (hex4 (u @ dquote # r'))"
proof (cases "length u \<ge> 4")
  case True
  then obtain a b c d v where "u = a # b # c # d # v"
    by (cases u; cases "tl u"; cases "tl (tl u)"; cases "tl (tl (tl u))") auto
  then show ?thesis by (auto simp: hex4_def split: option.splits)
next
  case False
  have q: "hex_val dquote = None" by (simp add: hex_val_def is_digit_def)
  from False show ?thesis
    by (cases u; cases "tl u"; cases "tl (tl u)"; cases "tl (tl (tl u))")
      (auto simp: hex4_def q split: option.splits list.splits)
qed

lemma rune_width_before_quote: "rune_width (c # u @ dquote # r) = rune_width (c # u @ dquote # r')"
proof (cases "lead_width c - 1 \<le> length u")
  case True
  then show ?thesis by (simp add: rune_width_def)
next
  case False
  have "\<not> tail_ok c (take (lead_width c - 1) (u @ dquote # x))" for x
    using False
    by (cases u) (auto simp: tail_ok_def second_ok_def cont_byte_def lead_width_def take_Cons' split: if_splits)
  then show ?thesis by (simp add: rune_width_def)
qed

lemma parse_str_valid_rune:
  assumes "tail_ok c t" and "c \<noteq> dquote" and "c \<noteq> bslash" and "\<not> byte c < 32"
  shows "parse_str (c # t @ s) = map_option (\<lambda>(u, rest). (c # t @ u, rest)) (parse_str s)"
proof -
  have "rune_width (c # t @ s) = Suc (length t)"
    using rune_width_prefix [OF assms(1)] tail_ok_length [OF assms(1)] by simp
  with assms(2-4) show ?thesis by (simp add: parse_str.simps(2) Let_def)
qed

lemma unescape_u_before_quote:
  assumes "unescape_u s = Some (t, raw @ dquote # rest)"
  shows "\<exists>p. s = p @ raw @ dquote # rest \<and> (\<forall>rest'. unescape_u (p @ raw @ dquote # rest') = Some (t, raw @ dquote # rest'))"
proof -
  from assms obtain n r where n: "hex4 s = Some (n, r)" by (auto simp: unescape_u_def split: option.splits)
  from hex4_append [OF n] obtain h where h: "s = h @ r" "\<And>x. hex4 (h @ x) = Some (n, x)" by blast
  show ?thesis
  proof (cases "r = raw @ dquote # rest")
    case same: True
    have t: "t = (if 55296 \<le> n \<and> n < 57344 then replacement else encode_rune n)"
      using assms n same
      by (auto simp: unescape_u_def split: if_splits list.splits option.splits dest!: hex4_shorter)
    have "unescape_u (h @ raw @ dquote # rest') = Some (t, raw @ dquote # rest')" for rest'
    proof (cases "55296 \<le> n \<and> n < 56320 \<and> (\<exists>raw'. raw = bslash # CHR ''u'' # raw')")
      case True
      then obtain raw' where raw': "raw = bslash # CHR ''u'' # raw'" by blast
      have "\<nexists>r2 x. hex4 (raw' @ dquote # rest) = Some (r2, x) \<and> 56320 \<le> r2 \<and> r2 < 57344"
      proof (intro notI, elim exE conjE)
        fix r2 x
        assume x: "hex4 (raw' @ dquote # rest) = Some (r2, x)" "56320 \<le> r2" "r2 < 57344"
        with assms n same True raw' have "x = raw @ dquote # rest" by (simp add: unescape_u_def)
        with hex4_shorter [OF x(1)] raw' show False by simp
      qed
      then have "\<nexists>r2 x. hex4 (raw' @ dquote # rest') = Some (r2, x) \<and> 56320 \<le> r2 \<and> r2 < 57344"
        using hex4_before_quote [of raw' rest rest'] by (auto split: option.splits)
      with True raw' t h(2) show ?thesis by (auto simp: unescape_u_def split: option.splits)
    next
      case False
      then show ?thesis using t h(2)
        by (cases raw; cases "tl raw") (auto simp: unescape_u_def split: list.splits)
    qed
    with h(1) same show ?thesis by blast
  next
    case False
    with assms n obtain r' n2 where r: "r = bslash # CHR ''u'' # r'" "55296 \<le> n" "n < 56320" "56320 \<le> n2" "n2 < 57344"
      and n2: "hex4 r' = Some (n2, raw @ dquote # rest)" and t: "t = encode_rune (65536 + 1024 * (n - 55296) + (n2 - 56320))"
      by (auto simp: unescape_u_def split: if_splits list.splits option.splits)
    from hex4_append [OF n2] obtain h2 where h2: "r' = h2 @ raw @ dquote # rest" "\<And>x. hex4 (h2 @ x) = Some (n2, x)" by blast
    show ?thesis
      by (rule exI [of _ "h @ bslash # CHR ''u'' # h2"]) (use h h2 r t in \<open>simp add: unescape_u_def\<close>)
  qed
qed

lemma unescape_before_quote:
  assumes "unescape s = Some (t, raw @ dquote # rest)"
  shows "\<exists>p. s = p @ raw @ dquote # rest \<and> (\<forall>rest'. unescape (p @ raw @ dquote # rest') = Some (t, raw @ dquote # rest'))"
proof (cases s)
  case (Cons e r)
  show ?thesis
  proof (cases "e = CHR ''u''")
    case True
    with assms Cons have "unescape_u r = Some (t, raw @ dquote # rest)" by (simp add: unescape_def)
    from unescape_u_before_quote [OF this] obtain p where
      "r = p @ raw @ dquote # rest" "\<forall>rest'. unescape_u (p @ raw @ dquote # rest') = Some (t, raw @ dquote # rest')"
      by blast
    with Cons True show ?thesis by (intro exI [of _ "e # p"]) (simp add: unescape_def)
  next
    case False
    with assms Cons show ?thesis by (intro exI [of _ "[e]"]) (auto simp: unescape_def split: if_splits)
  qed
qed (use assms in \<open>simp add: unescape_def\<close>)

lemma parse_str_prefix: "parse_str s = Some (t, rest) \<Longrightarrow> reads_prefix s t rest"
proof (induction s arbitrary: t rule: parse_str.induct)
  case (2 c s)
  show ?case
  proof (cases "c = dquote")
    case True
    with "2.prems" show ?thesis by (auto simp: reads_prefix_def parse_str.simps(2) intro: exI [of _ "[]"])
  next
    case q: False
    show ?thesis
    proof (cases "c = bslash")
      case True
      with q "2.prems" obtain t1 r u where u: "unescape s = Some (t1, r)" "parse_str r = Some (u, rest)" and t: "t = t1 @ u"
        by (auto simp: parse_str.simps(2) split: option.splits)
      from "2.IH"(1) [OF q True u(1) refl u(2)] obtain raw where
        raw: "r = raw @ dquote # rest" "\<forall>rest'. parse_str (raw @ dquote # rest') = Some (u, rest')"
        by (auto simp: reads_prefix_def)
      from unescape_before_quote [OF u(1) [unfolded raw(1)]] obtain p where
        p: "s = p @ raw @ dquote # rest" "\<forall>rest'. unescape (p @ raw @ dquote # rest') = Some (t1, raw @ dquote # rest')"
        by blast
      show ?thesis unfolding reads_prefix_def
        by (rule exI [of _ "c # p @ raw"]) (use q True p raw t in \<open>simp add: parse_str.simps(2)\<close>)
    next
      case b: False
      with q "2.prems" have c: "\<not> byte c < 32" by (auto simp: parse_str.simps(2) split: if_splits)
      show ?thesis
      proof (cases "rune_width (c # s) = 0")
        case True
        with q b c "2.prems" obtain u where u: "parse_str s = Some (u, rest)" "t = replacement @ u"
          by (auto simp: parse_str.simps(2) Let_def)
        from "2.IH"(2) [OF q b c refl True u(1)] obtain raw where
          raw: "s = raw @ dquote # rest" "\<forall>rest'. parse_str (raw @ dquote # rest') = Some (u, rest')"
          by (auto simp: reads_prefix_def)
        have w: "rune_width (c # raw @ dquote # rest') = 0" for rest'
          using True raw(1) rune_width_before_quote by metis
        show ?thesis unfolding reads_prefix_def
          by (rule exI [of _ "c # raw"]) (use q b c raw u w in \<open>simp add: parse_str.simps(2) Let_def\<close>)
      next
        case False
        then obtain c' tl' v where s: "c # s = c' # tl' @ v" "tail_ok c' tl'" "rune_width (c # s) = Suc (length tl')"
          by (rule rune_width_split)
        then have v: "drop (rune_width (c # s)) (c # s) = v" "s = tl' @ v" "c' = c" by auto
        from "2.prems" parse_str_valid_rune [of c tl' v] q b c s v obtain u where
          u: "parse_str v = Some (u, rest)" "t = c # tl' @ u" by (cases "parse_str v") auto
        from "2.IH"(3) [OF q b c refl False] v(1) u(1) obtain raw where
          raw: "v = raw @ dquote # rest" "\<forall>rest'. parse_str (raw @ dquote # rest') = Some (u, rest')"
          by (auto simp: reads_prefix_def)
        show ?thesis unfolding reads_prefix_def
          by (rule exI [of _ "c # tl' @ raw"]) (use q b c raw u v s parse_str_valid_rune [of c tl'] in simp)
      qed
    qed
  qed
qed simp

section \<open>What literals stand for\<close>

lemma byte_char_of: "n < 256 \<Longrightarrow> byte (char_of n) = n"
  by simp

lemma digits64: "n div (k * 64) = q \<Longrightarrow> n div k = 64 * q + n div k mod 64" for n :: nat
  by (metis div_mult2_eq div_mult_mod_eq mult.commute)

lemma encode_rune_valid:
  assumes "n < 1114112" and "\<not> (55296 \<le> n \<and> n < 57344)"
  shows "valid_utf8 (encode_rune n @ u) = valid_utf8 u"
proof -
  consider "n < 128" | "128 \<le> n" "n < 2048" | "2048 \<le> n" "n < 65536" | "65536 \<le> n"
    by linarith
  then show ?thesis
  proof cases
    case 1
    then show ?thesis by (simp add: encode_rune_def)
  next
    case 2
    then have "tail_ok (char_of (192 + n div 64)) [char_of (128 + n mod 64)]"
      by (auto simp: tail_ok_def lead_width_def second_ok_def)
    from valid_utf8_rune [OF this, of u] 2 show ?thesis by (simp add: encode_rune_def)
  next
    case 3
    have d: "n div 4096 < 16" "n div 64 mod 64 < 64" "n mod 64 < 64" using 3 by auto
    have low: "n div 4096 = 0 \<Longrightarrow> 32 \<le> n div 64 mod 64" using 3 by (simp add: div_eq_0_iff)
    have high: "n div 4096 = 13 \<Longrightarrow> n div 64 mod 64 < 32"
      using assms(2) digits64 [of n 64 13] by simp linarith
    have "tail_ok (char_of (224 + n div 4096)) [char_of (128 + n div 64 mod 64), char_of (128 + n mod 64)]"
      using d low high by (auto simp: tail_ok_def lead_width_def second_ok_def cont_byte_def)
    from valid_utf8_rune [OF this, of u] 3 show ?thesis by (simp add: encode_rune_def)
  next
    case 4
    have d: "n div 262144 < 5" "n div 4096 mod 64 < 64" "n div 64 mod 64 < 64" "n mod 64 < 64" using assms 4 by auto
    have low: "n div 262144 = 0 \<Longrightarrow> 16 \<le> n div 4096 mod 64" using 4 digits64 [of n 4096 0] by simp
    have high: "n div 262144 = 4 \<Longrightarrow> n div 4096 mod 64 < 16" using assms(1) digits64 [of n 4096 4] by simp
    have "tail_ok (char_of (240 + n div 262144))
        [char_of (128 + n div 4096 mod 64), char_of (128 + n div 64 mod 64), char_of (128 + n mod 64)]"
      using d low high by (auto simp: tail_ok_def lead_width_def second_ok_def cont_byte_def)
    from valid_utf8_rune [OF this, of u] 4 show ?thesis by (simp add: encode_rune_def)
  qed
qed

lemma hex_val_less: "hex_val c = Some n \<Longrightarrow> n < 16"
  by (auto simp: hex_val_def is_digit_def split: if_splits)

lemma hex4_less: "hex4 s = Some (n, r) \<Longrightarrow> n < 65536"
  by (auto simp: hex4_def dest!: hex_val_less split: list.splits option.splits)

lemma unescape_u_valid:
  assumes "unescape_u s = Some (t, r)"
  shows "valid_utf8 (t @ u) = valid_utf8 u"
proof -
  consider "t = replacement" | n where "t = encode_rune n" "n < 1114112" "\<not> (55296 \<le> n \<and> n < 57344)"
    using assms that by (fastforce simp: unescape_u_def dest: hex4_less split: option.splits if_splits list.splits)
  then show ?thesis by cases (simp_all add: encode_rune_valid)
qed

lemma unescape_valid: "unescape s = Some (t, r) \<Longrightarrow> valid_utf8 (t @ u) = valid_utf8 u"
  by (auto simp: unescape_def dest: unescape_u_valid split: list.splits if_splits)

lemma parse_str_valid: "parse_str s = Some (t, rest) \<Longrightarrow> valid_utf8 t"
proof (induction s arbitrary: t rule: parse_str.induct)
  case (2 c s)
  consider "c = dquote" | "c \<noteq> dquote" "c = bslash" | "c \<noteq> dquote" "c \<noteq> bslash" "\<not> byte c < 32" "rune_width (c # s) = 0"
    | "c \<noteq> dquote" "c \<noteq> bslash" "\<not> byte c < 32" "rune_width (c # s) \<noteq> 0"
    using "2.prems" by (auto simp: parse_str.simps(2) split: if_splits)
  then show ?case
  proof cases
    case 1
    with "2.prems" show ?thesis by (simp add: parse_str.simps(2))
  next
    case 2
    with "2.prems" obtain t1 r u where "unescape s = Some (t1, r)" "parse_str r = Some (u, rest)" "t = t1 @ u"
      by (auto simp: parse_str.simps(2) split: option.splits)
    with "2.IH"(1) 2 show ?thesis by (simp add: unescape_valid)
  next
    case 3
    with "2.prems" "2.IH"(2) show ?thesis by (auto simp: parse_str.simps(2) Let_def)
  next
    case 4
    then obtain c' tl' v where v: "c # s = c' # tl' @ v" "tail_ok c' tl'" "rune_width (c # s) = Suc (length tl')"
      by (metis rune_width_split)
    then have d: "drop (rune_width (c # s)) (c # s) = v" "c' = c" by auto
    with "2.prems" parse_str_valid_rune [of c tl' v] 4 v obtain u where "parse_str v = Some (u, rest)" "t = c # tl' @ u"
      by (cases "parse_str v") auto
    with "2.IH"(3) [OF 4(1-3) refl 4(4)] d v(2) show ?thesis by (simp add: valid_utf8_rune)
  qed
qed simp

lemma unquote_valid [simp]: "valid_utf8 (unquote r)"
  by (auto simp: unquote_def dest: parse_str_valid split: option.splits)

section \<open>Trees of texts\<close>

lemma parse_lit_raw:
  assumes "parse_lit s = Some (r, rest)"
  shows "raw_lit r" and "s = r @ dquote # rest"
proof -
  from assms obtain t where "parse_str s = Some (t, rest)" and r: "r = take (length s - length rest - 1) s"
    by (auto simp: parse_lit_def split: option.splits)
  then obtain raw where raw: "s = raw @ dquote # rest" "\<And>rest'. parse_str (raw @ dquote # rest') = Some (t, rest')"
    using parse_str_prefix [of s t rest] by (auto simp: reads_prefix_def)
  with r have "r = raw" by simp
  with raw show "raw_lit r" and "s = r @ dquote # rest" by (simp_all add: raw_lit_def parse_lit_def)
qed

lemma parse_num_text: "parse_num s = Some (j, r) \<Longrightarrow> json_text j"
  by (auto simp: parse_num_def Let_def split: if_splits)

lemma parsed_text:
  "parse_value n s = Some (j, r) \<Longrightarrow> json_text j"
  "parse_elems n s = Some (js, r) \<Longrightarrow> \<forall>j \<in> set js. json_text j"
  "parse_members n s = Some (kvs, r) \<Longrightarrow> \<forall>(k, j) \<in> set kvs. raw_lit k \<and> json_text j"
proof (induction n s and n s and n s arbitrary: j r and js r and kvs r rule: parse_value_parse_elems_parse_members.induct)
  case (2 n s)
  then show ?case
    by (auto dest: parse_lit_raw parse_num_text split: list.splits if_splits option.splits)
next
  case (4 n s)
  then show ?case by (force split: list.splits if_splits option.splits prod.splits)
next
  case (6 n s)
  then show ?case by (force dest: parse_lit_raw split: list.splits if_splits option.splits prod.splits)
qed simp_all

lemma decode_stream_is_text: "decode_stream s = Some (j, r) \<Longrightarrow> json_text j"
  unfolding decode_stream_def by (rule parsed_text(1))

lemma parse_json_is_text: "parse_json s = Some j \<Longrightarrow> json_text j"
  by (auto simp: parse_json_def dest: decode_stream_is_text split: option.splits if_splits)

text \<open>Dropping the white space of a text gives a text of the same tree.\<close>

theorem compact_reads_back: "parse_json s = Some j \<Longrightarrow> parse_json (print_json j) = Some j"
  by (rule parse_print_text [OF parse_json_is_text])

text \<open>It is no longer than the text.\<close>

lemma parse_lit_length: "parse_lit s = Some (r, rest) \<Longrightarrow> length r + 1 + length rest = length s"
  using parse_str_prefix by (fastforce simp: parse_lit_def reads_prefix_def split: option.splits)

lemma parse_num_length: "parse_num s = Some (j, r) \<Longrightarrow> length (print_json j) + length r = length s"
  by (auto simp: parse_num_def Let_def split: if_splits) (metis length_append takeWhile_dropWhile_id)

lemma skip_ws_length_Cons: "skip_ws s = c # r \<Longrightarrow> length r + 1 \<le> length s"
  using skip_ws_Cons [of s c r] by simp

lemma HasPrefix_length: "HasPrefix r p \<Longrightarrow> length p \<le> length r"
  using length_take [of "length p" r] by (simp add: HasPrefix_def)

lemma parsed_length:
  "parse_value n s = Some (j, r) \<Longrightarrow> length (print_json j) + length r \<le> length s"
  "parse_elems n s = Some (js, r) \<Longrightarrow> length (join_comma (map print_json js)) + 1 + length r \<le> length s"
  "parse_members n s = Some (kvs, r) \<Longrightarrow> length (join_comma (map print_member kvs)) + 1 + length r \<le> length s"
proof (induction n s and n s and n s arbitrary: j r and js r and kvs r rule: parse_value_parse_elems_parse_members.induct)
  case (2 n s)
  then obtain c s' where s: "skip_ws s = c # s'" by (auto split: list.splits)
  show ?case
  proof (cases "c = CHR ''{'' \<or> c = CHR ''[''")
    case True
    with "2.prems" s obtain d s'' where d: "skip_ws s' = d # s''" by (auto split: list.splits if_splits)
    have "length (print_json j) + length r \<le> length s'' + 2"
      using "2.prems" True s d "2.IH"(1) [OF s _ _ d] "2.IH"(2) [OF s _ _ _ d]
      by (fastforce split: if_splits)
    with skip_ws_length_Cons [OF s] skip_ws_length_Cons [OF d] show ?thesis by linarith
  next
    case False
    with "2.prems" s have "length (print_json j) + length r \<le> Suc (length s')"
      by (auto simp: quote_lit_def dest: parse_lit_length parse_num_length HasPrefix_length split: if_splits)
    with skip_ws_length_Cons [OF s] show ?thesis by simp
  qed
next
  case (4 n s)
  then obtain j1 r1 c r' where v: "parse_value n s = Some (j1, r1)" and c: "skip_ws r1 = c # r'"
    by (auto split: option.splits list.splits)
  have "length (print_json j1) + length r1 \<le> length s" using "4.IH"(1) [OF v] .
  moreover have "length (join_comma (map print_json js)) + 1 + length r \<le> length (print_json j1) + 1 + length r'"
  proof (cases "c = CHR '',''")
    case True
    with "4.prems" v c obtain js' where js: "parse_elems n r' = Some (js', r)" "js = j1 # js'" by auto
    from "4.IH"(2) [OF v refl c True js(1)] js(2) show ?thesis by (cases js') (simp_all add: join_comma_Cons)
  next
    case False
    with "4.prems" v c show ?thesis by (auto split: if_splits)
  qed
  ultimately show ?case using skip_ws_length_Cons [OF c] by linarith
next
  case (6 n s)
  then obtain c s1 where c: "skip_ws s = c # s1" by (auto split: list.splits)
  with "6.prems" obtain k r1 d r2 j r3 e r4 where q: "\<not> c \<noteq> dquote" and k: "parse_lit s1 = Some (k, r1)"
    and d: "skip_ws r1 = d # r2" "\<not> d \<noteq> CHR '':''" and v: "parse_value n r2 = Some (j, r3)" and e: "skip_ws r3 = e # r4"
    by (auto split: list.splits if_splits option.splits prod.splits)
  have "length (print_json j) + length r3 \<le> length r2" using "6.IH"(1) [OF c q k refl d v] .
  moreover have "length (join_comma (map print_member kvs)) + 1 + length r \<le> length k + 3 + length (print_json j) + 1 + length r4"
  proof (cases "e = CHR '',''")
    case True
    with "6.prems" c q k d v e obtain kvs' where kvs: "parse_members n r4 = Some (kvs', r)" "kvs = (k, j) # kvs'" by auto
    from "6.IH"(2) [OF c q k refl d v refl e True kvs(1)] kvs(2) show ?thesis
      by (cases kvs') (simp_all add: join_comma_Cons quote_lit_def)
  next
    case False
    with "6.prems" c q k d v e show ?thesis by (auto simp: quote_lit_def split: if_splits)
  qed
  ultimately show ?case
    using skip_ws_length_Cons [OF c] skip_ws_length_Cons [OF d(1)] skip_ws_length_Cons [OF e] parse_lit_length [OF k]
    by linarith
qed simp_all

lemma compact_shorter: "parse_json s = Some j \<Longrightarrow> length (print_json j) \<le> length s"
  by (auto simp: parse_json_def decode_stream_def simp del: parse_value.simps dest!: parsed_length(1)
      split: option.splits if_splits)

section \<open>A text that is cut off\<close>

text \<open>A value that ends before the text does, or that is not a number, is read the same whatever comes
  after the text.\<close>

lemma skip_ws_append: "skip_ws s = c # r \<Longrightarrow> skip_ws (s @ t) = c # r @ t"
  unfolding skip_ws_def by (induction s) (auto split: if_splits)

lemma parse_lit_append: "parse_lit s = Some (r, rest) \<Longrightarrow> parse_lit (s @ t) = Some (r, rest @ t)"
  using parse_lit_raw [of s r rest] by (simp add: raw_lit_def)

lemma parse_num_append:
  assumes "parse_num s = Some (j, r)" and "r \<noteq> []"
  shows "parse_num (s @ t) = Some (j, r @ t)"
proof -
  have "dropWhile num_char s = r" using assms(1) by (auto simp: parse_num_def Let_def split: if_splits)
  then have "\<exists>c \<in> set s. \<not> num_char c" using assms(2) by (metis dropWhile_eq_Nil_conv)
  then have "takeWhile num_char (s @ t) = takeWhile num_char s" "dropWhile num_char (s @ t) = dropWhile num_char s @ t"
    by (auto simp: takeWhile_append1 dropWhile_append1)
  with assms(1) show ?thesis by (auto simp: parse_num_def Let_def split: if_splits)
qed

lemma HasPrefix_extends: "HasPrefix r p \<Longrightarrow> HasPrefix (r @ t) p \<and> drop (length p) (r @ t) = drop (length p) r @ t"
  using HasPrefix_length [of r p] by (auto simp: HasPrefix_def)

lemma parse_atom_append:
  assumes "parse_value (Suc n) s = Some (j, r)" and "r \<noteq> [] \<or> (\<forall>m. j \<noteq> JNum m)"
    and s: "skip_ws s = c # s'" and s': "skip_ws (s @ t) = c # s' @ t" and "c \<noteq> CHR ''{''" and "c \<noteq> CHR ''[''"
  shows "parse_value (Suc n) (s @ t) = Some (j, r @ t)"
proof -
  consider "c = dquote" | "c = CHR ''t''" | "c = CHR ''f''" | "c = CHR ''n''"
    | "c \<notin> {dquote, CHR ''{'', CHR ''['', CHR ''t'', CHR ''f'', CHR ''n''}" using assms(5,6) by blast
  then show ?thesis
  proof cases
    case 1
    then show ?thesis using assms(1) s s' parse_lit_append [of s' _ r t] by auto
  next
    case 2
    then show ?thesis using assms(1) s s' HasPrefix_extends [of s' "''rue''" t] HasPrefix_length [of s' "''rue''"]
      by (auto split: if_splits)
  next
    case 3
    then show ?thesis using assms(1) s s' HasPrefix_extends [of s' "''alse''" t] HasPrefix_length [of s' "''alse''"]
      by (auto split: if_splits)
  next
    case 4
    then show ?thesis using assms(1) s s' HasPrefix_extends [of s' "''ull''" t] HasPrefix_length [of s' "''ull''"]
      by (auto split: if_splits)
  next
    case 5
    then have "parse_num (c # s') = Some (j, r)" using assms(1) s by simp
    moreover from this have "r \<noteq> []" using assms(2) by (auto simp: parse_num_def Let_def split: if_splits)
    ultimately show ?thesis using 5 s' parse_num_append [of "c # s'" j r t] by simp
  qed
qed

lemma parse_append:
  "parse_value n s = Some (j, r) \<Longrightarrow> r \<noteq> [] \<or> (\<forall>m. j \<noteq> JNum m) \<Longrightarrow> parse_value n (s @ t) = Some (j, r @ t)"
  "parse_elems n s = Some (js, r) \<Longrightarrow> parse_elems n (s @ t) = Some (js, r @ t)"
  "parse_members n s = Some (kvs, r) \<Longrightarrow> parse_members n (s @ t) = Some (kvs, r @ t)"
proof (induction n s and n s and n s arbitrary: j r and js r and kvs r rule: parse_value_parse_elems_parse_members.induct)
  case (2 n s)
  then obtain c s' where s: "skip_ws s = c # s'" by (auto split: list.splits)
  note s' = skip_ws_append [OF s, of t]
  show ?case
  proof (cases "c = CHR ''{'' \<or> c = CHR ''[''")
    case True
    with "2.prems" s obtain d s'' where d: "skip_ws s' = d # s''" by (auto split: list.splits if_splits)
    note d' = skip_ws_append [OF d, of t]
    show ?thesis
      using "2.prems"(1) True s s' d d' "2.IH"(1) [OF s _ _ d] "2.IH"(2) [OF s _ _ _ d]
      by (fastforce split: if_splits)
  next
    case False
    then show ?thesis by (intro parse_atom_append [OF "2.prems"(1,2) s s']) auto
  qed
next
  case (4 n s)
  then obtain j1 r1 c r' where v: "parse_value n s = Some (j1, r1)" and c: "skip_ws r1 = c # r'"
    by (auto split: option.splits list.splits)
  have "r1 \<noteq> []" using c by auto
  with "4.IH"(1) [OF v] have v': "parse_value n (s @ t) = Some (j1, r1 @ t)" by simp
  show ?case
    using "4.prems" v v' c skip_ws_append [OF c, of t] "4.IH"(2) [OF v refl c] by (auto split: if_splits)
next
  case (6 n s)
  then obtain c s1 where c: "skip_ws s = c # s1" by (auto split: list.splits)
  with "6.prems" obtain k r1 d r2 j r3 e r4 where q: "\<not> c \<noteq> dquote" and k: "parse_lit s1 = Some (k, r1)"
    and d: "skip_ws r1 = d # r2" "\<not> d \<noteq> CHR '':''" and v: "parse_value n r2 = Some (j, r3)" and e: "skip_ws r3 = e # r4"
    by (auto split: list.splits if_splits option.splits prod.splits)
  have "r3 \<noteq> []" using e by auto
  with "6.IH"(1) [OF c q k refl d v] have v': "parse_value n (r2 @ t) = Some (j, r3 @ t)" by simp
  show ?case
    using "6.prems" c q k d v e v' skip_ws_append [OF c, of t] parse_lit_append [OF k, of t] skip_ws_append [OF d(1), of t]
      skip_ws_append [OF e, of t] "6.IH"(2) [OF c q k refl d v refl e]
    by (auto split: if_splits)
qed simp_all

lemma parse_object: "parse_value n (CHR ''{'' # s) = Some (j, r) \<Longrightarrow> \<exists>kvs. j = JObj kvs"
  by (cases n) (auto simp: is_ws_def split: list.splits if_splits)

text \<open>So of an object that is cut off nothing is read: a prefix of its text that reads as a value is the
  whole text.\<close>

lemma decode_prefix_of_object:
  assumes "json_ok (JObj kvs)" and "decode_stream p = Some (j, r)" and "p @ q = print_json (JObj kvs)"
  shows "j = JObj kvs"
proof -
  obtain s where "print_json (JObj kvs) = CHR ''{'' # s" by simp
  moreover have "p \<noteq> []" using assms(2) by (auto simp: decode_stream_def)
  ultimately obtain p' where "p = CHR ''{'' # p'" using assms(3) by (cases p) auto
  then obtain ms where j: "j = JObj ms" using parse_object assms(2) by (metis decode_stream_def)
  let ?n = "2 * length (p @ q) + 1"
  have "parse_value ?n p = Some (j, r)" using assms(2) parse_value_fuel [of p ?n] by simp
  then have "parse_value ?n (p @ q) = Some (j, r @ q)" using j by (intro parse_append(1)) simp_all
  then have "decode_stream (print_json (JObj kvs)) = Some (j, r @ q)" using assms(3) by (simp add: decode_stream_def)
  moreover have "decode_stream (print_json (JObj kvs) @ []) = Some (JObj kvs, [])"
    by (rule decode_stream_print [OF assms(1)]) (simp add: ends_def)
  ultimately show ?thesis by simp
qed

end
