(* ===== verification/Engine_Common.thy ===== *)
theory Engine_Common
  imports Formats Json_Text "HOL-Library.AList"
begin

text \<open>
  Values decoded into Go's \<open>any\<close> with \<open>UseNumber\<close>, as the JSON Schema and Avro engines use
  them, and the loading of references that the three engines have in common. A
  \<open>map[string]any\<close> is its members ordered by key, each key once; of the members of an object
  with the same key the last one counts.
\<close>

section \<open>Values\<close>

datatype any =
    ANull
  | ABool bool
  | ANumber string
  | AString string
  | AList "any list"
  | AMap "(string \<times> any) list"

definition map_members :: "(string \<times> 'a) list \<Rightarrow> (string \<times> 'a) list" where
  "map_members kvs = sort_key fst (AList.clearjunk (rev kvs))"

fun to_any :: "json \<Rightarrow> any" where
  "to_any JNull = ANull"
| "to_any (JBool b) = ABool b"
| "to_any (JNum s) = ANumber s"
| "to_any (JStr r) = AString (unquote r)"
| "to_any (JArr js) = AList (map to_any js)"
| "to_any (JObj kvs) = AMap (map_members (map (\<lambda>(k, v). (unquote k, to_any v)) kvs))"

text \<open>\<open>json.Marshal\<close> of a value, with the keys of a map in order.\<close>

fun of_any :: "any \<Rightarrow> json" where
  "of_any ANull = JNull"
| "of_any (ABool b) = JBool b"
| "of_any (ANumber s) = JNum s"
| "of_any (AString s) = enc_string s"
| "of_any (AList xs) = JArr (map of_any xs)"
| "of_any (AMap m) = obj (map (\<lambda>(k, v). (k, of_any v)) m)"

text \<open>A lookup in a map; what is absent, and the map of a value that is none, is nil.\<close>

fun member_of :: "any \<Rightarrow> string \<Rightarrow> any option" where
  "member_of (AMap m) k = map_of m k"
| "member_of _ k = None"

definition any_get :: "any \<Rightarrow> string \<Rightarrow> any" where
  "any_get v k = (case member_of v k of None \<Rightarrow> ANull | Some x \<Rightarrow> x)"

text \<open>\<open>fmt.Sprint\<close>.\<close>

fun join_blank :: "string list \<Rightarrow> string" where
  "join_blank [] = []"
| "join_blank [x] = x"
| "join_blank (x # y # zs) = x @ CHR '' '' # join_blank (y # zs)"

fun Sprint :: "any \<Rightarrow> string" where
  "Sprint ANull = ''<nil>''"
| "Sprint (ABool b) = (if b then ''true'' else ''false'')"
| "Sprint (ANumber s) = s"
| "Sprint (AString s) = s"
| "Sprint (AList xs) = CHR ''['' # join_blank (map Sprint xs) @ '']''"
| "Sprint (AMap m) = ''map['' @ join_blank (map (\<lambda>(k, v). k @ CHR '':'' # Sprint v) m) @ '']''"

section \<open>Loading references\<close>

text \<open>The texts the engines take from elsewhere: an error of a context, of \<open>encoding/json\<close> on a
  text, and \<open>%q\<close>.\<close>

record texts =
  tx_error :: "go_error \<Rightarrow> string"
  tx_json :: "string \<Rightarrow> string"
  tx_quote :: "string \<Rightarrow> string"

definition formatError :: "string \<Rightarrow> string \<Rightarrow> string" where
  "formatError kind detail = kind @ '': '' @ detail"

definition normalizedLimits :: "Limits \<Rightarrow> Limits" where
  "normalizedLimits limits =
     \<lparr>lim_MaxSchemaBytes = (if lim_MaxSchemaBytes limits = 0 then lim_MaxSchemaBytes DefaultLimits else lim_MaxSchemaBytes limits),
      lim_MaxReferences = (if lim_MaxReferences limits = 0 then lim_MaxReferences DefaultLimits else lim_MaxReferences limits),
      lim_MaxReferenceDepth = (if lim_MaxReferenceDepth limits = 0 then lim_MaxReferenceDepth DefaultLimits
        else lim_MaxReferenceDepth limits)\<rparr>"

definition reference_key :: "Reference \<Rightarrow> string" where
  "reference_key r = ref_Subject r @ CHR ''/'' # fmt_i64 (ref_Version r)"

text \<open>What differs between the engines: a check before each reference, the type, the text for a
  schema that is too large, and what is done with a schema once those it refers to are loaded.\<close>

record 'a loader =
  ld_before :: "string option"
  ld_type :: string
  ld_too_large :: "string \<Rightarrow> nat \<Rightarrow> string"
  ld_finish :: "Reference \<Rightarrow> Schema \<Rightarrow> 'a \<Rightarrow> string + 'a"

text \<open>The number is how many levels of depth are left; the state is the count of references
  resolved and what the engine collects. The keys being loaded are an argument, since every call
  takes its own key out again.\<close>

fun load_reference :: "'a loader \<Rightarrow> Limits \<Rightarrow> Resolver \<Rightarrow> ctx \<Rightarrow> nat \<Rightarrow> string list \<Rightarrow> Reference
    \<Rightarrow> nat \<times> 'a \<Rightarrow> string + nat \<times> 'a"
  and load_references :: "'a loader \<Rightarrow> Limits \<Rightarrow> Resolver \<Rightarrow> ctx \<Rightarrow> nat \<Rightarrow> string list \<Rightarrow> Reference list
    \<Rightarrow> nat \<times> 'a \<Rightarrow> string + nat \<times> 'a" where
  "load_reference L limits resolver ctx 0 loading r st =
     (case ld_before L of
        Some e \<Rightarrow> Inl e
      | None \<Rightarrow> Inl (formatError ''reference_depth'' (''reference depth exceeds '' @ fmt_nat (lim_MaxReferenceDepth limits))))"
| "load_reference L limits resolver ctx (Suc n) loading r st =
     (case ld_before L of
        Some e \<Rightarrow> Inl e
      | None \<Rightarrow>
          if Suc (fst st) > lim_MaxReferences limits
          then Inl (formatError ''too_many_references'' (''resolved reference count exceeds '' @ fmt_nat (lim_MaxReferences limits)))
          else if reference_key r \<in> set loading
          then Inl (formatError ''reference_cycle'' (''cycle at '' @ reference_key r))
          else
            (case resolver ctx r of
               Inl _ \<Rightarrow> Inl (formatError ''missing_reference'' (reference_key r))
             | Inr schema \<Rightarrow>
                 if sch_Type schema \<noteq> ld_type L
                 then Inl (formatError ''reference_type''
                   (reference_key r @ '' is '' @ sch_Type schema @ '', expected '' @ ld_type L))
                 else if length (sch_Definition schema) > lim_MaxSchemaBytes limits
                 then Inl (formatError ''schema_too_large'' (ld_too_large L (reference_key r) (lim_MaxSchemaBytes limits)))
                 else
                   (case load_references L limits resolver ctx n (reference_key r # loading) (sch_References schema)
                       (Suc (fst st), snd st) of
                      Inl e \<Rightarrow> Inl e
                    | Inr (resolved, acc) \<Rightarrow> map_sum (\<lambda>e. e) (Pair resolved) (ld_finish L r schema acc))))"
| "load_references L limits resolver ctx n loading [] st = Inr st"
| "load_references L limits resolver ctx n loading (r # rs) st =
     (case load_reference L limits resolver ctx n loading r st of
        Inl e \<Rightarrow> Inl e
      | Inr st' \<Rightarrow> load_references L limits resolver ctx n loading rs st')"

section \<open>Comparing versions\<close>

text \<open>The parsed values of the three engines. A parsed Avro schema, a Protobuf file and a
  compiled JSON Schema are values of third-party libraries.\<close>

datatype ('s, 'f, 'c) native = NAvro 's | NProtobuf 'f | NJson any 'c

text \<open>The three \<open>Compatible\<close> methods differ in the values they take, the texts for a wrong
  one, and the comparison of a reader's schema with a writer's. A reader is the candidate where
  new consumers read old data, and a previous version where old consumers read new data.\<close>

definition directions :: "(nat \<Rightarrow> 'd \<Rightarrow> 'd \<Rightarrow> string list) \<Rightarrow> string \<Rightarrow> nat \<Rightarrow> 'd \<Rightarrow> 'd \<Rightarrow> string list" where
  "directions compare level i candidate previous =
     (if level = CompatibilityBackward \<or> level = CompatibilityBackwardTransitive then compare i candidate previous
      else if level = CompatibilityForward \<or> level = CompatibilityForwardTransitive then compare i previous candidate
      else if level = CompatibilityFull \<or> level = CompatibilityFullTransitive
      then compare i candidate previous @ compare i previous candidate
      else [])"

fun compare_versions ::
  "texts \<Rightarrow> ctx \<Rightarrow> ('n \<Rightarrow> 'd option) \<Rightarrow> (nat \<Rightarrow> string) \<Rightarrow> (nat \<Rightarrow> 'd \<Rightarrow> 'd \<Rightarrow> string list) \<Rightarrow> string \<Rightarrow> 'd
     \<Rightarrow> nat \<Rightarrow> 'n Parsed list \<Rightarrow> string + string list" where
  "compare_versions tx ctx cast wrong compare level candidate i [] = Inr []"
| "compare_versions tx ctx cast wrong compare level candidate i (item # rest) =
     (case ctx of
        Some e \<Rightarrow> Inl (tx_error tx e)
      | None \<Rightarrow>
          (case cast (p_Native item) of
             None \<Rightarrow> Inl (formatError ''invalid_compatibility'' (wrong i))
           | Some previous \<Rightarrow>
               map_sum (\<lambda>e. e) ((@) (directions compare level i candidate previous))
                 (compare_versions tx ctx cast wrong compare level candidate (Suc i) rest)))"

definition engine_Compatible ::
  "texts \<Rightarrow> ('n \<Rightarrow> 'd option) \<Rightarrow> string \<Rightarrow> (nat \<Rightarrow> string) \<Rightarrow> (nat \<Rightarrow> 'd \<Rightarrow> 'd \<Rightarrow> string list)
     \<Rightarrow> ctx \<Rightarrow> string \<Rightarrow> 'n Parsed \<Rightarrow> 'n Parsed list \<Rightarrow> string + bool \<times> string list" where
  "engine_Compatible tx cast wrong_candidate wrong compare ctx level candidate previous =
     (if \<not> CompatibilityLevel_Valid level
      then Inl (formatError ''invalid_compatibility'' (''unsupported level '' @ tx_quote tx level))
      else if level = CompatibilityNone then Inr (True, [])
      else case cast (p_Native candidate) of
        None \<Rightarrow> Inl (formatError ''invalid_compatibility'' wrong_candidate)
      | Some c \<Rightarrow> map_sum (\<lambda>e. e) (\<lambda>messages. (messages = [], messages))
          (compare_versions tx ctx cast wrong compare level c 0 previous))"

text \<open>The digest that identifies a schema: its type, its canonical text and its references. A nil
  slice of references is written as \<open>null\<close>.\<close>

definition schemaIdentity :: "string \<Rightarrow> string \<Rightarrow> Reference list \<Rightarrow> string" where
  "schemaIdentity type canonical references =
     hex_encode (sha256 (type @ [CHR 0x00] @ canonical @ [CHR 0x00]
       @ print_json (if references = [] then JNull else JArr (map enc_Reference references))))"

text \<open>The checks every engine makes of a request before it parses anything.\<close>

definition check_request :: "string \<Rightarrow> Limits \<Rightarrow> string \<Rightarrow> string option" where
  "check_request kind limits defn =
     (if defn = '''' then Some (formatError kind ''schema is empty'')
      else if length defn > lim_MaxSchemaBytes limits
      then Some (formatError ''schema_too_large'' (''schema exceeds '' @ fmt_nat (lim_MaxSchemaBytes limits) @ '' bytes''))
      else None)"

definition check_reference_count :: "Limits \<Rightarrow> Reference list \<Rightarrow> string option" where
  "check_reference_count limits references =
     (if length references > lim_MaxReferences limits
      then Some (formatError ''too_many_references'' (''reference count exceeds '' @ fmt_nat (lim_MaxReferences limits)))
      else None)"

section \<open>Bounded and acyclic\<close>

text \<open>The references a schema that resolves makes.\<close>

definition refers :: "Resolver \<Rightarrow> ctx \<Rightarrow> Reference \<Rightarrow> Reference \<Rightarrow> bool" where
  "refers resolver ctx r r' \<longleftrightarrow> (\<exists>schema. resolver ctx r = Inr schema \<and> r' \<in> set (sch_References schema))"


lemma load_reference_Suc:
  assumes "load_reference L limits resolver ctx n loading r st = Inr st'"
  obtains m schema resolved acc acc' where "n = Suc m" and "Suc (fst st) \<le> lim_MaxReferences limits"
    and "reference_key r \<notin> set loading" and "resolver ctx r = Inr schema" and "sch_Type schema = ld_type L"
    and "length (sch_Definition schema) \<le> lim_MaxSchemaBytes limits"
    and "load_references L limits resolver ctx m (reference_key r # loading) (sch_References schema)
      (Suc (fst st), snd st) = Inr (resolved, acc)"
    and "ld_finish L r schema acc = Inr acc'" and "st' = (resolved, acc')"
proof (cases n)
  case 0
  with assms show thesis by (simp split: option.splits)
next
  case (Suc m)
  from assms show thesis
    unfolding Suc load_reference.simps
    by (cases "ld_before L"; cases "resolver ctx r")
      (auto split: if_splits sum.splits simp: not_less elim!: map_sum_InrE intro: that [OF Suc])
qed

lemma load_references_Cons:
  assumes "load_references L limits resolver ctx n loading (r # rs) st = Inr st'"
  obtains st1 where "load_reference L limits resolver ctx n loading r st = Inr st1"
    and "load_references L limits resolver ctx n loading rs st1 = Inr st'"
  using assms by (auto split: sum.splits)

text \<open>What a successful load of a reference says of the references behind it.\<close>

definition loaded :: "Limits \<Rightarrow> Resolver \<Rightarrow> ctx \<Rightarrow> nat \<Rightarrow> string list \<Rightarrow> Reference \<Rightarrow> bool" where
  "loaded limits resolver ctx n loading r \<longleftrightarrow>
     (\<forall>k r'. (refers resolver ctx ^^ k) r r' \<longrightarrow> k < n \<and> reference_key r' \<notin> set loading
        \<and> (\<exists>schema. resolver ctx r' = Inr schema \<and> length (sch_Definition schema) \<le> lim_MaxSchemaBytes limits))"

lemma load_references_list:
  assumes "\<And>r st st'. load_reference L limits resolver ctx n loading r st = Inr st' \<Longrightarrow>
      fst st < fst st' \<and> fst st' \<le> lim_MaxReferences limits \<and> loaded limits resolver ctx n loading r"
    and "load_references L limits resolver ctx n loading rs st = Inr st'"
  shows "fst st \<le> fst st' \<and> (fst st \<le> lim_MaxReferences limits \<longrightarrow> fst st' \<le> lim_MaxReferences limits)
    \<and> (\<forall>r \<in> set rs. loaded limits resolver ctx n loading r)"
  using assms(2)
proof (induction rs arbitrary: st)
  case (Cons r rs)
  from Cons.prems obtain st1 where st1: "load_reference L limits resolver ctx n loading r st = Inr st1"
    "load_references L limits resolver ctx n loading rs st1 = Inr st'"
    by (rule load_references_Cons)
  from assms(1) [OF st1(1)] Cons.IH [OF st1(2)] show ?case by auto
qed simp

lemma load_reference_ok:
  "load_reference L limits resolver ctx n loading r st = Inr st' \<Longrightarrow>
     fst st < fst st' \<and> fst st' \<le> lim_MaxReferences limits \<and> loaded limits resolver ctx n loading r"
proof (induction n arbitrary: loading r st st')
  case 0
  then show ?case by (simp split: option.splits)
next
  case (Suc n)
  from Suc.prems show ?case
  proof (rule load_reference_Suc)
    fix m schema resolved acc acc'
    assume m: "Suc n = Suc m" and bound: "Suc (fst st) \<le> lim_MaxReferences limits"
      and new: "reference_key r \<notin> set loading" and schema: "resolver ctx r = Inr schema"
      and small: "length (sch_Definition schema) \<le> lim_MaxSchemaBytes limits"
      and nested: "load_references L limits resolver ctx m (reference_key r # loading) (sch_References schema)
        (Suc (fst st), snd st) = Inr (resolved, acc)"
      and st': "st' = (resolved, acc')"
    from load_references_list [OF Suc.IH nested [folded m [simplified]]] bound
    have c: "Suc (fst st) \<le> resolved" "resolved \<le> lim_MaxReferences limits"
      and deep: "\<forall>r' \<in> set (sch_References schema). loaded limits resolver ctx n (reference_key r # loading) r'"
      using m by auto
    have "k < Suc n \<and> reference_key r' \<notin> set loading
        \<and> (\<exists>schema. resolver ctx r' = Inr schema \<and> length (sch_Definition schema) \<le> lim_MaxSchemaBytes limits)"
      if "(refers resolver ctx ^^ k) r r'" for k r'
    proof (cases k)
      case 0
      with that new schema small show ?thesis by auto
    next
      case (Suc j)
      with that obtain r1 where "refers resolver ctx r r1" and j: "(refers resolver ctx ^^ j) r1 r'"
        by (metis relpowp_Suc_D2)
      then have "r1 \<in> set (sch_References schema)" using schema by (auto simp: refers_def)
      with deep j Suc show ?thesis by (fastforce simp: loaded_def)
    qed
    with c st' show ?thesis by (auto simp: loaded_def)
  qed
qed

text \<open>No reference that loads is reached from itself.\<close>

lemma loaded_acyclic:
  assumes "load_reference L limits resolver ctx n loading r st = Inr st'" and "(refers resolver ctx)\<^sup>+\<^sup>+ r r'"
  shows "reference_key r' \<noteq> reference_key r"
  using assms(1)
proof (rule load_reference_Suc)
  fix m schema resolved acc acc'
  assume schema: "resolver ctx r = Inr schema"
    and nested: "load_references L limits resolver ctx m (reference_key r # loading) (sch_References schema)
        (Suc (fst st), snd st) = Inr (resolved, acc)"
  have deep: "\<forall>r1 \<in> set (sch_References schema). loaded limits resolver ctx m (reference_key r # loading) r1"
    using load_references_list [OF _ nested] load_reference_ok [of L limits resolver ctx m "reference_key r # loading"]
    by blast
  from assms(2) obtain r1 where r1: "refers resolver ctx r r1" "(refers resolver ctx)\<^sup>*\<^sup>* r1 r'"
    by (metis tranclpD)
  then obtain k where "(refers resolver ctx ^^ k) r1 r'" by (metis rtranclp_imp_relpowp)
  with deep r1(1) schema show ?thesis by (auto simp: refers_def loaded_def)
qed

text \<open>C26: References an engine has loaded are bounded and acyclic: no more were resolved than the
  limit allows, every chain of references is shorter than the depth limit, every schema on the way
  resolves and is within the size limit, and none is reached from itself. The loading itself
  always returns.\<close>

theorem references_bounded_acyclic:
  assumes "load_references L limits resolver ctx (lim_MaxReferenceDepth limits) [] references (0, acc) = Inr (resolved, acc')"
    and "r \<in> set references" and "(refers resolver ctx ^^ k) r r'"
  shows "resolved \<le> lim_MaxReferences limits \<and> k < lim_MaxReferenceDepth limits
    \<and> (\<exists>schema. resolver ctx r' = Inr schema \<and> length (sch_Definition schema) \<le> lim_MaxSchemaBytes limits)
    \<and> \<not> (refers resolver ctx)\<^sup>+\<^sup>+ r' r'"
proof -
  note loaded = load_references_list [OF load_reference_ok assms(1)]
  have chain: "j < lim_MaxReferenceDepth limits" if "(refers resolver ctx ^^ j) r x" for j x
    using loaded assms(2) that by (auto simp: loaded_def)
  have "\<not> (refers resolver ctx)\<^sup>+\<^sup>+ r' r'"
  proof
    assume "(refers resolver ctx)\<^sup>+\<^sup>+ r' r'"
    then obtain d where d: "0 < d" "(refers resolver ctx ^^ d) r' r'" by (auto simp: tranclp_power)
    have "(refers resolver ctx ^^ (k + n * d)) r r'" for n
    proof (induction n)
      case (Suc n)
      with d(2) have "((refers resolver ctx ^^ (k + n * d)) OO (refers resolver ctx ^^ d)) r r'" by blast
      then show ?case by (simp add: relpowp_add [symmetric] add.commute add.left_commute)
    qed (use assms(3) in simp)
    from chain [OF this [of "lim_MaxReferenceDepth limits"]] d(1) show False by (cases d) auto
  qed
  with loaded chain [OF assms(3)] assms(2,3) show ?thesis by (auto simp: loaded_def)
qed

section \<open>Levels\<close>

definition agrees :: "('n \<Rightarrow> 'd option) \<Rightarrow> (nat \<Rightarrow> 'd \<Rightarrow> 'd \<Rightarrow> string list) \<Rightarrow> string \<Rightarrow> 'd \<Rightarrow> nat \<Rightarrow> 'n Parsed list \<Rightarrow> bool" where
  "agrees cast compare level c i ps \<longleftrightarrow>
     (\<forall>k < length ps. \<exists>d. cast (p_Native (ps ! k)) = Some d \<and> directions compare level (i + k) c d = [])"

lemma agrees_simps [simp]:
  "agrees cast compare level c i []"
  "agrees cast compare level c i (p # ps) \<longleftrightarrow>
     (\<exists>d. cast (p_Native p) = Some d \<and> directions compare level i c d = []) \<and> agrees cast compare level c (Suc i) ps"
  by (auto simp: agrees_def less_Suc_eq_0_disj)

lemma agrees_all:
  assumes "\<And>k d. directions compare level k c d = [] \<longleftrightarrow> P d"
  shows "agrees cast compare level c i ps \<longleftrightarrow> (\<forall>p \<in> set ps. \<exists>d. cast (p_Native p) = Some d \<and> P d)"
  by (induction ps arbitrary: i) (simp_all add: assms)

lemma compare_versions_agrees:
  "compare_versions tx ctx cast wrong compare level c i ps = Inr [] \<longleftrightarrow> (ps = [] \<or> ctx = None) \<and> agrees cast compare level c i ps"
proof (induction ps arbitrary: i)
  case (Cons p ps)
  show ?case
    by (cases ctx; cases "cast (p_Native p)"; cases "compare_versions tx ctx cast wrong compare level c (Suc i) ps")
      (use Cons [of "Suc i"] in auto)
qed simp

lemma engine_Compatible_agrees:
  assumes "CompatibilityLevel_Valid level" and "level \<noteq> CompatibilityNone"
  shows "engine_Compatible tx cast wrong_candidate wrong compare ctx level candidate previous = Inr (True, messages) \<longleftrightarrow>
    messages = [] \<and> (previous = [] \<or> ctx = None) \<and> (\<exists>c. cast (p_Native candidate) = Some c \<and> agrees cast compare level c 0 previous)"
proof (cases "cast (p_Native candidate)")
  case (Some c)
  show ?thesis
    using assms Some compare_versions_agrees [of tx ctx cast wrong compare level c 0 previous]
    by (cases "compare_versions tx ctx cast wrong compare level c 0 previous") (auto simp: engine_Compatible_def)
qed (use assms in \<open>auto simp: engine_Compatible_def\<close>)

lemma directions_levels [simp]:
  "directions compare CompatibilityBackward i c p = compare i c p"
  "directions compare CompatibilityForward i c p = compare i p c"
  "directions compare CompatibilityFull i c p = compare i c p @ compare i p c"
  "directions compare CompatibilityBackwardTransitive i c p = compare i c p"
  "directions compare CompatibilityForwardTransitive i c p = compare i p c"
  "directions compare CompatibilityFullTransitive i c p = compare i c p @ compare i p c"
  by (simp_all add: directions_def)

lemma CompatibilityLevel_Valid_levels [simp]:
  "CompatibilityLevel_Valid CompatibilityBackward" "CompatibilityLevel_Valid CompatibilityForward"
  "CompatibilityLevel_Valid CompatibilityFull" "CompatibilityLevel_Valid CompatibilityBackwardTransitive"
  "CompatibilityLevel_Valid CompatibilityForwardTransitive" "CompatibilityLevel_Valid CompatibilityFullTransitive"
  by (simp_all add: CompatibilityLevel_Valid_def)

lemma agrees_full:
  "agrees cast compare CompatibilityFull c i ps \<longleftrightarrow>
     agrees cast compare CompatibilityBackward c i ps \<and> agrees cast compare CompatibilityForward c i ps"
  by (induction ps arbitrary: i) auto

lemma agrees_transitive:
  "agrees cast compare CompatibilityBackwardTransitive c i ps = agrees cast compare CompatibilityBackward c i ps"
  "agrees cast compare CompatibilityForwardTransitive c i ps = agrees cast compare CompatibilityForward c i ps"
  "agrees cast compare CompatibilityFullTransitive c i ps = agrees cast compare CompatibilityFull c i ps"
  by (induction ps arbitrary: i) auto

text \<open>In every engine a schema is compatible under FULL exactly when it is under BACKWARD and
  under FORWARD, and a transitive level compares each version it is given as the level without its
  suffix does.\<close>

theorem full_is_both_directions:
  "let ok = (\<lambda>level. engine_Compatible tx cast wrong_candidate wrong compare ctx level candidate previous = Inr (True, messages)) in
     (ok CompatibilityFull \<longleftrightarrow> ok CompatibilityBackward \<and> ok CompatibilityForward)
     \<and> (ok CompatibilityBackwardTransitive \<longleftrightarrow> ok CompatibilityBackward)
     \<and> (ok CompatibilityForwardTransitive \<longleftrightarrow> ok CompatibilityForward)
     \<and> (ok CompatibilityFullTransitive \<longleftrightarrow> ok CompatibilityFull)"
  unfolding Let_def by (simp add: engine_Compatible_agrees agrees_transitive) (auto simp: agrees_full)

end
