(* ===== verification/Any_Values.thy ===== *)
theory Any_Values
  imports Engine_Common
begin

text \<open>
  Decoded values and their texts: what decoding a JSON text can give, and that such a value
  written by \<open>json.Marshal\<close> decodes to itself.
\<close>

fun any_ok :: "any \<Rightarrow> bool" where
  "any_ok (ANumber s) = valid_number s"
| "any_ok (AString s) = valid_utf8 s"
| "any_ok (AList xs) = (\<forall>x \<in> set xs. any_ok x)"
| "any_ok (AMap m) = (sorted (map fst m) \<and> distinct (map fst m) \<and> (\<forall>(k, v) \<in> set m. valid_utf8 k \<and> any_ok v))"
| "any_ok v = True"

lemma map_members_keys [simp]:
  "sorted (map fst (map_members kvs))" "distinct (map fst (map_members kvs))"
  using distinct_clearjunk [of "rev kvs"] by (simp_all add: map_members_def distinct_map)

lemma set_map_members: "set (map_members kvs) \<subseteq> set kvs"
proof
  fix p
  assume "p \<in> set (map_members kvs)"
  then have "map_of (AList.clearjunk (rev kvs)) (fst p) = Some (snd p)"
    by (simp add: map_members_def distinct_clearjunk)
  then show "p \<in> set kvs" by (metis map_of_SomeD map_of_clearjunk prod.collapse set_rev)
qed

lemma map_members_id:
  assumes "sorted (map fst m)" and "distinct (map fst m)"
  shows "map_members m = m"
proof -
  have "AList.clearjunk (rev m) = rev m"
    using assms(2) by (simp add: distinct_clearjunk_id rev_map [symmetric])
  moreover have "sort_key fst (rev m) = m"
    using assms by (intro sort_key_inj_key_eq) (auto simp: distinct_map)
  ultimately show ?thesis by (simp add: map_members_def)
qed

text \<open>What decoding gives.\<close>

lemma to_any_ok: "json_text j \<Longrightarrow> any_ok (to_any j)"
proof (induction j)
  case (JObj kvs)
  let ?m = "map (\<lambda>(k, v). (unquote k, to_any v)) kvs"
  have "valid_utf8 k \<and> any_ok v" if "(k, v) \<in> set (map_members ?m)" for k v
    using that set_map_members [of ?m] JObj by fastforce
  then show ?case by auto
qed auto

lemma of_any_ok: "any_ok v \<Longrightarrow> json_ok (of_any v)"
  by (induction v) (auto simp: enc_string_def obj_def)

lemma to_any_of_any: "any_ok v \<Longrightarrow> to_any (of_any v) = v"
proof (induction v)
  case (AMap m)
  have "map ((\<lambda>(k, v). (unquote k, to_any v)) \<circ> (\<lambda>(k, v). (escape_string k, v)) \<circ> (\<lambda>(k, v). (k, of_any v))) m = m"
    using AMap by (intro map_idI) fastforce
  with AMap.prems show ?case by (simp add: obj_def map_members_id comp_assoc)
qed (auto simp: enc_string_def intro: map_idI)

text \<open>The text of a decoded value decodes to it.\<close>

theorem marshalled_value_decodes:
  assumes "any_ok v"
  shows "decode_stream (print_json (of_any v)) = Some (of_any v, [])" and "to_any (of_any v) = v"
  using decode_stream_print [OF of_any_ok [OF assms], of "[]"] to_any_of_any [OF assms] by simp_all

end
