(* ===== verification/Jsonschema_Engine.thy ===== *)
theory Jsonschema_Engine
  imports Any_Values
begin

text \<open>
  \<open>internal/formats/jsonschema/engine.go\<close>. The validator (\<open>santhosh-tekuri/jsonschema\<close>) is
  an argument: a new compiler, \<open>AddResource\<close> and \<open>Compile\<close>. A \<open>range\<close> over a Go map
  visits its keys in an order Go leaves open, which is an argument too: \<open>Ranges\<close> gives, for
  the path of a comparison, the loop (numbered in the order of the code) and the keys, the order
  in which that loop visits them. Reference loading, limits, identity and the loop of
  \<open>Compatible\<close> are those of \<open>Engine_Common\<close>; a resolver is never nil here.
\<close>

section \<open>Documents\<close>

definition rootURL :: string where
  "rootURL = ''schema.json''"

text \<open>The decoder reads the first value of the text and leaves the rest.\<close>

definition decodeDocument :: "texts \<Rightarrow> string \<Rightarrow> string + any" where
  "decodeDocument tx defn =
     (case decode_stream defn of
        None \<Rightarrow> Inl (tx_json tx defn)
      | Some (j, _) \<Rightarrow>
          (case to_any j of
             AMap m \<Rightarrow> Inr (AMap m)
           | ABool b \<Rightarrow> Inr (ABool b)
           | _ \<Rightarrow> Inl ''schema must be an object or boolean''))"

definition compactJSON :: "texts \<Rightarrow> string \<Rightarrow> string + string" where
  "compactJSON tx defn =
     (case parse_json defn of None \<Rightarrow> Inl (tx_json tx defn) | Some j \<Rightarrow> Inr (print_json j))"

text \<open>The members of a map are kept ordered by key, which is the order \<open>sort.Strings\<close> gives.\<close>

fun writeSortedJSON :: "any \<Rightarrow> string" where
  "writeSortedJSON (AMap m) =
     ''{'' @ join_comma (map (\<lambda>(k, v). print_json (enc_string k) @ '':'' @ writeSortedJSON v) m) @ ''}''"
| "writeSortedJSON (AList xs) = ''['' @ join_comma (map writeSortedJSON xs) @ '']''"
| "writeSortedJSON v = print_json (of_any v)"

section \<open>Comparison\<close>

definition stringSet :: "any \<Rightarrow> string list" where
  "stringSet v =
     (case v of
        AString s \<Rightarrow> [s]
      | AList xs \<Rightarrow> sort (remdups (List.map_filter (\<lambda>x. case x of AString s \<Rightarrow> Some s | _ \<Rightarrow> None) xs))
      | _ \<Rightarrow> [])"

definition typeSuperset :: "any \<Rightarrow> any \<Rightarrow> bool" where
  "typeSuperset reader writer \<longleftrightarrow>
     reader = ANull \<or> writer = ANull \<or> list_all (\<lambda>t. t \<in> set (stringSet reader)) (stringSet writer)"

definition properties :: "any \<Rightarrow> (string \<times> any) list" where
  "properties v = (case any_get v ''properties'' of AMap m \<Rightarrow> m | _ \<Rightarrow> [])"

definition additional :: "any \<Rightarrow> bool option" where
  "additional v = (case any_get v ''additionalProperties'' of ABool b \<Rightarrow> Some b | _ \<Rightarrow> None)"

definition is_map :: "any \<Rightarrow> bool" where
  "is_map v = (case v of AMap _ \<Rightarrow> True | _ \<Rightarrow> False)"

type_synonym ranges = "string \<Rightarrow> nat \<Rightarrow> string list \<Rightarrow> string list"

definition note_at :: "nat \<Rightarrow> string \<Rightarrow> string \<Rightarrow> string" where
  "note_at i path what = ''previous schema '' @ fmt_nat (i + 1) @ '': '' @ path @ what"

lemma properties_smaller: "map_of (properties v) k = Some x \<Longrightarrow> size x < size v"
proof -
  assume "map_of (properties v) k = Some x"
  then obtain m m' where m: "v = AMap m" "map_of m ''properties'' = Some (AMap m')" and x: "(k, x) \<in> set m'"
    by (cases v) (auto simp: properties_def any_get_def split: any.splits option.splits dest: map_of_SomeD)
  have "size (AMap m') \<le> size_list (size_prod (\<lambda>_. 0) size) m"
    using size_list_estimation' [OF map_of_SomeD [OF m(2)], of "size (AMap m')" "size_prod (\<lambda>_. 0) size"] by simp
  moreover have "size x \<le> size_list (size_prod (\<lambda>_. 0) size) m'"
    using size_list_estimation' [OF x, of "size x" "size_prod (\<lambda>_. 0) size"] by simp
  ultimately show ?thesis using m(1) by simp
qed

function compareDocuments :: "ranges \<Rightarrow> any \<Rightarrow> any \<Rightarrow> nat \<Rightarrow> string \<Rightarrow> string list" where
  "compareDocuments ranges reader writer i path =
     (if \<not> is_map reader \<or> \<not> is_map writer
      then (if Sprint reader \<noteq> Sprint writer then [note_at i path '' changed''] else [])
      else if \<not> typeSuperset (any_get reader ''type'') (any_get writer ''type'')
      then [note_at i path '' narrows type'']
      else
        (let readerRequired = stringSet (any_get reader ''required'');
             writerRequired = stringSet (any_get writer ''required'');
             readerProperties = properties reader;
             writerProperties = properties writer;
             writerOpen = (case additional writer of Some b \<Rightarrow> b | None \<Rightarrow> True)
         in concat (map (\<lambda>name. if name \<in> set writerRequired then []
                else [note_at i path ('' requires new property '' @ name)]) (ranges path 0 readerRequired))
           @ concat (map (\<lambda>name. if map_of writerProperties name = None \<and> writerOpen
                then [note_at i path ('' adds property '' @ name @ '' to an open content model'')] else [])
                (ranges path 1 (map fst readerProperties)))
           @ concat (map (\<lambda>name.
                (case map_of writerProperties name of
                   None \<Rightarrow> []
                 | Some writerProperty \<Rightarrow>
                     (case map_of readerProperties name of
                        None \<Rightarrow> []
                      | Some readerProperty \<Rightarrow>
                          compareDocuments ranges readerProperty writerProperty i (path @ ''/properties/'' @ name))))
                (ranges path 2 (map fst writerProperties)))
           @ (if additional reader = Some False
              then concat (map (\<lambda>name. if map_of readerProperties name = None
                     then [note_at i path ('' writer adds property '' @ name @ '' to closed reader'')] else [])
                     (ranges path 3 (map fst writerProperties)))
                @ (if additional writer \<noteq> Some False then [note_at i path '' closes an open object''] else [])
              else [])))"
  by pat_completeness auto
termination by (relation "measure (\<lambda>(_, _, writer, _, _). size writer)") (auto dest: properties_smaller)

declare compareDocuments.simps [simp del]

section \<open>The engine\<close>

record ('v, 'c) validator =
  va_NewCompiler :: 'v
  va_AddResource :: "string \<Rightarrow> any \<Rightarrow> 'v \<Rightarrow> string + 'v"
  va_Compile :: "string \<Rightarrow> 'v \<Rightarrow> string + 'c"

text \<open>What \<open>load\<close> does with a schema once those it refers to are loaded: its document becomes
  the resource of the reference's name, in place of one that already has that name.\<close>

definition json_loader :: "texts \<Rightarrow> (string, any) fmap loader" where
  "json_loader tx = \<lparr>ld_before = None, ld_type = SchemaTypeJSON, ld_too_large = (\<lambda>key _. key),
     ld_finish = (\<lambda>r schema resources.
       (case decodeDocument tx (sch_Definition schema) of
          Inl _ \<Rightarrow> Inl (formatError ''invalid_reference'' (reference_key r))
        | Inr document \<Rightarrow> Inr (fmupd (ref_Name r) document resources)))\<rparr>"

text \<open>\<open>load\<close> over a list of references, and the identity under the type of this engine.\<close>

definition json_load :: "texts \<Rightarrow> Limits \<Rightarrow> Resolver \<Rightarrow> ctx \<Rightarrow> nat \<Rightarrow> string list \<Rightarrow> Reference list
    \<Rightarrow> nat \<times> (string, any) fmap \<Rightarrow> string + nat \<times> (string, any) fmap" where
  "json_load tx = load_references (json_loader tx)"

definition json_schemaIdentity :: "string \<Rightarrow> Reference list \<Rightarrow> string" where
  "json_schemaIdentity = schemaIdentity SchemaTypeJSON"

definition sortedJSON :: "any \<Rightarrow> string" where
  "sortedJSON v = writeSortedJSON v"

fun add_resources :: "('v, 'c) validator \<Rightarrow> (string, any) fmap \<Rightarrow> string list \<Rightarrow> 'v \<Rightarrow> string + 'v" where
  "add_resources V resources [] compiler = Inr compiler"
| "add_resources V resources (url # rest) compiler =
     (case fmlookup resources url of
        None \<Rightarrow> add_resources V resources rest compiler
      | Some document \<Rightarrow>
          (case va_AddResource V url document compiler of
             Inl e \<Rightarrow> Inl (formatError ''invalid_json_schema'' e)
           | Inr compiler' \<Rightarrow> add_resources V resources rest compiler'))"

definition json_compile :: "ranges \<Rightarrow> ('v, 'c) validator \<Rightarrow> (string, any) fmap \<Rightarrow> string + 'c" where
  "json_compile ranges V resources =
     (case add_resources V resources (ranges rootURL 4 (sorted_list_of_fset (fmdom resources))) (va_NewCompiler V) of
        Inl e \<Rightarrow> Inl e
      | Inr compiler \<Rightarrow>
          (case va_Compile V rootURL compiler of
             Inl e \<Rightarrow> Inl (formatError ''invalid_json_schema'' e)
           | Inr compiled \<Rightarrow> Inr compiled))"

definition json_Parse :: "texts \<Rightarrow> ranges \<Rightarrow> ('v, 'c) validator \<Rightarrow> ctx \<Rightarrow> ParseRequest \<Rightarrow> Resolver
    \<Rightarrow> string + ('s, 'f, 'c) native Parsed" where
  "json_Parse tx ranges V ctx request resolver =
     (let limits = normalizedLimits (pr_Limits request);
          defn = pr_Definition request
      in case check_request ''invalid_json_schema'' limits defn of
           Some e \<Rightarrow> Inl e
         | None \<Rightarrow>
      (case decodeDocument tx defn of
         Inl e \<Rightarrow> Inl (formatError ''invalid_json_schema'' e)
       | Inr root \<Rightarrow>
      (case json_load tx limits resolver ctx (lim_MaxReferenceDepth limits) []
              (pr_References request) (0, fmupd rootURL root fmempty) of
         Inl e \<Rightarrow> Inl e
       | Inr (_, resources) \<Rightarrow>
      (case json_compile ranges V resources of
         Inl e \<Rightarrow> Inl e
       | Inr compiled \<Rightarrow>
      (case compactJSON tx defn of
         Inl e \<Rightarrow> Inl (formatError ''invalid_json_schema'' e)
       | Inr compact \<Rightarrow>
           (let normalized = sortedJSON root;
                definition' = (if pr_Normalize request then normalized else compact)
            in Inr \<lparr>p_Type = SchemaTypeJSON, p_Definition = definition', p_Canonical = normalized,
                 p_Identity = json_schemaIdentity definition' (pr_References request),
                 p_References = pr_References request, p_Native = NJson root compiled\<rparr>))))))"

definition json_document :: "('s, 'f, 'c) native \<Rightarrow> any option" where
  "json_document n = (case n of NJson document _ \<Rightarrow> Some document | _ \<Rightarrow> None)"

definition json_Compatible :: "texts \<Rightarrow> ranges \<Rightarrow> ctx \<Rightarrow> string \<Rightarrow> ('s, 'f, 'c) native Parsed
    \<Rightarrow> ('s, 'f, 'c) native Parsed list \<Rightarrow> string + bool \<times> string list" where
  "json_Compatible tx ranges = engine_Compatible tx json_document ''candidate is not parsed JSON Schema''
     (\<lambda>_. ''previous schema is not parsed JSON Schema'')
     (\<lambda>i reader writer. compareDocuments ranges reader writer i ''$'')"

definition json_Engine :: "texts \<Rightarrow> ranges \<Rightarrow> ('v, 'c) validator \<Rightarrow> ('s, 'f, 'c) native Engine" where
  "json_Engine tx ranges V = \<lparr>en_Type = SchemaTypeJSON, en_Parse = json_Parse tx ranges V, en_Compatible = json_Compatible tx ranges\<rparr>"

section \<open>The sorted text\<close>

text \<open>\<open>writeSortedJSON\<close> writes what \<open>json.Marshal\<close> would.\<close>

lemma writeSortedJSON_print: "writeSortedJSON v = print_json (of_any v)"
proof (induction v rule: writeSortedJSON.induct)
  case (1 m)
  have "(\<lambda>(k, v). print_json (enc_string k) @ '':'' @ writeSortedJSON v) x
      = print_member ((\<lambda>(k, v). (escape_string k, of_any v)) x)" if "x \<in> set m" for x
    using 1 [OF that, of "fst x" "snd x"] by (simp add: enc_string_def case_prod_unfold)
  then have "map (\<lambda>(k, v). print_json (enc_string k) @ '':'' @ writeSortedJSON v) m
      = map (print_member \<circ> (\<lambda>(k, v). (escape_string k, of_any v))) m"
    by simp
  then show ?case by (simp add: obj_def comp_def case_prod_unfold cong: map_cong)
next
  case (2 xs)
  then show ?case by (auto intro!: arg_cong [of _ _ join_comma])
qed auto

section \<open>A stored schema parses to itself\<close>

lemma decodeDocument_ok:
  assumes "decodeDocument tx defn = Inr root"
  obtains j r where "decode_stream defn = Some (j, r)" and "root = to_any j" and "any_ok root"
    and "is_map root \<or> (\<exists>b. root = ABool b)"
  using assms that decode_stream_is_text
  by (auto simp: decodeDocument_def is_map_def to_any_ok split: option.splits any.splits)

text \<open>Both texts \<open>Parse\<close> makes of a definition decode to its document.\<close>

lemma decodeDocument_same:
  assumes "decode_stream s = Some (j, [])" and "to_any j = root" and "is_map root \<or> (\<exists>b. root = ABool b)"
  shows "decodeDocument tx s = Inr root"
  using assms by (auto simp: decodeDocument_def is_map_def split: any.splits)

lemma normalized_decodes:
  assumes "decodeDocument tx defn = Inr root"
  shows "decodeDocument tx (writeSortedJSON root) = Inr root" and "compactJSON tx (writeSortedJSON root) = Inr (writeSortedJSON root)"
proof -
  from assms obtain j r where ok: "any_ok root" "is_map root \<or> (\<exists>b. root = ABool b)"
    by (rule decodeDocument_ok)
  show "decodeDocument tx (writeSortedJSON root) = Inr root"
    using decodeDocument_same [OF marshalled_value_decodes [OF ok(1)] ok(2)] by (simp add: writeSortedJSON_print)
  show "compactJSON tx (writeSortedJSON root) = Inr (writeSortedJSON root)"
    using parse_print_json [OF of_any_ok [OF ok(1)]] by (simp add: compactJSON_def writeSortedJSON_print)
qed

lemma compact_decodes:
  assumes "decodeDocument tx defn = Inr root" and "compactJSON tx defn = Inr compact"
  shows "decodeDocument tx compact = Inr root" and "compactJSON tx compact = Inr compact" and "length compact \<le> length defn"
proof -
  from assms(2) obtain j where j: "parse_json defn = Some j" "compact = print_json j"
    by (auto simp: compactJSON_def split: option.splits)
  then obtain r where d: "decode_stream defn = Some (j, r)" by (auto simp: parse_json_def split: option.splits if_splits)
  from assms(1) have root: "root = to_any j" "is_map root \<or> (\<exists>b. root = ABool b)"
    using d by (auto elim!: decodeDocument_ok)
  show "decodeDocument tx compact = Inr root"
    using decodeDocument_same [OF decode_stream_text [OF decode_stream_is_text [OF d], of "[]", simplified] root(1) [symmetric] root(2)] j(2)
    by simp
  show "compactJSON tx compact = Inr compact"
    using compact_reads_back [OF j(1)] j(2) by (simp add: compactJSON_def)
  show "length compact \<le> length defn"
    using compact_shorter [OF j(1)] j(2) by simp
qed

lemma print_json_nonempty: "json_text j \<Longrightarrow> print_json j \<noteq> []"
  by (metis list.distinct(1) print_json_hd)

lemma decodeDocument_nonempty: "decodeDocument tx s = Inr root \<Longrightarrow> s \<noteq> []"
  by (auto simp: decodeDocument_def decode_stream_def)

text \<open>The parts of a successful parse.\<close>

lemma json_Parse_ok:
  assumes "json_Parse tx ranges V ctx request resolver = Inr p"
  obtains root resources n compiled compact where
    "check_request ''invalid_json_schema'' (normalizedLimits (pr_Limits request)) (pr_Definition request) = None"
    "decodeDocument tx (pr_Definition request) = Inr root"
    "json_load tx (normalizedLimits (pr_Limits request)) resolver ctx
       (lim_MaxReferenceDepth (normalizedLimits (pr_Limits request))) [] (pr_References request) (0, fmupd rootURL root fmempty)
       = Inr (n, resources)"
    "json_compile ranges V resources = Inr compiled"
    "compactJSON tx (pr_Definition request) = Inr compact"
    "p = \<lparr>p_Type = SchemaTypeJSON, p_Definition = (if pr_Normalize request then writeSortedJSON root else compact),
        p_Canonical = writeSortedJSON root,
        p_Identity = json_schemaIdentity (if pr_Normalize request then writeSortedJSON root else compact) (pr_References request),
        p_References = pr_References request, p_Native = NJson root compiled\<rparr>"
  using assms that
  by (auto simp: json_Parse_def sortedJSON_def Let_def split: option.splits sum.splits prod.splits)

text \<open>C24: The definition the JSON Schema engine returns parses again, with the same references, to
  exactly the same result (definition, canonical text, identity and document) if and only if it is
  within the size limit; beyond it, it is refused. A compact definition always is within the limit, so
  a schema stored compact keeps its identity and its meaning when it is parsed again for a
  compatibility check. A normalised one may have grown beyond it.\<close>

theorem json_definition_stable:
  assumes "json_Parse tx ranges V ctx request resolver = Inr p"
    and "again = json_Parse tx ranges V ctx (request\<lparr>pr_Definition := p_Definition p, pr_Normalize := False\<rparr>) resolver"
  shows "(if length (p_Definition p) \<le> lim_MaxSchemaBytes (normalizedLimits (pr_Limits request)) then again = Inr p
      else \<exists>err. again = Inl err)
    \<and> (\<not> pr_Normalize request \<longrightarrow> length (p_Definition p) \<le> lim_MaxSchemaBytes (normalizedLimits (pr_Limits request)))"
  using assms(1)
proof (rule json_Parse_ok)
  fix root n resources compiled compact
  let ?limits = "normalizedLimits (pr_Limits request)"
  assume check: "check_request ''invalid_json_schema'' ?limits (pr_Definition request) = None"
    and root: "decodeDocument tx (pr_Definition request) = Inr root"
    and load: "json_load tx ?limits resolver ctx (lim_MaxReferenceDepth ?limits) [] (pr_References request)
      (0, fmupd rootURL root fmempty) = Inr (n, resources)"
    and compile: "json_compile ranges V resources = Inr compiled"
    and compact: "compactJSON tx (pr_Definition request) = Inr compact"
    and p: "p = \<lparr>p_Type = SchemaTypeJSON, p_Definition = (if pr_Normalize request then writeSortedJSON root else compact),
        p_Canonical = writeSortedJSON root,
        p_Identity = json_schemaIdentity (if pr_Normalize request then writeSortedJSON root else compact) (pr_References request),
        p_References = pr_References request, p_Native = NJson root compiled\<rparr>"
  note again = normalized_decodes [OF root] compact_decodes [OF root compact]
  have d: "decodeDocument tx (p_Definition p) = Inr root" and c: "compactJSON tx (p_Definition p) = Inr (p_Definition p)"
    using again p by simp_all
  have small: "\<not> pr_Normalize request \<longrightarrow> length (p_Definition p) \<le> lim_MaxSchemaBytes ?limits"
    using check again(5) p by (auto simp: check_request_def split: if_splits)
  show ?thesis
  proof (cases "length (p_Definition p) \<le> lim_MaxSchemaBytes ?limits")
    case True
    with decodeDocument_nonempty [OF d] have "check_request ''invalid_json_schema'' ?limits (p_Definition p) = None"
      by (simp add: check_request_def)
    with d c load compile p have "again = Inr p" by (simp add: assms(2) json_Parse_def sortedJSON_def Let_def)
    with True small show ?thesis by simp
  next
    case False
    then obtain err where "check_request ''invalid_json_schema'' ?limits (p_Definition p) = Some err"
      by (cases "check_request ''invalid_json_schema'' ?limits (p_Definition p)") (auto simp: check_request_def split: if_splits)
    then have "again = Inl err" by (simp add: assms(2) json_Parse_def)
    with False small show ?thesis by simp
  qed
qed

end
