(* ===== verification/Jsonschema_Compat.thy ===== *)
theory Jsonschema_Compat
  imports Jsonschema_Engine
begin

text \<open>
  What the comparison of JSON Schemas promises. The code reads four keywords: \<open>type\<close>,
  \<open>required\<close>, \<open>properties\<close> and a boolean \<open>additionalProperties\<close>. \<open>accepts\<close> is the
  meaning of these keywords for an instance, for any reading \<open>matches\<close> of the names of types.
  A comparison without messages means that the reader accepts what the writer accepts, as far
  as these keywords go, where the writer's schemas name a type.
\<close>

section \<open>The meaning of the compared keywords\<close>

function accepts :: "(string \<Rightarrow> any \<Rightarrow> bool) \<Rightarrow> any \<Rightarrow> any \<Rightarrow> bool" where
  "accepts matches schema v =
     (case schema of
        ABool b \<Rightarrow> b
      | AMap _ \<Rightarrow>
          (any_get schema ''type'' = ANull \<or> (\<exists>t \<in> set (stringSet (any_get schema ''type'')). matches t v))
          \<and> (case v of
               AMap members \<Rightarrow>
                 (\<forall>k \<in> set (stringSet (any_get schema ''required'')). k \<in> fst ` set members)
                 \<and> (\<forall>(k, x) \<in> set members.
                      (case map_of (properties schema) k of
                         None \<Rightarrow> additional schema \<noteq> Some False
                       | Some sub \<Rightarrow> accepts matches sub x))
             | _ \<Rightarrow> True)
      | _ \<Rightarrow> False)"
  by pat_completeness auto
termination by (relation "measure (\<lambda>(_, schema, _). size schema)") (auto dest: properties_smaller)

declare accepts.simps [simp del]

text \<open>A document is a schema when it and the schemas of its properties are objects or booleans,
  as the validator asks; with \<open>typed\<close> set, every object among them names a type.\<close>

lemma properties_member_smaller: "(k, x) \<in> set (properties v) \<Longrightarrow> size x < size v"
proof -
  assume "(k, x) \<in> set (properties v)"
  then obtain m m' where m: "v = AMap m" "map_of m ''properties'' = Some (AMap m')" and x: "(k, x) \<in> set m'"
    by (cases v) (auto simp: properties_def any_get_def split: any.splits option.splits)
  have "size (AMap m') \<le> size_list (size_prod (\<lambda>_. 0) size) m"
    using size_list_estimation' [OF map_of_SomeD [OF m(2)], of "size (AMap m')" "size_prod (\<lambda>_. 0) size"] by simp
  moreover have "size x \<le> size_list (size_prod (\<lambda>_. 0) size) m'"
    using size_list_estimation' [OF x, of "size x" "size_prod (\<lambda>_. 0) size"] by simp
  ultimately show ?thesis using m(1) by simp
qed

function schema_shape :: "bool \<Rightarrow> any \<Rightarrow> bool" where
  "schema_shape typed schema =
     (case schema of
        ABool _ \<Rightarrow> True
      | AMap _ \<Rightarrow> (typed \<longrightarrow> any_get schema ''type'' \<noteq> ANull)
          \<and> list_all (\<lambda>(k, sub). schema_shape typed sub) (properties schema)
      | _ \<Rightarrow> False)"
  by pat_completeness auto
termination by (relation "measure (\<lambda>(_, schema). size schema)") (auto dest: properties_member_smaller)

declare schema_shape.simps [simp del]

lemma schema_shape_property:
  "schema_shape typed schema \<Longrightarrow> map_of (properties schema) k = Some sub \<Longrightarrow> schema_shape typed sub"
  by (subst (asm) schema_shape.simps)
    (auto simp: list_all_iff properties_def any_get_def dest!: map_of_SomeD split: any.splits option.splits)

definition visits_all :: "ranges \<Rightarrow> bool" where
  "visits_all ranges \<longleftrightarrow> (\<forall>path loop keys. mset (ranges path loop keys) = mset keys)"

lemma visits_all_set [simp]: "visits_all ranges \<Longrightarrow> set (ranges path loop keys) = set keys"
  unfolding visits_all_def by (metis set_mset_mset)

section \<open>A comparison without messages\<close>

lemma Sprint_map: "is_map v \<Longrightarrow> \<exists>u. Sprint v = CHR ''m'' # u"
  by (cases v) (auto simp: is_map_def)

lemma case_option_Nil: "(case x of None \<Rightarrow> [] | Some y \<Rightarrow> f y) = [] \<longleftrightarrow> (\<forall>y. x = Some y \<longrightarrow> f y = [])"
  by (cases x) auto

lemma all_keys: "(\<forall>k \<in> fst ` set m. \<forall>x. map_of m k = Some x \<longrightarrow> P k x) \<longleftrightarrow> (\<forall>k x. map_of m k = Some x \<longrightarrow> P k x)"
  by (metis domI dom_map_of_conv_image_fst)

lemma no_messages:
  assumes "is_map reader" and "is_map writer" and "visits_all ranges"
  shows "compareDocuments ranges reader writer i path = [] \<longleftrightarrow>
    typeSuperset (any_get reader ''type'') (any_get writer ''type'')
    \<and> set (stringSet (any_get reader ''required'')) \<subseteq> set (stringSet (any_get writer ''required''))
    \<and> (\<forall>k \<in> fst ` set (properties reader). map_of (properties writer) k = None \<longrightarrow> additional writer = Some False)
    \<and> (\<forall>k w r. map_of (properties writer) k = Some w \<longrightarrow> map_of (properties reader) k = Some r
        \<longrightarrow> compareDocuments ranges r w i (path @ ''/properties/'' @ k) = [])
    \<and> (additional reader = Some False \<longrightarrow> additional writer = Some False
        \<and> (\<forall>k \<in> fst ` set (properties writer). map_of (properties reader) k \<noteq> None))"
proof -
  have o: "(case additional writer of None \<Rightarrow> True | Some b \<Rightarrow> b) \<longleftrightarrow> additional writer \<noteq> Some False"
    by (cases "additional writer") auto
  have each: "concat (map f (ranges path n keys)) = [] \<longleftrightarrow> (\<forall>k \<in> set keys. f k = [])" for f n keys
    using assms(3) by simp
  have nested: "(\<forall>k \<in> set (map fst (properties writer)).
      (case map_of (properties writer) k of None \<Rightarrow> [] | Some w \<Rightarrow>
         (case map_of (properties reader) k of None \<Rightarrow> [] | Some r \<Rightarrow> f k w r)) = [])
    \<longleftrightarrow> (\<forall>k w r. map_of (properties writer) k = Some w \<longrightarrow> map_of (properties reader) k = Some r \<longrightarrow> f k w r = [])"
    for f :: "string \<Rightarrow> any \<Rightarrow> any \<Rightarrow> string list"
    unfolding case_option_Nil using all_keys [of "properties writer" "\<lambda>k w. \<forall>r. map_of (properties reader) k = Some r \<longrightarrow> f k w r = []"]
    by simp
  show ?thesis
  proof (cases "typeSuperset (any_get reader ''type'') (any_get writer ''type'')")
    case True
    have one: "(if b then [] else [x]) = [] \<longleftrightarrow> b" "(if b then [x] else []) = [] \<longleftrightarrow> \<not> b"
      "(if b then xs else []) = [] \<longleftrightarrow> (b \<longrightarrow> xs = [])" for b and x :: string and xs
      by auto
    show ?thesis
      by (simp only: compareDocuments.simps [of ranges reader writer i path] Let_def o assms(1,2) True
          not_True_eq_False if_False simp_thms append_is_Nil_conv each nested one)
        (auto simp: subset_iff, fastforce?)
  next
    case False
    then show ?thesis using assms(1,2) by (simp add: compareDocuments.simps [of ranges reader writer i path])
  qed
qed

text \<open>The reader accepts what the writer accepts.\<close>

lemma accepts_cases:
  "accepts matches schema v \<longleftrightarrow> schema = ABool True \<or> is_map schema
     \<and> (any_get schema ''type'' = ANull \<or> (\<exists>t \<in> set (stringSet (any_get schema ''type'')). matches t v))
     \<and> (\<forall>members. v = AMap members \<longrightarrow>
          set (stringSet (any_get schema ''required'')) \<subseteq> fst ` set members
          \<and> (\<forall>(k, x) \<in> set members. map_of (properties schema) k = None \<longrightarrow> additional schema \<noteq> Some False)
          \<and> (\<forall>(k, x) \<in> set members. \<forall>sub. map_of (properties schema) k = Some sub \<longrightarrow> accepts matches sub x))"
  unfolding accepts.simps [of matches schema v]
  by (cases schema; cases v) (auto simp: is_map_def subset_iff split: option.splits)

lemma accepted_by_reader:
  assumes "visits_all ranges"
  shows "compareDocuments ranges reader writer i path = [] \<Longrightarrow> schema_shape False reader \<Longrightarrow> schema_shape True writer
    \<Longrightarrow> accepts matches writer v \<Longrightarrow> accepts matches reader v"
proof (induction writer arbitrary: reader path v rule: measure_induct_rule [of size])
  case (less writer)
  show ?case
  proof (cases "is_map reader \<and> is_map writer")
    case True
    then have maps: "is_map reader" "is_map writer" by simp_all
    note same = less.prems(1) [unfolded no_messages [OF maps assms]]
    note w = less.prems(4) [unfolded accepts_cases [of matches writer]]
    have typed: "any_get writer ''type'' \<noteq> ANull"
      using less.prems(3) maps(2) by (auto simp: schema_shape.simps [of True writer] is_map_def split: any.splits)
    have "any_get reader ''type'' = ANull \<or> (\<exists>t \<in> set (stringSet (any_get reader ''type'')). matches t v)"
      using same w typed maps(2) by (auto simp: typeSuperset_def list_all_iff is_map_def)
    moreover have "set (stringSet (any_get reader ''required'')) \<subseteq> fst ` set members" if "v = AMap members" for members
      using same w maps(2) that by (auto simp: is_map_def)
    moreover have "map_of (properties reader) k = None \<longrightarrow> additional reader \<noteq> Some False"
      if "v = AMap members" "(k, x) \<in> set members" for members k x
      using same w maps(2) that by (fastforce simp: is_map_def map_of_eq_None_iff)
    moreover have "accepts matches r x" if v: "v = AMap members" "(k, x) \<in> set members" and r: "map_of (properties reader) k = Some r"
      for members k x r
    proof -
      have "additional writer \<noteq> Some False \<Longrightarrow> map_of (properties writer) k \<noteq> None"
        using same r by (metis domI dom_map_of_conv_image_fst)
      then obtain w' where w': "map_of (properties writer) k = Some w'"
        using w maps(2) v by (fastforce simp: is_map_def)
      then have "accepts matches w' x" using w maps(2) v by (fastforce simp: is_map_def)
      moreover have "compareDocuments ranges r w' i (path @ ''/properties/'' @ k) = []" using same w' r by simp
      ultimately show ?thesis
        using less.IH [OF properties_smaller [OF w'] _ schema_shape_property [OF less.prems(2) r] schema_shape_property [OF less.prems(3) w']]
        by simp
    qed
    ultimately show ?thesis
      unfolding accepts_cases [of matches reader v] using maps(1)
      by (intro disjI2 [of _ "reader = ABool True"] conjI allI impI ballI) auto
  next
    case False
    with less.prems(1) have eq: "Sprint reader = Sprint writer"
      by (simp add: compareDocuments.simps [of ranges reader] split: if_splits)
    have "(\<exists>b. reader = ABool b) \<or> is_map reader" "(\<exists>b. writer = ABool b) \<or> is_map writer"
      using less.prems(2,3) by (auto simp: schema_shape.simps [of _ reader] schema_shape.simps [of _ writer] is_map_def split: any.splits)
    with False eq have "reader = writer" using Sprint_map [of reader] Sprint_map [of writer] by (auto split: if_splits)
    with less.prems(4) show ?thesis by simp
  qed
qed

section \<open>What the engine promises\<close>

text \<open>A parsed schema that decides as the keywords say.\<close>

definition json_accepts :: "(string \<Rightarrow> any \<Rightarrow> bool) \<Rightarrow> ('s, 'f, 'c) native Parsed \<Rightarrow> any \<Rightarrow> bool" where
  "json_accepts matches p v \<longleftrightarrow> (\<exists>document. json_document (p_Native p) = Some document \<and> accepts matches document v)"

definition json_shape :: "bool \<Rightarrow> ('s, 'f, 'c) native Parsed \<Rightarrow> bool" where
  "json_shape typed p \<longleftrightarrow> (\<forall>document. json_document (p_Native p) = Some document \<longrightarrow> schema_shape typed document)"

lemma agrees_member:
  assumes "agrees cast compare level c i ps" and "p \<in> set ps"
  obtains d k where "cast (p_Native p) = Some d" and "directions compare level k c d = []"
  using assms by (auto simp: agrees_def in_set_conv_nth)

text \<open>A compatible JSON Schema keeps its promise to readers and writers. Where every schema in
  the old version names a type, whatever instance satisfies the keywords \<open>type\<close>,
  \<open>required\<close>, \<open>properties\<close> and boolean \<open>additionalProperties\<close> of the old version satisfies
  those of the new one if the level is BACKWARD or FULL; the other way round for FORWARD and
  FULL.\<close>

theorem json_compatibility_sound:
  assumes "json_Compatible tx ranges ctx level candidate previous = Inr (True, messages)"
    and "visits_all ranges" and "p \<in> set previous"
  shows "(level \<in> {CompatibilityBackward, CompatibilityBackwardTransitive, CompatibilityFull, CompatibilityFullTransitive}
      \<and> json_shape False candidate \<and> json_shape True p \<and> json_accepts matches p v \<longrightarrow> json_accepts matches candidate v)
    \<and> (level \<in> {CompatibilityForward, CompatibilityForwardTransitive, CompatibilityFull, CompatibilityFullTransitive}
      \<and> json_shape False p \<and> json_shape True candidate \<and> json_accepts matches candidate v \<longrightarrow> json_accepts matches p v)"
proof (cases "CompatibilityLevel_Valid level \<and> level \<noteq> CompatibilityNone")
  case True
  then have "CompatibilityLevel_Valid level" "level \<noteq> CompatibilityNone" by simp_all
  from assms(1) [unfolded json_Compatible_def engine_Compatible_agrees [OF this]] obtain c where
    c: "json_document (p_Native candidate) = Some c"
    and "agrees json_document (\<lambda>i reader writer. compareDocuments ranges reader writer i ''$'') level c 0 previous"
    by blast
  from this(2) assms(3) obtain d k where d: "json_document (p_Native p) = Some d"
    and same: "directions (\<lambda>i reader writer. compareDocuments ranges reader writer i ''$'') level k c d = []"
    by (rule agrees_member)
  show ?thesis
    using c d same accepted_by_reader [OF assms(2)] by (auto simp: json_accepts_def json_shape_def)
qed auto

text \<open>Every schema is compatible with itself, whatever its keywords.\<close>

lemma compareDocuments_self: "visits_all ranges \<Longrightarrow> compareDocuments ranges d d i path = []"
proof (induction d arbitrary: path rule: measure_induct_rule [of size])
  case (less d)
  show ?case
  proof (cases "is_map d")
    case True
    have "typeSuperset t t" for t by (simp add: typeSuperset_def list_all_iff)
    then show ?thesis
      unfolding no_messages [OF True True less.prems]
      using less properties_smaller by (auto simp: map_of_eq_None_iff)
  qed (simp add: compareDocuments.simps [of ranges d d])
qed

text \<open>A JSON Schema is compatible, at every level, with versions that have the same
  document.\<close>

theorem json_self_compatible:
  assumes "CompatibilityLevel_Valid level" and "visits_all ranges"
    and "json_document (p_Native candidate) = Some document"
    and "\<forall>p \<in> set previous. json_document (p_Native p) = Some document"
  shows "json_Compatible tx ranges None level candidate previous = Inr (True, [])"
proof (cases "level = CompatibilityNone")
  case False
  have "directions (\<lambda>i reader writer. compareDocuments ranges reader writer i ''$'') level k document document = []" for k
    using assms(2) by (simp add: directions_def compareDocuments_self)
  then show ?thesis
    unfolding json_Compatible_def engine_Compatible_agrees [OF assms(1) False]
    using assms(3,4) by (simp add: agrees_def)
qed (use assms(1) in \<open>simp add: json_Compatible_def engine_Compatible_def\<close>)

text \<open>C28: A type added to a schema that had none goes unnoticed: the new version is compatible under
  BACKWARD, although it rejects every instance of another type, all of which the old version
  accepts.\<close>

theorem json_added_type_unnoticed:
  assumes "visits_all ranges" and "json_document (p_Native new) = Some (AMap [(''type'', AString t)])"
    and "json_document (p_Native old) = Some (AMap [])" and "\<not> matches t v"
  shows "json_Compatible tx ranges None CompatibilityBackward new [old] = Inr (True, [])
    \<and> json_accepts matches old v \<and> \<not> json_accepts matches new v"
proof -
  have "compareDocuments ranges (AMap [(''type'', AString t)]) (AMap []) i path = []" for i path
    by (subst no_messages [OF _ _ assms(1)])
      (simp_all add: is_map_def typeSuperset_def any_get_def properties_def additional_def stringSet_def)
  then have "agrees json_document (\<lambda>i reader writer. compareDocuments ranges reader writer i ''$'') CompatibilityBackward
      (AMap [(''type'', AString t)]) 0 [old]"
    using assms(3) by simp
  with assms(2) have "json_Compatible tx ranges None CompatibilityBackward new [old] = Inr (True, [])"
    unfolding json_Compatible_def by (simp add: engine_Compatible_agrees)
  with assms(2-4) show ?thesis
    by (auto simp: json_accepts_def accepts_cases [of matches "AMap []"] accepts_cases [of matches "AMap [(''type'', AString t)]"]
        is_map_def any_get_def stringSet_def properties_def additional_def)
qed

end
