(* ===== verification/Protobuf_Engine.thy ===== *)
theory Protobuf_Engine
  imports Engine_Common
begin

text \<open>
  \<open>internal/formats/protobuf/engine.go\<close>. The compiler (\<open>bufbuild/protocompile\<close>), the printer
  (\<open>protoprint\<close>) and the descriptors (\<open>protoreflect\<close>) are third-party code: a compilation of
  a map of sources, a printing, and the methods of descriptors that the comparison calls, with the
  index methods \<open>Len\<close> and \<open>Get\<close> as the list of what they give. Reference loading, limits,
  identity and the loop of \<open>Compatible\<close> are those of \<open>Engine_Common\<close>; a resolver is never nil
  here.
\<close>

section \<open>Descriptors\<close>

datatype Kind =
    BoolKind | EnumKind | Int32Kind | Sint32Kind | Uint32Kind | Int64Kind | Sint64Kind | Uint64Kind
  | Sfixed32Kind | Fixed32Kind | FloatKind | Sfixed64Kind | Fixed64Kind | DoubleKind
  | StringKind | BytesKind | MessageKind | GroupKind | OtherKind nat

record ('f, 'm, 'd) protoreflect =
  pb_Messages :: "'f \<Rightarrow> 'm list"
  pb_ByName :: "'f \<Rightarrow> string \<Rightarrow> 'm option"
  pb_Name :: "'m \<Rightarrow> string"
  pb_Fields :: "'m \<Rightarrow> 'd list"
  pb_ByNumber :: "'m \<Rightarrow> int \<Rightarrow> 'd option"
  pb_Number :: "'d \<Rightarrow> int"
  pb_FullName :: "'d \<Rightarrow> string"
  pb_IsMap :: "'d \<Rightarrow> bool"
  pb_MapKey :: "'d \<Rightarrow> 'd"
  pb_MapValue :: "'d \<Rightarrow> 'd"
  pb_Kind :: "'d \<Rightarrow> Kind"
  pb_Message_FullName :: "'d \<Rightarrow> string"
  pb_String :: "Kind \<Rightarrow> string"

definition wireClass :: "('f, 'm, 'd, 'z) protoreflect_scheme \<Rightarrow> 'd \<Rightarrow> string" where
  "wireClass P fd =
     (if pb_IsMap P fd
      then ''map:'' @ pb_String P (pb_Kind P (pb_MapKey P fd)) @ '':'' @ pb_String P (pb_Kind P (pb_MapValue P fd))
      else
        (case pb_Kind P fd of
           Int32Kind \<Rightarrow> ''varint'' | Int64Kind \<Rightarrow> ''varint'' | Uint32Kind \<Rightarrow> ''varint'' | Uint64Kind \<Rightarrow> ''varint''
         | BoolKind \<Rightarrow> ''varint'' | EnumKind \<Rightarrow> ''varint''
         | Sint32Kind \<Rightarrow> ''zigzag'' | Sint64Kind \<Rightarrow> ''zigzag''
         | Fixed32Kind \<Rightarrow> ''fixed32-int'' | Sfixed32Kind \<Rightarrow> ''fixed32-int''
         | Fixed64Kind \<Rightarrow> ''fixed64-int'' | Sfixed64Kind \<Rightarrow> ''fixed64-int''
         | FloatKind \<Rightarrow> ''float''
         | DoubleKind \<Rightarrow> ''double''
         | StringKind \<Rightarrow> ''length-scalar'' | BytesKind \<Rightarrow> ''length-scalar''
         | MessageKind \<Rightarrow> ''message:'' @ pb_Message_FullName P fd
         | GroupKind \<Rightarrow> ''message:'' @ pb_Message_FullName P fd
         | OtherKind n \<Rightarrow> pb_String P (OtherKind n)))"

definition compareFields :: "('f, 'm, 'd, 'z) protoreflect_scheme \<Rightarrow> nat \<Rightarrow> 'm \<Rightarrow> 'm \<Rightarrow> string list" where
  "compareFields P i readerMessage writerMessage =
     concat (map (\<lambda>writerField.
       (case pb_ByNumber P readerMessage (pb_Number P writerField) of
          None \<Rightarrow> []
        | Some readerField \<Rightarrow>
            if wireClass P readerField \<noteq> wireClass P writerField
            then [''previous schema '' @ fmt_nat (i + 1) @ '': field '' @ pb_FullName P writerField @ '' number ''
                  @ fmt_int (pb_Number P writerField) @ '' changed wire type'']
            else [])) (pb_Fields P writerMessage))"

definition compareFiles :: "('f, 'm, 'd, 'z) protoreflect_scheme \<Rightarrow> nat \<Rightarrow> 'f \<Rightarrow> 'f \<Rightarrow> string list" where
  "compareFiles P i reader writer =
     concat (map (\<lambda>writerMessage.
       (case pb_ByName P reader (pb_Name P writerMessage) of
          None \<Rightarrow> []
        | Some readerMessage \<Rightarrow> compareFields P i readerMessage writerMessage)) (pb_Messages P writer))"

section \<open>The engine\<close>

record ('f, 'm, 'd) protobuf = "('f, 'm, 'd) protoreflect" +
  pb_Compile :: "ctx \<Rightarrow> (string, string) fmap \<Rightarrow> string \<Rightarrow> string + 'f"
  pb_PrintProtoToString :: "bool \<Rightarrow> 'f \<Rightarrow> string + string"

definition rootFilename :: string where
  "rootFilename = ''schema.proto''"

definition protobuf_loader :: "(string, string) fmap loader" where
  "protobuf_loader = \<lparr>ld_before = None, ld_type = SchemaTypeProtobuf, ld_too_large = (\<lambda>key _. key),
     ld_finish = (\<lambda>r schema sources. Inr (fmupd (ref_Name r) (sch_Definition schema) sources))\<rparr>"

text \<open>\<open>load\<close> over a list of references, and the identity under the type of this engine.\<close>

definition protobuf_load :: "Limits \<Rightarrow> Resolver \<Rightarrow> ctx \<Rightarrow> nat \<Rightarrow> string list \<Rightarrow> Reference list
    \<Rightarrow> nat \<times> (string, string) fmap \<Rightarrow> string + nat \<times> (string, string) fmap" where
  "protobuf_load = load_references protobuf_loader"

definition protobuf_schemaIdentity :: "string \<Rightarrow> Reference list \<Rightarrow> string" where
  "protobuf_schemaIdentity = schemaIdentity SchemaTypeProtobuf"

text \<open>\<open>strings.Replace\<close> of the first occurrence.\<close>

fun replace_first :: "string \<Rightarrow> string \<Rightarrow> string \<Rightarrow> string" where
  "replace_first old new [] = (if old = [] then new else [])"
| "replace_first old new (c # s) =
     (if HasPrefix (c # s) old then new @ drop (length old) (c # s) else c # replace_first old new s)"

definition protobuf_Parse :: "('f, 'm, 'd) protobuf \<Rightarrow> ctx \<Rightarrow> ParseRequest \<Rightarrow> Resolver
    \<Rightarrow> string + ('s, 'f, 'c) native Parsed" where
  "protobuf_Parse P ctx request resolver =
     (let limits = normalizedLimits (pr_Limits request);
          defn = pr_Definition request
      in case check_request ''invalid_protobuf'' limits defn of
           Some e \<Rightarrow> Inl e
         | None \<Rightarrow>
      (case check_reference_count limits (pr_References request) of
         Some e \<Rightarrow> Inl e
       | None \<Rightarrow>
      (case protobuf_load limits resolver ctx (lim_MaxReferenceDepth limits) []
              (pr_References request) (0, fmupd rootFilename defn fmempty) of
         Inl e \<Rightarrow> Inl e
       | Inr (_, sources) \<Rightarrow>
      (case pb_Compile P ctx sources rootFilename of
         Inl e \<Rightarrow> Inl (formatError ''invalid_protobuf'' e)
       | Inr file \<Rightarrow>
      (case pb_PrintProtoToString P (pr_Normalize request) file of
         Inl e \<Rightarrow> Inl (formatError ''invalid_protobuf'' e)
       | Inr printed \<Rightarrow>
           (let canonical = replace_first ('';'' @ [CHR 0x0A, CHR 0x0A] @ ''package '') ('';'' @ [CHR 0x0A] @ ''package '') printed
            in Inr \<lparr>p_Type = SchemaTypeProtobuf, p_Definition = canonical, p_Canonical = canonical,
                 p_Identity = protobuf_schemaIdentity canonical (pr_References request),
                 p_References = pr_References request, p_Native = NProtobuf file\<rparr>))))))"

definition protobuf_file :: "('s, 'f, 'c) native \<Rightarrow> 'f option" where
  "protobuf_file n = (case n of NProtobuf file \<Rightarrow> Some file | _ \<Rightarrow> None)"

definition protobuf_Compatible :: "texts \<Rightarrow> ('f, 'm, 'd, 'z) protoreflect_scheme \<Rightarrow> ctx \<Rightarrow> string \<Rightarrow> ('s, 'f, 'c) native Parsed
    \<Rightarrow> ('s, 'f, 'c) native Parsed list \<Rightarrow> string + bool \<times> string list" where
  "protobuf_Compatible tx P = engine_Compatible tx protobuf_file ''candidate is not parsed Protobuf''
     (\<lambda>_. ''previous schema is not parsed Protobuf'') (compareFiles P)"

definition protobuf_Engine :: "texts \<Rightarrow> ('f, 'm, 'd) protobuf \<Rightarrow> ('s, 'f, 'c) native Engine" where
  "protobuf_Engine tx P = \<lparr>en_Type = SchemaTypeProtobuf, en_Parse = protobuf_Parse P, en_Compatible = protobuf_Compatible tx P\<rparr>"

section \<open>What the comparison decides\<close>

text \<open>The documented behaviour of descriptors: \<open>ByName\<close> and \<open>ByNumber\<close> find the one member with
  that name or number.\<close>

definition descriptors_ok :: "('f, 'm, 'd, 'z) protoreflect_scheme \<Rightarrow> bool" where
  "descriptors_ok P \<longleftrightarrow>
     (\<forall>f n m. pb_ByName P f n = Some m \<longleftrightarrow> m \<in> set (pb_Messages P f) \<and> pb_Name P m = n)
     \<and> (\<forall>m n d. pb_ByNumber P m n = Some d \<longleftrightarrow> d \<in> set (pb_Fields P m) \<and> pb_Number P d = n)"

text \<open>Two files agree when top-level messages of the same name give every field number they share
  the same wire class.\<close>

definition same_wire :: "('f, 'm, 'd, 'z) protoreflect_scheme \<Rightarrow> 'f \<Rightarrow> 'f \<Rightarrow> bool" where
  "same_wire P f g \<longleftrightarrow>
     (\<forall>m \<in> set (pb_Messages P f). \<forall>m' \<in> set (pb_Messages P g). pb_Name P m = pb_Name P m' \<longrightarrow>
        (\<forall>d \<in> set (pb_Fields P m). \<forall>d' \<in> set (pb_Fields P m'). pb_Number P d = pb_Number P d' \<longrightarrow>
           wireClass P d = wireClass P d'))"

lemma same_wire_sym: "same_wire P f g = same_wire P g f"
  unfolding same_wire_def by metis

lemma case_messages_Nil: "(case x of None \<Rightarrow> [] | Some y \<Rightarrow> f y) = [] \<longleftrightarrow> (\<forall>y. x = Some y \<longrightarrow> f y = [])"
  by (cases x) auto

lemma compareFields_Nil:
  assumes "descriptors_ok P"
  shows "compareFields P i m m' = [] \<longleftrightarrow>
    (\<forall>d \<in> set (pb_Fields P m). \<forall>d' \<in> set (pb_Fields P m'). pb_Number P d = pb_Number P d' \<longrightarrow> wireClass P d = wireClass P d')"
proof -
  have "pb_ByNumber P m n = Some d \<longleftrightarrow> d \<in> set (pb_Fields P m) \<and> pb_Number P d = n" for n d
    using assms by (simp add: descriptors_ok_def)
  then show ?thesis by (auto simp: compareFields_def case_messages_Nil)
qed

lemma compareFiles_Nil:
  assumes "descriptors_ok P"
  shows "compareFiles P i reader writer = [] \<longleftrightarrow> same_wire P reader writer"
proof -
  have "pb_ByName P reader n = Some m \<longleftrightarrow> m \<in> set (pb_Messages P reader) \<and> pb_Name P m = n" for n m
    using assms by (simp add: descriptors_ok_def)
  then show ?thesis
    by (auto simp: compareFiles_def case_messages_Nil compareFields_Nil [OF assms] same_wire_def)
qed

lemma same_wire_self: "descriptors_ok P \<Longrightarrow> same_wire P f f"
  unfolding same_wire_def descriptors_ok_def by (metis option.inject)

text \<open>C27: Protobuf compatibility is agreement on the wire: at every level but NONE a candidate is
  compatible exactly when every top-level message it shares by name with a previous version gives
  the field numbers they share the same wire class. So all levels decide alike for the same
  previous versions, and a schema is compatible with itself.\<close>

theorem protobuf_compatible_iff_same_wire:
  assumes "descriptors_ok P" and "CompatibilityLevel_Valid level" and "level \<noteq> CompatibilityNone"
    and "protobuf_file (p_Native candidate) = Some c"
  shows "(protobuf_Compatible tx P None level candidate previous = Inr (True, []) \<longleftrightarrow>
      (\<forall>p \<in> set previous. \<exists>d. protobuf_file (p_Native p) = Some d \<and> same_wire P c d))
    \<and> protobuf_Compatible tx P None level candidate [candidate] = Inr (True, [])"
proof -
  have each: "directions (compareFiles P) level i c d = [] \<longleftrightarrow> same_wire P c d" for i d
    using assms(2,3) compareFiles_Nil [OF assms(1)] same_wire_sym [of P c d]
    by (auto simp: directions_def CompatibilityLevel_Valid_def)
  have "agrees protobuf_file (compareFiles P) level c 0 previous \<longleftrightarrow>
      (\<forall>p \<in> set previous. \<exists>d. protobuf_file (p_Native p) = Some d \<and> same_wire P c d)"
    by (rule agrees_all) (rule each)
  then show ?thesis
    unfolding protobuf_Compatible_def engine_Compatible_agrees [OF assms(2,3)]
    using assms(4) same_wire_self [OF assms(1), of c] by (simp add: each)
qed

end
