(* ===== verification/Avro_Engine.thy ===== *)
theory Avro_Engine
  imports Any_Values
begin

text \<open>
  \<open>internal/formats/avro/canonical.go\<close> and \<open>internal/formats/avro/engine.go\<close>. The parser
  (\<open>hamba/avro\<close>) is an argument: parsing with a cache, adding to the cache, the canonical text
  and the name of a parsed schema, and the check of a reader against a writer. The in-place
  changes of \<open>shortenNamedReferences\<close> are a function from the value to the changed value: a
  decoded document shares none of its parts. Reference loading, limits, identity and the loop of
  \<open>Compatible\<close> are those of \<open>Engine_Common\<close>; a resolver is never nil here.
\<close>

section \<open>Shortening names\<close>

text \<open>An assignment \<open>m[k] = v\<close>.\<close>

definition member_set :: "string \<Rightarrow> any \<Rightarrow> (string \<times> any) list \<Rightarrow> (string \<times> any) list" where
  "member_set k v m =
     (if k \<in> fst ` set m then map (\<lambda>(k', x). (k', if k' = k then v else x)) m else insort_key fst (k, v) m)"

text \<open>The part of a name before its last dot.\<close>

definition name_space :: "string \<Rightarrow> string option" where
  "name_space name =
     (if CHR ''.'' \<in> set name then Some (rev (tl (dropWhile (\<lambda>c. c \<noteq> CHR ''.'') (rev name)))) else None)"

definition own_namespace :: "any \<Rightarrow> string \<Rightarrow> string" where
  "own_namespace object parent =
     (case any_get object ''namespace'' of
        AString explicit \<Rightarrow> explicit
      | _ \<Rightarrow>
          (case any_get object ''name'' of
             AString name \<Rightarrow> (case name_space name of Some ns \<Rightarrow> ns | None \<Rightarrow> parent)
           | _ \<Rightarrow> parent))"

definition shorten_name :: "string \<Rightarrow> string \<Rightarrow> string" where
  "shorten_name typed namespace =
     (if namespace \<noteq> '''' \<and> HasPrefix typed (namespace @ ''.'') then drop (length namespace + 1) typed else typed)"

lemma member_smaller: "map_of m k = Some x \<Longrightarrow> size x < size (AMap m)"
  using size_list_estimation' [of "(k, x)" m "size x" "size_prod (\<lambda>_. 0) size"] by (auto dest!: map_of_SomeD)

lemma any_get_smaller: "size (any_get (AMap m) k) < size (AMap m)"
  by (auto simp: any_get_def dest: member_smaller split: option.splits)

lemma element_smaller: "x \<in> set xs \<Longrightarrow> size x < size (AList xs)"
  using size_list_estimation' [of x xs "size x" size] by simp

lemma member_element_smaller: "map_of m k = Some (AList xs) \<Longrightarrow> x \<in> set xs \<Longrightarrow> size x < size (AMap m)"
  using member_smaller [of m k "AList xs"] element_smaller [of x xs] by linarith

lemma field_type_smaller:
  "map_of m k = Some (AList xs) \<Longrightarrow> AMap f \<in> set xs \<Longrightarrow> Suc (size (any_get (AMap f) t)) < size (AMap m)"
  using member_element_smaller [of m k xs "AMap f"] any_get_smaller [of f t] by linarith

definition member_assign :: "string \<Rightarrow> any option \<Rightarrow> (string \<times> any) list \<Rightarrow> (string \<times> any) list" where
  "member_assign k v m = (case v of None \<Rightarrow> m | Some x \<Rightarrow> member_set k x m)"

text \<open>The first function is called on a value, with the namespace around it; the second on the type
  of a field, of an array's items and of a map's values.\<close>

function shortenNamedReferences :: "any \<Rightarrow> string \<Rightarrow> any"
  and shortenTypeValue :: "any \<Rightarrow> string \<Rightarrow> any" where
  "shortenNamedReferences object parent =
     (case object of
        AMap m \<Rightarrow>
          AMap (member_assign ''values''
            (map_option (\<lambda>nested. shortenTypeValue nested (own_namespace object parent)) (map_of m ''values''))
            (member_assign ''items''
              (map_option (\<lambda>nested. shortenTypeValue nested (own_namespace object parent)) (map_of m ''items''))
              (member_assign ''fields''
                (case map_of m ''fields'' of
                   Some (AList fs) \<Rightarrow>
                     Some (AList (map (\<lambda>item.
                       (case item of
                          AMap f \<Rightarrow> AMap (member_set ''type''
                            (shortenTypeValue (any_get (AMap f) ''type'') (own_namespace object parent)) f)
                        | _ \<Rightarrow> item)) fs))
                 | _ \<Rightarrow> None) m)))
      | _ \<Rightarrow> object)"
| "shortenTypeValue typed namespace =
     (case typed of
        AString s \<Rightarrow> AString (shorten_name s namespace)
      | AList xs \<Rightarrow> AList (map (\<lambda>x. shortenTypeValue x namespace) xs)
      | AMap m \<Rightarrow> shortenNamedReferences (AMap m) namespace
      | _ \<Rightarrow> typed)"
  by pat_completeness auto
termination
proof (relation "measure (\<lambda>x. case x of Inl (v, _) \<Rightarrow> 2 * size v | Inr (v, _) \<Rightarrow> 2 * size v + 1)")
qed (auto dest: member_smaller element_smaller field_type_smaller [where t = "''type''"])

declare shortenNamedReferences.simps [simp del] shortenTypeValue.simps [simp del]

section \<open>The canonical text\<close>

definition primitiveObject :: "(string \<times> any) list \<Rightarrow> string option" where
  "primitiveObject m =
     (if length m \<noteq> 1 then None
      else (case map_of m ''type'' of
              Some (AString t) \<Rightarrow>
                if t \<in> {''null'', ''boolean'', ''int'', ''long'', ''float'', ''double'', ''bytes'', ''string''} then Some t else None
            | _ \<Rightarrow> None))"

definition priority :: "bool \<Rightarrow> string list" where
  "priority in_field =
     (if in_field then [''name'', ''type'', ''doc'', ''default'', ''order'', ''aliases'']
      else [''type'', ''name'', ''namespace'', ''doc'', ''aliases'', ''fields'', ''symbols'', ''default'', ''size'',
            ''items'', ''values'', ''logicalType'', ''precision'', ''scale''])"

definition orderedKeys :: "(string \<times> any) list \<Rightarrow> bool \<Rightarrow> string list" where
  "orderedKeys m in_field =
     filter (\<lambda>k. k \<in> fst ` set m) (priority in_field)
     @ sort (filter (\<lambda>k. k \<notin> set (priority in_field)) (map fst m))"

text \<open>The texts of parts, joined, or the first error.\<close>

fun all_texts :: "(string + string) list \<Rightarrow> string + string list" where
  "all_texts [] = Inr []"
| "all_texts (Inl e # xs) = Inl e"
| "all_texts (Inr s # xs) = map_sum (\<lambda>e. e) ((#) s) (all_texts xs)"

definition joined :: "string \<Rightarrow> string \<Rightarrow> (string + string) list \<Rightarrow> string + string" where
  "joined opening closing parts = map_sum (\<lambda>e. e) (\<lambda>texts. opening @ join_comma texts @ closing) (all_texts parts)"

definition with_key :: "string \<Rightarrow> string + string \<Rightarrow> string + string" where
  "with_key k part = map_sum (\<lambda>e. e) (\<lambda>s. print_json (enc_string k) @ '':'' @ s) part"

function writeCanonicalJSON :: "any \<Rightarrow> bool \<Rightarrow> string + string" where
  "writeCanonicalJSON v in_field =
     (case v of
        AMap m \<Rightarrow>
          (if primitiveObject m \<noteq> None \<and> \<not> in_field
           then Inr (print_json (enc_string (the (primitiveObject m))))
           else joined ''{'' ''}'' (map (\<lambda>k. with_key k
             (case map_of m k of
                None \<Rightarrow> Inr ''''
              | Some child \<Rightarrow>
                  if k = ''fields''
                  then (case child of
                          AList fs \<Rightarrow> joined ''['' '']'' (map (\<lambda>item. writeCanonicalJSON item True) fs)
                        | _ \<Rightarrow> Inl ''fields is not an array'')
                  else writeCanonicalJSON child False)) (orderedKeys m in_field)))
      | AList xs \<Rightarrow> joined ''['' '']'' (map (\<lambda>x. writeCanonicalJSON x False) xs)
      | _ \<Rightarrow> Inr (print_json (of_any v)))"
  by pat_completeness auto
termination
  by (relation "measure (\<lambda>(v, _). size v)") (auto dest: member_smaller element_smaller member_element_smaller)

declare writeCanonicalJSON.simps [simp del]

definition canonicalDefinition :: "texts \<Rightarrow> string \<Rightarrow> string + string" where
  "canonicalDefinition tx raw =
     (case decode_stream raw of
        None \<Rightarrow> Inl (tx_json tx raw)
      | Some (j, _) \<Rightarrow> writeCanonicalJSON (shortenNamedReferences (to_any j) '''') False)"

section \<open>The engine\<close>

record ('s, 'k) hamba =
  hb_SchemaCache :: 'k
  hb_ParseWithCache :: "string \<Rightarrow> 'k \<Rightarrow> string + 's \<times> 'k"
  hb_Add :: "string \<Rightarrow> 's \<Rightarrow> 'k \<Rightarrow> 'k"
  hb_Named :: "'s \<Rightarrow> (string \<times> string) option"
  hb_String :: "'s \<Rightarrow> string"
  hb_Compatible :: "'s \<Rightarrow> 's \<Rightarrow> string option"

definition cache_named :: "('s, 'k) hamba \<Rightarrow> Reference \<Rightarrow> 's \<Rightarrow> 'k \<Rightarrow> 'k" where
  "cache_named H r parsed cache =
     (let cache = hb_Add H (ref_Name r) parsed cache
      in case hb_Named H parsed of
           None \<Rightarrow> cache
         | Some (name, fullName) \<Rightarrow> hb_Add H fullName parsed (hb_Add H name parsed cache))"

definition avro_loader :: "texts \<Rightarrow> ('s, 'k) hamba \<Rightarrow> ctx \<Rightarrow> 'k loader" where
  "avro_loader tx H ctx = \<lparr>ld_before = map_option (tx_error tx) ctx, ld_type = SchemaTypeAvro,
     ld_too_large = (\<lambda>key limit. ''referenced schema '' @ key @ '' exceeds '' @ fmt_nat limit @ '' bytes''),
     ld_finish = (\<lambda>r schema cache.
       (case hb_ParseWithCache H (sch_Definition schema) cache of
          Inl e \<Rightarrow> Inl (formatError ''invalid_reference'' (reference_key r @ '': '' @ e))
        | Inr (parsed, cache') \<Rightarrow> Inr (cache_named H r parsed cache')))\<rparr>"

definition avro_Parse :: "texts \<Rightarrow> ('s, 'k) hamba \<Rightarrow> ctx \<Rightarrow> ParseRequest \<Rightarrow> Resolver
    \<Rightarrow> string + ('s, 'f, 'c) native Parsed" where
  "avro_Parse tx H ctx request resolver =
     (let limits = normalizedLimits (pr_Limits request);
          defn = pr_Definition request
      in case check_request ''invalid_avro'' limits defn of
           Some e \<Rightarrow> Inl e
         | None \<Rightarrow>
      (case check_reference_count limits (pr_References request) of
         Some e \<Rightarrow> Inl e
       | None \<Rightarrow>
      (case load_references (avro_loader tx H ctx) limits resolver ctx (lim_MaxReferenceDepth limits) []
              (pr_References request) (0, hb_SchemaCache H) of
         Inl e \<Rightarrow> Inl e
       | Inr (_, cache) \<Rightarrow>
      (case ctx of
         Some e \<Rightarrow> Inl (tx_error tx e)
       | None \<Rightarrow>
      (case hb_ParseWithCache H defn cache of
         Inl e \<Rightarrow> Inl (formatError ''invalid_avro'' e)
       | Inr (parsed, _) \<Rightarrow>
      (case canonicalDefinition tx defn of
         Inl e \<Rightarrow> Inl (formatError ''invalid_avro'' e)
       | Inr canonical \<Rightarrow>
           Inr \<lparr>p_Type = SchemaTypeAvro, p_Definition = (if pr_Normalize request then hb_String H parsed else canonical),
             p_Canonical = hb_String H parsed,
             p_Identity = schemaIdentity SchemaTypeAvro (hb_String H parsed) (pr_References request),
             p_References = pr_References request, p_Native = NAvro parsed\<rparr>))))))"

definition appendCompatibility :: "('s, 'k) hamba \<Rightarrow> nat \<Rightarrow> 's \<Rightarrow> 's \<Rightarrow> string list" where
  "appendCompatibility H i reader writer =
     (case hb_Compatible H reader writer of
        None \<Rightarrow> []
      | Some e \<Rightarrow> [''previous schema '' @ fmt_nat (i + 1) @ '': '' @ e])"

definition avro_schema :: "('s, 'f, 'c) native \<Rightarrow> 's option" where
  "avro_schema n = (case n of NAvro schema \<Rightarrow> Some schema | _ \<Rightarrow> None)"

definition avro_Compatible :: "texts \<Rightarrow> ('s, 'k) hamba \<Rightarrow> ctx \<Rightarrow> string \<Rightarrow> ('s, 'f, 'c) native Parsed
    \<Rightarrow> ('s, 'f, 'c) native Parsed list \<Rightarrow> string + bool \<times> string list" where
  "avro_Compatible tx H = engine_Compatible tx avro_schema ''candidate is not parsed Avro''
     (\<lambda>i. ''previous schema '' @ fmt_nat i @ '' is not parsed Avro'') (appendCompatibility H)"

definition avro_Engine :: "texts \<Rightarrow> ('s, 'k) hamba \<Rightarrow> ('s, 'f, 'c) native Engine" where
  "avro_Engine tx H = \<lparr>en_Type = SchemaTypeAvro, en_Parse = avro_Parse tx H, en_Compatible = avro_Compatible tx H\<rparr>"

end
