(* ===== verification/Avro_Canonical.thy ===== *)
theory Avro_Canonical
  imports Avro_Engine
begin

text \<open>
  The canonical text of an Avro schema: it is a JSON text of the same document, with primitive
  types written as their names; and what shortening a name does to its meaning.
\<close>

section \<open>Names\<close>

text \<open>The full name a name stands for, by the Avro specification: a name with a dot is a full name,
  any other is in the namespace around it.\<close>

definition fullname :: "string \<Rightarrow> string \<Rightarrow> string" where
  "fullname namespace name = (if CHR ''.'' \<in> set name \<or> namespace = '''' then name else namespace @ ''.'' @ name)"

text \<open>C29: Shortening the name of a type keeps what it stands for exactly when nothing after the
  namespace has a dot: in the namespace \<open>a\<close> the name \<open>a.C\<close> becomes \<open>C\<close>, which still is
  \<open>a.C\<close>, but \<open>a.b.C\<close> becomes \<open>b.C\<close>, another type.\<close>

theorem shortened_name_meaning:
  "\<exists>s. shortenTypeValue (AString name) namespace = AString s
    \<and> (fullname namespace s = fullname namespace name \<longleftrightarrow>
       \<not> (\<exists>rest. namespace \<noteq> '''' \<and> name = namespace @ ''.'' @ rest \<and> CHR ''.'' \<in> set rest))"
proof (cases "namespace \<noteq> '''' \<and> HasPrefix name (namespace @ ''.'')")
  case True
  then obtain rest where rest: "name = namespace @ ''.'' @ rest"
    by (metis HasPrefix_def append_take_drop_id append_assoc)
  with True show ?thesis
    by (auto simp: shortenTypeValue.simps shorten_name_def fullname_def HasPrefix_def)
next
  case False
  then have "shorten_name name namespace = name" by (auto simp: shorten_name_def)
  with False show ?thesis by (auto simp: shortenTypeValue.simps HasPrefix_def)
qed

section \<open>The text\<close>

function simplified :: "any \<Rightarrow> bool \<Rightarrow> any" where
  "simplified v in_field =
     (case v of
        AMap m \<Rightarrow>
          (if primitiveObject m \<noteq> None \<and> \<not> in_field then AString (the (primitiveObject m))
           else AMap (map (\<lambda>(k, child). (k,
             if k = ''fields''
             then (case child of AList fs \<Rightarrow> AList (map (\<lambda>item. simplified item True) fs) | _ \<Rightarrow> child)
             else simplified child False)) m))
      | AList xs \<Rightarrow> AList (map (\<lambda>x. simplified x False) xs)
      | _ \<Rightarrow> v)"
  by pat_completeness auto
termination
proof (relation "measure (\<lambda>(v, _). size v)")
  show "((item, True), (v, in_field)) \<in> measure (\<lambda>(v, _). size v)"
    if "v = AMap m" "p \<in> set m" "(k, child) = p" "child = AList fs" "item \<in> set fs" for v m p k child fs item in_field
    using that element_smaller [of item fs] size_list_estimation' [of p m "size child" "size_prod (\<lambda>_. 0) size"] by auto
  show "((child, False), (v, in_field)) \<in> measure (\<lambda>(v, _). size v)"
    if "v = AMap m" "p \<in> set m" "(k, child) = p" for v m p k child in_field
    using that size_list_estimation' [of p m "size child" "size_prod (\<lambda>_. 0) size"] by auto
qed (auto dest: element_smaller)

declare simplified.simps [simp del]

lemma all_texts_Inr: "all_texts xs = Inr ts \<Longrightarrow> xs = map Inr ts"
proof (induction xs arbitrary: ts rule: all_texts.induct)
  case (3 s xs)
  then obtain us where "all_texts xs = Inr us" "ts = s # us" by (auto elim: map_sum_InrE)
  with 3(1) show ?case by simp
qed auto

lemma joinedE:
  assumes "joined opening closing parts = Inr s"
  obtains ts where "parts = map Inr ts" and "s = opening @ join_comma ts @ closing"
proof -
  from assms obtain ts where "all_texts parts = Inr ts" "s = opening @ join_comma ts @ closing"
    unfolding joined_def by (rule map_sum_InrE)
  with all_texts_Inr that show thesis by blast
qed

lemma orderedKeys_keys:
  assumes "distinct (map fst m)"
  shows "set (orderedKeys m in_field) = fst ` set m" and "distinct (orderedKeys m in_field)"
  using assms by (auto simp: orderedKeys_def priority_def)

text \<open>Members in another order are the same map.\<close>

lemma map_members_reordered:
  assumes "sorted (map fst m)" and "distinct (map fst m)" and "set keys = fst ` set m" and "distinct keys"
  shows "map_members (map (\<lambda>k. (k, f k)) keys) = map (\<lambda>(k, _). (k, f k)) m"
proof -
  let ?kvs = "map (\<lambda>k. (k, f k)) keys" and ?m = "map (\<lambda>(k, _). (k, f k)) m"
  have fst: "map fst ?kvs = keys" "map fst ?m = map fst m" by (auto simp: case_prod_unfold comp_def)
  then have c: "AList.clearjunk (rev ?kvs) = rev ?kvs"
    using assms(4) by (simp add: distinct_clearjunk_id rev_map [symmetric] del: map_map)
  have d: "distinct ?m" "distinct ?kvs" using fst assms(2,4) by (metis distinct_map)+
  have s: "set ?m = set ?kvs" using assms(3) by (simp add: case_prod_unfold image_image [symmetric, of "\<lambda>k. (k, f k)" fst])
  have "sort_key fst (rev ?kvs) = ?m"
  proof (rule sort_key_inj_key_eq)
    show "mset (rev ?kvs) = mset ?m" using d s set_eq_iff_mset_eq_distinct [of ?m ?kvs] by (metis mset_rev)
    show "inj_on fst (set (rev ?kvs))" by (auto simp: inj_on_def)
    show "sorted (map fst ?m)" using assms(1) by (simp only: fst(2))
  qed
  with c show ?thesis by (simp add: map_members_def)
qed

text \<open>A text that is written from a tree which decodes to the given value.\<close>

definition text_of :: "string \<Rightarrow> any \<Rightarrow> bool" where
  "text_of s v \<longleftrightarrow> (\<exists>j. json_ok j \<and> s = print_json j \<and> to_any j = v)"

lemma text_of_list:
  assumes "list_all2 text_of ts vs"
  shows "text_of (''['' @ join_comma ts @ '']'') (AList vs)"
proof -
  from assms obtain js where "ts = map print_json js" "\<forall>j \<in> set js. json_ok j" "map to_any js = vs"
  proof (induction arbitrary: thesis rule: list_all2_induct)
    case (Cons t ts v vs)
    then obtain j js where "t = print_json j" "json_ok j" "to_any j = v" "ts = map print_json js" "\<forall>j \<in> set js. json_ok j" "map to_any js = vs"
      unfolding text_of_def by metis
    then show ?case by (intro Cons.prems [of "j # js"]) simp_all
  qed simp
  then show ?thesis unfolding text_of_def by (intro exI [of _ "JArr js"]) auto
qed

lemma text_of_map:
  assumes "sorted (map fst m)" and "distinct (map fst m)" and "\<forall>k \<in> fst ` set m. valid_utf8 k \<and> text_of (t k) (f k)"
    and "set keys = fst ` set m" and "distinct keys"
  shows "text_of (''{'' @ join_comma (map (\<lambda>k. print_json (enc_string k) @ '':'' @ t k) keys) @ ''}'') (AMap (map (\<lambda>(k, _). (k, f k)) m))"
proof -
  from assms(3,4) obtain J where J: "\<forall>k \<in> set keys. json_ok (J k) \<and> t k = print_json (J k) \<and> to_any (J k) = f k"
    unfolding text_of_def by metis
  let ?j = "obj (map (\<lambda>k. (k, J k)) keys)"
  have "json_ok ?j" using J by auto
  moreover have "print_json ?j = ''{'' @ join_comma (map (\<lambda>k. print_json (enc_string k) @ '':'' @ t k) keys) @ ''}''"
    using J by (simp add: obj_def enc_string_def comp_def cong: map_cong)
  moreover have "to_any ?j = AMap (map_members (map (\<lambda>k. (k, f k)) keys))"
  proof -
    have "map (\<lambda>k. (unquote (escape_string k), to_any (J k))) keys = map (\<lambda>k. (k, f k)) keys"
      using J assms(3,4) by (intro map_cong) auto
    then show ?thesis by (simp add: obj_def comp_def del: unquote_escape cong: map_cong)
  qed
  ultimately show ?thesis
    unfolding text_of_def using map_members_reordered [OF assms(1,2,4,5)] by metis
qed

lemma written_items:
  assumes "joined ''['' '']'' (map (\<lambda>x. writeCanonicalJSON x b) xs) = Inr s"
    and "\<And>x t. x \<in> set xs \<Longrightarrow> writeCanonicalJSON x b = Inr t \<Longrightarrow> text_of t (simplified x b)"
  shows "text_of s (AList (map (\<lambda>x. simplified x b) xs))"
proof -
  from assms(1) obtain ts where ts: "map (\<lambda>x. writeCanonicalJSON x b) xs = map Inr ts" "s = ''['' @ join_comma ts @ '']''"
    by (rule joinedE)
  have "list_all2 text_of ts (map (\<lambda>x. simplified x b) xs)"
  proof (rule list_all2_all_nthI)
    show l: "length ts = length (map (\<lambda>x. simplified x b) xs)" using ts(1) by (metis length_map)
    fix n
    assume n: "n < length ts"
    with l ts(1) have "writeCanonicalJSON (xs ! n) b = Inr (ts ! n)" by (metis length_map nth_map)
    with assms(2) n l show "text_of (ts ! n) (map (\<lambda>x. simplified x b) xs ! n)" by simp
  qed
  then show ?thesis unfolding ts(2) by (rule text_of_list)
qed

lemma written_members:
  assumes "joined ''{'' ''}'' (map (\<lambda>k. with_key k (part k)) (orderedKeys m b)) = Inr s"
    and "sorted (map fst m)" and "distinct (map fst m)" and "\<forall>k \<in> fst ` set m. valid_utf8 k"
    and "\<And>k t. k \<in> fst ` set m \<Longrightarrow> part k = Inr t \<Longrightarrow> text_of t (f k)"
  shows "text_of s (AMap (map (\<lambda>(k, _). (k, f k)) m))"
proof -
  from assms(1) obtain ts where ts: "map (\<lambda>k. with_key k (part k)) (orderedKeys m b) = map Inr ts"
    "s = ''{'' @ join_comma ts @ ''}''"
    by (rule joinedE)
  have "\<forall>k \<in> set (orderedKeys m b). \<exists>t. part k = Inr t"
  proof
    fix k
    assume "k \<in> set (orderedKeys m b)"
    then have "with_key k (part k) \<in> set (map Inr ts)" unfolding ts(1) [symmetric] by simp
    then show "\<exists>t. part k = Inr t" by (auto simp: with_key_def elim: map_sum_InrE)
  qed
  then obtain t where t: "\<forall>k \<in> set (orderedKeys m b). part k = Inr (t k)" by metis
  then have "map (\<lambda>k. with_key k (part k)) (orderedKeys m b)
      = map Inr (map (\<lambda>k. print_json (enc_string k) @ '':'' @ t k) (orderedKeys m b))"
    by (simp add: with_key_def)
  with ts(1) have ts': "ts = map (\<lambda>k. print_json (enc_string k) @ '':'' @ t k) (orderedKeys m b)"
    by (metis inj_Inr inj_map_eq_map)
  have "\<forall>k \<in> fst ` set m. valid_utf8 k \<and> text_of (t k) (f k)"
    using t orderedKeys_keys(1) [OF assms(3), of b] assms(4,5) by auto
  then show ?thesis
    unfolding ts(2) ts' by (rule text_of_map [OF assms(2,3) _ orderedKeys_keys [OF assms(3)]])
qed

lemma text_of_atom: "any_ok v \<Longrightarrow> text_of (print_json (of_any v)) v"
  unfolding text_of_def using marshalled_value_decodes(2) of_any_ok by blast

lemmas written_atoms =
  writeCanonicalJSON.simps [of ANull] writeCanonicalJSON.simps [of "ABool b" for b]
  writeCanonicalJSON.simps [of "ANumber n" for n] writeCanonicalJSON.simps [of "AString t" for t]
  simplified.simps [of ANull] simplified.simps [of "ABool b" for b]
  simplified.simps [of "ANumber n" for n] simplified.simps [of "AString t" for t]

lemma written_primitive:
  assumes "writeCanonicalJSON (AMap m) in_field = Inr s" and "any_ok (AMap m)" and "primitiveObject m \<noteq> None \<and> \<not> in_field"
  shows "text_of s (simplified (AMap m) in_field)"
proof -
  from assms(3) obtain t where t: "primitiveObject m = Some t" "map_of m ''type'' = Some (AString t)"
    by (auto simp: primitiveObject_def split: if_splits option.splits any.splits)
  have "any_ok (AString t)" using assms(2) t(2) by (auto dest: map_of_SomeD)
  then have "text_of (print_json (enc_string t)) (AString t)"
    unfolding text_of_def by (intro exI [of _ "enc_string t"]) (simp add: enc_string_def)
  with t assms(1,3) show ?thesis
    by (simp add: writeCanonicalJSON.simps [of "AMap m"] simplified.simps [of "AMap m"])
qed

lemma members_by_key:
  assumes "distinct (map fst m)"
  shows "map (\<lambda>(k, _). (k, f k (the (map_of m k)))) m = map (\<lambda>(k, x). (k, f k x)) m"
  using assms by (auto intro!: map_cong)

lemma written_text:
  assumes "writeCanonicalJSON v in_field = Inr s" and "any_ok v"
  shows "text_of s (simplified v in_field)"
  using assms
proof (induction v arbitrary: in_field s rule: measure_induct_rule [of size])
  case (less v)
  have items: "text_of u (AList (map (\<lambda>x. simplified x b) xs))"
    if "joined ''['' '']'' (map (\<lambda>x. writeCanonicalJSON x b) xs) = Inr u" "size (AList xs) \<le> size v" "any_ok (AList xs)" for u b xs
    using that less.IH element_smaller by (intro written_items) fastforce+
  show ?case
  proof (cases v)
    case (AMap m)
    have m: "sorted (map fst m)" "distinct (map fst m)" "\<forall>k \<in> fst ` set m. valid_utf8 k"
      and child: "\<And>k x. map_of m k = Some x \<Longrightarrow> any_ok x"
      using less.prems(2) AMap by (auto dest: map_of_SomeD)
    have smaller: "\<And>k x. map_of m k = Some x \<Longrightarrow> size x < size v"
      using AMap member_smaller by blast
    show ?thesis
    proof (cases "primitiveObject m \<noteq> None \<and> \<not> in_field")
      case True
      with less.prems AMap show ?thesis using written_primitive by blast
    next
      case False
      let ?f = "\<lambda>k child. if k = ''fields''
        then (case child of AList fs \<Rightarrow> AList (map (\<lambda>item. simplified item True) fs) | _ \<Rightarrow> child)
        else simplified child False"
      have "text_of s (AMap (map (\<lambda>(k, _). (k, ?f k (the (map_of m k)))) m))"
      proof (rule written_members [OF _ m])
        let ?part = "\<lambda>k. case map_of m k of None \<Rightarrow> Inr '''' | Some child \<Rightarrow>
          if k = ''fields''
          then (case child of AList fs \<Rightarrow> joined ''['' '']'' (map (\<lambda>item. writeCanonicalJSON item True) fs)
                | _ \<Rightarrow> Inl ''fields is not an array'')
          else writeCanonicalJSON child False"
        show "joined ''{'' ''}'' (map (\<lambda>k. with_key k (?part k)) (orderedKeys m in_field)) = Inr s"
          using less.prems(1) False AMap by (simp add: writeCanonicalJSON.simps [of "AMap m"] split: if_splits)
        show "text_of t (?f k (the (map_of m k)))" if k: "k \<in> fst ` set m" and t: "?part k = Inr t" for k t
        proof -
          obtain x where x: "map_of m k = Some x" using k by (metis domD dom_map_of_conv_image_fst)
          show ?thesis
          proof (cases "k = ''fields''")
            case True
            with t x obtain fs where "x = AList fs" by (auto split: any.splits)
            with True t x child [OF x] smaller [OF x] items [of True fs t] show ?thesis by simp
          next
            case False
            with t x child [OF x] smaller [OF x] less.IH show ?thesis by simp
          qed
        qed
      qed
      then have "text_of s (AMap (map (\<lambda>(k, x). (k, ?f k x)) m))"
        by (subst members_by_key [OF m(2), of ?f, symmetric])
      with False AMap show ?thesis by (auto simp: simplified.simps [of "AMap m"])
    qed
  next
    case (AList xs)
    with less.prems items [of False xs s] show ?thesis
      by (simp add: writeCanonicalJSON.simps [of "AList xs"] simplified.simps [of "AList xs"])
  qed (use less.prems text_of_atom [OF less.prems(2)] in \<open>simp_all add: written_atoms\<close>)
qed

text \<open>Shortening keeps a decoded value one.\<close>

lemma member_set_ok:
  assumes "any_ok (AMap m)" and "valid_utf8 k" and "any_ok v"
  shows "any_ok (AMap (member_set k v m))"
proof (cases "k \<in> fst ` set m")
  case True
  then have "map fst (member_set k v m) = map fst m" by (auto simp: member_set_def)
  with assms True show ?thesis by (auto simp: member_set_def simp del: map_map)
next
  case False
  with assms show ?thesis
    by (auto simp: member_set_def sorted_insort_key set_insort_key distinct_insort_key distinct_insort)
qed

lemma valid_utf8_after_ascii: "valid_utf8 (a @ c # b) \<Longrightarrow> byte c < 128 \<Longrightarrow> valid_utf8 b"
proof (induction a rule: length_induct)
  case (1 a)
  show ?case
  proof (cases a)
    case Nil
    with 1 show ?thesis by simp
  next
    case (Cons d a')
    with 1(2) have "rune_width (d # a' @ c # b) \<noteq> 0" by (auto simp: valid_utf8.simps(2) Let_def split: if_splits)
    then obtain d' t u where t: "d # a' @ c # b = d' # t @ u" "tail_ok d' t" by (metis rune_width_split)
    have "c \<notin> set t" using t(2) 1(3) tail_ok_cont [OF t(2)] by (auto simp: list_all_iff cont_byte_def)
    with t(1) obtain a'' where a'': "a' = t @ a''" "u = a'' @ c # b"
      by (auto simp: append_eq_append_conv2 Cons_eq_append_conv)
    with 1(2) Cons t have "valid_utf8 (a'' @ c # b)" by (simp add: valid_utf8_rune)
    with 1(1) [rule_format, of a''] 1(3) Cons a'' show ?thesis by simp
  qed
qed

lemma shorten_name_valid: "valid_utf8 s \<Longrightarrow> valid_utf8 (shorten_name s namespace)"
proof (cases "namespace \<noteq> '''' \<and> HasPrefix s (namespace @ ''.'')")
  case True
  assume s: "valid_utf8 s"
  from True have "s = namespace @ CHR ''.'' # drop (length namespace + 1) s"
    by (metis HasPrefix_def append_take_drop_id append_assoc append_Cons append_Nil length_append_singleton Suc_eq_plus1)
  with s have "valid_utf8 (namespace @ CHR ''.'' # drop (length namespace + 1) s)" by simp
  then have "valid_utf8 (drop (length namespace + 1) s)" by (rule valid_utf8_after_ascii) simp
  with True show ?thesis by (simp add: shorten_name_def)
next
  case False
  then show "valid_utf8 s \<Longrightarrow> ?thesis" by (auto simp: shorten_name_def)
qed

lemma any_get_ok: "any_ok v \<Longrightarrow> any_ok (any_get v k)"
  by (cases v) (auto simp: any_get_def dest: map_of_SomeD split: option.splits)

lemma member_assign_ok:
  assumes "any_ok (AMap m)" and "valid_utf8 k" and "\<forall>x. v = Some x \<longrightarrow> any_ok x"
  shows "any_ok (AMap (member_assign k v m))"
  using assms member_set_ok by (cases v) (auto simp: member_assign_def)

lemma shortened_ok:
  "any_ok v \<Longrightarrow> any_ok (shortenNamedReferences v namespace)"
  "any_ok v \<Longrightarrow> any_ok (shortenTypeValue v namespace)"
proof (induction v namespace and v namespace rule: shortenNamedReferences_shortenTypeValue.induct)
  case (1 object parent)
  show ?case
  proof (cases object)
    case (AMap m)
    have child: "any_ok x" if "map_of m k = Some x" for k x
      using that "1.prems" AMap any_get_ok [of object k] by (simp add: any_get_def)
    have fields: "any_ok (AMap (member_assign ''fields''
        (case map_of m ''fields'' of
           Some (AList fs) \<Rightarrow> Some (AList (map (\<lambda>item. (case item of
              AMap f \<Rightarrow> AMap (member_set ''type'' (shortenTypeValue (any_get (AMap f) ''type'') (own_namespace object parent)) f)
            | _ \<Rightarrow> item)) fs))
         | _ \<Rightarrow> None) m))"
    proof (rule member_assign_ok)
      have "any_ok (case item of
            AMap f \<Rightarrow> AMap (member_set ''type'' (shortenTypeValue (any_get (AMap f) ''type'') (own_namespace object parent)) f)
          | _ \<Rightarrow> item)" if "map_of m ''fields'' = Some (AList fs)" "item \<in> set fs" for fs item
        using that child [OF that(1)] "1.IH"(3) [OF AMap that(1) refl that(2)] any_get_ok
        by (cases item) (auto intro!: member_set_ok simp del: any_ok.simps(4))
      then show "\<forall>x. (case map_of m ''fields'' of
           Some (AList fs) \<Rightarrow> Some (AList (map (\<lambda>item. (case item of
              AMap f \<Rightarrow> AMap (member_set ''type'' (shortenTypeValue (any_get (AMap f) ''type'') (own_namespace object parent)) f)
            | _ \<Rightarrow> item)) fs))
         | _ \<Rightarrow> None) = Some x \<longrightarrow> any_ok x"
        by (auto split: option.splits any.splits)
    qed (use "1.prems" AMap in simp_all)
    have nested: "\<forall>x. map_option (\<lambda>nested. shortenTypeValue nested (own_namespace object parent)) (map_of m k) = Some x \<longrightarrow> any_ok x"
      if "k = ''items'' \<or> k = ''values''" for k
      using that "1.IH"(1,2) AMap child by auto
    have "valid_utf8 ''values''" "valid_utf8 ''items''" by simp_all
    from member_assign_ok [OF member_assign_ok [OF fields this(2) nested [of "''items''"]] this(1) nested [of "''values''"]]
    show ?thesis unfolding shortenNamedReferences.simps [of object] by (simp add: AMap)
  qed (use "1.prems" shortenNamedReferences.simps [of object parent] in simp_all)
next
  case (2 typed namespace)
  then show ?case
    using shortenTypeValue.simps [of typed namespace] by (cases typed) (auto simp: shorten_name_valid)
qed

text \<open>C25: The definition of an Avro schema that is stored is a JSON text of the submitted document: it
  parses as a whole, and to the submitted value with the names of types shortened and the objects
  that only name a primitive type replaced by that name.\<close>

theorem canonical_definition_reads_back:
  assumes "canonicalDefinition tx raw = Inr text" and "decode_stream raw = Some (j, rest)"
  shows "\<exists>j'. parse_json text = Some j' \<and> to_any j' = simplified (shortenNamedReferences (to_any j) '''') False"
proof -
  have "any_ok (shortenNamedReferences (to_any j) '''')"
    by (rule shortened_ok(1) [OF to_any_ok [OF decode_stream_is_text [OF assms(2)]]])
  moreover have "writeCanonicalJSON (shortenNamedReferences (to_any j) '''') False = Inr text"
    using assms by (simp add: canonicalDefinition_def)
  ultimately have "text_of text (simplified (shortenNamedReferences (to_any j) '''') False)"
    by (intro written_text)
  then show ?thesis unfolding text_of_def using parse_print_json by blast
qed

end
