(* ===== verification/Bolt_Store.thy ===== *)
theory Bolt_Store
  imports Storage
begin

text \<open>
  \<open>internal/storage/bolt/store.go\<close>: the single-writer store on bbolt. The bbolt database is
  a third-party library: its operations are the record \<open>'db bbolt\<close> that every definition
  takes, and what the code relies on is the locale \<open>bbolt_laws\<close>, which states bbolt's
  documented behaviour (a bucket is a map from keys to values ordered by key bytes, a transaction
  that does not commit leaves the database as it was).
\<close>

section \<open>Keys\<close>

fun be_bytes :: "nat \<Rightarrow> nat \<Rightarrow> string" where
  "be_bytes 0 n = []"
| "be_bytes (Suc k) n = char_of (n div 256 ^ k) # be_bytes k (n mod 256 ^ k)"

definition be_value :: "string \<Rightarrow> nat" where
  "be_value s = foldl (\<lambda>n c. 256 * n + byte c) 0 s"

definition uint64Key :: "u64 \<Rightarrow> string" where
  "uint64Key value = be_bytes 8 (unat value)"

definition readSequence :: "string option \<Rightarrow> u64" where
  "readSequence value =
     (case value of None \<Rightarrow> 0 | Some v \<Rightarrow> if length v \<noteq> 8 then 0 else of_nat (be_value v))"

lemma length_be_bytes [simp]: "length (be_bytes k n) = k"
  by (induction k arbitrary: n) simp_all

lemma be_value_foldl: "foldl (\<lambda>n c. 256 * n + byte c) a s = a * 256 ^ length s + be_value s"
proof (induction s arbitrary: a)
  case (Cons c s)
  from Cons [of "256 * a + byte c"] Cons [of "byte c"] show ?case
    by (simp add: be_value_def algebra_simps)
qed (simp add: be_value_def)

lemma be_value_be_bytes: "n < 256 ^ k \<Longrightarrow> be_value (be_bytes k n) = n"
proof (induction k arbitrary: n)
  case (Suc k)
  have "n div 256 ^ k < 256" using Suc.prems by (simp add: less_mult_imp_div_less mult.commute)
  then have "be_value (be_bytes (Suc k) n) = n div 256 ^ k * 256 ^ k + be_value (be_bytes k (n mod 256 ^ k))"
    using be_value_foldl [of "n div 256 ^ k" "be_bytes k (n mod 256 ^ k)"] by (simp add: be_value_def)
  also have "\<dots> = n" using Suc.IH [of "n mod 256 ^ k"] div_mult_mod_eq [of n "256 ^ k"] by simp
  finally show ?case .
qed (simp add: be_value_def)

lemma readSequence_uint64Key [simp]: "readSequence (Some (uint64Key x)) = x"
  using be_value_be_bytes [of "unat x" 8] unat_lt_2_64 [of x] by (simp add: readSequence_def uint64Key_def)

text \<open>The byte order of keys is the order of the numbers.\<close>

lemma be_bytes_less:
  "m < 256 ^ k \<Longrightarrow> n < 256 ^ k \<Longrightarrow> be_bytes k m < be_bytes k n \<longleftrightarrow> m < n"
proof (induction k arbitrary: m n)
  case (Suc k)
  let ?a = "m div 256 ^ k" and ?b = "n div 256 ^ k"
  have ab: "?a < 256" "?b < 256" using Suc.prems by (simp_all add: less_mult_imp_div_less mult.commute)
  have ord: "char_of ?a < (char_of ?b :: char) \<longleftrightarrow> ?a < ?b" and eq: "(char_of ?a :: char) = char_of ?b \<longleftrightarrow> ?a = ?b"
    using ab by (simp_all add: less_char_def char_of_eq_iff take_bit_nat_eq_self)
  have IH: "be_bytes k (m mod 256 ^ k) < be_bytes k (n mod 256 ^ k) \<longleftrightarrow> m mod 256 ^ k < n mod 256 ^ k"
    by (rule Suc.IH) simp_all
  have m: "m = ?a * 256 ^ k + m mod 256 ^ k" and n: "n = ?b * 256 ^ k + n mod 256 ^ k"
    by (rule div_mult_mod_eq [symmetric])+
  have "m < n \<longleftrightarrow> ?a < ?b \<or> ?a = ?b \<and> m mod 256 ^ k < n mod 256 ^ k"
  proof (cases "?a = ?b")
    case True
    then show ?thesis using m n by (metis add_less_cancel_left less_irrefl)
  next
    case False
    then show ?thesis by (metis div_le_mono leD linorder_neqE_nat nat_less_le)
  qed
  with ord eq IH show ?case by simp
qed simp

lemma uint64Key_less [simp]: "uint64Key x < uint64Key y \<longleftrightarrow> x < y"
  using be_bytes_less [of "unat x" 8 "unat y"] unat_lt_2_64 [of x] unat_lt_2_64 [of y]
  by (simp add: uint64Key_def word_less_nat_alt)

lemma uint64Key_inject [simp]: "uint64Key x = uint64Key y \<longleftrightarrow> x = y"
  by (metis readSequence_uint64Key)

section \<open>The store\<close>

record 'db bbolt =
  bb_Get :: "'db \<Rightarrow> string \<Rightarrow> string \<Rightarrow> string option"
  bb_Put :: "string \<Rightarrow> string \<Rightarrow> string \<Rightarrow> 'db \<Rightarrow> go_error + 'db"
  bb_CreateBucketIfNotExists :: "string \<Rightarrow> 'db \<Rightarrow> go_error + 'db"
  bb_Seek :: "'db \<Rightarrow> string \<Rightarrow> string \<Rightarrow> (string \<times> string) list"
  bb_KeyN :: "'db \<Rightarrow> string \<Rightarrow> nat"
  bb_TxCommit :: "'db \<Rightarrow> 'db \<Rightarrow> go_error option \<times> 'db"
  bb_WriteTo :: "'db \<Rightarrow> go_error + string"
  bb_Close :: "'db \<Rightarrow> go_error option"

record 'db BoltStore =
  bs_db :: 'db
  bs_path :: string
  bs_closed :: bool
  bs_lastErr :: "go_error option"

abbreviation metaBucket :: string where "metaBucket \<equiv> ''meta''"
abbreviation transitionsBucket :: string where "transitionsBucket \<equiv> ''transitions''"
abbreviation formatKey :: string where "formatKey \<equiv> ''format-version''"
abbreviation sequenceKey :: string where "sequenceKey \<equiv> ''last-sequence''"
abbreviation snapshotKey :: string where "snapshotKey \<equiv> ''snapshot''"

definition view :: "('db \<Rightarrow> 'a) \<Rightarrow> 'db BoltStore \<Rightarrow> go_error + 'a" where
  "view fn st = (if bs_closed st then Inl ErrClosed else Inr (fn (bs_db st)))"

text \<open>A read-write transaction: rolled back when the function fails.\<close>

definition update :: "'db bbolt \<Rightarrow> ('db \<Rightarrow> go_error + 'db) \<Rightarrow> 'db BoltStore \<Rightarrow> go_error option \<times> 'db BoltStore" where
  "update api fn st =
     (if bs_closed st then (Some ErrClosed, st)
      else case fn (bs_db st) of
        Inl err \<Rightarrow> (Some err, st)
      | Inr tx \<Rightarrow> (case bb_TxCommit api (bs_db st) tx of (err, db) \<Rightarrow> (err, st\<lparr>bs_db := db\<rparr>)))"

definition recordError :: "go_error option \<Rightarrow> 'db BoltStore \<Rightarrow> 'db BoltStore" where
  "recordError err st =
     (case err of None \<Rightarrow> st
      | Some e \<Rightarrow>
          if errors_Is e ''context canceled'' \<or> errors_Is e ''context deadline exceeded'' then st
          else st\<lparr>bs_lastErr := Some e\<rparr>)"

definition open_tx :: "'db bbolt \<Rightarrow> 'db \<Rightarrow> go_error + 'db" where
  "open_tx api tx =
     (case bb_CreateBucketIfNotExists api metaBucket tx of
        Inl err \<Rightarrow> Inl err
      | Inr tx1 \<Rightarrow>
          (case bb_CreateBucketIfNotExists api transitionsBucket tx1 of
             Inl err \<Rightarrow> Inl err
           | Inr tx2 \<Rightarrow>
               (case bb_Get api tx2 metaBucket formatKey of
                  None \<Rightarrow>
                    (case bb_Put api metaBucket formatKey (uint64Key 1) tx2 of
                       Inl err \<Rightarrow> Inl err
                     | Inr tx3 \<Rightarrow> bb_Put api metaBucket sequenceKey (uint64Key 0) tx3)
                | Some stored \<Rightarrow>
                    if length stored \<noteq> 8
                    then Inl (FmtErr ''invalid bbolt format version encoding'' [] None)
                    else if readSequence (Some stored) \<noteq> 1
                    then Inl (FmtErr ''unsupported bbolt format version %d'' [ANat (readSequence (Some stored))] None)
                    else Inr tx2)))"

text \<open>\<open>opened\<close> is what \<open>bolt.Open\<close> returns for the path.\<close>

definition bolt_Open :: "'db bbolt \<Rightarrow> string \<Rightarrow> go_error + 'db \<Rightarrow> go_error + 'db BoltStore" where
  "bolt_Open api path opened =
     (if path = '''' then Inl (FmtErr ''bbolt path is required'' [] None)
      else case opened of
        Inl err \<Rightarrow> Inl (FmtErr ''open bbolt store: %w'' [] (Some err))
      | Inr db \<Rightarrow>
          (case update api (open_tx api) \<lparr>bs_db = db, bs_path = path, bs_closed = False, bs_lastErr = None\<rparr> of
             (Some err, _) \<Rightarrow> Inl (FmtErr ''initialize bbolt store: %w'' [] (Some err))
           | (None, st) \<Rightarrow> Inr st))"

definition bolt_Capabilities :: Capabilities where
  "bolt_Capabilities = \<lparr>cap_Writable = True, cap_Replay = True, cap_Snapshots = True, cap_Backup = True,
     cap_MultiReplica = False, cap_Leadership = False, cap_ConsistentSequence = True\<rparr>"

definition commit_tx :: "'db bbolt \<Rightarrow> Envelope \<Rightarrow> 'db \<Rightarrow> go_error + 'db" where
  "commit_tx api e tx =
     (let last = readSequence (bb_Get api tx metaBucket sequenceKey);
          key = uint64Key (env_Sequence e);
          encoded = marshal_Envelope e
      in if env_Sequence e \<le> last then
           (if bb_Get api tx transitionsBucket key = Some encoded then Inr tx
            else Inl (FmtErr ''sequence %d conflicts with an existing transition'' [ANat (env_Sequence e)] None))
         else if env_Sequence e \<noteq> last + 1 then
           Inl (FmtErr ''sequence %d does not follow %d'' [ANat (env_Sequence e), ANat last] None)
         else case bb_Put api transitionsBucket key encoded tx of
           Inl err \<Rightarrow> Inl err
         | Inr tx' \<Rightarrow> bb_Put api metaBucket sequenceKey (uint64Key (env_Sequence e)) tx')"

definition bolt_Commit :: "'db bbolt \<Rightarrow> 'db BoltStore committer" where
  "bolt_Commit api ctx e st =
     (case ctx of Some err \<Rightarrow> (Some err, st)
      | None \<Rightarrow>
          (case Validate e of Some err \<Rightarrow> (Some err, st)
           | None \<Rightarrow>
               (case update api (commit_tx api e) st of
                  (err, st') \<Rightarrow> (err, recordError err st'))))"

fun replay_loop :: "polls \<Rightarrow> nat \<Rightarrow> u64 \<Rightarrow> (string \<times> string) list \<Rightarrow> 'a callback \<Rightarrow> 'a \<Rightarrow> go_error + 'a" where
  "replay_loop polls i expected [] fn a = Inr a"
| "replay_loop polls i expected ((key, value) # rest) fn a =
     (case polls i of Some err \<Rightarrow> Inl err
      | None \<Rightarrow>
          (case unmarshal_Envelope value of
             None \<Rightarrow> Inl (FmtErr ''decode transition at sequence %d: %w'' [ANat expected] (Some JsonErr))
           | Some e \<Rightarrow>
               if env_Sequence e \<noteq> expected
               then Inl (FmtErr ''transition sequence %d does not follow %d''
                      [ANat (env_Sequence e), ANat (expected - 1)] None)
               else case Validate e of Some err \<Rightarrow> Inl err
                 | None \<Rightarrow>
                     (case fn a e of Inl err \<Rightarrow> Inl err
                      | Inr a' \<Rightarrow> replay_loop polls (Suc i) (expected + 1) rest fn a')))"

definition error_of :: "go_error + 'a \<Rightarrow> go_error option" where
  "error_of x = (case x of Inl err \<Rightarrow> Some err | Inr _ \<Rightarrow> None)"

text \<open>The callback is never nil here: \<open>apply\<close> is a function.\<close>

definition bolt_Replay :: "'db bbolt \<Rightarrow> polls \<Rightarrow> u64 \<Rightarrow> 'a callback \<Rightarrow> 'a \<Rightarrow> 'db BoltStore
    \<Rightarrow> (go_error + 'a) \<times> 'db BoltStore" where
  "bolt_Replay api polls after fn a st =
     (let out = (case view (\<lambda>tx. replay_loop polls 0 (after + 1)
                   (bb_Seek api tx transitionsBucket (uint64Key (after + 1))) fn a) st of
                   Inl err \<Rightarrow> Inl err | Inr r \<Rightarrow> r)
      in (out, recordError (error_of out) st))"

definition load_tx :: "'db bbolt \<Rightarrow> 'db \<Rightarrow> go_error + Snapshot option" where
  "load_tx api tx =
     (case bb_Get api tx metaBucket snapshotKey of
        None \<Rightarrow> Inr None
      | Some raw \<Rightarrow>
          (case unmarshal_Snapshot raw of
             None \<Rightarrow> Inl (FmtErr ''decode snapshot: %w'' [] (Some JsonErr))
           | Some decoded \<Rightarrow>
               (case Restore decoded of Inl err \<Rightarrow> Inl err | Inr _ \<Rightarrow> Inr (Some decoded))))"

definition bolt_LoadSnapshot :: "'db bbolt \<Rightarrow> ctx \<Rightarrow> 'db BoltStore \<Rightarrow> (go_error + Snapshot option) \<times> 'db BoltStore" where
  "bolt_LoadSnapshot api ctx st =
     (case ctx of Some err \<Rightarrow> (Inl err, st)
      | None \<Rightarrow>
          (let out = (case view (load_tx api) st of Inl err \<Rightarrow> Inl err | Inr r \<Rightarrow> r)
           in (out, recordError (error_of out) st)))"

definition save_tx :: "'db bbolt \<Rightarrow> Snapshot \<Rightarrow> 'db \<Rightarrow> go_error + 'db" where
  "save_tx api snapshot tx =
     (let last = readSequence (bb_Get api tx metaBucket sequenceKey)
      in if snap_Sequence snapshot > last
         then Inl (FmtErr ''snapshot sequence %d exceeds committed sequence %d''
                [ANat (snap_Sequence snapshot), ANat last] None)
         else bb_Put api metaBucket snapshotKey (marshal_Snapshot snapshot) tx)"

definition bolt_SaveSnapshot :: "'db bbolt \<Rightarrow> ctx \<Rightarrow> Snapshot \<Rightarrow> 'db BoltStore \<Rightarrow> go_error option \<times> 'db BoltStore" where
  "bolt_SaveSnapshot api ctx snapshot st =
     (case ctx of Some err \<Rightarrow> (Some err, st)
      | None \<Rightarrow>
          (case Restore snapshot of Inl err \<Rightarrow> (Some err, st)
           | Inr _ \<Rightarrow>
               (case update api (save_tx api snapshot) st of
                  (err, st') \<Rightarrow> (err, recordError err st'))))"

definition restore_tx :: "'db bbolt \<Rightarrow> Snapshot \<Rightarrow> 'db \<Rightarrow> go_error + 'db" where
  "restore_tx api snapshot tx =
     (if readSequence (bb_Get api tx metaBucket sequenceKey) \<noteq> 0
         \<or> bb_KeyN api tx transitionsBucket \<noteq> 0 \<or> bb_Get api tx metaBucket snapshotKey \<noteq> None
      then Inl (FmtErr ''restore target is not empty'' [] None)
      else case bb_Put api metaBucket snapshotKey (marshal_Snapshot snapshot) tx of
        Inl err \<Rightarrow> Inl err
      | Inr tx' \<Rightarrow> bb_Put api metaBucket sequenceKey (uint64Key (snap_Sequence snapshot)) tx')"

definition bolt_RestoreSnapshot :: "'db bbolt \<Rightarrow> ctx \<Rightarrow> Snapshot \<Rightarrow> 'db BoltStore \<Rightarrow> go_error option \<times> 'db BoltStore" where
  "bolt_RestoreSnapshot api ctx snapshot st =
     (case ctx of Some err \<Rightarrow> (Some err, st)
      | None \<Rightarrow>
          (case Restore snapshot of Inl err \<Rightarrow> (Some err, st)
           | Inr _ \<Rightarrow>
               (case update api (restore_tx api snapshot) st of
                  (err, st') \<Rightarrow> (err, recordError err st'))))"

text \<open>The bytes written to the destination, which is never nil here.\<close>

definition bolt_Backup :: "'db bbolt \<Rightarrow> ctx \<Rightarrow> 'db BoltStore \<Rightarrow> (go_error + string) \<times> 'db BoltStore" where
  "bolt_Backup api ctx st =
     (let out = (case view (\<lambda>tx. case ctx of Some err \<Rightarrow> Inl err | None \<Rightarrow> bb_WriteTo api tx) st of
                   Inl err \<Rightarrow> Inl err | Inr r \<Rightarrow> r)
      in (out, recordError (error_of out) st))"

text \<open>The detail is the error itself, and the time of the check is left out.\<close>

definition bolt_Health :: "'db bbolt \<Rightarrow> ctx \<Rightarrow> 'db BoltStore \<Rightarrow> Health" where
  "bolt_Health api ctx st =
     (let read = (case view (\<lambda>tx. case ctx of Some err \<Rightarrow> Inl err
                    | None \<Rightarrow> Inr (readSequence (bb_Get api tx metaBucket sequenceKey))) st of
                    Inl err \<Rightarrow> Inl err | Inr r \<Rightarrow> r);
          lastErr = (case read of Inl err \<Rightarrow> Some err | Inr _ \<Rightarrow> bs_lastErr st)
      in \<lparr>he_Healthy = (\<not> bs_closed st \<and> lastErr = None), he_Writable = (\<not> bs_closed st),
          he_LastSequence = (case read of Inl _ \<Rightarrow> 0 | Inr q \<Rightarrow> q),
          he_Detail = (if bs_closed st then None else lastErr), he_Closed = bs_closed st\<rparr>)"

definition bolt_Close :: "'db bbolt \<Rightarrow> 'db BoltStore \<Rightarrow> go_error option \<times> 'db BoltStore" where
  "bolt_Close api st =
     (if bs_closed st then (None, st) else (bb_Close api (bs_db st), st\<lparr>bs_closed := True\<rparr>))"

definition bolt_Store :: "'db bbolt \<Rightarrow> 'db BoltStore Store" where
  "bolt_Store api =
     \<lparr>st_Commit = bolt_Commit api, st_LoadSnapshot = bolt_LoadSnapshot api,
      st_SaveSnapshot = bolt_SaveSnapshot api, st_Replay = bolt_Replay api,
      st_RestoreSnapshot = Some (bolt_RestoreSnapshot api)\<rparr>"

end
