(* ===== verification/Transition_Log.thy ===== *)
theory Transition_Log
  imports Storage
begin

text \<open>
  The log both stores keep: transitions with consecutive sequence numbers after the one a restored
  snapshot ends at, and the state a snapshot and the transitions after it lead to.
\<close>

text \<open>Valid transitions with consecutive sequences after \<open>a\<close>.\<close>

definition log_from :: "nat \<Rightarrow> Envelope list \<Rightarrow> bool" where
  "log_from a log \<longleftrightarrow> a + length log + 1 < 2 ^ 64
     \<and> (\<forall>i < length log. unat (env_Sequence (log ! i)) = a + i + 1)
     \<and> (\<forall>e \<in> set log. Validate e = None \<and> payload_ok e \<and> envelope_utf8 e)"

lemma log_from_Cons:
  "log_from a (e # log) \<longleftrightarrow> unat (env_Sequence e) = a + 1 \<and> Validate e = None \<and> payload_ok e \<and> envelope_utf8 e
     \<and> log_from (Suc a) log"
proof -
  have "(\<forall>i < Suc n. P i) \<longleftrightarrow> P 0 \<and> (\<forall>i < n. P (Suc i))" for n :: nat and P
    by (metis less_Suc_eq_0_disj)
  then show ?thesis by (auto simp: log_from_def)
qed

lemma log_from_snoc:
  "log_from a (log @ [e]) \<longleftrightarrow> log_from a log \<and> unat (env_Sequence e) = a + length log + 1
     \<and> a + length log + 2 < 2 ^ 64 \<and> Validate e = None \<and> payload_ok e \<and> envelope_utf8 e"
  by (auto simp: log_from_def nth_append less_Suc_eq)

lemma log_from_drop: "log_from a log \<Longrightarrow> n \<le> length log \<Longrightarrow> log_from (a + n) (drop n log)"
  by (auto simp: log_from_def dest: in_set_dropD)

lemma apply_all_start:
  assumes "apply_all s log = Inr s'" and "log_from a log" and "log \<noteq> []"
  shows "unat (snap_Sequence s) = a"
proof -
  obtain e es where log: "log = e # es" using assms(3) by (cases log) auto
  then obtain t where "Apply s e = Inr t" using assms(1) by (cases "Apply s e") auto
  then have "env_Sequence e = snap_Sequence s + 1" and "env_Sequence e \<noteq> 0"
    by (auto elim!: Apply_Inr simp: Validate_None_iff)
  moreover have "unat (env_Sequence e) = a + 1" using assms(2) log by (simp add: log_from_Cons)
  ultimately show ?thesis using unatSuc [of "snap_Sequence s"] by (simp add: add.commute)
qed

lemma log_state_Sequence:
  assumes "apply_all base (drop (unat (snap_Sequence base) - a) log) = Inr s"
    and "a \<le> unat (snap_Sequence base)" and "unat (snap_Sequence base) \<le> a + length log"
  shows "snap_Sequence s = of_nat (a + length log)"
proof -
  let ?b = "unat (snap_Sequence base)"
  have "snap_Sequence s = snap_Sequence base + of_nat (length log - (?b - a))"
    using apply_all_Sequence [OF assms(1)] by simp
  also have "snap_Sequence base = of_nat ?b" by (rule u64_eq_of_nat) simp
  finally show ?thesis using assms(2,3) by (simp add: add.commute flip: of_nat_add)
qed

text \<open>A snapshot \<open>base\<close> whose sequence lies in the log, and the state \<open>s\<close> that the
  transitions after it lead to.\<close>

definition logged :: "State \<Rightarrow> nat \<Rightarrow> Envelope list \<Rightarrow> State \<Rightarrow> bool" where
  "logged base a log s \<longleftrightarrow> log_from a log \<and> a \<le> unat (snap_Sequence base)
     \<and> unat (snap_Sequence base) \<le> a + length log
     \<and> apply_all base (drop (unat (snap_Sequence base) - a) log) = Inr s"

lemma logged_Sequence: "logged base a log s \<Longrightarrow> snap_Sequence s = of_nat (a + length log)"
  unfolding logged_def by (blast intro: log_state_Sequence)

lemma logged_start: "snap_Sequence s + 1 \<noteq> 0 \<Longrightarrow> logged s (unat (snap_Sequence s)) [] s"
  using unatSuc [of "snap_Sequence s"] unat_lt_2_64 [of "snap_Sequence s + 1"]
  by (simp add: logged_def log_from_def add.commute)

lemma logged_rebase:
  assumes "logged base a log s"
  shows "logged s a log s"
proof -
  have "a + length log < 2 ^ 64" using assms by (simp add: logged_def log_from_def)
  then have "unat (snap_Sequence s) = a + length log"
    unfolding logged_Sequence [OF assms] by (rule unat_of_nat_u64)
  with assms show ?thesis by (simp add: logged_def)
qed

lemma logged_snoc:
  assumes "logged base a log s" and "Apply s e = Inr s'" and "payload_ok e" and "envelope_utf8 e"
    and "snap_Sequence s' + 1 \<noteq> 0"
  shows "logged base a (log @ [e]) s'" and "env_Sequence e = of_nat (a + length log + 1)"
    and "unat (env_Sequence e) = a + length log + 1"
proof -
  have e: "env_Sequence e = snap_Sequence s + 1" "Validate e = None" "snap_Sequence s' = env_Sequence e"
    using assms(2) by (auto elim!: Apply_Inr)
  show q: "env_Sequence e = of_nat (a + length log + 1)"
    using e(1) logged_Sequence [OF assms(1)] by (simp add: add.commute)
  have log: "log_from a log" using assms(1) by (simp add: logged_def)
  then show ue: "unat (env_Sequence e) = a + length log + 1"
    unfolding q by (intro unat_of_nat_u64) (simp add: log_from_def)
  have "unat (snap_Sequence s' + 1) = a + length log + 2"
    using unatSuc [of "snap_Sequence s'"] assms(5) e(3) ue by (simp add: add.commute)
  then have "a + length log + 2 < 2 ^ 64" using unat_lt_2_64 [of "snap_Sequence s' + 1"] by simp
  with log ue e(2) assms(3,4) have "log_from a (log @ [e])" by (simp add: log_from_snoc)
  with assms(1,2) show "logged base a (log @ [e]) s'"
    by (simp add: logged_def apply_all_append)
qed

end
