(* ===== verification/Bolt_Recovery.thy ===== *)
theory Bolt_Recovery
  imports Bolt_Store Transition_Log
begin

text \<open>
  What the bbolt store guarantees: a store that holds a state recovers exactly that state, a
  commit that succeeds makes it hold the next one and a commit that fails changes nothing that is
  recovered, and snapshots move neither. The laws of bbolt are those of its documentation.
\<close>

section \<open>What the code relies on of bbolt\<close>

text \<open>\<open>bb_Seek api db b k\<close> is what a cursor returns from \<open>Seek(k)\<close> on, so with the empty
  key it is the whole bucket.\<close>

locale bbolt_laws =
  fixes api :: "'db bbolt"
  assumes seek_sorted: "sorted_wrt (<) (map fst (bb_Seek api db b ''''))"
    and seek_from: "bb_Seek api db b k = dropWhile (\<lambda>(k', _). k' < k) (bb_Seek api db b '''')"
    and get_seek: "bb_Get api db b k = map_of (bb_Seek api db b '''') k"
    and put_get: "bb_Put api b k v db = Inr db' \<Longrightarrow>
      bb_Get api db' b' k' = (if b' = b \<and> k' = k then Some v else bb_Get api db b' k')"
    and create_get: "bb_CreateBucketIfNotExists api b db = Inr db' \<Longrightarrow> bb_Get api db' b' k' = bb_Get api db b' k'"
    and key_n: "bb_KeyN api db b = length (bb_Seek api db b '''')"
    and commit_ok: "bb_TxCommit api db tx = (None, db') \<Longrightarrow> db' = tx"
    and commit_err: "bb_TxCommit api db tx = (Some err, db') \<Longrightarrow> db' = db"

section \<open>The states a store holds\<close>

definition transition_entries :: "Envelope list \<Rightarrow> (string \<times> string) list" where
  "transition_entries log = map (\<lambda>e. (uint64Key (env_Sequence e), marshal_Envelope e)) log"

definition bolt_has :: "'db bbolt \<Rightarrow> 'db BoltStore \<Rightarrow> State \<Rightarrow> bool" where
  "bolt_has api st s \<longleftrightarrow> \<not> bs_closed st \<and>
     (\<exists>a log sn. let db = bs_db st; base = (case sn of None \<Rightarrow> NewState | Some b \<Rightarrow> b);
         b = unat (snap_Sequence base) in
       load_tx api db = Inr sn \<and> log_from a log \<and> a \<le> b \<and> b \<le> a + length log
       \<and> bb_Seek api db transitionsBucket '''' = transition_entries log
       \<and> bb_Get api db metaBucket sequenceKey = Some (uint64Key (of_nat (a + length log)))
       \<and> apply_all base (drop (b - a) log) = Inr s)"

text \<open>At the largest sequence number nothing is promised: the code looks for the transitions after
  it from number 0 on.\<close>

definition bolt_holds :: "'db bbolt \<Rightarrow> 'db BoltStore \<Rightarrow> State \<Rightarrow> bool" where
  "bolt_holds api st s \<longleftrightarrow> snap_Sequence s + 1 = 0 \<or> bolt_has api st s"

lemma replay_loop_apply_all:
  "log_from a log \<Longrightarrow>
     replay_loop (\<lambda>_. None) i (of_nat (a + 1)) (transition_entries log) Apply s = apply_all s log"
proof (induction log arbitrary: a i s)
  case (Cons e log)
  then have e: "unat (env_Sequence e) = a + 1" "Validate e = None" "payload_ok e" "envelope_utf8 e"
    and log: "log_from (Suc a) log" by (simp_all add: log_from_Cons)
  have "env_Sequence e = of_nat (a + 1)" using e(1) by (rule u64_eq_of_nat)
  then show ?case
    using e Cons.IH [OF log]
    by (simp add: transition_entries_def unmarshal_marshal_Envelope add.commute split: sum.split)
qed (simp add: transition_entries_def)

lemma dropWhile_drop:
  assumes "n \<le> length xs" and "\<And>i. i < n \<Longrightarrow> P (xs ! i)" and "n < length xs \<Longrightarrow> \<not> P (xs ! n)"
  shows "dropWhile P xs = drop n xs"
  using assms
proof (induction xs arbitrary: n)
  case (Cons x xs)
  show ?case
  proof (cases n)
    case 0
    with Cons.prems(3) show ?thesis by simp
  next
    case (Suc k)
    have "P x" using Cons.prems(2) [of 0] Suc by simp
    moreover have "dropWhile P xs = drop k xs"
      using Cons.prems Suc Cons.prems(2) [of "Suc _"] by (intro Cons.IH) auto
    ultimately show ?thesis by (simp add: Suc)
  qed
qed simp

lemma seek_transitions:
  assumes "log_from a log" and "a \<le> b" and "b \<le> a + length log" and "b + 1 < 2 ^ 64"
  shows "dropWhile (\<lambda>(k', _). k' < uint64Key (of_nat (b + 1))) (transition_entries log)
    = transition_entries (drop (b - a) log)"
proof -
  have key: "uint64Key (env_Sequence (log ! i)) < uint64Key (of_nat (b + 1)) \<longleftrightarrow> i < b - a" if "i < length log" for i
  proof -
    have "unat (of_nat (b + 1) :: u64) = b + 1" using assms(4) by (rule unat_of_nat_u64)
    then show ?thesis
      using assms(1,2) that by (auto simp: log_from_def word_less_nat_alt simp del: of_nat_add of_nat_Suc)
  qed
  have "dropWhile (\<lambda>(k', _). k' < uint64Key (of_nat (b + 1))) (transition_entries log)
      = drop (b - a) (transition_entries log)"
    using assms(2,3) key by (intro dropWhile_drop) (auto simp: transition_entries_def)
  then show ?thesis by (simp add: transition_entries_def drop_map)
qed

lemma load_tx_Restore:
  "load_tx api db = Inr (Some b) \<Longrightarrow> Restore b = Inr b"
  by (auto simp: load_tx_def Restore_def split: option.splits sum.splits if_splits)

lemma recordError_None [simp]: "recordError None st = st"
  by (simp add: recordError_def)

lemma bs_db_recordError [simp]: "bs_db (recordError e st) = bs_db st" "bs_closed (recordError e st) = bs_closed st"
  by (simp_all add: recordError_def split: option.split)

lemma bolt_has_db:
  "bs_db st' = bs_db st \<Longrightarrow> bs_closed st' = bs_closed st \<Longrightarrow> bolt_has api st' s = bolt_has api st s"
  by (simp add: bolt_has_def)

lemma alist_unique:
  fixes xs ys :: "(string \<times> string) list"
  assumes "sorted_wrt (<) (map fst xs)" and "sorted_wrt (<) (map fst ys)" and "map_of xs = map_of ys"
  shows "xs = ys"
proof -
  have d: "distinct (map fst xs)" "distinct (map fst ys)" "sorted (map fst xs)" "sorted (map fst ys)"
    using assms(1,2) by (simp_all add: strict_sorted_iff)
  have "set xs = set ys"
    using d(1,2) assms(3) by (metis map_of_eq_Some_iff subset_antisym subrelI)
  moreover have "inj_on fst (set xs \<union> set ys)"
    using d(1) calculation by (simp add: distinct_map)
  ultimately show ?thesis using d by (intro map_sorted_distinct_set_unique)
qed

lemma sorted_transition_entries:
  "log_from a log \<Longrightarrow> sorted_wrt (<) (map fst (transition_entries log))"
  by (auto simp: transition_entries_def sorted_wrt_iff_nth_less log_from_def word_less_nat_alt)

context bbolt_laws
begin

lemma recover_has:
  assumes "bolt_has api st s"
  shows "recoverState (bolt_Store api) None (\<lambda>_. None) st = (Inr s, st)"
proof -
  obtain a log sn where db: "load_tx api (bs_db st) = Inr sn" "log_from a log"
    and "\<not> bs_closed st"
    and base: "a \<le> unat (snap_Sequence (case sn of None \<Rightarrow> NewState | Some b \<Rightarrow> b))"
      "unat (snap_Sequence (case sn of None \<Rightarrow> NewState | Some b \<Rightarrow> b)) \<le> a + length log"
    and tr: "bb_Seek api (bs_db st) transitionsBucket '''' = transition_entries log"
    and app: "apply_all (case sn of None \<Rightarrow> NewState | Some b \<Rightarrow> b)
      (drop (unat (snap_Sequence (case sn of None \<Rightarrow> NewState | Some b \<Rightarrow> b)) - a) log) = Inr s"
    using assms by (auto simp: bolt_has_def Let_def)
  define base where "base = (case sn of None \<Rightarrow> NewState | Some b \<Rightarrow> b)"
  let ?b = "unat (snap_Sequence base)"
  have b: "snap_Sequence base + 1 = of_nat (?b + 1)"
    using u64_eq_of_nat [of "snap_Sequence base" ?b] by (simp add: add.commute)
  have lt: "?b + 1 < 2 ^ 64" using base db(2) by (auto simp: log_from_def base_def)
  have "bb_Seek api (bs_db st) transitionsBucket (uint64Key (snap_Sequence base + 1))
      = transition_entries (drop (?b - a) log)"
  proof -
    have "bb_Seek api (bs_db st) transitionsBucket (uint64Key (snap_Sequence base + 1))
        = dropWhile (\<lambda>(k', _). k' < uint64Key (of_nat (?b + 1))) (transition_entries log)"
      using seek_from [of "bs_db st" transitionsBucket "uint64Key (snap_Sequence base + 1)"]
      by (simp only: tr b)
    also have "\<dots> = transition_entries (drop (?b - a) log)"
      using base db(2) lt unfolding base_def by (intro seek_transitions)
    finally show ?thesis .
  qed
  moreover have "replay_loop (\<lambda>_. None) 0 (snap_Sequence base + 1) (transition_entries (drop (?b - a) log)) Apply base
      = apply_all base (drop (?b - a) log)"
  proof -
    have "log_from (a + (?b - a)) (drop (?b - a) log)"
      using db(2) base by (intro log_from_drop) (auto simp: base_def)
    then have "log_from ?b (drop (?b - a) log)" using base by (simp add: base_def)
    from replay_loop_apply_all [OF this] show ?thesis by (simp only: b)
  qed
  ultimately have replay: "bolt_Replay api (\<lambda>_. None) (snap_Sequence base) Apply base st = (Inr s, st)"
    using app \<open>\<not> bs_closed st\<close> by (simp add: bolt_Replay_def view_def base_def error_of_def)
  have load: "bolt_LoadSnapshot api None st = (Inr sn, st)"
    using db(1) \<open>\<not> bs_closed st\<close> by (simp add: bolt_LoadSnapshot_def view_def error_of_def)
  have "(case sn of None \<Rightarrow> Inr NewState | Some sn \<Rightarrow> Restore sn) = Inr base"
    using load_tx_Restore db(1) by (auto simp: base_def split: option.split)
  with load replay show ?thesis by (simp add: recoverState_def bolt_Store_def)
qed

lemma put_seek:
  assumes "bb_Put api b k v db = Inr db'" and "b' \<noteq> b"
  shows "bb_Seek api db' b' '''' = bb_Seek api db b' ''''"
  using put_get [OF assms(1)] assms(2)
  by (intro alist_unique seek_sorted) (simp add: fun_eq_iff flip: get_seek)

lemma load_put:
  assumes "bb_Put api b k v db = Inr db'" and "\<not> (b = metaBucket \<and> k = snapshotKey)"
  shows "load_tx api db' = load_tx api db"
proof -
  have "bb_Get api db' metaBucket snapshotKey = bb_Get api db metaBucket snapshotKey"
    using assms by (auto simp: put_get [OF assms(1)])
  then show ?thesis by (simp add: load_tx_def)
qed

lemma commit_tx_next:
  assumes "commit_tx api e db = Inr tx" and "bb_Get api db metaBucket sequenceKey = Some (uint64Key q)"
    and "env_Sequence e = q + 1" and "env_Sequence e \<noteq> 0"
  shows "bb_Get api tx b k =
    (if b = metaBucket \<and> k = sequenceKey then Some (uint64Key (env_Sequence e))
     else if b = transitionsBucket \<and> k = uint64Key (env_Sequence e) then Some (marshal_Envelope e)
     else bb_Get api db b k)"
    and "load_tx api tx = load_tx api db"
proof -
  have "\<not> env_Sequence e \<le> q"
    using assms(3,4) u64_plus1_greater [of q] by auto
  with assms obtain tx1 where
    p: "bb_Put api transitionsBucket (uint64Key (env_Sequence e)) (marshal_Envelope e) db = Inr tx1"
      "bb_Put api metaBucket sequenceKey (uint64Key (env_Sequence e)) tx1 = Inr tx"
    by (auto simp: commit_tx_def Let_def split: sum.splits)
  show "bb_Get api tx b k =
    (if b = metaBucket \<and> k = sequenceKey then Some (uint64Key (env_Sequence e))
     else if b = transitionsBucket \<and> k = uint64Key (env_Sequence e) then Some (marshal_Envelope e)
     else bb_Get api db b k)"
    by (simp add: put_get [OF p(2)] put_get [OF p(1)])
  show "load_tx api tx = load_tx api db"
    using load_put [OF p(1)] load_put [OF p(2)] by simp
qed

lemma update_cases:
  assumes "update api fn st = (err, st')" and "\<not> bs_closed st"
  shows "bs_closed st' = bs_closed st"
    and "err = None \<Longrightarrow> fn (bs_db st) = Inr (bs_db st')"
    and "err \<noteq> None \<Longrightarrow> bs_db st' = bs_db st"
  using assms commit_ok commit_err
  by (auto simp: update_def split: sum.splits prod.splits) (metis option.exhaust)+

lemma commit_tx_appends:
  assumes "commit_tx api e db = Inr tx" and "bb_Get api db metaBucket sequenceKey = Some (uint64Key q)"
    and "env_Sequence e = q + 1" and "env_Sequence e \<noteq> 0" and "log_from a (log @ [e])"
    and "bb_Seek api db transitionsBucket '''' = transition_entries log"
  shows "bb_Seek api tx transitionsBucket '''' = transition_entries (log @ [e])"
proof (rule alist_unique)
  have entries: "transition_entries (log @ [e]) = transition_entries log @ [(uint64Key (env_Sequence e), marshal_Envelope e)]"
    by (simp add: transition_entries_def)
  have "uint64Key (env_Sequence e) \<notin> fst ` set (transition_entries log)"
    using sorted_transition_entries [OF assms(5)] by (auto simp: transition_entries_def sorted_wrt_append)
  then have "map_of (transition_entries log) (uint64Key (env_Sequence e)) = None"
    by (simp only: map_of_eq_None_iff not_False_eq_True)
  then have "map_of (transition_entries (log @ [e])) k =
      (if k = uint64Key (env_Sequence e) then Some (marshal_Envelope e) else map_of (transition_entries log) k)" for k
    by (simp add: entries map_add_def split: option.split)
  moreover have "bb_Get api db transitionsBucket k = map_of (transition_entries log) k" for k
    using get_seek [of db transitionsBucket k] assms(6) by simp
  ultimately show "map_of (bb_Seek api tx transitionsBucket '''') = map_of (transition_entries (log @ [e]))"
    by (simp add: fun_eq_iff commit_tx_next(1) [OF assms(1-4)] flip: get_seek)
qed (rule seek_sorted sorted_transition_entries [OF assms(5)])+

lemma Commit_success_has:
  assumes "bolt_has api st s" and "Apply s e = Inr s'" and "payload_ok e" and "envelope_utf8 e"
    and "bolt_Commit api ctx e st = (None, st')" and "snap_Sequence s' + 1 \<noteq> 0"
  shows "bolt_has api st' s'"
proof -
  obtain a log sn where db: "load_tx api (bs_db st) = Inr sn" "log_from a log" and open_: "\<not> bs_closed st"
    and base: "a \<le> unat (snap_Sequence (case sn of None \<Rightarrow> NewState | Some b \<Rightarrow> b))"
      "unat (snap_Sequence (case sn of None \<Rightarrow> NewState | Some b \<Rightarrow> b)) \<le> a + length log"
    and tr: "bb_Seek api (bs_db st) transitionsBucket '''' = transition_entries log"
    and q: "bb_Get api (bs_db st) metaBucket sequenceKey = Some (uint64Key (of_nat (a + length log)))"
    and app: "apply_all (case sn of None \<Rightarrow> NewState | Some b \<Rightarrow> b)
      (drop (unat (snap_Sequence (case sn of None \<Rightarrow> NewState | Some b \<Rightarrow> b)) - a) log) = Inr s"
    using assms(1) by (auto simp: bolt_has_def Let_def)
  have seq: "snap_Sequence s = of_nat (a + length log)" using app base by (rule log_state_Sequence)
  have e: "env_Sequence e = of_nat (a + length log) + 1" "env_Sequence e \<noteq> 0" "Validate e = None"
    "snap_Sequence s' = env_Sequence e"
    using assms(2) seq by (auto elim!: Apply_Inr simp: Validate_None_iff)
  have len: "a + length log + 1 < 2 ^ 64" using db(2) by (simp add: log_from_def)
  have ue: "unat (env_Sequence e) = a + length log + 1"
    using e(1) unat_of_nat_u64 [OF len] by (simp add: add.commute)
  have "unat (snap_Sequence s' + 1) = a + length log + 2"
    using unatSuc [of "snap_Sequence s'"] assms(6) e(4) ue by (simp add: add.commute)
  then have room: "a + length log + 2 < 2 ^ 64" using unat_lt_2_64 [of "snap_Sequence s' + 1"] by simp
  have log': "log_from a (log @ [e])"
    using db(2) ue room e(3) assms(3,4) by (simp add: log_from_snoc)
  from assms(5) e(3) obtain st1 where upd: "update api (commit_tx api e) st = (None, st1)" "st' = recordError None st1"
    by (auto simp: bolt_Commit_def split: option.splits prod.splits)
  have tx: "commit_tx api e (bs_db st) = Inr (bs_db st')"
    using update_cases(2) [OF upd(1) open_] upd(2) by simp
  note next_ = commit_tx_next [OF tx q e(1,2)]
  have "bb_Seek api (bs_db st') transitionsBucket '''' = transition_entries (log @ [e])"
    by (rule commit_tx_appends [OF tx q e(1,2) log' tr])
  moreover have "bb_Get api (bs_db st') metaBucket sequenceKey = Some (uint64Key (of_nat (a + length (log @ [e]))))"
    using next_(1) e(1) by (simp add: add.commute)
  moreover have "load_tx api (bs_db st') = Inr sn" using next_(2) db(1) by simp
  moreover have "apply_all (case sn of None \<Rightarrow> NewState | Some b \<Rightarrow> b)
      (drop (unat (snap_Sequence (case sn of None \<Rightarrow> NewState | Some b \<Rightarrow> b)) - a) (log @ [e])) = Inr s'"
    using app base(2) assms(2) by (simp add: apply_all_append)
  moreover have "\<not> bs_closed st'" using update_cases(1) [OF upd(1) open_] upd(2) open_ by simp
  ultimately show ?thesis
    using base log' unfolding bolt_has_def Let_def
    by (intro conjI exI [of _ a] exI [of _ "log @ [e]"] exI [of _ sn]) simp_all
qed

lemma Commit_failure_has:
  assumes "bolt_has api st s" and "bolt_Commit api ctx e st = (Some err, st')"
  shows "bolt_has api st' s"
proof -
  have open_: "\<not> bs_closed st" using assms(1) by (simp add: bolt_has_def)
  have "bs_db st' = bs_db st \<and> bs_closed st' = bs_closed st"
  proof (cases "ctx = None \<and> Validate e = None")
    case True
    then obtain st1 where "update api (commit_tx api e) st = (Some err, st1)" "st' = recordError (Some err) st1"
      using assms(2) by (auto simp: bolt_Commit_def split: option.splits prod.splits)
    then show ?thesis using update_cases(1,3) [OF _ open_] by auto
  next
    case False
    then show ?thesis using assms(2) by (auto simp: bolt_Commit_def split: option.splits prod.splits)
  qed
  with bolt_has_db assms(1) show ?thesis by blast
qed

end

text \<open>The store is a durable committer for the machine.\<close>

sublocale bbolt_laws \<subseteq> durable_committer "bolt_Commit api" "bolt_holds api"
proof
  fix st s e s' ctx st'
  assume h: "bolt_holds api st s" and a: "Apply s e = Inr s'" and e: "payload_ok e" "envelope_utf8 e"
    and c: "bolt_Commit api ctx e st = (None, st')"
  have "snap_Sequence s + 1 \<noteq> 0" using a by (auto elim!: Apply_Inr simp: Validate_None_iff)
  with h Commit_success_has [OF _ a e c] show "bolt_holds api st' s'" by (auto simp: bolt_holds_def)
next
  fix st s e s' ctx err st'
  assume "bolt_holds api st s" and "bolt_Commit api ctx e st = (Some err, st')"
  then show "bolt_holds api st' s" using Commit_failure_has by (auto simp: bolt_holds_def)
qed

section \<open>Opening, snapshots and restore\<close>

lemma Restore_Inr: "Restore sn = Inr s \<longleftrightarrow> s = sn \<and> snap_FormatVersion sn = 1 \<and> state_ok sn"
  by (auto simp: Restore_def validate_None_iff [symmetric] split: option.splits)

lemma load_tx_stored:
  assumes "bb_Get api db metaBucket snapshotKey = Some (marshal_Snapshot sn)" and "snapshot_utf8 sn"
    and "Restore sn = Inr sn"
  shows "load_tx api db = Inr (Some sn)"
  using assms by (simp add: load_tx_def unmarshal_marshal_Snapshot)

context bbolt_laws
begin

lemma Open_empty_has:
  assumes "bolt_Open api path (Inr db) = Inr st" and "\<And>b k. bb_Get api db b k = None"
  shows "bolt_has api st NewState" and "bs_lastErr st = None"
proof -
  let ?st0 = "\<lparr>bs_db = db, bs_path = path, bs_closed = False, bs_lastErr = None\<rparr>"
  have upd: "update api (open_tx api) ?st0 = (None, st)"
    using assms(1) by (auto simp: bolt_Open_def split: if_splits prod.splits option.splits)
  then have tx: "open_tx api db = Inr (bs_db st)" and open_: "\<not> bs_closed st"
    using update_cases(1,2) [OF upd] by simp_all
  show "bs_lastErr st = None" using upd by (auto simp: update_def split: sum.splits prod.splits)
  obtain tx1 tx2 where c: "bb_CreateBucketIfNotExists api metaBucket db = Inr tx1"
    "bb_CreateBucketIfNotExists api transitionsBucket tx1 = Inr tx2"
    using tx by (auto simp: open_tx_def split: sum.splits)
  have none: "bb_Get api tx2 b k = None" for b k
    using create_get [OF c(1)] create_get [OF c(2)] assms(2) by simp
  obtain tx3 where p: "bb_Put api metaBucket formatKey (uint64Key 1) tx2 = Inr tx3"
    "bb_Put api metaBucket sequenceKey (uint64Key 0) tx3 = Inr (bs_db st)"
    using tx c none by (auto simp: open_tx_def split: sum.splits)
  have get: "bb_Get api (bs_db st) b k =
      (if b = metaBucket \<and> k = sequenceKey then Some (uint64Key 0)
       else if b = metaBucket \<and> k = formatKey then Some (uint64Key 1) else None)" for b k
    by (simp add: put_get [OF p(2)] put_get [OF p(1)] none)
  have "bb_Seek api (bs_db st) transitionsBucket '''' = []"
  proof -
    have "map_of (bb_Seek api (bs_db st) transitionsBucket '''') = Map.empty"
      by (simp add: fun_eq_iff get_seek [symmetric] get)
    then show ?thesis by (simp only: map_of_eq_empty_iff)
  qed
  moreover have "load_tx api (bs_db st) = Inr None" by (simp add: load_tx_def get)
  ultimately show "bolt_has api st NewState"
    unfolding bolt_has_def Let_def using open_ get
    by (intro conjI exI [of _ 0] exI [of _ "[]"] exI [of _ None])
      (simp_all add: log_from_def transition_entries_def NewState_def)
qed

lemma SaveSnapshot_has:
  assumes "bolt_has api st s" and "bolt_SaveSnapshot api ctx s st = (None, st')" and "snapshot_utf8 s"
  shows "bolt_has api st' s"
proof -
  obtain a log sn where db: "log_from a log" and open_: "\<not> bs_closed st"
    and base: "a \<le> unat (snap_Sequence (case sn of None \<Rightarrow> NewState | Some b \<Rightarrow> b))"
      "unat (snap_Sequence (case sn of None \<Rightarrow> NewState | Some b \<Rightarrow> b)) \<le> a + length log"
    and tr: "bb_Seek api (bs_db st) transitionsBucket '''' = transition_entries log"
    and q: "bb_Get api (bs_db st) metaBucket sequenceKey = Some (uint64Key (of_nat (a + length log)))"
    and app: "apply_all (case sn of None \<Rightarrow> NewState | Some b \<Rightarrow> b)
      (drop (unat (snap_Sequence (case sn of None \<Rightarrow> NewState | Some b \<Rightarrow> b)) - a) log) = Inr s"
    using assms(1) by (auto simp: bolt_has_def Let_def)
  have seq: "snap_Sequence s = of_nat (a + length log)" using app base by (rule log_state_Sequence)
  obtain st1 where r: "Restore s = Inr s" and upd: "update api (save_tx api s) st = (None, st1)"
    "st' = recordError None st1"
    using assms(2) by (auto simp: bolt_SaveSnapshot_def Restore_Inr split: option.splits sum.splits prod.splits)
  have "save_tx api s (bs_db st) = Inr (bs_db st')"
    using update_cases(2) [OF upd(1) open_] upd(2) by simp
  then have put: "bb_Put api metaBucket snapshotKey (marshal_Snapshot s) (bs_db st) = Inr (bs_db st')"
    by (auto simp: save_tx_def Let_def split: if_splits)
  have "load_tx api (bs_db st') = Inr (Some s)"
    by (rule load_tx_stored) (simp_all add: put_get [OF put] assms(3) r)
  moreover have "unat (snap_Sequence s) = a + length log"
    using db seq unat_of_nat_u64 [of "a + length log"] by (simp add: log_from_def)
  moreover have "bb_Seek api (bs_db st') transitionsBucket '''' = transition_entries log"
    using put_seek [OF put] tr by simp
  moreover have "bb_Get api (bs_db st') metaBucket sequenceKey = Some (uint64Key (of_nat (a + length log)))"
    using put_get [OF put] q by simp
  moreover have "\<not> bs_closed st'" using update_cases(1) [OF upd(1) open_] upd(2) open_ by simp
  ultimately show ?thesis
    using db unfolding bolt_has_def Let_def
    by (intro conjI exI [of _ a] exI [of _ log] exI [of _ "Some s"]) simp_all
qed

lemma RestoreSnapshot_has:
  assumes "bolt_RestoreSnapshot api ctx sn st = (None, st')" and "snapshot_utf8 sn" and "snap_Sequence sn + 1 \<noteq> 0"
  shows "bolt_has api st' sn"
proof -
  obtain st1 where r: "Restore sn = Inr sn" and upd: "update api (restore_tx api sn) st = (None, st1)"
    "st' = recordError None st1"
    using assms(1) by (auto simp: bolt_RestoreSnapshot_def Restore_Inr split: option.splits sum.splits prod.splits)
  have open_: "\<not> bs_closed st" using upd(1) by (auto simp: update_def split: if_splits)
  have tx: "restore_tx api sn (bs_db st) = Inr (bs_db st')"
    using update_cases(2) [OF upd(1) open_] upd(2) by simp
  then obtain tx1 where p: "bb_Put api metaBucket snapshotKey (marshal_Snapshot sn) (bs_db st) = Inr tx1"
    "bb_Put api metaBucket sequenceKey (uint64Key (snap_Sequence sn)) tx1 = Inr (bs_db st')"
    and n: "bb_KeyN api (bs_db st) transitionsBucket = 0"
    by (auto simp: restore_tx_def split: if_splits sum.splits)
  have "bb_Seek api (bs_db st') transitionsBucket '''' = []"
    using put_seek [OF p(1), of transitionsBucket] put_seek [OF p(2), of transitionsBucket] n key_n by simp
  moreover have "load_tx api (bs_db st') = Inr (Some sn)"
    by (rule load_tx_stored) (simp_all add: put_get [OF p(2)] put_get [OF p(1)] assms(2) r)
  moreover have "bb_Get api (bs_db st') metaBucket sequenceKey = Some (uint64Key (of_nat (unat (snap_Sequence sn))))"
    using put_get [OF p(2)] u64_eq_of_nat [OF refl, of "snap_Sequence sn"] by simp
  moreover have "unat (snap_Sequence sn) + 1 < 2 ^ 64"
    using unatSuc [of "snap_Sequence sn"] assms(3) unat_lt_2_64 [of "snap_Sequence sn + 1"] by (simp add: add.commute)
  moreover have "\<not> bs_closed st'" using update_cases(1) [OF upd(1) open_] upd(2) open_ by simp
  ultimately show ?thesis
    unfolding bolt_has_def Let_def
    by (intro conjI exI [of _ "unat (snap_Sequence sn)"] exI [of _ "[]"] exI [of _ "Some sn"])
      (simp_all add: log_from_def transition_entries_def)
qed

end

section \<open>A database in memory\<close>

text \<open>The laws of bbolt can hold: buckets as finite maps, every transaction commits.\<close>

type_synonym memdb = "string \<Rightarrow> (string, string) fmap"

definition mem_api :: "memdb bbolt" where
  "mem_api =
     \<lparr>bb_Get = (\<lambda>db b k. fmlookup (db b) k),
      bb_Put = (\<lambda>b k v db. Inr (db(b := fmupd k v (db b)))),
      bb_CreateBucketIfNotExists = (\<lambda>b db. Inr db),
      bb_Seek = (\<lambda>db b k. dropWhile (\<lambda>(k', _). k' < k) (sorted_list_of_fmap (db b))),
      bb_KeyN = (\<lambda>db b. length (sorted_list_of_fmap (db b))),
      bb_TxCommit = (\<lambda>db tx. (None, tx)),
      bb_WriteTo = (\<lambda>db. Inr []),
      bb_Close = (\<lambda>db. None)\<rparr>"

lemma sorted_fmap_keys: "sorted_wrt (<) (map fst (sorted_list_of_fmap m))"
  by (simp add: sorted_list_of_fmap_def comp_def sorted_list_of_fset.rep_eq strict_sorted_iff)

lemma map_of_sorted_list_of_fmap: "map_of (sorted_list_of_fmap m) = fmlookup m"
proof
  fix k
  have "fmap_of_list (sorted_list_of_fmap m) = m"
    by (intro fmap_of_list_enumerates) (simp_all add: distinct_sorted_list_of_fmap set_sorted_list_of_fmap)
  then show "map_of (sorted_list_of_fmap m) k = fmlookup m k"
    by (metis fmlookup_of_list)
qed

interpretation mem: bbolt_laws mem_api
proof
  have all: "dropWhile (\<lambda>(k', _). k' < []) xs = xs" for xs :: "(string \<times> string) list"
    by (cases xs) auto
  show "sorted_wrt (<) (map fst (bb_Seek mem_api db b []))" for db b
    by (simp add: mem_api_def all sorted_fmap_keys)
  show "bb_Seek mem_api db b k = dropWhile (\<lambda>(k', _). k' < k) (bb_Seek mem_api db b [])" for db b k
    by (simp add: mem_api_def all)
  show "bb_Get mem_api db b k = map_of (bb_Seek mem_api db b []) k" for db b k
    by (simp add: mem_api_def all map_of_sorted_list_of_fmap)
  show "bb_KeyN mem_api db b = length (bb_Seek mem_api db b [])" for db b
    by (simp add: mem_api_def all)
qed (auto simp: mem_api_def)

section \<open>Guarantees of the store\<close>

context bbolt_laws
begin

lemmas machine_store_holds = store_holds_state

end

lemma bolt_has_readSequence:
  assumes "bolt_has api st s"
  shows "readSequence (bb_Get api (bs_db st) metaBucket sequenceKey) = snap_Sequence s"
proof -
  obtain a log sn where
    base: "a \<le> unat (snap_Sequence (case sn of None \<Rightarrow> NewState | Some b \<Rightarrow> b))"
      "unat (snap_Sequence (case sn of None \<Rightarrow> NewState | Some b \<Rightarrow> b)) \<le> a + length log"
    and q: "bb_Get api (bs_db st) metaBucket sequenceKey = Some (uint64Key (of_nat (a + length log)))"
    and app: "apply_all (case sn of None \<Rightarrow> NewState | Some b \<Rightarrow> b)
      (drop (unat (snap_Sequence (case sn of None \<Rightarrow> NewState | Some b \<Rightarrow> b)) - a) log) = Inr s"
    using assms by (auto simp: bolt_has_def Let_def)
  show ?thesis using log_state_Sequence [OF app base] q by simp
qed

text \<open>Recovery is exact: after any sequence of commands on a machine that commits to a bbolt
  store opened on an empty file, successful, refused or failed in the store, a restart that loads
  the snapshot and replays the transitions gives exactly the state the machine had published.\<close>

theorem bolt_recovers_published_state:
  assumes "bbolt_laws api" and "bolt_Open api path (Inr db) = Inr st" and "\<forall>b k. bb_Get api db b k = None"
    and "runs (NewMachine NewState (Some (bolt_Commit api)) check st) m" and "snap_Sequence (m_state m) + 1 \<noteq> 0"
  shows "recoverState (bolt_Store api) None (\<lambda>_. None) (m_store m) = (Inr (m_state m), m_store m)"
proof -
  have "bolt_has api st NewState"
    using assms(3) by (intro bbolt_laws.Open_empty_has [OF assms(1,2)]) simp
  then have "bolt_holds api (m_store m) (m_state m)"
    using bbolt_laws.machine_store_holds [OF assms(1,4)] by (simp add: NewMachine_def bolt_holds_def)
  with assms(5) have "bolt_has api (m_store m) (m_state m)" by (simp add: bolt_holds_def)
  then show ?thesis by (rule bbolt_laws.recover_has [OF assms(1)])
qed

text \<open>Only the next transition enters the log: a commit with any other sequence number leaves
  the database as it is, and is accepted only as the exact repetition of a stored transition;
  a gap, a conflict or an invalid checksum is an error.\<close>

theorem bolt_commit_sequencing:
  assumes "bbolt_laws api" and "bolt_has api st s" and "bolt_Commit api ctx e st = (err, st')"
    and "env_Sequence e \<noteq> snap_Sequence s + 1"
  shows "bs_db st' = bs_db st \<and> (err = None \<longrightarrow> env_Sequence e \<le> snap_Sequence s \<and> Validate e = None
    \<and> bb_Get api (bs_db st) transitionsBucket (uint64Key (env_Sequence e)) = Some (marshal_Envelope e))"
proof (cases "ctx = None \<and> Validate e = None")
  case True
  then obtain st1 where upd: "update api (commit_tx api e) st = (err, st1)" "st' = recordError err st1"
    using assms(3) by (auto simp: bolt_Commit_def split: prod.splits)
  have open_: "\<not> bs_closed st" using assms(2) by (simp add: bolt_has_def)
  have tx: "commit_tx api e (bs_db st) = Inr tx \<Longrightarrow> tx = bs_db st \<and> env_Sequence e \<le> snap_Sequence s
      \<and> bb_Get api (bs_db st) transitionsBucket (uint64Key (env_Sequence e)) = Some (marshal_Envelope e)" for tx
    using assms(4) by (auto simp: commit_tx_def Let_def bolt_has_readSequence [OF assms(2)] split: if_splits)
  show ?thesis
    using bbolt_laws.update_cases [OF assms(1) upd(1) open_] tx upd(2) True by (cases err) auto
next
  case False
  then show ?thesis using assms(3) by (auto simp: bolt_Commit_def split: option.splits prod.splits)
qed

text \<open>A restored snapshot is what the store then recovers, and taking a snapshot of the held
  state does not change what is recovered: snapshots are only a way to replay less.\<close>

theorem bolt_snapshots_recover:
  assumes "bbolt_laws api" and "snapshot_utf8 sn" and "snap_Sequence sn + 1 \<noteq> 0"
    and "bolt_RestoreSnapshot api ctx sn st = (None, st') \<or> bolt_has api st sn \<and> bolt_SaveSnapshot api ctx sn st = (None, st')"
  shows "recoverState (bolt_Store api) None (\<lambda>_. None) st' = (Inr sn, st')"
proof (rule bbolt_laws.recover_has [OF assms(1)])
  from assms(4) show "bolt_has api st' sn"
    using bbolt_laws.RestoreSnapshot_has [OF assms(1) _ assms(2,3)] bbolt_laws.SaveSnapshot_has [OF assms(1)] assms(2)
    by blast
qed

end
