(* ===== verification/Backup.thy ===== *)
theory Backup
  imports Bolt_Recovery
begin

text \<open>
  \<open>internal/backup/logical.go\<close>: the portable logical backup. A time is the RFC 3339 text Go
  marshals it to. The destination of an export is a writer that accepts what it is given, so an
  export is the text it writes; the source of a decode is the text read.
\<close>

section \<open>Times\<close>

definition two_digits :: "string \<Rightarrow> nat \<Rightarrow> bool" where
  "two_digits s m \<longleftrightarrow> length s = 2 \<and> list_all is_digit s \<and> nat_of_digits s \<le> m"

definition zone_ok :: "string \<Rightarrow> bool" where
  "zone_ok z \<longleftrightarrow> z = ''Z'' \<or>
     (length z = 6 \<and> hd z \<in> {CHR ''+'', CHR ''-''} \<and> two_digits (take 2 (drop 1 z)) 23
      \<and> z ! 3 = CHR '':'' \<and> two_digits (drop 4 z) 59)"

definition frac_zone_ok :: "string \<Rightarrow> bool" where
  "frac_zone_ok z = (case z of
     c # r \<Rightarrow> if c = CHR ''.'' then takeWhile is_digit r \<noteq> [] \<and> zone_ok (dropWhile is_digit r) else zone_ok z
   | [] \<Rightarrow> False)"

definition days_in :: "nat \<Rightarrow> nat \<Rightarrow> nat" where
  "days_in y m = (if m = 2 then (if y mod 4 = 0 \<and> (y mod 100 \<noteq> 0 \<or> y mod 400 = 0) then 29 else 28)
     else if m \<in> {4, 6, 9, 11} then 30 else 31)"

definition time_ok :: "string \<Rightarrow> bool" where
  "time_ok t \<longleftrightarrow> 20 \<le> length t \<and> list_all is_digit (take 4 t) \<and> t ! 4 = CHR ''-''
     \<and> two_digits (take 2 (drop 5 t)) 12 \<and> nat_of_digits (take 2 (drop 5 t)) \<noteq> 0 \<and> t ! 7 = CHR ''-''
     \<and> two_digits (take 2 (drop 8 t)) (days_in (nat_of_digits (take 4 t)) (nat_of_digits (take 2 (drop 5 t))))
     \<and> nat_of_digits (take 2 (drop 8 t)) \<noteq> 0 \<and> t ! 10 = CHR ''T''
     \<and> two_digits (take 2 (drop 11 t)) 23 \<and> t ! 13 = CHR '':''
     \<and> two_digits (take 2 (drop 14 t)) 59 \<and> t ! 16 = CHR '':''
     \<and> two_digits (take 2 (drop 17 t)) 59 \<and> frac_zone_ok (drop 19 t)"

definition zero_time :: string where
  "zero_time = ''0001-01-01T00:00:00Z''"

definition dec_time :: "string decoder" where
  "dec_time j old = (case j of
     JStr r \<Rightarrow> if time_ok (unquote r) then Some (unquote r) else None
   | JNull \<Rightarrow> Some old | _ \<Rightarrow> None)"

section \<open>The backup envelope\<close>

record BackupEnvelope =
  bk_FormatVersion :: int64
  bk_CreatedAt :: string
  bk_Source :: string
  bk_Snapshot :: Snapshot
  bk_Checksum :: string

definition zero_BackupEnvelope :: BackupEnvelope where
  "zero_BackupEnvelope = \<lparr>bk_FormatVersion = 0, bk_CreatedAt = zero_time, bk_Source = '''',
     bk_Snapshot = zero_Snapshot, bk_Checksum = ''''\<rparr>"

definition enc_BackupEnvelope :: "BackupEnvelope \<Rightarrow> json" where
  "enc_BackupEnvelope e = obj
     [(''formatVersion'', enc_i64 (bk_FormatVersion e)), (''createdAt'', enc_string (bk_CreatedAt e)),
      (''source'', enc_string (bk_Source e)), (''snapshot'', enc_Snapshot (bk_Snapshot e)),
      (''checksum'', enc_string (bk_Checksum e))]"

definition dec_BackupEnvelope :: "BackupEnvelope decoder" where
  "dec_BackupEnvelope = dec_struct True
     [(''formatVersion'', field dec_i64 bk_FormatVersion bk_FormatVersion_update),
      (''createdAt'', field dec_time bk_CreatedAt bk_CreatedAt_update),
      (''source'', field dec_string bk_Source bk_Source_update),
      (''snapshot'', field (dec_Snapshot True) bk_Snapshot bk_Snapshot_update),
      (''checksum'', field dec_string bk_Checksum bk_Checksum_update)]"

definition snapshot_checksum :: "Snapshot \<Rightarrow> string" where
  "snapshot_checksum s = hex_encode (sha256 (marshal_Snapshot s))"

definition Export :: "State \<Rightarrow> string \<Rightarrow> string \<Rightarrow> string" where
  "Export s source now =
     print_json (enc_BackupEnvelope
       \<lparr>bk_FormatVersion = 1, bk_CreatedAt = now,
        bk_Source = (if source = '''' then ''riquet'' else source),
        bk_Snapshot = s, bk_Checksum = snapshot_checksum s\<rparr>) @ [CHR 0x0A]"

definition Capture :: "'st Store \<Rightarrow> ctx \<Rightarrow> polls \<Rightarrow> string \<Rightarrow> string \<Rightarrow> 'st \<Rightarrow> (go_error + string) \<times> 'st" where
  "Capture store ctx polls sourceName now st =
     (case st_LoadSnapshot store ctx st of
        (Inl err, st1) \<Rightarrow> (Inl (FmtErr ''load backup snapshot: %w'' [] (Some err)), st1)
      | (Inr snapshot, st1) \<Rightarrow>
          (case (case snapshot of None \<Rightarrow> Inr NewState | Some sn \<Rightarrow> Restore sn) of
             Inl err \<Rightarrow> (Inl err, st1)
           | Inr s \<Rightarrow>
               (case st_Replay store polls (snap_Sequence s) Apply s st1 of
                  (Inl err, st2) \<Rightarrow> (Inl (FmtErr ''replay backup state: %w'' [] (Some err)), st2)
                | (Inr s', st2) \<Rightarrow> (Inr (Export s' sourceName now), st2))))"

definition Decode :: "string \<Rightarrow> go_error + BackupEnvelope" where
  "Decode text =
     (case Option.bind (decode_stream text) (\<lambda>(j, _). dec_BackupEnvelope j zero_BackupEnvelope) of
        None \<Rightarrow> Inl (FmtErr ''decode logical backup: %w'' [] (Some JsonErr))
      | Some e \<Rightarrow>
          if bk_FormatVersion e \<noteq> 1 \<or> bk_CreatedAt e = zero_time \<or> bk_Source e = ''''
          then Inl (FmtErr ''logical backup metadata is invalid'' [] None)
          else (case Restore (bk_Snapshot e) of
             Inl err \<Rightarrow> Inl err
           | Inr _ \<Rightarrow>
               if bk_Checksum e \<noteq> snapshot_checksum (bk_Snapshot e)
               then Inl (FmtErr ''logical backup checksum mismatch'' [] None)
               else Inr e))"

definition backup_Restore :: "'st Store \<Rightarrow> ctx \<Rightarrow> BackupEnvelope \<Rightarrow> 'st \<Rightarrow> go_error option \<times> 'st" where
  "backup_Restore store ctx e st =
     (if bk_FormatVersion e \<noteq> 1 \<or> bk_Checksum e \<noteq> snapshot_checksum (bk_Snapshot e)
      then (Some (FmtErr ''logical backup is invalid'' [] None), st)
      else case st_RestoreSnapshot store of
        None \<Rightarrow> (Some (FmtErr ''storage backend does not support logical restore'' [] None), st)
      | Some restore \<Rightarrow> restore ctx (bk_Snapshot e) st)"

section \<open>Round trip\<close>

lemma valid_utf8_snapshot_checksum [simp]: "valid_utf8 (snapshot_checksum s)"
  by (simp add: snapshot_checksum_def valid_utf8_ascii_list ascii_hex_encode)

lemma dec_enc_BackupEnvelope:
  assumes "snapshot_utf8 (bk_Snapshot e)" and "time_ok (bk_CreatedAt e)" and "valid_utf8 (bk_CreatedAt e)"
    and "valid_utf8 (bk_Source e)" and "valid_utf8 (bk_Checksum e)"
  shows "dec_BackupEnvelope (enc_BackupEnvelope e) zero_BackupEnvelope = Some e"
proof -
  have "dec_time (enc_string (bk_CreatedAt e)) old = Some (bk_CreatedAt e)" for old
    using assms(2,3) by (simp add: dec_time_def enc_string_def)
  then show ?thesis
    using assms(3-5) dec_enc_Snapshot [OF assms(1), of True]
    by (cases e) (simp add: dec_BackupEnvelope_def enc_BackupEnvelope_def dec_struct_simps zero_BackupEnvelope_def)
qed

lemma Decode_Export:
  assumes "snapshot_utf8 s" and "state_ok s" and "snap_FormatVersion s = 1"
    and "time_ok now" and "valid_utf8 now" and "now \<noteq> zero_time" and "valid_utf8 source"
  shows "\<exists>e. Decode (Export s source now) = Inr e \<and> bk_Snapshot e = s \<and> bk_FormatVersion e = 1
    \<and> bk_CreatedAt e = now \<and> bk_Checksum e = snapshot_checksum s"
proof -
  let ?e = "\<lparr>bk_FormatVersion = 1, bk_CreatedAt = now, bk_Source = (if source = '''' then ''riquet'' else source),
    bk_Snapshot = s, bk_Checksum = snapshot_checksum s\<rparr>"
  have "json_ok (enc_BackupEnvelope ?e)" by (simp add: enc_BackupEnvelope_def)
  moreover have "ends [CHR 0x0A]" by (simp add: ends_def num_char_def is_digit_def)
  ultimately have "decode_stream (Export s source now) = Some (enc_BackupEnvelope ?e, [CHR 0x0A])"
    unfolding Export_def by (rule decode_stream_print)
  moreover have "dec_BackupEnvelope (enc_BackupEnvelope ?e) zero_BackupEnvelope = Some ?e"
    using assms by (intro dec_enc_BackupEnvelope) simp_all
  moreover have "Restore s = Inr s" using assms(2,3) by (simp add: Restore_Inr)
  ultimately show ?thesis
    using assms(6) by (intro exI [of _ ?e]) (simp add: Decode_def)
qed

text \<open>A logical backup carries the registry from one store to another: what \<open>Capture\<close>
  writes from any store that recovers a state decodes with its checksum intact, and restoring it
  into a bbolt store makes that store recover exactly that state.\<close>

theorem backup_roundtrip:
  assumes "bbolt_laws api" and "recoverState source ctx polls st = (Inr s, st1)" and "registry_inv s"
    and "snap_FormatVersion s = 1" and "snap_Sequence s + 1 \<noteq> 0"
    and "time_ok now" and "valid_utf8 now" and "now \<noteq> zero_time" and "valid_utf8 name"
  shows "\<exists>text e. Capture source ctx polls name now st = (Inr text, st1) \<and> Decode text = Inr e
    \<and> (\<forall>target target'. backup_Restore (bolt_Store api) None e target = (None, target') \<longrightarrow>
         recoverState (bolt_Store api) None (\<lambda>_. None) target' = (Inr s, target'))"
proof -
  have s: "snapshot_utf8 s" "state_ok s" using assms(3) by (simp_all add: registry_inv_def)
  from Decode_Export [OF s assms(4,6-9)] obtain e where
    e: "Decode (Export s name now) = Inr e" "bk_Snapshot e = s" "bk_FormatVersion e = 1"
      "bk_Checksum e = snapshot_checksum s" by blast
  have "Capture source ctx polls name now st = (Inr (Export s name now), st1)"
    using assms(2) by (auto simp: Capture_def recoverState_def split: sum.splits prod.splits)
  moreover have "recoverState (bolt_Store api) None (\<lambda>_. None) target' = (Inr s, target')"
    if "backup_Restore (bolt_Store api) None e target = (None, target')" for target target'
  proof (rule bbolt_laws.recover_has [OF assms(1)])
    have "bolt_RestoreSnapshot api None s target = (None, target')"
      using that e by (simp add: backup_Restore_def bolt_Store_def)
    then show "bolt_has api target' s"
      using s(1) assms(5) by (rule bbolt_laws.RestoreSnapshot_has [OF assms(1)])
  qed
  ultimately show ?thesis using e by blast
qed

end
