(* ===== verification/Migration.thy ===== *)
theory Migration
  imports Server Kafka_Layout Backup
begin

text \<open>
  \<open>internal/migration/confluent.go\<close>: the export of a Confluent registry as a logical snapshot.
  \<open>inventory\<close> reads the source over its REST API, \<open>buildState\<close> replays what it read through a
  machine of its own, and \<open>ExportConfluent\<close> writes the resulting state. The HTTP client is an
  argument, a function from a request and a world, since the source may change between requests.
  The result of parsing the base URL is an argument, and an error names a URL by its raw path.
\<close>

section \<open>What is read from the source\<close>

record sourceSchema =
  ss_Subject :: string
  ss_Version :: int64
  ss_ID :: int64
  ss_SchemaType :: string
  ss_References :: "Reference list"
  ss_Schema :: string
  ss_Timestamp :: int64
  ss_Deleted :: bool
  ss_Metadata :: string
  ss_RuleSet :: string
  ss_SchemaTags :: string

record sourceConfig =
  scf_CompatibilityLevel :: string
  scf_Compatibility :: string
  scf_Alias :: string
  scf_Normalize :: "bool option"
  scf_CompatibilityGroup :: string
  scf_DefaultMetadata :: string
  scf_OverrideMetadata :: string
  scf_DefaultRuleSet :: string
  scf_OverrideRuleSet :: string

definition level :: "sourceConfig \<Rightarrow> string" where
  "level c = (if scf_CompatibilityLevel c \<noteq> '''' then scf_CompatibilityLevel c else scf_Compatibility c)"

record inventory =
  inv_schemas :: "sourceSchema list"
  inv_globalCompatibility :: string
  inv_subjectCompatibility :: "(string, string) fmap"
  inv_globalMode :: string
  inv_subjectModes :: "(string, string) fmap"

record UnsupportedFeature =
  uf_Feature :: string
  uf_Resource :: string
  uf_Detail :: string

record Report =
  rep_Source :: string
  rep_Subjects :: nat
  rep_Versions :: nat
  rep_SoftDeletedVersions :: nat
  rep_Unsupported :: "UnsupportedFeature list"
  rep_Warnings :: "string list"

section \<open>Features that cannot be preserved\<close>

definition emptyJSON :: "string \<Rightarrow> bool" where
  "emptyJSON raw \<longleftrightarrow> TrimSpace raw \<in> {'''', ''null'', ''{}'', ''[]''}"

definition unsupported :: "string \<Rightarrow> string \<Rightarrow> string \<Rightarrow> Report \<Rightarrow> Report" where
  "unsupported feature resource detail =
     rep_Unsupported_update (\<lambda>fs. fs @ [\<lparr>uf_Feature = feature, uf_Resource = resource, uf_Detail = detail\<rparr>])"

definition version_key :: "string \<Rightarrow> int64 \<Rightarrow> string" where
  "version_key subject version = subject @ ''/'' @ fmt_i64 version"

definition checkSchemaFeatures :: "sourceSchema \<Rightarrow> Report \<Rightarrow> Report" where
  "checkSchemaFeatures schema report =
     foldl (\<lambda>r (name, raw). if emptyJSON raw then r
         else unsupported name (version_key (ss_Subject schema) (ss_Version schema))
           ''schema governance data cannot be preserved by Riquet v1'' r)
       report [(''metadata'', ss_Metadata schema), (''ruleSet'', ss_RuleSet schema), (''schemaTags'', ss_SchemaTags schema)]"

definition checkConfigFeatures :: "string \<Rightarrow> sourceConfig \<Rightarrow> Report \<Rightarrow> Report" where
  "checkConfigFeatures resource c report =
     (let r1 = (if scf_Alias c \<noteq> '''' then unsupported ''subject alias'' resource (scf_Alias c) report else report);
          r2 = (if scf_Normalize c = Some True
                then unsupported ''configured normalization'' resource ''normalize=true'' r1 else r1);
          r3 = (if scf_CompatibilityGroup c \<noteq> ''''
                then unsupported ''compatibility group'' resource (scf_CompatibilityGroup c) r2 else r2)
      in foldl (\<lambda>r (name, raw). if emptyJSON raw then r
             else unsupported name resource ''configuration cannot be preserved by Riquet v1'' r)
           r3 [(''default metadata'', scf_DefaultMetadata c), (''override metadata'', scf_OverrideMetadata c),
             (''default rule set'', scf_DefaultRuleSet c), (''override rule set'', scf_OverrideRuleSet c)])"

section \<open>Replaying the source\<close>

text \<open>The machine of the replay has no store and no compatibility check; the number beside it
  counts the operations.\<close>

type_synonym replay = "unit Machine \<times> nat"

definition nextOperation :: "string \<Rightarrow> nat \<Rightarrow> string" where
  "nextOperation kind n =
     ''confluent-export-'' @ kind @ ''-'' @ replicate (6 - length (fmt_nat n)) (CHR ''0'') @ fmt_nat n"

definition referencesAvailable :: "State \<Rightarrow> Reference list \<Rightarrow> bool" where
  "referencesAvailable s = list_all (\<lambda>r. snd (snd (Lookup s (ref_Subject r) (ref_Version r) False)))"

definition import_Resolve :: "State \<Rightarrow> Resolver" where
  "import_Resolve s ctx reference =
     (case Lookup s (ref_Subject reference) (ref_Version reference) False of
        (_, schema, ok) \<Rightarrow> if \<not> ok then Inl ''referenced schema not found'' else Inr schema)"

definition import_request :: "sourceSchema \<Rightarrow> ParseRequest" where
  "import_request item =
     \<lparr>pr_Definition = ss_Schema item, pr_References = ss_References item, pr_Normalize = False, pr_Limits = DefaultLimits\<rparr>"

definition import_command :: "nat \<Rightarrow> sourceSchema \<Rightarrow> 'n Parsed \<Rightarrow> RegisterCommand" where
  "import_command n item parsed =
     \<lparr>rc_OperationID = nextOperation ''schema'' n, rc_Subject = ss_Subject item, rc_Identity = p_Identity parsed,
      rc_Type = p_Type parsed, rc_Definition = p_Definition parsed, rc_References = p_References parsed,
      rc_RequestedID = ss_ID item, rc_RequestedVersion = ss_Version item, rc_Timestamp = ss_Timestamp item\<rparr>"

definition import_item :: "ctx \<Rightarrow> (string \<Rightarrow> 'n Engine option) \<Rightarrow> sourceSchema \<Rightarrow> replay \<Rightarrow> go_error + replay" where
  "import_item ctx engines item w =
     (case w of (m, n) \<Rightarrow>
      if ss_ID item < 1 \<or> ss_Version item < 1 \<or> ss_Subject item = '''' \<or> ss_Schema item = ''''
      then Inl (FmtErr ''invalid source schema %q/%d (id %d)'' [AStr (ss_Subject item), AInt (ss_Version item), AInt (ss_ID item)] None)
      else case engines (ss_SchemaType item) of
        None \<Rightarrow> Inl (FmtErr ''unsupported schema type %q at %s/%d''
          [AStr (ss_SchemaType item), AStr (ss_Subject item), AInt (ss_Version item)] None)
      | Some engine \<Rightarrow>
          (case en_Parse engine ctx (import_request item) (import_Resolve (m_state m)) of
             Inl err \<Rightarrow> Inl (FmtErr ''parse %s/%d: %w'' [AStr (ss_Subject item), AInt (ss_Version item)] (Some (Sentinel err)))
           | Inr parsed \<Rightarrow>
               (case Register ctx (import_command (Suc n) item parsed) m of
                  (Inl err, _) \<Rightarrow> Inl (FmtErr ''import %s/%d: %w'' [AStr (ss_Subject item), AInt (ss_Version item)] (Some err))
                | (Inr _, m') \<Rightarrow> Inr (m', Suc n))))"

text \<open>One round over the pending schemas: those that still wait for a reference, whether any was
  registered, and the machine.\<close>

fun import_pass :: "ctx \<Rightarrow> (string \<Rightarrow> 'n Engine option) \<Rightarrow> sourceSchema list \<Rightarrow> replay
    \<Rightarrow> go_error + sourceSchema list \<times> bool \<times> replay" where
  "import_pass ctx engines [] w = Inr ([], False, w)"
| "import_pass ctx engines (item # rest) w =
     (if \<not> referencesAvailable (m_state (fst w)) (ss_References item)
      then map_sum (\<lambda>e. e) (\<lambda>(remaining, progress, w'). (item # remaining, progress, w')) (import_pass ctx engines rest w)
      else case import_item ctx engines item w of
        Inl e \<Rightarrow> Inl e
      | Inr w1 \<Rightarrow>
          map_sum (\<lambda>e. e) (\<lambda>(remaining, progress, w'). (remaining, True, w')) (import_pass ctx engines rest w1))"

lemma import_pass_shrinks:
  "import_pass ctx engines pending w = Inr (remaining, progress, w') \<Longrightarrow>
     length remaining + (if progress then 1 else 0) \<le> length pending"
proof (induction pending arbitrary: w remaining progress w')
  case (Cons item rest)
  show ?case
  proof (cases "referencesAvailable (m_state (fst w)) (ss_References item)")
    case True
    with Cons.prems obtain w1 z where w1: "import_item ctx engines item w = Inr w1" and z: "import_pass ctx engines rest w1 = Inr z"
      and r: "remaining = fst z" by (auto split: sum.splits elim!: map_sum_InrE)
    then show ?thesis using Cons.IH [of w1 "fst z" "fst (snd z)" "snd (snd z)"] by (auto split: if_splits)
  next
    case False
    with Cons.prems show ?thesis by (auto elim!: map_sum_InrE dest!: Cons.IH)
  qed
qed simp

fun join_with :: "string \<Rightarrow> string list \<Rightarrow> string" where
  "join_with sep [] = ''''"
| "join_with sep [x] = x"
| "join_with sep (x # xs) = x @ sep @ join_with sep xs"

function import_schemas :: "ctx \<Rightarrow> (string \<Rightarrow> 'n Engine option) \<Rightarrow> sourceSchema list \<Rightarrow> replay \<Rightarrow> go_error + replay" where
  "import_schemas ctx engines pending w =
     (if pending = [] then Inr w
      else case import_pass ctx engines pending w of
        Inl e \<Rightarrow> Inl e
      | Inr (remaining, progress, w') \<Rightarrow>
          if \<not> progress
          then Inl (FmtErr ''unresolved or cyclic schema references block: %s''
            [AStr (join_with '', '' (map (\<lambda>item. version_key (ss_Subject item) (ss_Version item)) remaining))] None)
          else import_schemas ctx engines remaining w')"
  by pat_completeness auto
termination
  by (relation "measure (\<lambda>(ctx, engines, pending, w). length pending)") (auto dest!: import_pass_shrinks)

declare import_schemas.simps [simp del]

fun delete_marked :: "ctx \<Rightarrow> sourceSchema list \<Rightarrow> replay \<Rightarrow> go_error + replay" where
  "delete_marked ctx [] w = Inr w"
| "delete_marked ctx (item # rest) w =
     (if \<not> ss_Deleted item then delete_marked ctx rest w
      else case w of (m, n) \<Rightarrow>
        (case DeleteVersion ctx \<lparr>dv_OperationID = nextOperation ''delete'' (Suc n), dv_Subject = ss_Subject item,
            dv_Version = ss_Version item, dv_Permanent = False\<rparr> m of
           (Inl err, _) \<Rightarrow> Inl (FmtErr ''preserve soft deletion %s/%d: %w'' [AStr (ss_Subject item), AInt (ss_Version item)] (Some err))
         | (Inr _, m') \<Rightarrow> delete_marked ctx rest (m', Suc n)))"

definition sortedKeys :: "(string, 'v) fmap \<Rightarrow> string list" where
  "sortedKeys m = map fst (sorted_list_of_fmap m)"

definition map_get :: "(string, string) fmap \<Rightarrow> string \<Rightarrow> string" where
  "map_get m k = (case fmlookup m k of None \<Rightarrow> '''' | Some v \<Rightarrow> v)"

text \<open>A configuration command under the next operation ID.\<close>

definition configure :: "string \<Rightarrow> (string \<Rightarrow> unit Machine \<Rightarrow> go_error option \<times> unit Machine) \<Rightarrow> replay \<Rightarrow> go_error + replay" where
  "configure kind cmd w =
     (case w of (m, n) \<Rightarrow>
       (case cmd (nextOperation kind (Suc n)) m of (Some err, _) \<Rightarrow> Inl err | (None, m') \<Rightarrow> Inr (m', Suc n)))"

fun configure_subjects :: "string \<Rightarrow> (string \<Rightarrow> string \<Rightarrow> unit Machine \<Rightarrow> go_error option \<times> unit Machine) \<Rightarrow> string list
    \<Rightarrow> replay \<Rightarrow> go_error + replay" where
  "configure_subjects kind cmd [] w = Inr w"
| "configure_subjects kind cmd (subject # rest) w =
     (case configure kind (\<lambda>op. cmd op subject) w of
        Inl e \<Rightarrow> Inl e
      | Inr w' \<Rightarrow> configure_subjects kind cmd rest w')"

definition by_version :: "sourceSchema \<Rightarrow> sourceSchema \<Rightarrow> bool" where
  "by_version a b \<longleftrightarrow>
     (if ss_Subject a = ss_Subject b then ss_Version a < ss_Version b else ss_Subject a < ss_Subject b)"

abbreviation global_scope :: Scope where "global_scope \<equiv> \<lparr>sc_Subject = ''''\<rparr>"

definition buildState :: "ctx \<Rightarrow> (string \<Rightarrow> 'n Engine option) \<Rightarrow> inventory \<Rightarrow> go_error + State" where
  "buildState ctx engines source =
     (case configure ''mode'' (\<lambda>op. SetMode ctx op global_scope ModeImport) (NewMachine NewState None None (), 0) of
        Inl e \<Rightarrow> Inl e
      | Inr w1 \<Rightarrow>
      case import_schemas ctx engines (sort_slice by_version (inv_schemas source)) w1 of
        Inl e \<Rightarrow> Inl e
      | Inr w2 \<Rightarrow>
      case delete_marked ctx (inv_schemas source) w2 of
        Inl e \<Rightarrow> Inl e
      | Inr w3 \<Rightarrow>
      case configure ''config'' (\<lambda>op. SetCompatibility ctx op global_scope (inv_globalCompatibility source)) w3 of
        Inl e \<Rightarrow> Inl e
      | Inr w4 \<Rightarrow>
      case configure_subjects ''config''
          (\<lambda>op u. SetCompatibility ctx op \<lparr>sc_Subject = u\<rparr> (map_get (inv_subjectCompatibility source) u))
          (sortedKeys (inv_subjectCompatibility source)) w4 of
        Inl e \<Rightarrow> Inl e
      | Inr w5 \<Rightarrow>
      case configure_subjects ''mode''
          (\<lambda>op u. SetMode ctx op \<lparr>sc_Subject = u\<rparr> (map_get (inv_subjectModes source) u))
          (sortedKeys (inv_subjectModes source)) w5 of
        Inl e \<Rightarrow> Inl e
      | Inr w6 \<Rightarrow>
      case configure ''mode'' (\<lambda>op. SetMode ctx op global_scope (inv_globalMode source)) w6 of
        Inl e \<Rightarrow> Inl e
      | Inr w7 \<Rightarrow> Inr (m_state (fst w7)))"

section \<open>The REST client\<close>

record base_url =
  bu_Scheme :: string
  bu_Host :: string
  bu_EscapedPath :: string
  bu_RawQuery :: string
  bu_Fragment :: string
  bu_User :: bool
  bu_Redacted :: string

record ConfluentOptions =
  co_BaseURL :: "base_url option"
  co_BasicUsername :: string
  co_BasicPassword :: string
  co_BearerToken :: string

record confluentClient =
  cc_base :: base_url
  cc_username :: string
  cc_password :: string
  cc_bearerToken :: string

definition newConfluentClient :: "ConfluentOptions \<Rightarrow> go_error + confluentClient" where
  "newConfluentClient options =
     (case co_BaseURL options of
        None \<Rightarrow> Inl (FmtErr ''confluent source must be an absolute HTTP(S) URL'' [] None)
      | Some base \<Rightarrow>
          if bu_Scheme base \<noteq> ''http'' \<and> bu_Scheme base \<noteq> ''https'' \<or> bu_Host base = ''''
          then Inl (FmtErr ''confluent source must be an absolute HTTP(S) URL'' [] None)
          else if bu_RawQuery base \<noteq> '''' \<or> bu_Fragment base \<noteq> ''''
          then Inl (FmtErr ''confluent source URL cannot contain a query or fragment'' [] None)
          else if bu_User base
          then Inl (FmtErr ''confluent source URL cannot contain credentials; use explicit authentication options'' [] None)
          else if co_BearerToken options \<noteq> '''' \<and> (co_BasicUsername options \<noteq> '''' \<or> co_BasicPassword options \<noteq> '''')
          then Inl (FmtErr ''choose either Basic or bearer authentication'' [] None)
          else Inr \<lparr>cc_base = base, cc_username = co_BasicUsername options, cc_password = co_BasicPassword options,
            cc_bearerToken = co_BearerToken options\<rparr>)"

text \<open>\<open>url.PathEscape\<close>.\<close>

definition path_char_plain :: "char \<Rightarrow> bool" where
  "path_char_plain c \<longleftrightarrow> c \<in> set ''ABCDEFGHIJKLMNOPQRSTUVWXYZabcdefghijklmnopqrstuvwxyz0123456789-_.~$&+=:@''"

definition PathEscape :: "string \<Rightarrow> string" where
  "PathEscape s = concat (map (\<lambda>c. if path_char_plain c then [c]
     else [CHR ''%'', ''0123456789ABCDEF'' ! (byte c div 16), ''0123456789ABCDEF'' ! (byte c mod 16)]) s)"

record source_request =
  sq_RawPath :: string
  sq_Query :: "(string \<times> string) list"
  sq_Header :: "(string \<times> string) list"

text \<open>What the HTTP client does with a request: an error, or a status and the body as far as it
  can be read. The context is part of the client.\<close>

type_synonym 'w transport = "source_request \<Rightarrow> 'w \<Rightarrow> (go_error + nat \<times> (go_error + string)) \<times> 'w"

definition maxResponseBytes :: nat where
  "maxResponseBytes = 67108864"

definition source_path :: "confluentClient \<Rightarrow> string list \<Rightarrow> string" where
  "source_path c segments =
     (let base = bu_EscapedPath (cc_base c);
          trimmed = (if base \<noteq> '''' \<and> last base = CHR ''/'' then butlast base else base)
      in trimmed @ concat (map (\<lambda>segment. CHR ''/'' # PathEscape segment) segments))"

definition source_headers :: "confluentClient \<Rightarrow> (string \<times> string) list" where
  "source_headers c =
     (''Accept'', ''application/vnd.schemaregistry.v1+json, application/json'')
     # (if cc_bearerToken c \<noteq> '''' then [(''Authorization'', ''Bearer '' @ cc_bearerToken c)]
        else if cc_username c \<noteq> '''' \<or> cc_password c \<noteq> ''''
        then [(''Authorization'', ''Basic '' @ b64_encode (cc_username c @ '':'' @ cc_password c))]
        else [])"

definition get :: "confluentClient \<Rightarrow> 'w transport \<Rightarrow> string list \<Rightarrow> (string \<times> string) list \<Rightarrow> (string \<Rightarrow> 'a option)
    \<Rightarrow> bool \<Rightarrow> 'w \<Rightarrow> (go_error + 'a option) \<times> 'w" where
  "get c do_request segments query decode allowNotFound w =
     (let path = source_path c segments in
      case url_unescape False path of
        None \<Rightarrow> (Inl (Sentinel ''invalid URL escape''), w)
      | Some _ \<Rightarrow>
          (case do_request \<lparr>sq_RawPath = path, sq_Query = query, sq_Header = source_headers c\<rparr> w of
             (Inl err, w') \<Rightarrow> (Inl (FmtErr ''GET %s: %w'' [AStr path] (Some err)), w')
           | (Inr (status, body), w') \<Rightarrow>
               (if status = 404 \<and> allowNotFound then Inr None
                else case body of
                  Inl err \<Rightarrow> Inl (FmtErr ''read GET %s: %w'' [AStr path] (Some err))
                | Inr text \<Rightarrow>
                    if length text > maxResponseBytes
                    then Inl (FmtErr ''GET %s response exceeds %d bytes'' [AStr path, AInt (int64_of (int maxResponseBytes))] None)
                    else if status < 200 \<or> status \<ge> 300
                    then Inl (FmtErr ''GET %s returned %s: %s'' [AStr path, AInt (int64_of (int status)), AStr (TrimSpace text)] None)
                    else case decode text of
                      None \<Rightarrow> Inl (FmtErr ''decode GET %s: %w'' [AStr path] (Some JsonErr))
                    | Some v \<Rightarrow> Inr (Some v), w')))"

section \<open>Decoding the answers\<close>

definition decode_strings :: "string \<Rightarrow> string list option" where
  "decode_strings = unmarshal (dec_slice dec_string '''') []"

definition decode_versions :: "string \<Rightarrow> int64 list option" where
  "decode_versions = unmarshal (dec_slice dec_i64 0) []"

definition decode_mode :: "string \<Rightarrow> string option" where
  "decode_mode = unmarshal (dec_struct False [(''mode'', field dec_string (\<lambda>m. m) (\<lambda>f. f))]) ''''"

definition dec_bool_pointer :: "bool option decoder" where
  "dec_bool_pointer j old = (case j of JNull \<Rightarrow> Some None | JBool b \<Rightarrow> Some (Some b) | _ \<Rightarrow> None)"

definition zero_sourceConfig :: sourceConfig where
  "zero_sourceConfig = \<lparr>scf_CompatibilityLevel = '''', scf_Compatibility = '''', scf_Alias = '''', scf_Normalize = None,
     scf_CompatibilityGroup = '''', scf_DefaultMetadata = '''', scf_OverrideMetadata = '''', scf_DefaultRuleSet = '''',
     scf_OverrideRuleSet = ''''\<rparr>"

definition config_fields :: "(string \<times> sourceConfig decoder) list" where
  "config_fields =
     [(''compatibilityLevel'', field dec_string scf_CompatibilityLevel scf_CompatibilityLevel_update),
      (''compatibility'', field dec_string scf_Compatibility scf_Compatibility_update),
      (''alias'', field dec_string scf_Alias scf_Alias_update),
      (''normalize'', field dec_bool_pointer scf_Normalize scf_Normalize_update),
      (''compatibilityGroup'', field dec_string scf_CompatibilityGroup scf_CompatibilityGroup_update),
      (''defaultMetadata'', \<lambda>j c. Some c), (''overrideMetadata'', \<lambda>j c. Some c),
      (''defaultRuleSet'', \<lambda>j c. Some c), (''overrideRuleSet'', \<lambda>j c. Some c)]"

definition decode_sourceConfig :: "string \<Rightarrow> sourceConfig option" where
  "decode_sourceConfig body =
     (let raw = (\<lambda>name. raw_field_in (map fst config_fields) name body) in
      map_option (\<lambda>c. c\<lparr>scf_DefaultMetadata := raw ''defaultMetadata'', scf_OverrideMetadata := raw ''overrideMetadata'',
          scf_DefaultRuleSet := raw ''defaultRuleSet'', scf_OverrideRuleSet := raw ''overrideRuleSet''\<rparr>)
        (unmarshal (dec_struct False config_fields) zero_sourceConfig body))"

definition zero_sourceSchema :: sourceSchema where
  "zero_sourceSchema = \<lparr>ss_Subject = '''', ss_Version = 0, ss_ID = 0, ss_SchemaType = '''', ss_References = [],
     ss_Schema = '''', ss_Timestamp = 0, ss_Deleted = False, ss_Metadata = '''', ss_RuleSet = '''', ss_SchemaTags = ''''\<rparr>"

text \<open>The answer for one version: the schema beside the optional deletion mark.\<close>

definition version_fields :: "(string \<times> (sourceSchema \<times> bool option) decoder) list" where
  "version_fields =
     (let f = (\<lambda>d get upd. field d (\<lambda>r. get (fst r)) (\<lambda>g. apfst (upd g))) in
      [(''subject'', f dec_string ss_Subject ss_Subject_update),
       (''schemaType'', f dec_string ss_SchemaType ss_SchemaType_update),
       (''schema'', f dec_string ss_Schema ss_Schema_update)])
     @ (let f = (\<lambda>d get upd. field d (\<lambda>r. get (fst r)) (\<lambda>g. apfst (upd g))) in
      [(''version'', f dec_i64 ss_Version ss_Version_update),
       (''id'', f dec_i64 ss_ID ss_ID_update),
       (''ts'', f dec_i64 ss_Timestamp ss_Timestamp_update)])
     @ [(''references'', field (dec_slice (dec_Reference False) zero_Reference) (\<lambda>r. ss_References (fst r))
           (\<lambda>g. apfst (ss_References_update g))),
        (''deleted'', field dec_bool_pointer snd (\<lambda>g. apsnd g)),
        (''metadata'', \<lambda>j r. Some r), (''ruleSet'', \<lambda>j r. Some r), (''schemaTags'', \<lambda>j r. Some r)]"

definition decode_version :: "string \<Rightarrow> (sourceSchema \<times> bool option) option" where
  "decode_version body =
     (let raw = (\<lambda>name. raw_field_in (map fst version_fields) name body) in
      map_option (apfst (\<lambda>s. s\<lparr>ss_Metadata := raw ''metadata'', ss_RuleSet := raw ''ruleSet'', ss_SchemaTags := raw ''schemaTags''\<rparr>))
        (unmarshal (dec_struct False version_fields) (zero_sourceSchema, None) body))"

section \<open>The inventory\<close>

text \<open>Steps over the world of the client and the report, which is returned with an error too.\<close>

type_synonym ('w, 'a) reading = "'w \<times> Report \<Rightarrow> (go_error + 'a) \<times> 'w \<times> Report"

definition fetch :: "confluentClient \<Rightarrow> 'w transport \<Rightarrow> string list \<Rightarrow> (string \<times> string) list \<Rightarrow> (string \<Rightarrow> 'a option)
    \<Rightarrow> bool \<Rightarrow> ('w, 'a option) reading" where
  "fetch c do_request segments query decode allowNotFound st =
     (case get c do_request segments query decode allowNotFound (fst st) of (x, w') \<Rightarrow> (x, (w', snd st)))"

definition amend :: "(Report \<Rightarrow> Report) \<Rightarrow> ('w, unit) reading" where
  "amend f st = (Inr (), (fst st, f (snd st)))"

definition give_up :: "go_error \<Rightarrow> ('w, 'a) reading" where
  "give_up e st = (Inl e, st)"

definition give :: "'a \<Rightarrow> ('w, 'a) reading" where
  "give x st = (Inr x, st)"

definition found_or :: "'a \<Rightarrow> 'a option \<Rightarrow> 'a" where
  "found_or z x = (case x of None \<Rightarrow> z | Some v \<Rightarrow> v)"

definition list_subjects :: "confluentClient \<Rightarrow> 'w transport \<Rightarrow> ('w, string list) reading" where
  "list_subjects c do_request =
     and_then (fetch c do_request [''subjects''] [(''deleted'', ''true''), (''subjectPrefix'', '''')] decode_strings False)
       (\<lambda>subjects. give (remdups_adj (sort (found_or [] subjects))))"

definition source_versions :: "confluentClient \<Rightarrow> 'w transport \<Rightarrow> string \<Rightarrow> ('w, int64 list \<times> int64 list) reading" where
  "source_versions c do_request subject =
     and_then (fetch c do_request [''subjects'', subject, ''versions''] [] decode_versions True) (\<lambda>live.
     and_then (fetch c do_request [''subjects'', subject, ''versions''] [(''deleted'', ''true'')] decode_versions False) (\<lambda>all.
     give (remdups_adj (sort (found_or [] live)), remdups_adj (sort (found_or [] all)))))"

definition check_contexts :: "string list \<Rightarrow> Report \<Rightarrow> Report" where
  "check_contexts contexts report =
     foldl (\<lambda>r ctx. if ctx \<noteq> '':.'' \<and> ctx \<noteq> ''.'' \<and> ctx \<noteq> ''''
         then unsupported ''context'' ctx ''Riquet v1 exports only the default context'' r else r) report contexts"

text \<open>The detail of an unsupported mode, which Go writes with \<open>%q\<close>: the quotes without the escapes
  inside them.\<close>

definition unsupported_mode :: "string \<Rightarrow> string" where
  "unsupported_mode mode = ''mode '' @ quote_lit mode @ '' is not supported by Riquet v1''"

text \<open>The version as it is kept: what the answer leaves out is taken from the request.\<close>

definition complete_schema :: "string \<Rightarrow> int64 list \<Rightarrow> int64 \<Rightarrow> sourceSchema \<times> bool option \<Rightarrow> sourceSchema" where
  "complete_schema subject live version response =
     (let r = fst response in
      r\<lparr>ss_Subject := (if ss_Subject r = '''' then subject else ss_Subject r),
        ss_Version := (if ss_Version r = 0 then version else ss_Version r),
        ss_SchemaType := (if ss_SchemaType r = '''' then SchemaTypeAvro else ss_SchemaType r),
        ss_Deleted := (case snd response of None \<Rightarrow> version \<notin> set live | Some d \<Rightarrow> d)\<rparr>)"

definition count_schema :: "sourceSchema \<Rightarrow> Report \<Rightarrow> Report" where
  "count_schema schema report =
     (let r = checkSchemaFeatures schema report in
      r\<lparr>rep_Versions := Suc (rep_Versions r),
        rep_SoftDeletedVersions := (if ss_Deleted schema then Suc (rep_SoftDeletedVersions r) else rep_SoftDeletedVersions r)\<rparr>)"

fun read_versions :: "confluentClient \<Rightarrow> 'w transport \<Rightarrow> string \<Rightarrow> int64 list \<Rightarrow> int64 list \<Rightarrow> ('w, sourceSchema list) reading" where
  "read_versions c do_request subject live [] = give []"
| "read_versions c do_request subject live (version # rest) =
     and_then (fetch c do_request [''subjects'', subject, ''versions'', fmt_i64 version] [(''deleted'', ''true'')] decode_version False)
       (\<lambda>response. let schema = complete_schema subject live version (found_or (zero_sourceSchema, None) response) in
     and_then (amend (count_schema schema)) (\<lambda>_.
     and_then (read_versions c do_request subject live rest) (\<lambda>schemas. give (schema # schemas))))"

definition read_config :: "confluentClient \<Rightarrow> 'w transport \<Rightarrow> string \<Rightarrow> inventory \<Rightarrow> ('w, inventory) reading" where
  "read_config c do_request subject result =
     and_then (fetch c do_request [''config'', subject] [(''defaultToGlobal'', ''false'')] decode_sourceConfig True) (\<lambda>answer.
     case answer of
       None \<Rightarrow> give result
     | Some cfg \<Rightarrow>
         and_then (amend (checkConfigFeatures (''subject '' @ subject @ '' config'') cfg)) (\<lambda>_.
         if \<not> CompatibilityLevel_Valid (level cfg)
         then give_up (FmtErr ''source subject %q compatibility level %q is unsupported'' [AStr subject, AStr (level cfg)] None)
         else give (result\<lparr>inv_subjectCompatibility := fmupd subject (level cfg) (inv_subjectCompatibility result)\<rparr>)))"

definition read_mode :: "confluentClient \<Rightarrow> 'w transport \<Rightarrow> string \<Rightarrow> inventory \<Rightarrow> ('w, inventory) reading" where
  "read_mode c do_request subject result =
     and_then (fetch c do_request [''mode'', subject] [(''defaultToGlobal'', ''false'')] decode_mode True) (\<lambda>answer.
     case answer of
       None \<Rightarrow> give result
     | Some mode \<Rightarrow>
         if \<not> Mode_Valid mode
         then and_then (amend (unsupported ''mode'' (''subject '' @ subject) (unsupported_mode mode))) (\<lambda>_. give result)
         else give (result\<lparr>inv_subjectModes := fmupd subject mode (inv_subjectModes result)\<rparr>))"

fun read_subjects :: "confluentClient \<Rightarrow> 'w transport \<Rightarrow> string list \<Rightarrow> inventory \<Rightarrow> ('w, inventory) reading" where
  "read_subjects c do_request [] result = give result"
| "read_subjects c do_request (subject # rest) result =
     and_then (source_versions c do_request subject) (\<lambda>(live, all).
     and_then (read_versions c do_request subject live all) (\<lambda>schemas.
     and_then (read_config c do_request subject (result\<lparr>inv_schemas := inv_schemas result @ schemas\<rparr>)) (\<lambda>result1.
     and_then (read_mode c do_request subject result1) (\<lambda>result2.
     read_subjects c do_request rest result2))))"

text \<open>The second listing.\<close>

fun recheck_versions :: "confluentClient \<Rightarrow> 'w transport \<Rightarrow> inventory \<Rightarrow> string list \<Rightarrow> ('w, unit) reading" where
  "recheck_versions c do_request result [] = give ()"
| "recheck_versions c do_request result (subject # rest) =
     and_then (source_versions c do_request subject) (\<lambda>(_, finalVersions).
     if map ss_Version (filter (\<lambda>schema. ss_Subject schema = subject) (inv_schemas result)) \<noteq> finalVersions
     then give_up (FmtErr ''source changed during export: versions for subject %q differ; freeze writes and retry'' [AStr subject] None)
     else recheck_versions c do_request result rest)"

definition global_mode :: "confluentClient \<Rightarrow> 'w transport \<Rightarrow> ('w, string) reading" where
  "global_mode c do_request =
     and_then (fetch c do_request [''mode''] [] decode_mode True) (\<lambda>answer.
     let mode = found_or ModeReadWrite answer in
     and_then (amend (if Mode_Valid mode then (\<lambda>r. r) else unsupported ''mode'' ''global mode'' (unsupported_mode mode))) (\<lambda>_.
     and_then (amend (if mode = ModeReadOnly then (\<lambda>r. r) else rep_Warnings_update (\<lambda>ws. ws @
         [''source global mode is not READONLY; freeze writes and repeat the export before cutover'']))) (\<lambda>_.
     give mode)))"

definition inventory :: "confluentClient \<Rightarrow> 'w transport \<Rightarrow> ('w, inventory) reading" where
  "inventory c do_request =
     and_then (list_subjects c do_request) (\<lambda>subjects.
     and_then (amend (rep_Subjects_update (\<lambda>_. length subjects))) (\<lambda>_.
     and_then (fetch c do_request [''contexts''] [] decode_strings True) (\<lambda>contexts.
     and_then (amend (check_contexts (found_or [] contexts))) (\<lambda>_.
     and_then (fetch c do_request [''config''] [] decode_sourceConfig False) (\<lambda>answer.
     let globalConfig = found_or zero_sourceConfig answer in
     and_then (amend (checkConfigFeatures ''global config'' globalConfig)) (\<lambda>_.
     if \<not> CompatibilityLevel_Valid (level globalConfig)
     then give_up (FmtErr ''source global compatibility level %q is unsupported'' [AStr (level globalConfig)] None)
     else
     and_then (global_mode c do_request) (\<lambda>globalMode.
     and_then (read_subjects c do_request subjects
       \<lparr>inv_schemas = [], inv_globalCompatibility = level globalConfig, inv_subjectCompatibility = fmempty,
        inv_globalMode = globalMode, inv_subjectModes = fmempty\<rparr>) (\<lambda>result.
     and_then (list_subjects c do_request) (\<lambda>finalSubjects.
     if subjects \<noteq> finalSubjects
     then give_up (FmtErr ''source changed during export: subject listing differs; freeze writes and retry'' [] None)
     else
     and_then (recheck_versions c do_request result subjects) (\<lambda>_.
     and_then (amend (rep_Warnings_update (\<lambda>ws. ws @
         [''permanently deleted schema associations are not observable through the Confluent API and are not included'']))) (\<lambda>_.
     give result)))))))))))"

text \<open>\<open>ExportConfluent\<close>: the report, the error, and what reached the destination.\<close>

definition ExportConfluent ::
  "ctx \<Rightarrow> (string \<Rightarrow> 'n Engine option) \<Rightarrow> 'w transport \<Rightarrow> (string \<Rightarrow> go_error option) option \<Rightarrow> ConfluentOptions \<Rightarrow> string \<Rightarrow> 'w
     \<Rightarrow> Report \<times> go_error option \<times> string option" where
  "ExportConfluent ctx engines do_request destination options now w =
     (let empty = \<lparr>rep_Source = '''', rep_Subjects = 0, rep_Versions = 0, rep_SoftDeletedVersions = 0,
            rep_Unsupported = [], rep_Warnings = []\<rparr> in
      case destination of
        None \<Rightarrow> (empty, Some (FmtErr ''export destination is required'' [] None), None)
      | Some write \<Rightarrow>
          (case newConfluentClient options of
             Inl err \<Rightarrow> (empty, Some err, None)
           | Inr client \<Rightarrow>
               (case inventory client do_request (w, empty\<lparr>rep_Source := bu_Redacted (cc_base client)\<rparr>) of
                  (Inl err, (_, report)) \<Rightarrow> (report, Some err, None)
                | (Inr source, (_, report)) \<Rightarrow>
                    if rep_Unsupported report \<noteq> []
                    then (report, Some (FmtErr ''source uses %d unsupported feature(s)''
                      [AInt (int64_of (int (length (rep_Unsupported report))))] None), None)
                    else (case buildState ctx engines source of
                       Inl err \<Rightarrow> (report, Some (FmtErr ''build logical registry state: %w'' [] (Some err)), None)
                     | Inr state \<Rightarrow>
                         (let encoded = Export state (''confluent-api:'' @ bu_Redacted (cc_base client)) now in
                          case write encoded of
                            Some err \<Rightarrow> (report, Some (FmtErr ''write logical snapshot: %w'' [] (Some err)), None)
                          | None \<Rightarrow> (report, None, Some encoded))))))"

end
