(* ===== verification/Migration_Faithful.thy ===== *)
theory Migration_Faithful
  imports Migration Machine_Behaviour
begin

text \<open>
  What an export says about its source. A replay that succeeds gives a registry that satisfies the
  invariant and holds nothing but versions of the source, with their numbers, IDs, timestamps,
  deletion marks and schemas, and the source's configuration. It holds every version whose schema no
  other version of the subject has; where two versions have the same schema one disappears
  (\<open>reregistered_version_is_lost\<close>).
\<close>

section \<open>Operation IDs of the replay\<close>

lemma nextOperation_inj:
  assumes "nextOperation k n = nextOperation k' n'"
  shows "n = n'"
proof -
  have "takeWhile is_digit (rev (nextOperation k n)) = rev (replicate (6 - length (fmt_nat n)) (CHR ''0'') @ fmt_nat n)" for k n
  proof -
    have "is_digit c" if "c \<in> set (replicate (6 - length (fmt_nat n)) (CHR ''0'') @ fmt_nat n)" for c
      using that fmt_nat_digits [of n] by (auto simp: list_all_iff is_digit_def)
    then have "takeWhile is_digit (rev (replicate (6 - length (fmt_nat n)) (CHR ''0'') @ fmt_nat n) @ rev (''confluent-export-'' @ k @ ''-''))
        = rev (replicate (6 - length (fmt_nat n)) (CHR ''0'') @ fmt_nat n)"
      by (subst takeWhile_append2) (auto simp: is_digit_def)
    then show ?thesis by (simp add: nextOperation_def)
  qed
  from this [of k n] this [of k' n'] assms
  have "replicate (6 - length (fmt_nat n)) (CHR ''0'') @ fmt_nat n = replicate (6 - length (fmt_nat n')) (CHR ''0'') @ fmt_nat n'"
    by (metis rev_rev_ident)
  then show ?thesis by (metis nat_of_digits_fmt_nat nat_of_digits_zeros)
qed

lemma nextOperation_nonempty [simp]: "nextOperation k n \<noteq> ''''"
  by (simp add: nextOperation_def)

lemma nextOperation_utf8:
  assumes "k \<in> {''mode'', ''schema'', ''delete'', ''config''}"
  shows "valid_utf8 (nextOperation k n)"
proof -
  have "list_all (\<lambda>c. byte c < 128) (nextOperation k n)"
    using assms fmt_nat_digits [of n] by (auto simp: nextOperation_def list_all_iff is_digit_def)
  from valid_utf8_ascii_append [OF this, of "[]"] show ?thesis by simp
qed

text \<open>The recorded operations are those handed out so far.\<close>

definition handed_out :: "nat \<Rightarrow> string set" where
  "handed_out n = {op. \<exists>k i. i \<le> n \<and> op = nextOperation k i}"

lemma handed_out_Suc: "nextOperation k (Suc n) \<in> handed_out (Suc n)" "op \<in> handed_out n \<Longrightarrow> op \<in> handed_out (Suc n)"
  by (auto simp: handed_out_def intro: le_SucI)

lemma handed_out_fresh: "nextOperation k (Suc n) \<notin> handed_out n"
  by (auto simp: handed_out_def dest: nextOperation_inj)

definition replay_ok :: "replay \<Rightarrow> bool" where
  "replay_ok w \<longleftrightarrow> registry_inv (m_state (fst w)) \<and> fset (fmdom (snap_Operations (m_state (fst w)))) \<subseteq> handed_out (snd w)"

lemma replay_fresh: "replay_ok (m, n) \<Longrightarrow> retried (m_state m) (nextOperation k (Suc n)) = None"
  using handed_out_fresh [of k n]
  by (auto simp: replay_ok_def retried_def ResultFor_def intro: fmdom_notD)

lemma replay_step:
  assumes "replay_ok (m, n)" and "exec ctx c m = (out, m')" and "operation_of c = nextOperation k (Suc n)" and "command_utf8 c"
  shows "replay_ok (m', Suc n)" and "history_extends (m_state m) (m_state m')"
proof -
  have inv: "registry_inv (m_state m)" and ops: "fset (fmdom (snap_Operations (m_state m))) \<subseteq> handed_out n"
    using assms(1) by (simp_all add: replay_ok_def)
  then have ok: "state_ok (m_state m)" by (simp add: registry_inv_def)
  have "registry_inv (m_state m')" using exec_inv [OF assms(2) inv assms(4)] .
  moreover from assms(2) have "fset (fmdom (snap_Operations (m_state m'))) \<subseteq> handed_out (Suc n)"
  proof (cases rule: exec_state_cases)
    case (moved e r st)
    then show ?thesis
      using ops handed_out_Suc assms(3) issued_facts(2) [OF moved(1)] by (auto simp: Apply_Operations [OF moved(2)])
  qed (use ops handed_out_Suc(2) in auto)
  ultimately show "replay_ok (m', Suc n)" by (simp add: replay_ok_def)
  from assms(2) show "history_extends (m_state m) (m_state m')"
    by (cases rule: exec_state_cases) (auto intro: Apply_history ok)
qed

section \<open>Commands of the replay\<close>

text \<open>A state but for the position and the recorded operations, which every command moves.\<close>

definition registry :: "replay \<Rightarrow> State" where
  "registry w = (m_state (fst w))\<lparr>snap_Sequence := 0, snap_Operations := fmempty\<rparr>"

lemma registry_fields [simp]:
  "snap_Schemas (registry w) = snap_Schemas (m_state (fst w))" "snap_IdentityToID (registry w) = snap_IdentityToID (m_state (fst w))"
  "snap_Subjects (registry w) = snap_Subjects (m_state (fst w))"
  "snap_GlobalMode (registry w) = snap_GlobalMode (m_state (fst w))" "snap_SubjectModes (registry w) = snap_SubjectModes (m_state (fst w))"
  "snap_GlobalCompatibility (registry w) = snap_GlobalCompatibility (m_state (fst w))"
  "snap_SubjectCompatibility (registry w) = snap_SubjectCompatibility (m_state (fst w))"
  by (simp_all add: registry_def)

text \<open>What a configuration command leaves behind.\<close>

lemma configuration_applied:
  assumes "issued s c e r" and "Apply s e = Inr s'" and "valid_utf8 u"
  shows "c = CSetMode op \<lparr>sc_Subject = u\<rparr> mode \<Longrightarrow>
      s' = s\<lparr>snap_Sequence := snap_Sequence s', snap_Operations := snap_Operations s',
        snap_GlobalMode := (if u = '''' then mode else snap_GlobalMode s),
        snap_SubjectModes := (if u = '''' then snap_SubjectModes s else fmupd u mode (snap_SubjectModes s))\<rparr>"
    and "c = CSetCompatibility op \<lparr>sc_Subject = u\<rparr> mode \<Longrightarrow>
      s' = s\<lparr>snap_Sequence := snap_Sequence s', snap_Operations := snap_Operations s',
        snap_GlobalCompatibility := (if u = '''' then mode else snap_GlobalCompatibility s),
        snap_SubjectCompatibility := (if u = '''' then snap_SubjectCompatibility s else fmupd u mode (snap_SubjectCompatibility s))\<rparr>"
proof -
  from assms(2) obtain n where n: "applyPayload s e = Inr n"
    and s': "s' = n\<lparr>snap_Sequence := env_Sequence e,
       snap_Operations := (if env_OperationID e = '''' then snap_Operations n
         else fmupd (env_OperationID e) (env_Result e) (snap_Operations n))\<rparr>"
    by (rule Apply_Inr)
  show "s' = s\<lparr>snap_Sequence := snap_Sequence s', snap_Operations := snap_Operations s',
        snap_GlobalMode := (if u = '''' then mode else snap_GlobalMode s),
        snap_SubjectModes := (if u = '''' then snap_SubjectModes s else fmupd u mode (snap_SubjectModes s))\<rparr>"
    if "c = CSetMode op \<lparr>sc_Subject = u\<rparr> mode"
    using assms(1) that
  proof (cases rule: issued.cases)
    case (set_mode l op' scope)
    then have "n = (if u = '''' then s\<lparr>snap_GlobalMode := mode\<rparr>
        else s\<lparr>snap_SubjectModes := fmupd u mode (snap_SubjectModes s)\<rparr>)"
      using n that assms(3) valid_utf8_levels(2) unfolding set_mode(2) applyPayload_issued(6) by (auto split: if_splits)
    then show ?thesis by (simp add: s')
  qed simp_all
  show "s' = s\<lparr>snap_Sequence := snap_Sequence s', snap_Operations := snap_Operations s',
        snap_GlobalCompatibility := (if u = '''' then mode else snap_GlobalCompatibility s),
        snap_SubjectCompatibility := (if u = '''' then snap_SubjectCompatibility s else fmupd u mode (snap_SubjectCompatibility s))\<rparr>"
    if "c = CSetCompatibility op \<lparr>sc_Subject = u\<rparr> mode"
    using assms(1) that
  proof (cases rule: issued.cases)
    case (set_compatibility l op' scope)
    then have "n = (if u = '''' then s\<lparr>snap_GlobalCompatibility := mode\<rparr>
        else s\<lparr>snap_SubjectCompatibility := fmupd u mode (snap_SubjectCompatibility s)\<rparr>)"
      using n that assms(3) valid_utf8_levels(1) unfolding set_compatibility(2) applyPayload_issued(4) by (auto split: if_splits)
    then show ?thesis by (simp add: s')
  qed simp_all
qed

lemma exec_succeeds:
  assumes "exec ctx c m = (Inr r, m')" and "retried (m_state m) (operation_of c) = None"
  obtains (known) c' where "c = CRegister c'" and "m' = m"
  | (moved) e where "issued (m_state m) c e r" and "Apply (m_state m) e = Inr (m_state m')"
proof (cases rule: exec_cases [of m c ctx])
  case (commit e r')
  then show thesis
    by (cases rule: commitApply_cases [of m e ctx r']) (use assms(1) moved in auto)
qed (use assms known in auto)

lemma set_mode_replayed:
  assumes "configure ''mode'' (\<lambda>op. SetMode ctx op \<lparr>sc_Subject = u\<rparr> x) w = Inr w'" and "replay_ok w" and "valid_utf8 u"
  shows "replay_ok w' \<and> registry w' = (registry w)\<lparr>snap_GlobalMode := (if u = '''' then x else snap_GlobalMode (registry w)),
     snap_SubjectModes := (if u = '''' then snap_SubjectModes (registry w) else fmupd u x (snap_SubjectModes (registry w)))\<rparr>"
proof -
  obtain m n where w: "w = (m, n)" by (cases w)
  let ?c = "CSetMode (nextOperation ''mode'' (Suc n)) \<lparr>sc_Subject = u\<rparr> x"
  from assms(1) w obtain m' where m': "w' = (m', Suc n)" "exec ctx ?c m = (Inr zero_Result, m')"
    by (auto simp: configure_def of_error_def split: prod.splits option.splits)
  have "replay_ok w'" using replay_step [OF assms(2) [unfolded w] m'(2)] m'(1) nextOperation_utf8 by simp
  moreover obtain e r where ia: "issued (m_state m) ?c e r" "Apply (m_state m) e = Inr (m_state m')"
    by (rule exec_succeeds [OF m'(2)]) (use replay_fresh [OF assms(2) [unfolded w]] in auto)
  have "registry (m', n) = (registry w)\<lparr>snap_GlobalMode := (if u = '''' then x else snap_GlobalMode (registry w)),
     snap_SubjectModes := (if u = '''' then snap_SubjectModes (registry w) else fmupd u x (snap_SubjectModes (registry w)))\<rparr>"
    using arg_cong [OF configuration_applied(1) [OF ia assms(3) refl], of "\<lambda>s. s\<lparr>snap_Sequence := 0, snap_Operations := fmempty\<rparr>"]
    by (simp add: w registry_def)
  ultimately show ?thesis by (simp add: m'(1) registry_def)
qed

lemma set_level_replayed:
  assumes "configure ''config'' (\<lambda>op. SetCompatibility ctx op \<lparr>sc_Subject = u\<rparr> x) w = Inr w'" and "replay_ok w" and "valid_utf8 u"
  shows "replay_ok w' \<and> registry w' = (registry w)\<lparr>snap_GlobalCompatibility := (if u = '''' then x else snap_GlobalCompatibility (registry w)),
     snap_SubjectCompatibility := (if u = '''' then snap_SubjectCompatibility (registry w) else fmupd u x (snap_SubjectCompatibility (registry w)))\<rparr>"
proof -
  obtain m n where w: "w = (m, n)" by (cases w)
  let ?c = "CSetCompatibility (nextOperation ''config'' (Suc n)) \<lparr>sc_Subject = u\<rparr> x"
  from assms(1) w obtain m' where m': "w' = (m', Suc n)" "exec ctx ?c m = (Inr zero_Result, m')"
    by (auto simp: configure_def of_error_def split: prod.splits option.splits)
  have "replay_ok w'" using replay_step [OF assms(2) [unfolded w] m'(2)] m'(1) nextOperation_utf8 by simp
  moreover obtain e r where ia: "issued (m_state m) ?c e r" "Apply (m_state m) e = Inr (m_state m')"
    by (rule exec_succeeds [OF m'(2)]) (use replay_fresh [OF assms(2) [unfolded w]] in auto)
  have "registry (m', n) = (registry w)\<lparr>snap_GlobalCompatibility := (if u = '''' then x else snap_GlobalCompatibility (registry w)),
     snap_SubjectCompatibility := (if u = '''' then snap_SubjectCompatibility (registry w) else fmupd u x (snap_SubjectCompatibility (registry w)))\<rparr>"
    using arg_cong [OF configuration_applied(2) [OF ia assms(3) refl], of "\<lambda>s. s\<lparr>snap_Sequence := 0, snap_Operations := fmempty\<rparr>"]
    by (simp add: w registry_def)
  ultimately show ?thesis by (simp add: m'(1) registry_def)
qed

text \<open>Of a subject map every entry is set, in the order of the subjects.\<close>

definition set_all :: "(string, string) fmap \<Rightarrow> string list \<Rightarrow> (string, string) fmap \<Rightarrow> (string, string) fmap" where
  "set_all source us m = foldl (\<lambda>m u. fmupd u (map_get source u) m) m us"

lemma set_all_keys: "set_all source (sortedKeys source) fmempty = source"
proof -
  have "fmlookup (set_all source us m) k = (if k \<in> set us then Some (map_get source k) else fmlookup m k)" for us m k
    by (induction us arbitrary: m) (auto simp: set_all_def)
  moreover have "set (sortedKeys source) = fset (fmdom source)"
    by (auto simp: sortedKeys_def set_sorted_list_of_fmap image_iff intro: fmdomI)
  ultimately show ?thesis
    by (intro fmap_ext) (auto simp: map_get_def fmdomI fmdom_notI split: option.splits)
qed

lemma set_modes_replayed:
  assumes "configure_subjects ''mode'' (\<lambda>op u. SetMode ctx op \<lparr>sc_Subject = u\<rparr> (map_get source u)) us w = Inr w'"
    and "replay_ok w" and "\<forall>u \<in> set us. valid_utf8 u \<and> u \<noteq> ''''"
  shows "replay_ok w' \<and> registry w' = (registry w)\<lparr>snap_SubjectModes := set_all source us (snap_SubjectModes (registry w))\<rparr>"
  using assms
proof (induction us arbitrary: w)
  case (Cons u us)
  from Cons.prems(1) obtain w1 where w1: "configure ''mode'' (\<lambda>op. SetMode ctx op \<lparr>sc_Subject = u\<rparr> (map_get source u)) w = Inr w1"
    "configure_subjects ''mode'' (\<lambda>op u. SetMode ctx op \<lparr>sc_Subject = u\<rparr> (map_get source u)) us w1 = Inr w'"
    by (auto split: sum.splits)
  have u: "valid_utf8 u" "u \<noteq> ''''" using Cons.prems(3) by simp_all
  from set_mode_replayed [OF w1(1) Cons.prems(2) u(1)] u(2) Cons.IH [OF w1(2)] Cons.prems(3)
  show ?case by (simp add: set_all_def del: registry_fields)
qed (simp add: set_all_def del: registry_fields)

lemma set_levels_replayed:
  assumes "configure_subjects ''config'' (\<lambda>op u. SetCompatibility ctx op \<lparr>sc_Subject = u\<rparr> (map_get source u)) us w = Inr w'"
    and "replay_ok w" and "\<forall>u \<in> set us. valid_utf8 u \<and> u \<noteq> ''''"
  shows "replay_ok w' \<and> registry w' = (registry w)\<lparr>snap_SubjectCompatibility := set_all source us (snap_SubjectCompatibility (registry w))\<rparr>"
  using assms
proof (induction us arbitrary: w)
  case (Cons u us)
  from Cons.prems(1) obtain w1 where w1: "configure ''config'' (\<lambda>op. SetCompatibility ctx op \<lparr>sc_Subject = u\<rparr> (map_get source u)) w = Inr w1"
    "configure_subjects ''config'' (\<lambda>op u. SetCompatibility ctx op \<lparr>sc_Subject = u\<rparr> (map_get source u)) us w1 = Inr w'"
    by (auto split: sum.splits)
  have u: "valid_utf8 u" "u \<noteq> ''''" using Cons.prems(3) by simp_all
  from set_level_replayed [OF w1(1) Cons.prems(2) u(1)] u(2) Cons.IH [OF w1(2)] Cons.prems(3)
  show ?case by (simp add: set_all_def del: registry_fields)
qed (simp add: set_all_def del: registry_fields)

section \<open>The schemas of the replay\<close>

text \<open>A version that has the data of an item, whose schema is what the engine makes of the item's
  definition; and an item whose schema the registry has under the item's subject.\<close>

definition from_item :: "sourceSchema \<Rightarrow> SubjectVersion \<Rightarrow> bool" where
  "from_item item v \<longleftrightarrow> sv_Version v = ss_Version item \<and> sv_SchemaID v = ss_ID item
     \<and> sv_Timestamp v = ss_Timestamp item \<and> \<not> sv_Permanent v"

definition parses_to :: "ctx \<Rightarrow> (string \<Rightarrow> 'n Engine option) \<Rightarrow> sourceSchema \<Rightarrow> string \<Rightarrow> bool" where
  "parses_to ctx engines item identity \<longleftrightarrow>
     (\<exists>engine resolver parsed. engines (ss_SchemaType item) = Some engine
        \<and> en_Parse engine ctx (import_request item) resolver = Inr parsed \<and> p_Identity parsed = identity)"

definition schema_from :: "ctx \<Rightarrow> (string \<Rightarrow> 'n Engine option) \<Rightarrow> State \<Rightarrow> sourceSchema \<Rightarrow> SubjectVersion \<Rightarrow> bool" where
  "schema_from ctx engines s item v \<longleftrightarrow>
     (\<exists>schema. fmlookup (snap_Schemas s) (sv_SchemaID v) = Some schema \<and> parses_to ctx engines item (sch_Identity schema))"

definition imported_from :: "ctx \<Rightarrow> (string \<Rightarrow> 'n Engine option) \<Rightarrow> State \<Rightarrow> sourceSchema \<Rightarrow> SubjectVersion \<Rightarrow> bool" where
  "imported_from ctx engines s item v \<longleftrightarrow> from_item item v \<and> schema_from ctx engines s item v"

definition held :: "ctx \<Rightarrow> (string \<Rightarrow> 'n Engine option) \<Rightarrow> sourceSchema \<Rightarrow> State \<Rightarrow> bool" where
  "held ctx engines item s \<longleftrightarrow> (\<exists>v \<in> set (versions_of s (ss_Subject item)). schema_from ctx engines s item v)"

lemma schema_from_extends:
  assumes "schema_from ctx engines s item v" and "history_extends s s'" and "sv_SchemaID v' = sv_SchemaID v"
  shows "schema_from ctx engines s' item v'"
proof -
  from assms(1) obtain schema where "fmlookup (snap_Schemas s) (sv_SchemaID v) = Some schema" "parses_to ctx engines item (sch_Identity schema)"
    by (auto simp: schema_from_def)
  moreover from this(1) assms(2) obtain schema' where "fmlookup (snap_Schemas s') (sv_SchemaID v) = Some schema'"
      "sch_Identity schema' = sch_Identity schema"
    unfolding history_extends_def by blast
  ultimately show ?thesis using assms(3) by (simp add: schema_from_def)
qed

lemma imported_from_extends:
  "imported_from ctx engines s item v \<Longrightarrow> history_extends s s' \<Longrightarrow> imported_from ctx engines s' item v"
  "imported_from ctx engines s item v \<Longrightarrow> history_extends s s' \<Longrightarrow>
     imported_from ctx engines s' item (v\<lparr>sv_Deleted := True, sv_Permanent := False\<rparr>)"
  by (auto simp: imported_from_def from_item_def intro: schema_from_extends)

lemma held_extends:
  assumes "held ctx engines item s" and "history_extends s s'"
  shows "held ctx engines item s'"
proof -
  from assms(1) obtain v where v: "v \<in> set (versions_of s (ss_Subject item))" "schema_from ctx engines s item v"
    by (auto simp: held_def)
  let ?vs = "versions_of s (ss_Subject item)" and ?ws = "versions_of s' (ss_Subject item)"
  from v(1) obtain i where i: "i < length ?vs" "?vs ! i = v" by (auto simp: in_set_conv_nth)
  have "extends ?vs ?ws" using assms(2) by (simp add: history_extends_def)
  with i have "sv_evolves v (?ws ! i)" "i < length ?ws"
    unfolding extends_def list_all2_conv_all_nth by auto
  then have "?ws ! i \<in> set ?ws" "sv_SchemaID (?ws ! i) = sv_SchemaID v"
    by (simp, simp add: sv_evolves_fields)
  then show ?thesis using schema_from_extends [OF v(2) assms(2)] unfolding held_def by blast
qed

text \<open>Registrations and deletions keep the configuration.\<close>

definition settings :: "State \<Rightarrow> string \<times> (string, string) fmap \<times> string \<times> (string, string) fmap" where
  "settings s = (snap_GlobalMode s, snap_SubjectModes s, snap_GlobalCompatibility s, snap_SubjectCompatibility s)"

lemma settings_kept:
  assumes "issued s c e r" and "Apply s e = Inr s'" and "c = CRegister rc \<or> c = CDeleteVersion dc"
  shows "settings s' = settings s"
proof -
  from assms(2) obtain n where n: "applyPayload s e = Inr n"
    and s': "s' = n\<lparr>snap_Sequence := env_Sequence e,
       snap_Operations := (if env_OperationID e = '''' then snap_Operations n
         else fmupd (env_OperationID e) (env_Result e) (snap_Operations n))\<rparr>"
    by (rule Apply_Inr)
  from assms(1) have "settings n = settings s"
  proof (cases rule: issued.cases)
    case (register c' sid)
    then show ?thesis
      using n by (auto simp: apply_registration_Inr settings_def)
  next
    case (delete_version c' item schema)
    then have "markAll s (coerce_utf8 (dv_Subject c')) [dv_Version c'] (dv_Permanent c') = Inr n"
      using n unfolding delete_version(2) applyPayload_issued(2) by simp
    from arg_cong [OF markAll_config [OF this], of settings] show ?thesis by (simp add: settings_def)
  qed (use assms(3) in auto)
  then show ?thesis by (simp add: s' settings_def)
qed

definition importing :: "ctx \<Rightarrow> (string \<Rightarrow> 'n Engine option) \<Rightarrow> sourceSchema list \<Rightarrow> sourceSchema set \<Rightarrow> replay \<Rightarrow> bool" where
  "importing ctx engines source imported w \<longleftrightarrow> replay_ok w
     \<and> settings (m_state (fst w)) = (ModeImport, fmempty, snap_GlobalCompatibility NewState, fmempty)
     \<and> (\<forall>u. \<forall>v \<in> set (versions_of (m_state (fst w)) u).
          \<not> sv_Deleted v \<and> (\<exists>item \<in> set source. ss_Subject item = u \<and> imported_from ctx engines (m_state (fst w)) item v))
     \<and> (\<forall>u. distinct (map sv_SchemaID (versions_of (m_state (fst w)) u)))
     \<and> (\<forall>item \<in> imported. held ctx engines item (m_state (fst w)))"

text \<open>What the engines give is UTF-8: identities are hexadecimal digests.\<close>

definition engines_utf8 :: "(string \<Rightarrow> 'n Engine option) \<Rightarrow> bool" where
  "engines_utf8 engines \<longleftrightarrow> (\<forall>t engine ctx pr resolver parsed.
     engines t = Some engine \<and> en_Parse engine ctx pr resolver = Inr parsed \<longrightarrow> valid_utf8 (p_Identity parsed))"

text \<open>A registration that is not found among the versions of its subject brings a new schema ID.\<close>

lemma new_schema_id:
  assumes "issued s (CRegister c) e r" and "registry_inv s" and "v \<in> set (versions_of s (rc_Subject c))" and "active v"
  shows "sv_SchemaID v \<noteq> res_SchemaID r"
proof
  assume eq: "sv_SchemaID v = res_SchemaID r"
  have inv: "ids_ok s" "state_ok s" using assms(2) by (simp_all add: registry_inv_def)
  from assms(1) obtain sid where known: "\<forall>sid. fmlookup (snap_IdentityToID s) (rc_Identity c) = Some sid \<longrightarrow>
        existing_version s (rc_Subject c) sid = None"
    and same: "\<forall>existing. fmlookup (snap_Schemas s) sid = Some existing \<longrightarrow> sch_Identity existing = rc_Identity c"
    and r: "r = planned_result s c sid"
    by (elim issued_register) auto
  have sid: "sv_SchemaID v = sid" using eq r by (simp add: planned_result_def)
  obtain schema where schema: "fmlookup (snap_Schemas s) sid = Some schema"
    using state_ok_versions [OF inv(2), of "rc_Subject c"] assms(3) sid by (auto simp: versions_ok_def)
  with same ids_okD [OF inv(1) schema] have "fmlookup (snap_IdentityToID s) (rc_Identity c) = Some sid" by simp
  with known have "existing_version s (rc_Subject c) sid = None" by blast
  with assms(3,4) sid show False by (auto simp: existing_version_def find_None_iff)
qed

text \<open>Every version of the target comes from an item of the source and none is deleted yet; the versions of
  a subject have different schema IDs.\<close>

definition from_source :: "ctx \<Rightarrow> (string \<Rightarrow> 'n Engine option) \<Rightarrow> sourceSchema list \<Rightarrow> State \<Rightarrow> bool" where
  "from_source ctx engines source s \<longleftrightarrow>
     (\<forall>u. \<forall>v \<in> set (versions_of s u). \<not> sv_Deleted v
        \<and> (\<exists>item \<in> set source. ss_Subject item = u \<and> imported_from ctx engines s item v))
     \<and> (\<forall>u. distinct (map sv_SchemaID (versions_of s u)))"

lemma import_from_item:
  assumes "\<not> ss_ID item < 1" and "\<not> ss_Version item < 1" and "active version"
    and "sv_Version version = planned_version s (import_command n item parsed)"
    and "choose_id s (import_command n item parsed) = Inr (sv_SchemaID version)"
    and "sv_Timestamp version = rc_Timestamp (import_command n item parsed)"
  shows "from_item item version"
proof -
  have "(0::int64) < 1" by (simp add: int64_eval)
  with assms(1,2) have "ss_ID item \<noteq> 0" "ss_Version item \<noteq> 0" by auto
  then show ?thesis
    using assms(3-) by (auto simp: from_item_def planned_version_def choose_id_def active_def import_command_def split: if_splits option.splits)
qed

lemma import_registration:
  assumes c: "c = import_command n item parsed"
    and "issued s (CRegister c) e r" and "Apply s e = Inr s'" and "registry_inv s" and "command_utf8 (CRegister c)"
    and "valid_utf8 (ss_Subject item)" and "item \<in> set source" and ids: "\<not> ss_ID item < 1" "\<not> ss_Version item < 1"
    and "from_source ctx engines source s" and "parses_to ctx engines item (p_Identity parsed)"
  shows "from_source ctx engines source s'"
proof -
  have u: "rc_Subject c = ss_Subject item" by (simp add: c import_command_def)
  have ext: "history_extends s s'" using assms(3,4) by (intro Apply_history) (simp_all add: registry_inv_def)
  from assms(6) have "valid_utf8 (rc_Subject c)" by (simp add: u)
  with assms(2-5) show ?thesis
  proof (rule registration_visible)
    fix schema version
    assume vs: "versions_of s' (rc_Subject c) = versions_of s (rc_Subject c) @ [version]"
      and other: "\<And>u. u \<noteq> rc_Subject c \<Longrightarrow> versions_of s' u = versions_of s u"
      and v: "sv_Version version = res_Version r" "sv_SchemaID version = res_SchemaID r" "active version"
        "res_Version r = planned_version s c" "choose_id s c = Inr (res_SchemaID r)" "sv_Timestamp version = rc_Timestamp c"
    assume schema: "fmlookup (snap_Schemas s') (res_SchemaID r) = Some schema" "sch_Identity schema = rc_Identity c"
    have item: "imported_from ctx engines s' item version"
      using v schema assms(11) by (simp add: imported_from_def import_from_item [OF ids] c schema_from_def)
        (simp add: import_command_def)
    have "\<forall>v \<in> set (versions_of s (rc_Subject c)). active v"
      using assms(10) by (auto simp: from_source_def active_def imported_from_def from_item_def)
    then have "sv_SchemaID version \<notin> sv_SchemaID ` set (versions_of s (rc_Subject c))"
      using new_schema_id [OF assms(2,4)] v(2) by (metis imageE)
    then have "distinct (map sv_SchemaID (versions_of s' u'))" for u'
      using vs other assms(10) by (cases "u' = rc_Subject c") (auto simp: from_source_def)
    moreover have "\<not> sv_Deleted x \<and> (\<exists>item \<in> set source. ss_Subject item = w \<and> imported_from ctx engines s' item x)"
      if x: "x \<in> set (versions_of s' w)" for w x
    proof -
      consider "x \<in> set (versions_of s w)" | "x = version" "w = ss_Subject item"
        using x vs other [of w] u by (cases "w = rc_Subject c") auto
      then show ?thesis
      proof cases
        case 1
        with assms(10) show ?thesis unfolding from_source_def by (meson imported_from_extends(1) [OF _ ext])
      next
        case 2
        with item v(3) assms(7) show ?thesis by (auto simp: active_def)
      qed
    qed
    ultimately show ?thesis by (simp add: from_source_def)
  qed
qed

lemma import_item_replayed:
  assumes "import_item ctx engines item w = Inr w'" and "importing ctx engines source imported w"
    and "item \<in> set source" and "valid_utf8 (ss_Subject item)" and "engines_utf8 engines"
  shows "importing ctx engines source (insert item imported) w'"
proof -
  obtain m n where w: "w = (m, n)" by (cases w)
  from assms(1) obtain engine parsed r m' where engine: "engines (ss_SchemaType item) = Some engine"
    and parsed: "en_Parse engine ctx (import_request item) (import_Resolve (m_state m)) = Inr parsed"
    and reg: "Register ctx (import_command (Suc n) item parsed) m = (Inr r, m')" and w': "w' = (m', Suc n)"
    and ids: "\<not> ss_ID item < 1" "\<not> ss_Version item < 1"
    by (auto simp: import_item_def w split: if_splits option.splits sum.splits prod.splits)
  let ?c = "import_command (Suc n) item parsed" and ?u = "ss_Subject item"
  have inv: "replay_ok (m, n)" and reginv: "registry_inv (m_state m)" using assms(2) w by (simp_all add: importing_def replay_ok_def)
  have utf: "command_utf8 (CRegister ?c)"
    using engine parsed assms(5) nextOperation_utf8 by (auto simp: import_command_def engines_utf8_def)
  have ex: "exec ctx (CRegister ?c) m = (Inr r, m')" using reg by simp
  have op: "operation_of (CRegister ?c) = nextOperation ''schema'' (Suc n)" by (simp add: import_command_def)
  note step = replay_step [OF inv ex op utf]
  have p: "parses_to ctx engines item (p_Identity parsed)" using engine parsed by (auto simp: parses_to_def)
  have fresh: "retried (m_state m) (rc_OperationID ?c) = None" using replay_fresh [OF inv] by (simp add: import_command_def)
  have src: "from_source ctx engines source (m_state m)" using assms(2) w by (simp add: importing_def from_source_def)
  from registration_reads_back [OF reginv utf _ fresh reg] assms(4) obtain v schema
    where "Lookup (m_state m') ?u (res_Version r) False = (v, schema, True)" and sc: "sch_Identity schema = p_Identity parsed"
    by (auto simp: import_command_def)
  then have "v \<in> set (versions_of (m_state m') ?u)" "fmlookup (snap_Schemas (m_state m')) (sv_SchemaID v) = Some schema"
    using step(1) by (auto simp: Lookup_True replay_ok_def registry_inv_def)
  then have "held ctx engines item (m_state m')" using p sc unfolding held_def schema_from_def by metis
  moreover have "held ctx engines i (m_state m')" if "i \<in> imported" for i
    by (rule held_extends [OF _ step(2)]) (use assms(2) that w in \<open>simp add: importing_def\<close>)
  moreover have "settings (m_state m') = settings (m_state m) \<and> from_source ctx engines source (m_state m')"
    using reg fresh
  proof (cases rule: committed_registration)
    case (known sid item')
    then show ?thesis using src by simp
  next
    case (new e)
    show ?thesis
      using import_registration [OF refl new reginv utf assms(4,3) ids src p] settings_kept [OF new] by blast
  qed
  ultimately show ?thesis using step(1) assms(2) w w' by (simp add: importing_def from_source_def)
qed

lemma importing_subset: "importing ctx engines source A w \<Longrightarrow> B \<subseteq> A \<Longrightarrow> importing ctx engines source B w"
  by (auto simp: importing_def)

lemma import_pass_replayed:
  assumes "import_pass ctx engines pending w = Inr (remaining, progress, w')" and "importing ctx engines source imported w"
    and "set pending \<subseteq> set source" and "\<forall>item \<in> set source. valid_utf8 (ss_Subject item)" and "engines_utf8 engines"
  shows "set remaining \<subseteq> set pending \<and> importing ctx engines source (imported \<union> (set pending - set remaining)) w'"
  using assms(1-3)
proof (induction pending arbitrary: w remaining progress imported)
  case (Cons item rest)
  show ?case
  proof (cases "referencesAvailable (m_state (fst w)) (ss_References item)")
    case True
    with Cons.prems(1) obtain w1 p where w1: "import_item ctx engines item w = Inr w1"
      and rest: "import_pass ctx engines rest w1 = Inr (remaining, p, w')"
      by (auto split: sum.splits elim!: map_sum_InrE)
    have "importing ctx engines source (insert item imported) w1"
      using import_item_replayed [OF w1 Cons.prems(2)] Cons.prems(3) assms(4,5) by simp
    from Cons.IH [OF rest this] Cons.prems(3) show ?thesis by (auto elim: importing_subset)
  next
    case False
    with Cons.prems(1) obtain rem where "import_pass ctx engines rest w = Inr (rem, progress, w')" "remaining = item # rem"
      by (auto elim!: map_sum_InrE)
    with Cons.IH [OF _ Cons.prems(2)] Cons.prems(3) show ?thesis by (fastforce elim: importing_subset)
  qed
qed (auto elim: importing_subset)

lemma import_schemas_replayed:
  assumes "import_schemas ctx engines pending w = Inr w'" and "importing ctx engines source imported w"
    and "set pending \<subseteq> set source" and "\<forall>item \<in> set source. valid_utf8 (ss_Subject item)" and "engines_utf8 engines"
  shows "importing ctx engines source (imported \<union> set pending) w'"
  using assms
proof (induction ctx engines pending w arbitrary: imported rule: import_schemas.induct)
  case (1 ctx engines pending w)
  show ?case
  proof (cases "pending = []")
    case True
    with 1 show ?thesis by (simp add: import_schemas.simps)
  next
    case False
    with 1(2) obtain remaining w1 where pass: "import_pass ctx engines pending w = Inr (remaining, True, w1)"
      and rest: "import_schemas ctx engines remaining w1 = Inr w'"
      by (subst (asm) import_schemas.simps) (auto split: sum.splits if_splits)
    have p: "set remaining \<subseteq> set pending" "importing ctx engines source (imported \<union> (set pending - set remaining)) w1"
      using import_pass_replayed [OF pass 1(3-6)] by auto
    have "importing ctx engines source ((imported \<union> (set pending - set remaining)) \<union> set remaining) w'"
      using 1(1) [OF False pass refl refl _ rest p(2) _ 1(5,6)] p(1) 1(4) by auto
    then show ?thesis by (rule importing_subset) (use p(1) in auto)
  qed
qed

section \<open>Deletion marks\<close>

definition deleting :: "ctx \<Rightarrow> (string \<Rightarrow> 'n Engine option) \<Rightarrow> sourceSchema list \<Rightarrow> (string \<times> int64) set \<Rightarrow> replay \<Rightarrow> bool" where
  "deleting ctx engines source D w \<longleftrightarrow> replay_ok w
     \<and> settings (m_state (fst w)) = (ModeImport, fmempty, snap_GlobalCompatibility NewState, fmempty)
     \<and> (\<forall>u. \<forall>v \<in> set (versions_of (m_state (fst w)) u).
          (sv_Deleted v \<longleftrightarrow> (u, sv_Version v) \<in> D)
          \<and> (\<exists>item \<in> set source. ss_Subject item = u \<and> imported_from ctx engines (m_state (fst w)) item v))
     \<and> (\<forall>u. distinct (map sv_SchemaID (versions_of (m_state (fst w)) u)))
     \<and> (\<forall>item \<in> set source. held ctx engines item (m_state (fst w)))"

lemma delete_one_replayed:
  assumes del: "DeleteVersion ctx \<lparr>dv_OperationID = nextOperation ''delete'' (Suc n), dv_Subject = ss_Subject item,
      dv_Version = ss_Version item, dv_Permanent = False\<rparr> m = (Inr r, m')" (is "DeleteVersion ctx ?dv m = _")
    and D: "deleting ctx engines source D (m, n)" and u: "valid_utf8 (ss_Subject item)"
  shows "deleting ctx engines source (insert (ss_Subject item, ss_Version item) D) (m', Suc n)"
proof -
  have inv: "replay_ok (m, n)" using D by (simp add: deleting_def)
  then have ok: "state_ok (m_state m)" by (simp add: replay_ok_def registry_inv_def)
  have ex: "exec ctx (CDeleteVersion ?dv) m = (Inr r, m')" using del by simp
  have op: "operation_of (CDeleteVersion ?dv) = nextOperation ''delete'' (Suc n)" by simp
  have utf: "command_utf8 (CDeleteVersion ?dv)" using nextOperation_utf8 by simp
  note step = replay_step [OF inv ex op utf]
  obtain e where ia: "issued (m_state m) (CDeleteVersion ?dv) e r" "Apply (m_state m) e = Inr (m_state m')"
    by (rule exec_succeeds [OF ex]) (use replay_fresh [OF inv] in auto)
  then have "m_state m' \<noteq> m_state m" using Apply_sequence_less by fastforce
  note eff = version_deleted [OF ok _ del this, simplified]
  have vs: "versions_of (m_state m') (ss_Subject item) = map (\<lambda>i. if sv_Version i = ss_Version item
         then i\<lparr>sv_Deleted := True, sv_Permanent := False\<rparr> else i) (versions_of (m_state m) (ss_Subject item))"
    "\<And>u. u \<noteq> ss_Subject item \<Longrightarrow> versions_of (m_state m') u = versions_of (m_state m) u"
    using eff [OF u] by auto
  have "map sv_SchemaID (versions_of (m_state m') u) = map sv_SchemaID (versions_of (m_state m) u)" for u
    using vs by (cases "u = ss_Subject item") auto
  moreover have "sv_Deleted v = ((u, sv_Version v) \<in> insert (ss_Subject item, ss_Version item) D)"
    and "\<exists>item \<in> set source. ss_Subject item = u \<and> imported_from ctx engines (m_state m') item v"
    if "v \<in> set (versions_of (m_state m') u)" for u v
  proof -
    from that vs obtain v0 where v0: "v0 \<in> set (versions_of (m_state m) u)"
      "v = (if u = ss_Subject item \<and> sv_Version v0 = ss_Version item then v0\<lparr>sv_Deleted := True, sv_Permanent := False\<rparr> else v0)"
      by (cases "u = ss_Subject item") fastforce+
    with D have old: "sv_Deleted v0 = ((u, sv_Version v0) \<in> D)"
      "\<exists>item \<in> set source. ss_Subject item = u \<and> imported_from ctx engines (m_state m) item v0"
      by (auto simp: deleting_def)
    show "sv_Deleted v = ((u, sv_Version v) \<in> insert (ss_Subject item, ss_Version item) D)" using v0(2) old(1) by auto
    show "\<exists>item \<in> set source. ss_Subject item = u \<and> imported_from ctx engines (m_state m') item v"
      using v0(2) old(2) by (metis imported_from_extends [OF _ step(2)])
  qed
  moreover have "held ctx engines item (m_state m')" if "item \<in> set source" for item
    using D that by (auto simp: deleting_def intro: held_extends [OF _ step(2)])
  ultimately show ?thesis
    using step(1) settings_kept [OF ia] D by (simp add: deleting_def)
qed

lemma delete_marked_replayed:
  assumes "delete_marked ctx xs w = Inr w'" and "deleting ctx engines source D w" and "\<forall>item \<in> set xs. valid_utf8 (ss_Subject item)"
  shows "deleting ctx engines source (D \<union> {(ss_Subject item, ss_Version item) |item. item \<in> set xs \<and> ss_Deleted item}) w'"
  using assms
proof (induction xs arbitrary: w D)
  case (Cons item xs)
  let ?done = "\<lambda>xs. {(ss_Subject item, ss_Version item) |item. item \<in> set xs \<and> ss_Deleted item}"
  show ?case
  proof (cases "ss_Deleted item")
    case True
    obtain m n where w: "w = (m, n)" by (cases w)
    from Cons.prems(1) True obtain r m' where
      del: "DeleteVersion ctx \<lparr>dv_OperationID = nextOperation ''delete'' (Suc n), dv_Subject = ss_Subject item,
            dv_Version = ss_Version item, dv_Permanent = False\<rparr> m = (Inr r, m')"
      and rest: "delete_marked ctx xs (m', Suc n) = Inr w'"
      by (auto simp: w split: sum.splits prod.splits)
    have "deleting ctx engines source (insert (ss_Subject item, ss_Version item) D) (m', Suc n)"
      using Cons.prems(2,3) w by (intro delete_one_replayed [OF del]) simp_all
    from Cons.IH [OF rest this] Cons.prems(3)
    have "deleting ctx engines source (insert (ss_Subject item, ss_Version item) D \<union> ?done xs) w'" by simp
    moreover have "insert (ss_Subject item, ss_Version item) D \<union> ?done xs = D \<union> ?done (item # xs)" using True by auto
    ultimately show ?thesis by simp
  next
    case False
    then have "?done (item # xs) = ?done xs" by auto
    with False Cons show ?thesis by simp
  qed
qed simp

section \<open>The result\<close>

text \<open>Two items of a subject that the engines may give the same identity.\<close>

definition same_schema :: "ctx \<Rightarrow> (string \<Rightarrow> 'n Engine option) \<Rightarrow> sourceSchema \<Rightarrow> sourceSchema \<Rightarrow> bool" where
  "same_schema ctx engines a b \<longleftrightarrow>
     ss_Subject a = ss_Subject b \<and> (\<exists>identity. parses_to ctx engines a identity \<and> parses_to ctx engines b identity)"

text \<open>What is held for an item is the item's own version or that of another with the same schema.\<close>

lemma held_complete:
  assumes "held ctx engines item s"
    and "\<And>v. v \<in> set (versions_of s (ss_Subject item)) \<Longrightarrow>
      \<exists>other \<in> set source. ss_Subject other = ss_Subject item \<and> imported_from ctx engines s other v"
  shows "\<exists>other \<in> set source. same_schema ctx engines other item
    \<and> (\<exists>v \<in> set (versions_of s (ss_Subject item)). imported_from ctx engines s other v)"
proof -
  from assms(1) obtain v where v: "v \<in> set (versions_of s (ss_Subject item))" "schema_from ctx engines s item v"
    by (auto simp: held_def)
  from assms(2) [OF v(1)] obtain other where o: "other \<in> set source" "ss_Subject other = ss_Subject item"
    "imported_from ctx engines s other v" by blast
  with v(2) have "same_schema ctx engines other item"
    by (auto simp: imported_from_def schema_from_def same_schema_def)
  with o v(1) show ?thesis by blast
qed

lemma configuration_replayed:
  assumes "configure ''config'' (\<lambda>op. SetCompatibility ctx op global_scope (inv_globalCompatibility source)) w3 = Inr w4"
    and "configure_subjects ''config'' (\<lambda>op u. SetCompatibility ctx op \<lparr>sc_Subject = u\<rparr> (map_get (inv_subjectCompatibility source) u))
        (sortedKeys (inv_subjectCompatibility source)) w4 = Inr w5"
    and "configure_subjects ''mode'' (\<lambda>op u. SetMode ctx op \<lparr>sc_Subject = u\<rparr> (map_get (inv_subjectModes source) u))
        (sortedKeys (inv_subjectModes source)) w5 = Inr w6"
    and "configure ''mode'' (\<lambda>op. SetMode ctx op global_scope (inv_globalMode source)) w6 = Inr w7"
    and "replay_ok w3" and "settings (m_state (fst w3)) = (g, fmempty, l, fmempty)"
    and "\<forall>u \<in> set (sortedKeys (inv_subjectCompatibility source) @ sortedKeys (inv_subjectModes source)). valid_utf8 u \<and> u \<noteq> ''''"
  shows "replay_ok w7 \<and> snap_Subjects (m_state (fst w7)) = snap_Subjects (m_state (fst w3))
    \<and> snap_Schemas (m_state (fst w7)) = snap_Schemas (m_state (fst w3))
    \<and> settings (m_state (fst w7)) = (inv_globalMode source, inv_subjectModes source, inv_globalCompatibility source, inv_subjectCompatibility source)"
proof -
  have r4: "replay_ok w4" "registry w4 = (registry w3)\<lparr>snap_GlobalCompatibility := inv_globalCompatibility source\<rparr>"
    using set_level_replayed [OF assms(1,5)] by simp_all
  have r5: "replay_ok w5" "registry w5 = (registry w4)\<lparr>snap_SubjectCompatibility := set_all (inv_subjectCompatibility source)
      (sortedKeys (inv_subjectCompatibility source)) (snap_SubjectCompatibility (registry w4))\<rparr>"
    using set_levels_replayed [OF assms(2) r4(1)] assms(7) by auto
  have r6: "replay_ok w6" "registry w6 = (registry w5)\<lparr>snap_SubjectModes := set_all (inv_subjectModes source)
      (sortedKeys (inv_subjectModes source)) (snap_SubjectModes (registry w5))\<rparr>"
    using set_modes_replayed [OF assms(3) r5(1)] assms(7) by auto
  have r7: "replay_ok w7" "registry w7 = (registry w6)\<lparr>snap_GlobalMode := inv_globalMode source\<rparr>"
    using set_mode_replayed [OF assms(4) r6(1)] by auto
  have w7: "registry w7 = (registry w3)\<lparr>snap_GlobalCompatibility := inv_globalCompatibility source,
      snap_SubjectCompatibility := inv_subjectCompatibility source, snap_SubjectModes := inv_subjectModes source,
      snap_GlobalMode := inv_globalMode source\<rparr>"
    unfolding r7(2) r6(2) r5(2) r4(2) using assms(6) by (simp add: settings_def set_all_keys)
  from arg_cong [OF w7, of snap_Subjects] arg_cong [OF w7, of snap_Schemas] arg_cong [OF w7, of settings] r7(1)
  show ?thesis by (simp add: settings_def)
qed

lemma buildState_result:
  assumes "buildState ctx engines source = Inr s" and "engines_utf8 engines"
    and "\<forall>item \<in> set (inv_schemas source). valid_utf8 (ss_Subject item)"
    and "\<forall>u \<in> set (sortedKeys (inv_subjectCompatibility source) @ sortedKeys (inv_subjectModes source)). valid_utf8 u \<and> u \<noteq> ''''"
  shows "registry_inv s"
    and "settings s = (inv_globalMode source, inv_subjectModes source, inv_globalCompatibility source, inv_subjectCompatibility source)"
    and "\<And>u v. v \<in> set (versions_of s u) \<Longrightarrow> (\<exists>item \<in> set (inv_schemas source). ss_Subject item = u \<and> imported_from ctx engines s item v)
       \<and> (sv_Deleted v \<longleftrightarrow> (\<exists>item \<in> set (inv_schemas source). ss_Deleted item \<and> ss_Subject item = u \<and> ss_Version item = sv_Version v))"
    and "\<And>item. item \<in> set (inv_schemas source) \<Longrightarrow> held ctx engines item s"
    and "\<And>u. distinct (map sv_SchemaID (versions_of s u))"
proof -
  let ?src = "inv_schemas source"
  from assms(1) obtain w1 w2 w3 w4 w5 w6 w7 where
    w1: "configure ''mode'' (\<lambda>op. SetMode ctx op global_scope ModeImport) (NewMachine NewState None None (), 0) = Inr w1"
    and w2: "import_schemas ctx engines (sort_slice by_version ?src) w1 = Inr w2"
    and w3: "delete_marked ctx ?src w2 = Inr w3"
    and w4: "configure ''config'' (\<lambda>op. SetCompatibility ctx op global_scope (inv_globalCompatibility source)) w3 = Inr w4"
    and w5: "configure_subjects ''config'' (\<lambda>op u. SetCompatibility ctx op \<lparr>sc_Subject = u\<rparr> (map_get (inv_subjectCompatibility source) u))
        (sortedKeys (inv_subjectCompatibility source)) w4 = Inr w5"
    and w6: "configure_subjects ''mode'' (\<lambda>op u. SetMode ctx op \<lparr>sc_Subject = u\<rparr> (map_get (inv_subjectModes source) u))
        (sortedKeys (inv_subjectModes source)) w5 = Inr w6"
    and w7: "configure ''mode'' (\<lambda>op. SetMode ctx op global_scope (inv_globalMode source)) w6 = Inr w7"
    and s: "s = m_state (fst w7)"
    by (auto simp: buildState_def split: sum.splits)
  have "replay_ok (NewMachine NewState None None (), 0)" by (simp add: replay_ok_def NewMachine_def) (simp add: NewState_def)
  from set_mode_replayed [OF w1 this] have r1: "replay_ok w1"
    "registry w1 = (registry (NewMachine NewState None None (), 0))\<lparr>snap_GlobalMode := ModeImport\<rparr>" by simp_all
  have "importing ctx engines ?src {} w1"
    using r1(1) arg_cong [OF r1(2), of settings] arg_cong [OF r1(2), of snap_Subjects]
    by (simp add: importing_def settings_def NewMachine_def versions_of_def) (simp add: NewState_def)
  from import_schemas_replayed [OF w2 this] assms(2,3) have "importing ctx engines ?src (set ?src) w2" by simp
  then have "deleting ctx engines ?src {} w2" by (simp add: importing_def deleting_def)
  from delete_marked_replayed [OF w3 this assms(3)]
  have r3: "deleting ctx engines ?src {(ss_Subject item, ss_Version item) |item. item \<in> set ?src \<and> ss_Deleted item} w3" by simp
  then have w3': "replay_ok w3" "settings (m_state (fst w3)) = (ModeImport, fmempty, snap_GlobalCompatibility NewState, fmempty)"
    by (simp_all add: deleting_def)
  note fin = configuration_replayed [OF w4 w5 w6 w7 w3' assms(4), folded s]
  then have same: "versions_of s u = versions_of (m_state (fst w3)) u"
    "schema_from ctx engines s = schema_from ctx engines (m_state (fst w3))" for u
    by (auto simp: versions_of_def schema_from_def fun_eq_iff)
  show "registry_inv s" and "settings s = (inv_globalMode source, inv_subjectModes source, inv_globalCompatibility source, inv_subjectCompatibility source)"
    using fin by (simp_all add: replay_ok_def s)
  show "(\<exists>item \<in> set ?src. ss_Subject item = u \<and> imported_from ctx engines s item v)
       \<and> (sv_Deleted v \<longleftrightarrow> (\<exists>item \<in> set ?src. ss_Deleted item \<and> ss_Subject item = u \<and> ss_Version item = sv_Version v))"
    if "v \<in> set (versions_of s u)" for u v
    using r3 that unfolding imported_from_def same deleting_def by auto
  show "held ctx engines item s" if "item \<in> set ?src" for item
    using r3 that unfolding deleting_def held_def same by simp
  show "distinct (map sv_SchemaID (versions_of s u))" for u
    using r3 unfolding same deleting_def by simp
qed

text \<open>C30: What the replay of a source (\<open>buildState\<close>) gives, if it succeeds, is sound, and complete up to
  versions of one subject with the same schema: the registry satisfies the invariant; every version in
  it is a version of the source, with its number, schema ID, timestamp and deletion mark and with the
  schema the engine makes of its definition; levels and modes are the source's; and of every version of
  the source, that version itself or another one of the subject with the same schema is in the registry.
  So a version is in it unless its subject has another version with the same schema, and then it may
  be missing.\<close>

theorem import_is_faithful:
  assumes "buildState ctx engines source = Inr s" and "engines_utf8 engines"
    and "\<forall>item \<in> set (inv_schemas source). valid_utf8 (ss_Subject item)"
    and "\<forall>u \<in> set (sortedKeys (inv_subjectCompatibility source) @ sortedKeys (inv_subjectModes source)). valid_utf8 u \<and> u \<noteq> ''''"
  shows "registry_inv s
    \<and> (\<forall>u. \<forall>v \<in> set (versions_of s u).
         (\<exists>item \<in> set (inv_schemas source). ss_Subject item = u \<and> imported_from ctx engines s item v)
         \<and> (sv_Deleted v \<longleftrightarrow> (\<exists>item \<in> set (inv_schemas source). ss_Deleted item \<and> ss_Subject item = u \<and> ss_Version item = sv_Version v)))
    \<and> (\<forall>item \<in> set (inv_schemas source). \<exists>other \<in> set (inv_schemas source).
         same_schema ctx engines other item
         \<and> (\<exists>v \<in> set (versions_of s (ss_Subject item)). imported_from ctx engines s other v))
    \<and> settings s = (inv_globalMode source, inv_subjectModes source, inv_globalCompatibility source, inv_subjectCompatibility source)"
proof -
  note result = buildState_result [OF assms]
  have "\<exists>other \<in> set (inv_schemas source). same_schema ctx engines other item
         \<and> (\<exists>v \<in> set (versions_of s (ss_Subject item)). imported_from ctx engines s other v)"
    if "item \<in> set (inv_schemas source)" for item
    using held_complete [OF result(4) [OF that], of "inv_schemas source"] result(3) by blast
  with result(1-3) show ?thesis by blast
qed

section \<open>A version that is lost\<close>

text \<open>C31: An export that succeeds may lose versions: of two versions of a subject that have the same
  schema, which a source has when a schema was deleted softly and registered again, only one is in
  the result, although the export reports no error.\<close>

theorem reregistered_version_is_lost:
  assumes "buildState ctx engines source = Inr s" and "engines_utf8 engines"
    and "\<forall>item \<in> set (inv_schemas source). valid_utf8 (ss_Subject item)"
    and "\<forall>u \<in> set (sortedKeys (inv_subjectCompatibility source) @ sortedKeys (inv_subjectModes source)). valid_utf8 u \<and> u \<noteq> ''''"
    and "a \<in> set (inv_schemas source)" and "b \<in> set (inv_schemas source)" and "ss_Subject a = ss_Subject b"
    and "ss_ID a = ss_ID b" and "ss_Version a \<noteq> ss_Version b"
  shows "\<not> ((\<exists>v \<in> set (versions_of s (ss_Subject a)). from_item a v) \<and> (\<exists>v \<in> set (versions_of s (ss_Subject a)). from_item b v))"
proof -
  have "inj_on sv_SchemaID (set (versions_of s (ss_Subject a)))"
    using buildState_result(5) [OF assms(1-4)] by (simp add: distinct_map)
  then show ?thesis using assms(8,9) unfolding from_item_def by (metis inj_onD)
qed

end
