(* ===== verification/Engines.thy ===== *)
theory Engines
  imports Jsonschema_Compat Protobuf_Engine Avro_Canonical Migration_Faithful
begin

text \<open>
  The three engines together, as \<open>internal/app/app.go\<close>, \<open>internal/migration/confluent.go\<close>
  and \<open>confluent.NewServer\<close> put them into a map by schema type, and what they promise to the
  registry: identities are hexadecimal digests, and a registration that was accepted under a level
  passed the comparison of its engine.
\<close>

record ('s, 'k, 'f, 'm, 'd, 'v, 'c) libraries =
  lib_texts :: texts
  lib_hamba :: "('s, 'k) hamba"
  lib_protobuf :: "('f, 'm, 'd) protobuf"
  lib_validator :: "('v, 'c) validator"
  lib_ranges :: ranges

definition engines :: "('s, 'k, 'f, 'm, 'd, 'v, 'c) libraries \<Rightarrow> string \<Rightarrow> ('s, 'f, 'c) native Engine option" where
  "engines lib =
     [SchemaTypeAvro \<mapsto> avro_Engine (lib_texts lib) (lib_hamba lib),
      SchemaTypeProtobuf \<mapsto> protobuf_Engine (lib_texts lib) (lib_protobuf lib),
      SchemaTypeJSON \<mapsto> json_Engine (lib_texts lib) (lib_ranges lib) (lib_validator lib)]"

lemma engines_json [simp]: "engines lib SchemaTypeJSON = Some (json_Engine (lib_texts lib) (lib_ranges lib) (lib_validator lib))"
  by (simp add: engines_def)

section \<open>Identities\<close>

lemma hex_encode_valid [simp]: "valid_utf8 (hex_encode s)"
  using valid_utf8_ascii_append [OF ascii_hex_encode, of s "[]"] by simp

lemma schemaIdentity_valid [simp]: "valid_utf8 (schemaIdentity type canonical references)"
  "valid_utf8 (json_schemaIdentity canonical references)" "valid_utf8 (protobuf_schemaIdentity canonical references)"
  by (simp_all add: schemaIdentity_def json_schemaIdentity_def protobuf_schemaIdentity_def)

lemma engines_identities: "engines_utf8 (engines lib)"
  unfolding engines_utf8_def
proof (intro allI impI, elim conjE)
  fix t engine ctx request resolver parsed
  assume "engines lib t = Some engine" and "en_Parse engine ctx request resolver = Inr parsed"
  then show "valid_utf8 (p_Identity parsed)"
    by (auto simp: engines_def avro_Engine_def protobuf_Engine_def json_Engine_def avro_Parse_def protobuf_Parse_def
        json_Parse_def Let_def split: if_splits option.splits sum.splits prod.splits)
qed

section \<open>Accepted registrations\<close>

lemma commitApply_result: "commitApply ctx e result m = (Inr r, m') \<Longrightarrow> result = r"
  by (auto simp: commitApply_def Let_def split: option.splits sum.splits prod.splits if_splits)

lemma registered_version_checked:
  assumes "Register ctx c m = (Inr r, m')" and "m_state m' \<noteq> m_state m"
    and "EffectiveMode (m_state m) (rc_Subject c) \<noteq> ModeImport"
    and "EffectiveCompatibility (m_state m) (rc_Subject c) \<noteq> CompatibilityNone"
    and "compatibilitySchemas (m_state m) (rc_Subject c) \<noteq> []"
  shows "fst (m_check m (m_state m) (EffectiveCompatibility (m_state m) (rc_Subject c))
    (candidate_schema (m_state m) c (res_SchemaID r)) (compatibilitySchemas (m_state m) (rc_Subject c)))"
proof -
  have none: "retried (m_state m) (rc_OperationID c) = None"
    using assms(1,2) by (auto simp: Register_def split: option.splits)
  with assms(1) obtain e r' where plan: "planRegister m c = Inr (e, r')"
    and e: "env_Kind e \<noteq> []" "commitApply ctx e r' m = (Inr r, m')"
    using assms(2) by (auto simp: Register_def split: sum.splits if_splits prod.splits)
  have r: "r' = r" using e(2) by (rule commitApply_result)
  have "plan_new m c = Inr (e, r)"
    using plan e(1) r by (auto simp: planRegister_def Let_def zero_Envelope_def split: if_splits option.splits)
  then show ?thesis
    using assms(3-5) by (auto simp: plan_new_def Let_def split: sum.splits if_splits)
qed

lemma parse_previous_member:
  assumes "parse_previous engine ctx resolver schemas = Inr parsed" and "schema \<in> set schemas"
  obtains p where "p \<in> set parsed" and "en_Parse engine ctx (stored_request schema) resolver = Inr p"
  using assms
proof (induction schemas arbitrary: parsed thesis)
  case (Cons s schemas)
  then obtain p ps where p: "en_Parse engine ctx (stored_request s) resolver = Inr p"
    and ps: "parse_previous engine ctx resolver schemas = Inr ps" "parsed = p # ps"
    by (auto split: sum.splits elim!: map_sum_InrE)
  show ?case
  proof (cases "schema = s")
    case True
    with p ps(2) Cons.prems(1) [of p] show ?thesis by simp
  next
    case False
    with Cons.prems(3) have "schema \<in> set schemas" by simp
    from Cons.IH [OF _ ps(1) this] ps(2) Cons.prems(1) show ?thesis by (metis list.set_intros(2))
  qed
qed simp

lemma checker_accepts:
  assumes "fst (compatibilityChecker ctx es s lvl candidate previous)"
  obtains engine pc pps ms where "es (sch_Type candidate) = Some engine"
    and "en_Parse engine ctx (stored_request candidate) (appResolver_Resolve s) = Inr pc"
    and "parse_previous engine ctx (appResolver_Resolve s) previous = Inr pps"
    and "en_Compatible engine ctx lvl pc pps = Inr (True, ms)"
  using assms by (auto simp: compatibilityChecker_def split: option.splits sum.splits prod.splits)

text \<open>C6: What a JSON Schema version that passed the check is known to satisfy. The meaning of a schema
  here is that of the four compared keywords: \<open>type\<close>, \<open>required\<close>, \<open>properties\<close> and a boolean
  \<open>additionalProperties\<close>; other keywords, such as \<open>minLength\<close>, are not compared and nothing is said
  about them. Where a new version was registered while the level is BACKWARD or FULL, and the version
  it was checked against (under a transitive level, every version) names a type, as does every schema
  among its properties, every instance that satisfies these keywords of the old version satisfies those of the
  new one; the other way round for FORWARD and FULL where the new version names its types. Without the
  types it does not hold (C28).\<close>

theorem registered_json_schema_compatible:
  fixes lib :: "('s, 'k, 'f, 'm, 'd, 'v, 'c) libraries"
  assumes "Register ctx c m = (Inr r, m')" and "m_state m' \<noteq> m_state m" and "m_check m = compatibilityChecker cctx (engines lib)"
    and "EffectiveMode (m_state m) (rc_Subject c) \<noteq> ModeImport" and "visits_all (lib_ranges lib)"
    and "new = candidate_schema (m_state m) c (res_SchemaID r)" and "sch_Type new = SchemaTypeJSON"
    and "old \<in> set (compatibilitySchemas (m_state m) (rc_Subject c))"
    and "lvl = EffectiveCompatibility (m_state m) (rc_Subject c)" and "lvl \<noteq> CompatibilityNone"
  shows "\<exists>pn po. json_Parse (lib_texts lib) (lib_ranges lib) (lib_validator lib) cctx (stored_request new) (appResolver_Resolve (m_state m))
        = Inr (pn :: ('s, 'f, 'c) native Parsed)
    \<and> json_Parse (lib_texts lib) (lib_ranges lib) (lib_validator lib) cctx (stored_request old) (appResolver_Resolve (m_state m))
        = Inr (po :: ('s, 'f, 'c) native Parsed)
    \<and> (lvl \<in> {CompatibilityBackward, CompatibilityBackwardTransitive, CompatibilityFull, CompatibilityFullTransitive}
      \<and> json_shape False pn \<and> json_shape True po \<and> json_accepts matches po v \<longrightarrow> json_accepts matches pn v)
    \<and> (lvl \<in> {CompatibilityForward, CompatibilityForwardTransitive, CompatibilityFull, CompatibilityFullTransitive}
      \<and> json_shape False po \<and> json_shape True pn \<and> json_accepts matches pn v \<longrightarrow> json_accepts matches po v)"
proof -
  have "compatibilitySchemas (m_state m) (rc_Subject c) \<noteq> []" using assms(8) by auto
  from registered_version_checked [OF assms(1,2,4) assms(10) [unfolded assms(9)] this]
  have "fst (compatibilityChecker cctx (engines lib) (m_state m) lvl new (compatibilitySchemas (m_state m) (rc_Subject c)))"
    using assms(3,6,9) by simp
  then show ?thesis
  proof (rule checker_accepts)
    fix engine pc pps ms
    assume engine: "engines lib (sch_Type new) = Some engine"
      and pc: "en_Parse engine cctx (stored_request new) (appResolver_Resolve (m_state m)) = Inr pc"
      and pps: "parse_previous engine cctx (appResolver_Resolve (m_state m)) (compatibilitySchemas (m_state m) (rc_Subject c)) = Inr pps"
      and ok: "en_Compatible engine cctx lvl pc pps = Inr (True, ms)"
    have json: "engine = json_Engine (lib_texts lib) (lib_ranges lib) (lib_validator lib)"
      using engine assms(7) by simp
    from pps assms(8) obtain po where po: "po \<in> set pps"
      "en_Parse engine cctx (stored_request old) (appResolver_Resolve (m_state m)) = Inr po"
      by (rule parse_previous_member)
    have "json_Compatible (lib_texts lib) (lib_ranges lib) cctx lvl pc pps = Inr (True, ms)"
      using ok json by (simp add: json_Engine_def)
    from json_compatibility_sound [OF this assms(5) po(1)] pc po(2) json show ?thesis
      by (auto simp: json_Engine_def)
  qed
qed

end
