(* ===== verification/Kafka_Operations.thy ===== *)
theory Kafka_Operations
  imports Kafka_Store
begin

text \<open>
  The operations of the Kafka store that write to the topic or read the consumed state back
  (\<open>Commit\<close>, \<open>Replay\<close>, \<open>Follow\<close>, snapshots and backups of
  \<open>internal/storage/kafka/store.go\<close>). The transactional producer is a record of functions
  over the state \<open>'k\<close> of client and broker. What other goroutines do to the store while an
  operation runs is a list of events.
\<close>

section \<open>What happens while an operation waits\<close>

datatype kafka_event =
    Polled fetches
  | Checked "go_error option" "go_error + int"
  | Failed go_error
  | Closed

fun happen :: "kafka_event \<Rightarrow> KafkaStore \<Rightarrow> KafkaStore" where
  "happen (Polled f) st = (if ks_consuming st then consumeLoop_turn f st else st)"
| "happen (Checked ping committed) st = observe_end ping committed st"
| "happen (Failed err) st = kafka_recordError (Some err) st"
| "happen Closed st = kafka_Close st"

text \<open>A \<open>select\<close> on the context and the change channel ends in one of the two.\<close>

datatype wakeup = Done go_error | Changed "kafka_event list"

text \<open>The loop every wait shares: look at the store, then sleep until it changes.\<close>

fun wait_until :: "(KafkaStore \<Rightarrow> go_error option option) \<Rightarrow> wakeup list \<Rightarrow> KafkaStore
    \<Rightarrow> (go_error option \<times> KafkaStore) option" where
  "wait_until look ws st =
     (case look st of
        Some outcome \<Rightarrow> Some (outcome, st)
      | None \<Rightarrow>
          (case ws of
             [] \<Rightarrow> None
           | Done err # _ \<Rightarrow> Some (Some err, st)
           | Changed es # rest \<Rightarrow> wait_until look rest (fold happen es st)))"

declare wait_until.simps [simp del]

definition waitForTransition :: "wakeup list \<Rightarrow> u64 \<Rightarrow> string \<Rightarrow> KafkaStore \<Rightarrow> (go_error option \<times> KafkaStore) option" where
  "waitForTransition ws q encoded =
     wait_until (\<lambda>st. case fmlookup (ks_items st) q of
         Some stored \<Rightarrow>
           Some (if stored = encoded then None
                 else Some (FmtErr ''sequence %d conflicts with observed Kafka transition'' [ANat q] None))
       | None \<Rightarrow> if ks_closed st then Some (Some ErrClosed) else None) ws"

definition waitForSnapshot :: "wakeup list \<Rightarrow> string \<Rightarrow> KafkaStore \<Rightarrow> (go_error option \<times> KafkaStore) option" where
  "waitForSnapshot ws encoded =
     wait_until (\<lambda>st. if ks_snapshot st = encoded then Some None
                      else if ks_closed st then Some (Some ErrClosed) else None) ws"

section \<open>Transactions\<close>

record 'k producer =
  pr_ProducerID :: "'k \<Rightarrow> go_error option \<times> 'k"
  pr_IsRetriable :: "go_error \<Rightarrow> bool"
  pr_BeginTransaction :: "'k \<Rightarrow> go_error option \<times> 'k"
  pr_ProduceSync :: "(string \<times> string) list \<Rightarrow> 'k \<Rightarrow> go_error option \<times> 'k"
  pr_EndTransaction :: "bool \<Rightarrow> 'k \<Rightarrow> go_error option \<times> 'k"

text \<open>Each retry waits for the timer (\<open>None\<close>) or the context.\<close>

fun initializeProducer :: "'k producer \<Rightarrow> go_error option list \<Rightarrow> 'k \<Rightarrow> (go_error option \<times> 'k) option" where
  "initializeProducer p waits k =
     (case pr_ProducerID p k of
        (None, k') \<Rightarrow> Some (None, k')
      | (Some err, k') \<Rightarrow>
          if \<not> pr_IsRetriable p err \<and> \<not> errors_Is err ''CONCURRENT_TRANSACTIONS'' then Some (Some err, k')
          else (case waits of
             [] \<Rightarrow> None
           | Some stopped # _ \<Rightarrow> Some (Some stopped, k')
           | None # rest \<Rightarrow> initializeProducer p rest k'))"

declare initializeProducer.simps [simp del]

definition kafka_transaction :: "'k producer \<Rightarrow> ctx \<Rightarrow> go_error option list \<Rightarrow> (string \<times> string) list \<Rightarrow> 'k
    \<Rightarrow> (go_error option \<times> 'k) option" where
  "kafka_transaction p ctx waits records k =
     (case ctx of Some err \<Rightarrow> Some (Some err, k)
      | None \<Rightarrow>
          (case initializeProducer p waits k of
             None \<Rightarrow> None
           | Some (Some err, k1) \<Rightarrow>
               Some (Some (FmtErr ''initialize Kafka transactional producer: %w'' [] (Some err)), k1)
           | Some (None, k1) \<Rightarrow>
               (case pr_BeginTransaction p k1 of
                  (Some err, k2) \<Rightarrow> Some (Some (FmtErr ''begin Kafka transaction: %w'' [] (Some err)), k2)
                | (None, k2) \<Rightarrow>
                    (case pr_ProduceSync p records k2 of
                       (Some err, k3) \<Rightarrow>
                         Some (Some (FmtErr ''produce Kafka transaction: %w'' [] (Some err)),
                               snd (pr_EndTransaction p False k3))
                     | (None, k3) \<Rightarrow>
                         (case pr_EndTransaction p True k3 of
                            (Some err, k4) \<Rightarrow> Some (Some (FmtErr ''commit Kafka transaction: %w'' [] (Some err)), k4)
                          | (None, k4) \<Rightarrow> Some (None, k4))))))"

section \<open>Commit\<close>

definition checkLeadership :: "KafkaStore \<Rightarrow> go_error option" where
  "checkLeadership st =
     (if \<not> ko_RequireLeadership (ks_options st) then None
      else if le_Holder (ks_lease st) = '''' \<or> le_Epoch (ks_lease st) = 0
         \<or> pa_Holder (ks_primary st) \<noteq> le_Holder (ks_lease st) \<or> pa_Epoch (ks_primary st) \<noteq> le_Epoch (ks_lease st)
      then Some ErrNotPrimary else None)"

definition checkSequence :: "u64 \<Rightarrow> string \<Rightarrow> KafkaStore \<Rightarrow> go_error + bool" where
  "checkSequence q encoded st =
     (if ks_closed st then Inl ErrClosed
      else if q \<le> lastSequence st then
        (if item_at st q = encoded then Inr True
         else Inl (FmtErr ''sequence %d conflicts with an existing transition'' [ANat q] None))
      else if q \<noteq> lastSequence st + 1
      then Inl (FmtErr ''sequence %d does not follow %d'' [ANat q, ANat (lastSequence st)] None)
      else Inr False)"

text \<open>The waits of a producer, the events during its transaction, and the wakeups of the wait
  that follows.\<close>

record schedule =
  sd_waits :: "go_error option list"
  sd_during :: "kafka_event list"
  sd_wakeups :: "wakeup list"

definition kafka_Commit :: "'k producer \<Rightarrow> schedule \<Rightarrow> ctx \<Rightarrow> Envelope \<Rightarrow> 'k \<times> KafkaStore
    \<Rightarrow> (go_error option \<times> 'k \<times> KafkaStore) option" where
  "kafka_Commit p sched ctx e world = (case world of (k, st) \<Rightarrow>
     (case Validate e of Some err \<Rightarrow> Some (Some err, k, st)
      | None \<Rightarrow>
        (let encoded = marshal_Envelope e in
         case checkLeadership st of Some err \<Rightarrow> Some (Some err, k, st)
         | None \<Rightarrow>
           (case checkSequence (env_Sequence e) encoded st of
              Inl err \<Rightarrow> Some (Some err, k, st)
            | Inr True \<Rightarrow> Some (None, k, st)
            | Inr False \<Rightarrow>
                (case kafka_transaction p ctx (sd_waits sched) [(transitionKey (env_Sequence e), encoded)] k of
                   None \<Rightarrow> None
                 | Some (outcome, k') \<Rightarrow>
                     (case waitForTransition (sd_wakeups sched) (env_Sequence e) encoded
                             (fold happen (sd_during sched) st) of
                        None \<Rightarrow> None
                      | Some (observed, st') \<Rightarrow>
                          (case (outcome, observed) of
                             (_, None) \<Rightarrow> Some (None, k', st')
                           | (Some err, Some _) \<Rightarrow> Some (Some err, k', kafka_recordError (Some err) st')
                           | (None, Some err) \<Rightarrow>
                               Some (Some (FmtErr ''observe committed Kafka transition: %w'' [] (Some err)), k',
                                     kafka_recordError (Some err) st'))))))))"

section \<open>Replay\<close>

text \<open>\<open>make\<close> with a negative capacity panics.\<close>

abbreviation MakeslicePanic :: go_error where "MakeslicePanic \<equiv> Sentinel ''makeslice: cap out of range''"

fun kafka_replay_loop :: "polls \<Rightarrow> nat \<Rightarrow> string list \<Rightarrow> 'a callback \<Rightarrow> 'a \<Rightarrow> go_error + 'a" where
  "kafka_replay_loop polls i [] fn a = Inr a"
| "kafka_replay_loop polls i (raw # rest) fn a =
     (case polls i of Some err \<Rightarrow> Inl err
      | None \<Rightarrow>
          (case unmarshal_Envelope raw of
             None \<Rightarrow> Inl (FmtErr ''decode Kafka transition: %w'' [] (Some JsonErr))
           | Some e \<Rightarrow>
               (case Validate e of Some err \<Rightarrow> Inl err
                | None \<Rightarrow>
                    (case fn a e of Inl err \<Rightarrow> Inl err
                     | Inr a' \<Rightarrow> kafka_replay_loop polls (Suc i) rest fn a'))))"

definition kafka_Replay :: "polls \<Rightarrow> u64 \<Rightarrow> 'a callback \<Rightarrow> 'a \<Rightarrow> KafkaStore \<Rightarrow> go_error + 'a" where
  "kafka_Replay polls after fn a st =
     (if after < ks_base st
      then Inl (FmtErr ''replay sequence %d predates restored checkpoint %d; load the snapshot first''
             [ANat after, ANat (ks_base st)] None)
      else if lastSequence st < after then Inl MakeslicePanic
      else kafka_replay_loop polls 0 (map (item_at st) (sequence_range after (lastSequence st))) fn a)"

text \<open>One round of \<open>Follow\<close> keeps what the callback made of the new transitions and where they
  end; the rounds are separated by events, and a round that finds nothing new waits. When a round
  fails, \<open>Follow\<close> returns the error; what its callback made before that is not kept here.\<close>

definition follow_callback :: "'a callback \<Rightarrow> ('a \<times> u64) callback" where
  "follow_callback fn s e = (case fn (fst s) e of Inl err \<Rightarrow> Inl err | Inr a' \<Rightarrow> Inr (a', env_Sequence e))"

record follow_round =
  fr_polls :: polls
  fr_wakeup :: wakeup

fun kafka_Follow :: "follow_round list \<Rightarrow> u64 \<Rightarrow> 'a callback \<Rightarrow> 'a \<Rightarrow> KafkaStore \<Rightarrow> go_error option \<times> u64 \<times> 'a" where
  "kafka_Follow [] after fn a st = (None, after, a)"
| "kafka_Follow (r # rs) after fn a st =
     (if ks_closed st then (Some ErrClosed, after, a)
      else case kafka_Replay (fr_polls r) after (follow_callback fn) (a, after) st of
        Inl err \<Rightarrow> (Some err, after, a)
      | Inr (a', reached) \<Rightarrow>
          (case fr_wakeup r of
             Done err \<Rightarrow> if reached \<noteq> after then kafka_Follow rs reached fn a' st else (Some err, reached, a')
           | Changed es \<Rightarrow> kafka_Follow rs reached fn a' (fold happen es st)))"

section \<open>Snapshots and backups\<close>

definition kafka_SaveSnapshot :: "'k producer \<Rightarrow> schedule \<Rightarrow> ctx \<Rightarrow> Snapshot \<Rightarrow> 'k \<times> KafkaStore
    \<Rightarrow> (go_error option \<times> 'k \<times> KafkaStore) option" where
  "kafka_SaveSnapshot p sched ctx snapshot world = (case world of (k, st) \<Rightarrow>
     (case Restore snapshot of Inl err \<Rightarrow> Some (Some err, k, st)
      | Inr _ \<Rightarrow>
          if snap_Sequence snapshot > lastSequence st
          then Some (Some (FmtErr ''snapshot sequence %d exceeds committed sequence %d''
                 [ANat (snap_Sequence snapshot), ANat (lastSequence st)] None), k, st)
          else
            (let encoded = marshal_Snapshot snapshot in
             case kafka_transaction p ctx (sd_waits sched) [(snapshotRecordKey, encoded)] k of
               None \<Rightarrow> None
             | Some (Some err, k') \<Rightarrow>
                 Some (Some err, k', kafka_recordError (Some err) (fold happen (sd_during sched) st))
             | Some (None, k') \<Rightarrow>
                 (case waitForSnapshot (sd_wakeups sched) encoded (fold happen (sd_during sched) st) of
                    None \<Rightarrow> None
                  | Some (outcome, st') \<Rightarrow> Some (outcome, k', st')))))"

definition checkpoint_of :: "Snapshot \<Rightarrow> restoreCheckpoint" where
  "checkpoint_of snapshot = \<lparr>rs_FormatVersion = stateFormatVersion, rs_Sequence = snap_Sequence snapshot,
     rs_Checksum = snapshotChecksum (marshal_Snapshot snapshot)\<rparr>"

definition kafka_RestoreSnapshot :: "'k producer \<Rightarrow> schedule \<Rightarrow> ctx \<Rightarrow> Snapshot \<Rightarrow> 'k \<times> KafkaStore
    \<Rightarrow> (go_error option \<times> 'k \<times> KafkaStore) option" where
  "kafka_RestoreSnapshot p sched ctx snapshot world = (case world of (k, st) \<Rightarrow>
     (case Restore snapshot of Inl err \<Rightarrow> Some (Some err, k, st)
      | Inr _ \<Rightarrow>
          if \<not> (lastSequence st = 0 \<and> ks_snapshot st = '''')
          then Some (Some (FmtErr ''restore target is not empty'' [] None), k, st)
          else
            (let encoded = marshal_Snapshot snapshot in
             case kafka_transaction p ctx (sd_waits sched)
                    [(snapshotRecordKey, encoded),
                     (restoreRecordKey, print_json (enc_restoreCheckpoint (checkpoint_of snapshot)))] k of
               None \<Rightarrow> None
             | Some (Some err, k') \<Rightarrow> Some (Some err, k', fold happen (sd_during sched) st)
             | Some (None, k') \<Rightarrow>
                 (case wait_until (\<lambda>st. if ks_base st = snap_Sequence snapshot \<and> ks_snapshot st = encoded
                          then Some None else None) (sd_wakeups sched) (fold happen (sd_during sched) st) of
                    None \<Rightarrow> None
                  | Some (outcome, st') \<Rightarrow> Some (outcome, k', st')))))"

definition kafka_LoadSnapshot :: "ctx \<Rightarrow> KafkaStore \<Rightarrow> go_error + Snapshot option" where
  "kafka_LoadSnapshot ctx st =
     (case ctx of Some err \<Rightarrow> Inl err
      | None \<Rightarrow>
          if ks_snapshot st = '''' then Inr None
          else (case unmarshal_Snapshot (ks_snapshot st) of
             None \<Rightarrow> Inl (FmtErr ''decode Kafka snapshot: %w'' [] (Some JsonErr))
           | Some sn \<Rightarrow> (case Restore sn of Inl err \<Rightarrow> Inl err | Inr _ \<Rightarrow> Inr (Some sn))))"

text \<open>The raw values are compacted into the document, which fails on one that is not JSON. The
  sequences are sorted as signed integers. No transitions at all are written as \<open>null\<close>.\<close>

definition raw_json :: "string \<Rightarrow> go_error + json" where
  "raw_json raw = (case parse_json raw of None \<Rightarrow> Inl JsonErr | Some j \<Rightarrow> Inr (compact_raw j))"

fun raw_jsons :: "string list \<Rightarrow> go_error + json list" where
  "raw_jsons [] = Inr []"
| "raw_jsons (raw # rest) =
     (case raw_json raw of Inl err \<Rightarrow> Inl err
      | Inr j \<Rightarrow> (case raw_jsons rest of Inl err \<Rightarrow> Inl err | Inr js \<Rightarrow> Inr (j # js)))"

definition kafka_Backup :: "ctx \<Rightarrow> KafkaStore \<Rightarrow> go_error + string" where
  "kafka_Backup ctx st =
     (case ctx of Some err \<Rightarrow> Inl err
      | None \<Rightarrow>
          (let sequences = sort_key (\<lambda>q. sint64 (I64 q)) (map fst (sorted_list_of_fmap (ks_items st)))
           in case (if ks_snapshot st = '''' then Inr [] else raw_jsons [ks_snapshot st]) of
                Inl err \<Rightarrow> Inl err
              | Inr snapshot \<Rightarrow>
                  (case raw_jsons (map (item_at st) sequences) of
                     Inl err \<Rightarrow> Inl err
                   | Inr js \<Rightarrow>
                       Inr (print_json (obj
                         ([(''formatVersion'', enc_i64 stateFormatVersion),
                           (''topic'', enc_string (ko_Topic (ks_options st)))]
                          @ map (\<lambda>j. (''snapshot'', j)) snapshot
                          @ [(''transitions'', if js = [] then JNull else JArr js)])) @ [CHR 0x0A]))))"

text \<open>The store as the registry sees it when it recovers.\<close>

definition kafka_Store :: "KafkaStore committer \<Rightarrow> (ctx \<Rightarrow> Snapshot \<Rightarrow> KafkaStore \<Rightarrow> go_error option \<times> KafkaStore)
    \<Rightarrow> KafkaStore Store" where
  "kafka_Store commit save =
     \<lparr>st_Commit = commit, st_LoadSnapshot = (\<lambda>ctx st. (kafka_LoadSnapshot ctx st, st)),
      st_SaveSnapshot = save, st_Replay = (\<lambda>polls after fn a st. (kafka_Replay polls after fn a st, st)),
      st_RestoreSnapshot = None\<rparr>"

end
