(* ===== verification/Kafka_Recovery.thy ===== *)
theory Kafka_Recovery
  imports Kafka_Operations Transition_Log
begin

text \<open>
  What the Kafka store guarantees. Consuming the topic keeps an invariant and never changes what
  was consumed before; replicas that consumed the same records agree, whatever batches the records
  came in; and a replica that replays everything a primary has published recovers the state that
  primary had.
\<close>

section \<open>Consumption is append-only\<close>

text \<open>What a store has learnt from the topic. Everything else is about this replica.\<close>

definition kafka_content :: "KafkaStore \<Rightarrow> (u64, string) fmap \<times> string \<times> primaryAnnouncement \<times> u64" where
  "kafka_content st = (ks_items st, ks_snapshot st, ks_primary st, ks_base st)"

text \<open>Every stored value passed the checks it was read with.\<close>

definition kafka_inv :: "KafkaStore \<Rightarrow> bool" where
  "kafka_inv st \<longleftrightarrow>
     fmpred (\<lambda>q raw. q \<noteq> 0 \<and> (\<exists>e. unmarshal_Envelope raw = Some e \<and> env_Sequence e = q \<and> Validate e = None)) (ks_items st)
     \<and> (ks_snapshot st = '''' \<or> (\<exists>sn. unmarshal_Snapshot (ks_snapshot st) = Some sn \<and> Restore sn = Inr sn))
     \<and> (ks_primary st = zero_primaryAnnouncement \<or> validate_primary (ks_primary st) = None)"

definition kafka_extends :: "KafkaStore \<Rightarrow> KafkaStore \<Rightarrow> bool" where
  "kafka_extends st st' \<longleftrightarrow>
     (\<forall>q raw. fmlookup (ks_items st) q = Some raw \<longrightarrow> fmlookup (ks_items st') q = Some raw)
     \<and> ks_position st \<le> ks_position st' \<and> ks_end st \<le> ks_end st' \<and> ks_options st' = ks_options st
     \<and> ks_lease st' = ks_lease st"

lemma kafka_extends_refl [simp]: "kafka_extends st st"
  by (simp add: kafka_extends_def)

lemma kafka_extends_trans: "kafka_extends a b \<Longrightarrow> kafka_extends b c \<Longrightarrow> kafka_extends a c"
  unfolding kafka_extends_def by (metis order_trans)

lemma Restore_same: "Restore sn = Inr s \<Longrightarrow> s = sn"
  by (auto simp: Restore_def split: if_splits option.splits)

lemmas apply_record_defs = apply_transition_record_def apply_snapshot_record_def apply_primary_record_def
  apply_restore_record_def

lemma applyRecord_cases:
  assumes "applyRecord r st = Inr st'"
  obtains (transition) q raw and e :: Envelope where "kr_Key r = transitionKey q" and "q \<noteq> 0" and "kr_Value r = Some raw"
      and "unmarshal_Envelope raw = Some e" and "env_Sequence e = q" and "Validate e = None"
      and "fmlookup (ks_items st) q \<in> {None, Some raw}" and "st' = st\<lparr>ks_items := fmupd q raw (ks_items st)\<rparr>"
  | (snapshot) raw and sn :: Snapshot where "kr_Key r = snapshotRecordKey" and "kr_Value r = Some raw"
      and "unmarshal_Snapshot raw = Some sn" and "Restore sn = Inr sn" and "st' = st\<lparr>ks_snapshot := raw\<rparr>"
  | (no_snapshot) "kr_Key r = snapshotRecordKey" and "kr_Value r = None" and "st' = st\<lparr>ks_snapshot := ''''\<rparr>"
  | (primary) raw and p :: primaryAnnouncement where "kr_Key r = primaryRecordKey" and "kr_Value r = Some raw"
      and "validate_primary p = None" and "pa_Epoch (ks_primary st) \<le> pa_Epoch p" and "st' = st\<lparr>ks_primary := p\<rparr>"
  | (no_primary) "kr_Key r = primaryRecordKey" and "kr_Value r = None"
      and "st' = st\<lparr>ks_primary := zero_primaryAnnouncement\<rparr>"
  | (restore) c :: restoreCheckpoint where "kr_Key r = restoreRecordKey" and "rs_Checksum c = snapshotChecksum (ks_snapshot st)"
      and "rs_Sequence c \<noteq> 0" and "st' = st\<lparr>ks_base := rs_Sequence c\<rparr>"
proof (cases "parseTransitionKey (kr_Key r)")
  case (Pair q ok)
  show thesis
  proof (cases ok)
    case True
    with Pair assms have a: "apply_transition_record q (kr_Value r) st = Inr st'"
      and k: "kr_Key r = transitionKey q" "q \<noteq> 0"
      by (auto simp: applyRecord_def dest: parse_TransitionKeyD)
    then obtain raw e where "kr_Value r = Some raw" "unmarshal_Envelope raw = Some e" "env_Sequence e = q"
      "Validate e = None" "st' = st\<lparr>ks_items := fmupd q raw (ks_items st)\<rparr>"
      "\<forall>previous. fmlookup (ks_items st) q = Some previous \<longrightarrow> previous = raw"
      by (auto simp: apply_transition_record_def split: option.splits if_splits)
    moreover from this(6) have "fmlookup (ks_items st) q \<in> {None, Some raw}"
      by (cases "fmlookup (ks_items st) q") auto
    ultimately show thesis using transition k by blast
  next
    case False
    consider "kr_Key r = snapshotRecordKey" "apply_snapshot_record (kr_Value r) st = Inr st'"
      | "kr_Key r = primaryRecordKey" "apply_primary_record (kr_Value r) st = Inr st'"
      | "kr_Key r = restoreRecordKey" "apply_restore_record (kr_Value r) st = Inr st'"
      using assms Pair False by (auto simp: applyRecord_def split: if_splits)
    then show thesis
    proof cases
      case 1
      then show thesis using snapshot no_snapshot
        by (auto simp: apply_snapshot_record_def split: option.splits sum.splits dest: Restore_same)
    next
      case 2
      then show thesis using primary no_primary
        by (auto simp: apply_primary_record_def split: option.splits if_splits)
    next
      case 3
      then obtain c :: restoreCheckpoint where "rs_Checksum c = snapshotChecksum (ks_snapshot st)" "rs_Sequence c \<noteq> 0"
        "st' = st\<lparr>ks_base := rs_Sequence c\<rparr>"
        by (auto simp: apply_restore_record_def split: option.splits if_splits)
      with 3(1) show thesis by (rule restore)
    qed
  qed
qed

lemma applyRecord_inv:
  assumes "applyRecord r st = Inr st'" and "kafka_inv st"
  shows "kafka_inv st' \<and> kafka_extends st st'"
  using assms(1)
proof (cases rule: applyRecord_cases)
  case (transition q raw e)
  with assms(2) show ?thesis by (auto simp: kafka_inv_def kafka_extends_def fmpred_iff)
qed (use assms(2) in \<open>auto simp: kafka_inv_def kafka_extends_def\<close>)

lemma apply_records_append:
  "apply_records (xs @ ys) st =
     (case apply_records xs st of (Some err, st') \<Rightarrow> (Some err, st') | (None, st') \<Rightarrow> apply_records ys st')"
  by (induction xs arbitrary: st) (simp_all split: sum.split)

lemma apply_records_Inl:
  "(if kr_Control r then Inr st else applyRecord r st) = Inl err \<Longrightarrow> apply_records (r # rs) st = (Some err, st)"
  by simp

lemma apply_records_Inr:
  "(if kr_Control r then Inr st else applyRecord r st) = Inr st' \<Longrightarrow> apply_records (r # rs) st =
     apply_records rs (if kr_Offset r + 1 > ks_position st' then st'\<lparr>ks_position := kr_Offset r + 1\<rparr> else st')"
  by simp

lemma move_inv: "kafka_inv (st\<lparr>ks_position := p\<rparr>) = kafka_inv st" "kafka_inv (st\<lparr>ks_end := p\<rparr>) = kafka_inv st"
  by (simp_all add: kafka_inv_def)

lemma apply_records_inv:
  "apply_records rs st = (err, st') \<Longrightarrow> kafka_inv st \<Longrightarrow> kafka_inv st' \<and> kafka_extends st st'"
proof (induction rs arbitrary: st)
  case (Cons r rs)
  show ?case
  proof (cases "if kr_Control r then Inr st else applyRecord r st")
    case (Inl e)
    with Cons.prems show ?thesis by simp
  next
    case (Inr st1)
    then have st1: "kafka_inv st1 \<and> kafka_extends st st1"
      using Cons.prems(2) applyRecord_inv [of r st st1] by (auto split: if_splits)
    let ?st2 = "if kr_Offset r + 1 > ks_position st1 then st1\<lparr>ks_position := kr_Offset r + 1\<rparr> else st1"
    have "kafka_inv ?st2" "kafka_extends st1 ?st2" using st1 by (auto simp: move_inv kafka_extends_def)
    moreover have "apply_records rs ?st2 = (err, st')" using Cons.prems(1) Inr by simp
    ultimately show ?thesis using Cons.IH [of ?st2] st1 by (blast intro: kafka_extends_trans)
  qed
qed simp

lemma apply_partitions_inv:
  "apply_partitions ps st = (err, st') \<Longrightarrow> kafka_inv st \<Longrightarrow> kafka_inv st' \<and> kafka_extends st st'"
proof (induction ps arbitrary: st)
  case (Cons p ps)
  obtain err1 st1 where p: "apply_partition p st = (err1, st1)" by fastforce
  have "kafka_inv st1 \<and> kafka_extends st st1"
  proof (cases "fp_Topic p \<noteq> ko_Topic (ks_options st) \<or> fp_Partition p \<noteq> topicPartition")
    case True
    then show ?thesis using p Cons.prems(2) by (auto simp: apply_partition_def)
  next
    case False
    let ?st0 = "if fp_LastStableOffset p > ks_end st then st\<lparr>ks_end := fp_LastStableOffset p\<rparr> else st"
    obtain err2 st2 where r: "apply_records (fp_Records p) ?st0 = (err2, st2)" by fastforce
    have "kafka_inv ?st0" "kafka_extends st ?st0"
      using Cons.prems(2) by (auto simp: move_inv kafka_extends_def)
    with apply_records_inv [OF r] have "kafka_inv st2" "kafka_extends st st2"
      by (auto intro: kafka_extends_trans)
    moreover have "st1 = (if fp_Records p = [] \<and> fp_LastStableOffset p > ks_position st2
        then st2\<lparr>ks_position := fp_LastStableOffset p\<rparr> else st2)"
      using p False r by (simp add: apply_partition_def Let_def)
    ultimately show ?thesis by (auto simp: move_inv kafka_extends_def)
  qed
  with p Cons show ?case by (auto split: option.splits intro: kafka_extends_trans)
qed simp

lemma applyFetches_inv:
  "applyFetches f st = (err, st') \<Longrightarrow> kafka_inv st \<Longrightarrow> kafka_inv st' \<and> kafka_extends st st'"
  by (auto simp: applyFetches_def dest: apply_partitions_inv split: option.splits)

lemma record_error_inv:
  "kafka_inv (kafka_recordError err st) = kafka_inv st" "kafka_extends st (kafka_recordError err st)"
  "kafka_inv (recordFatalError err st) = kafka_inv st" "kafka_extends st (recordFatalError err st)"
  by (simp_all add: kafka_recordError_def recordFatalError_def kafka_inv_def kafka_extends_def split: option.split)

lemma happen_inv:
  assumes "kafka_inv st"
  shows "kafka_inv (happen ev st) \<and> kafka_extends st (happen ev st)"
proof (cases ev)
  case (Polled f)
  obtain err st' where f: "applyFetches f st = (err, st')" by fastforce
  have "kafka_inv st' \<and> kafka_extends st st'" by (rule applyFetches_inv [OF f assms])
  then have "kafka_inv (consumeLoop_turn f st) \<and> kafka_extends st (consumeLoop_turn f st)"
    using record_error_inv assms
    by (auto simp: consumeLoop_turn_def f kafka_inv_def kafka_extends_def recordFatalError_def kafka_recordError_def
        split: option.splits list.split)
  with Polled assms show ?thesis by simp
next
  case (Checked ping committed)
  then show ?thesis using assms
    by (auto simp: observe_end_def record_error_inv Let_def kafka_inv_def kafka_extends_def kafka_recordError_def
        split: option.split sum.split)
next
  case (Failed err)
  then show ?thesis using assms by (simp add: record_error_inv)
next
  case Closed
  then show ?thesis using assms by (simp add: kafka_Close_def kafka_inv_def kafka_extends_def)
qed

lemma happens_inv: "kafka_inv st \<Longrightarrow> kafka_inv (fold happen es st) \<and> kafka_extends st (fold happen es st)"
proof (induction es arbitrary: st)
  case (Cons ev es)
  then show ?case using happen_inv [of st ev] by (auto intro: kafka_extends_trans)
qed simp

lemma new_KafkaStore_inv [simp]: "kafka_inv (new_KafkaStore options)"
  by (simp add: kafka_inv_def new_KafkaStore_def)

text \<open>Whatever the broker delivers and whatever health checks, failures and closing happen in
  between, a store only keeps values that passed their checks, a transition once consumed is never
  replaced, the consumed position and the known end never move back, and the lease is not touched.\<close>

theorem kafka_consumption_append_only:
  assumes "kafka_inv st"
  shows "kafka_inv (fold happen es st) \<and> kafka_extends st (fold happen es st)"
  using assms by (rule happens_inv)

section \<open>Replicas agree\<close>

lemma applyRecord_content:
  assumes "kafka_content st = kafka_content st'"
  shows "map_sum id kafka_content (applyRecord r st) = map_sum id kafka_content (applyRecord r st')"
proof -
  have eq: "ks_items st = ks_items st'" "ks_snapshot st = ks_snapshot st'" "ks_primary st = ks_primary st'"
    "ks_base st = ks_base st'" using assms by (simp_all add: kafka_content_def)
  have "map_sum id kafka_content (apply_transition_record q v st) = map_sum id kafka_content (apply_transition_record q v st')"
    for q v by (auto simp: apply_transition_record_def eq kafka_content_def split: option.split)
  moreover have "map_sum id kafka_content (apply_snapshot_record v st) = map_sum id kafka_content (apply_snapshot_record v st')"
    for v by (simp add: apply_snapshot_record_def eq kafka_content_def split: option.split sum.split)
  moreover have "map_sum id kafka_content (apply_primary_record v st) = map_sum id kafka_content (apply_primary_record v st')"
    for v by (simp add: apply_primary_record_def eq kafka_content_def split: option.split)
  moreover have "map_sum id kafka_content (apply_restore_record v st) = map_sum id kafka_content (apply_restore_record v st')"
    for v by (simp add: apply_restore_record_def eq kafka_content_def split: option.split)
  ultimately show ?thesis
    by (cases "parseTransitionKey (kr_Key r)") (simp add: applyRecord_def split: bool.split)
qed

lemma map_sum_eq_cases:
  assumes "map_sum id f x = map_sum id f y"
  shows "(\<exists>e. x = Inl e \<and> y = Inl e) \<or> (\<exists>a b. x = Inr a \<and> y = Inr b \<and> f a = f b)"
  using assms by (cases x; cases y) auto

lemma content_move [simp]:
  "kafka_content (st\<lparr>ks_position := p\<rparr>) = kafka_content st" "kafka_content (st\<lparr>ks_end := p\<rparr>) = kafka_content st"
  by (simp_all add: kafka_content_def)

lemma apply_records_content:
  "kafka_content st = kafka_content st' \<Longrightarrow>
     map_prod id kafka_content (apply_records rs st) = map_prod id kafka_content (apply_records rs st')"
proof (induction rs arbitrary: st st')
  case (Cons r rs)
  let ?f = "\<lambda>st. if kr_Control r then Inr st else applyRecord r st"
  have "map_sum id kafka_content (?f st) = map_sum id kafka_content (?f st')"
    using applyRecord_content [OF Cons.prems, of r] Cons.prems by (cases "kr_Control r") simp_all
  from map_sum_eq_cases [OF this] show ?case
  proof
    assume "\<exists>e. ?f st = Inl e \<and> ?f st' = Inl e"
    then obtain e where "?f st = Inl e" "?f st' = Inl e" by blast
    from this [THEN apply_records_Inl [of _ _ _ rs]] Cons.prems show ?thesis
      by (simp only: map_prod_simp)
  next
    assume "\<exists>a b. ?f st = Inr a \<and> ?f st' = Inr b \<and> kafka_content a = kafka_content b"
    then obtain a b where ab: "?f st = Inr a" "?f st' = Inr b" "kafka_content a = kafka_content b" by blast
    let ?m = "\<lambda>s. if kr_Offset r + 1 > ks_position s then s\<lparr>ks_position := kr_Offset r + 1\<rparr> else s"
    have "kafka_content (?m a) = kafka_content (?m b)" using ab(3) by simp
    from Cons.IH [OF this] show ?thesis unfolding ab(1,2) [THEN apply_records_Inr] .
  qed
qed simp

lemma apply_records_options: "ks_options (snd (apply_records rs st)) = ks_options st"
proof (induction rs arbitrary: st)
  case (Cons r rs)
  show ?case
  proof (cases "if kr_Control r then Inr st else applyRecord r st")
    case (Inl err)
    show ?thesis unfolding apply_records_Inl [OF Inl] by simp
  next
    case (Inr st')
    have "ks_options st' = ks_options st" if "applyRecord r st = Inr st'"
      using that by (cases rule: applyRecord_cases) simp_all
    then have "ks_options st' = ks_options st" using Inr by (cases "kr_Control r") simp_all
    then show ?thesis unfolding apply_records_Inr [OF Inr] Cons.IH by simp
  qed
qed simp

text \<open>Batches of this partition, in the order the broker sends them.\<close>

definition batches_of :: "string \<Rightarrow> kafka_record list \<Rightarrow> fetch_partition list \<Rightarrow> bool" where
  "batches_of topic rs ps \<longleftrightarrow> concat (map fp_Records ps) = rs
     \<and> (\<forall>p \<in> set ps. fp_Topic p = topic \<and> fp_Partition p = topicPartition)"

lemma apply_partitions_content:
  "batches_of (ko_Topic (ks_options st)) rs ps \<Longrightarrow> kafka_content st = kafka_content st' \<Longrightarrow>
     map_prod id kafka_content (apply_partitions ps st) = map_prod id kafka_content (apply_records rs st')"
proof (induction ps arbitrary: rs st st')
  case Nil
  then show ?case by (simp add: batches_of_def)
next
  case (Cons p ps)
  obtain rest where rs: "rs = fp_Records p @ rest" and ps: "batches_of (ko_Topic (ks_options st)) rest ps"
    and p: "fp_Topic p = ko_Topic (ks_options st)" "fp_Partition p = topicPartition"
    using Cons.prems(1) by (auto simp: batches_of_def)
  let ?st0 = "if fp_LastStableOffset p > ks_end st then st\<lparr>ks_end := fp_LastStableOffset p\<rparr> else st"
  obtain err2 st2 where r: "apply_records (fp_Records p) ?st0 = (err2, st2)" by fastforce
  obtain err3 st3 where r': "apply_records (fp_Records p) st' = (err3, st3)" by fastforce
  have "map_prod id kafka_content (apply_records (fp_Records p) ?st0) =
      map_prod id kafka_content (apply_records (fp_Records p) st')"
    using Cons.prems(2) by (intro apply_records_content) simp
  then have same: "err3 = err2" "kafka_content st2 = kafka_content st3" using r r' by simp_all
  let ?st1 = "if fp_Records p = [] \<and> fp_LastStableOffset p > ks_position st2
      then st2\<lparr>ks_position := fp_LastStableOffset p\<rparr> else st2"
  have part: "apply_partition p st = (err2, ?st1)" using p r by (simp add: apply_partition_def Let_def)
  have content: "kafka_content ?st1 = kafka_content st3" using same by simp
  have options: "ks_options ?st1 = ks_options st"
    using apply_records_options [of "fp_Records p" ?st0] r by simp
  show ?case
  proof (cases err2)
    case None
    have "map_prod id kafka_content (apply_partitions ps ?st1) = map_prod id kafka_content (apply_records rest st3)"
      using ps content options by (intro Cons.IH) simp_all
    moreover have "apply_partitions (p # ps) st = apply_partitions ps ?st1"
      unfolding apply_partitions.simps part None by (simp only: prod.case option.case)
    moreover have "apply_records rs st' = apply_records rest st3"
      unfolding rs apply_records_append r' same(1) None by (simp only: prod.case option.case)
    ultimately show ?thesis by (simp only:)
  next
    case (Some err)
    have "apply_partitions (p # ps) st = (Some err, ?st1)"
      unfolding apply_partitions.simps part Some by (simp only: prod.case option.case)
    moreover have "apply_records rs st' = (Some err, st3)"
      unfolding rs apply_records_append r' same(1) Some by (simp only: prod.case option.case)
    ultimately show ?thesis using content by (simp only: map_prod_simp)
  qed
qed

text \<open>Replicas agree: two replicas that were delivered the same records of the topic, each in
  batches of its own, with control records and empty fetches, fail with the same error or hold the
  same transitions, snapshot, primary and checkpoint, so that they recover the same state.\<close>

theorem replicas_agree:
  assumes "batches_of (ko_Topic options) rs ps" and "batches_of (ko_Topic options) rs ps'"
    and "apply_partitions ps (new_KafkaStore options) = (err, st)"
    and "apply_partitions ps' (new_KafkaStore options) = (err', st')"
  shows "err = err' \<and> kafka_content st = kafka_content st'
    \<and> kafka_LoadSnapshot None st = kafka_LoadSnapshot None st' \<and> validateReplay st = validateReplay st'
    \<and> kafka_Replay polls after Apply s st = kafka_Replay polls after Apply s st'"
proof -
  have t: "ko_Topic (ks_options (new_KafkaStore options)) = ko_Topic options" by (simp add: new_KafkaStore_def)
  have "map_prod id kafka_content (apply_partitions ps (new_KafkaStore options)) =
      map_prod id kafka_content (apply_partitions ps' (new_KafkaStore options))"
    using assms(1,2) apply_partitions_content [of "new_KafkaStore options"] t by metis
  then have same: "err = err'" "kafka_content st = kafka_content st'" using assms(3,4) by simp_all
  then have eq: "ks_items st = ks_items st'" "ks_snapshot st = ks_snapshot st'" "ks_base st = ks_base st'"
    by (simp_all add: kafka_content_def)
  then have "item_at st = item_at st'" and "lastSequence st = lastSequence st'"
    by (simp_all add: item_at_def lastSequence_def fun_eq_iff)
  with same eq show ?thesis
    by (simp add: kafka_LoadSnapshot_def kafka_Replay_def validateReplay_def)
qed

section \<open>Recovery\<close>

text \<open>The state a store holds: its snapshot, or the empty registry, followed by the transitions
  after it.\<close>

definition snapshot_base :: "string \<Rightarrow> State \<Rightarrow> bool" where
  "snapshot_base raw base \<longleftrightarrow> (if raw = '''' then base = NewState
     else unmarshal_Snapshot raw = Some base \<and> Restore base = Inr base)"

definition log_items :: "Envelope list \<Rightarrow> (u64, string) fmap" where
  "log_items log = fmap_of_list (map (\<lambda>e. (env_Sequence e, marshal_Envelope e)) log)"

definition kafka_has :: "KafkaStore \<Rightarrow> State \<Rightarrow> bool" where
  "kafka_has st s \<longleftrightarrow> (\<exists>base log. snapshot_base (ks_snapshot st) base
     \<and> logged base (unat (ks_base st)) log s \<and> ks_items st = log_items log)"

lemma log_items_lookup:
  assumes "log_from a log"
  shows "fmlookup (log_items log) q =
    (if a < unat q \<and> unat q \<le> a + length log then Some (marshal_Envelope (log ! (unat q - a - 1))) else None)"
proof -
  let ?xs = "map (\<lambda>e. (env_Sequence e, marshal_Envelope e)) log"
  have nth: "env_Sequence (log ! i) = of_nat (a + i + 1)" if "i < length log" for i
    using assms that by (intro u64_eq_of_nat) (simp add: log_from_def)

  have d: "distinct (map fst ?xs)"
  proof -
    have "i = j" if "i < length log" "j < length log" "env_Sequence (log ! i) = env_Sequence (log ! j)" for i j
    proof -
      have "unat (env_Sequence (log ! i)) = unat (env_Sequence (log ! j))" using that(3) by simp
      then show ?thesis using assms that(1,2) by (simp add: log_from_def)
    qed
    then show ?thesis by (auto simp: distinct_conv_nth comp_def)
  qed
  show ?thesis
  proof (cases "a < unat q \<and> unat q \<le> a + length log")
    case True
    let ?i = "unat q - a - 1"
    have i: "?i < length log" "a + ?i + 1 = unat q" using True by auto
    have "env_Sequence (log ! ?i) = q" using nth [OF i(1)] i(2) u64_eq_of_nat [of q "unat q"] by (simp only:)
    then have "(q, marshal_Envelope (log ! ?i)) \<in> set ?xs" using i(1) by force
    then show ?thesis using d True by (simp add: log_items_def fmlookup_of_list)
  next
    case False
    have "q \<notin> fst ` set ?xs"
    proof
      assume "q \<in> fst ` set ?xs"
      then obtain i where "i < length log" "env_Sequence (log ! i) = q" by (auto simp: in_set_conv_nth)
      moreover from this have "unat q = a + i + 1" using assms by (auto simp: log_from_def)
      ultimately show False using False by simp
    qed
    then have "map_of ?xs q = None" by (simp only: map_of_eq_None_iff not_False_eq_True)
    with False show ?thesis by (simp add: log_items_def fmlookup_of_list)
  qed
qed

lemma foldl_max_word:
  fixes xs :: "u64 list"
  shows "foldl (\<lambda>last q. if q > last then q else last) b xs = Max (insert b (set xs))"
proof (induction xs arbitrary: b)
  case (Cons x xs)
  have "Max (insert (if x > b then x else b) (set xs)) = Max (insert b (insert x (set xs)))"
    by (cases "xs = []") (auto simp: max_def)
  with Cons show ?case by simp
qed simp

lemma lastSequence_Max: "lastSequence st = Max (insert (ks_base st) (fmdom' (ks_items st)))"
proof -
  have "set (map fst (sorted_list_of_fmap (ks_items st))) = fmdom' (ks_items st)"
    by (auto simp: set_sorted_list_of_fmap fmdom'_def dom_def image_iff fmlookup_dom'_iff)
  then show ?thesis by (simp only: lastSequence_def foldl_max_word)
qed

lemma lastSequence_logged:
  assumes "logged base (unat (ks_base st)) log s" and "ks_items st = log_items log"
  shows "lastSequence st = snap_Sequence s"
proof -
  let ?a = "unat (ks_base st)"
  have log: "log_from ?a log" using assms(1) by (simp add: logged_def)
  have q: "unat (snap_Sequence s) = ?a + length log"
    unfolding logged_Sequence [OF assms(1)] using log by (intro unat_of_nat_u64) (simp add: log_from_def)
  have le: "unat x \<le> ?a + length log" if "x \<in> insert (ks_base st) (fmdom' (ks_items st))" for x
    using that log_items_lookup [OF log, of x] assms(2) by (auto simp: fmlookup_dom'_iff split: if_splits)
  have mem: "snap_Sequence s \<in> insert (ks_base st) (fmdom' (ks_items st))"
  proof (cases "length log = 0")
    case True
    then have "snap_Sequence s = ks_base st" using q by (intro word_unat_eq_iff [THEN iffD2]) simp
    then show ?thesis by simp
  next
    case False
    then show ?thesis
      using log_items_lookup [OF log, of "snap_Sequence s"] q assms(2) by (auto simp: fmlookup_dom'_iff)
  qed
  show ?thesis unfolding lastSequence_Max
    using mem le q by (intro Max_eqI) (auto simp: word_le_nat_alt)
qed

lemma kafka_replay_apply_all:
  "\<forall>e \<in> set log. Validate e = None \<and> payload_ok e \<and> envelope_utf8 e \<Longrightarrow>
     kafka_replay_loop (\<lambda>_. None) i (map marshal_Envelope log) Apply s = apply_all s log"
  by (induction log arbitrary: i s) (simp_all add: unmarshal_marshal_Envelope split: sum.split)

lemma item_range:
  assumes "log_from a log" and "a \<le> b" and "b \<le> a + length log" and "ks_items st = log_items log"
  shows "map (item_at st) (map of_nat [b + 1..<a + length log + 1]) = map marshal_Envelope (drop (b - a) log)"
proof (rule nth_equalityI)
  show "length (map (item_at st) (map of_nat [b + 1..<a + length log + 1])) =
      length (map marshal_Envelope (drop (b - a) log))" using assms(2,3) by (simp del: upt_Suc)
next
  fix i
  assume "i < length (map (item_at st) (map of_nat [b + 1..<a + length log + 1]))"
  then have i: "b + i + 1 \<le> a + length log" by (simp del: upt_Suc)
  have "unat (of_nat (b + i + 1) :: u64) = b + i + 1"
    using assms(1) i by (intro unat_of_nat_u64) (simp add: log_from_def)
  then have "item_at st (of_nat (b + i + 1)) = marshal_Envelope (log ! (b - a + i))"
    using log_items_lookup [OF assms(1), of "of_nat (b + i + 1)"] i assms(2,4)
    by (simp add: item_at_def del: of_nat_add of_nat_Suc)
  with i assms(2,3) show "map (item_at st) (map of_nat [b + 1..<a + length log + 1]) ! i =
      map marshal_Envelope (drop (b - a) log) ! i"
    by (simp add: add.commute add.left_commute del: of_nat_add of_nat_Suc upt_Suc)
qed

lemma marshal_nonempty [simp]: "marshal_Envelope e \<noteq> ''''"
  by (simp add: marshal_Envelope_def enc_Envelope_def obj_def)

lemma kafka_has_recovers:
  assumes "kafka_has st s"
  shows "recoverState (kafka_Store commit save) None (\<lambda>_. None) st = (Inr s, st)" and "validateReplay st = None"
    and "lastSequence st = snap_Sequence s"
proof -
  obtain base log where b: "snapshot_base (ks_snapshot st) base" and l: "logged base (unat (ks_base st)) log s"
    and items: "ks_items st = log_items log" using assms by (auto simp: kafka_has_def)
  let ?a = "unat (ks_base st)" and ?b = "unat (snap_Sequence base)"
  have log: "log_from ?a log" "?a \<le> ?b" "?b \<le> ?a + length log" "apply_all base (drop (?b - ?a) log) = Inr s"
    using l by (simp_all add: logged_def)
  show last: "lastSequence st = snap_Sequence s" using l items by (rule lastSequence_logged)
  have q: "unat (lastSequence st) = ?a + length log"
    unfolding last logged_Sequence [OF l] using log(1) by (intro unat_of_nat_u64) (simp add: log_from_def)
  have "item_at st x \<noteq> ''''" if "x \<in> set (sequence_range (ks_base st) (lastSequence st))" for x
  proof -
    from that have "x \<in> of_nat ` {?a + 1..<?a + length log + 1}" by (auto simp: sequence_range_def q)
    then obtain n where n: "?a + 1 \<le> n" "n < ?a + length log + 1" "x = of_nat n" by auto
    then have "unat x = n" using log(1) unat_of_nat_u64 [of n] by (simp add: log_from_def)
    then show ?thesis using log_items_lookup [OF log(1), of x] n items by (simp add: item_at_def)
  qed
  then show "validateReplay st = None" by (auto simp: validateReplay_def find_None_iff split: option.split dest: find_SomeD)
  have "kafka_LoadSnapshot None st = Inr (if ks_snapshot st = '''' then None else Some base)"
    using b by (simp add: kafka_LoadSnapshot_def snapshot_base_def split: if_splits)
  moreover have "kafka_Replay (\<lambda>_. None) (snap_Sequence base) Apply base st = Inr s"
  proof -
    have "\<not> snap_Sequence base < ks_base st" "\<not> lastSequence st < snap_Sequence base"
      using log(2,3) q by (simp_all add: word_less_nat_alt)
    moreover have "map (item_at st) (sequence_range (snap_Sequence base) (lastSequence st)) =
        map marshal_Envelope (drop (?b - ?a) log)"
      unfolding sequence_range_def q using log items by (intro item_range)
    moreover have "\<forall>e \<in> set (drop (?b - ?a) log). Validate e = None \<and> payload_ok e \<and> envelope_utf8 e"
      using log(1) by (auto simp: log_from_def dest: in_set_dropD)
    ultimately show ?thesis using kafka_replay_apply_all log(4) by (simp add: kafka_Replay_def)
  qed
  moreover have "(case (if ks_snapshot st = '''' then None else Some base) of None \<Rightarrow> Inr NewState | Some sn \<Rightarrow> Restore sn) = Inr base"
    using b by (simp add: snapshot_base_def split: if_splits)
  ultimately show "recoverState (kafka_Store commit save) None (\<lambda>_. None) st = (Inr s, st)"
    by (simp add: recoverState_def kafka_Store_def)
qed

section \<open>What a primary publishes\<close>

text \<open>The store of a replica that has consumed the records.\<close>

definition replica :: "Options \<Rightarrow> kafka_record list \<Rightarrow> KafkaStore" where
  "replica options rs = snd (apply_records rs (new_KafkaStore options))"

definition value_record :: "kafka_record \<Rightarrow> string \<Rightarrow> string \<Rightarrow> bool" where
  "value_record r key v \<longleftrightarrow> \<not> kr_Control r \<and> kr_Key r = key \<and> kr_Value r = Some v"

text \<open>The committed records of a topic and the state its primary has published: commits of the
  transition that follows, repeated records of a transition, snapshots of the published state,
  primary announcements that do not lower the epoch, a restored snapshot in an empty topic, and
  control records. The guards are those the operations of the store check on what they have
  consumed, and two that nothing checks: that an envelope and an announcement are UTF-8 throughout,
  without which a record does not read back as what was sent (an operation ID that is not UTF-8 is
  the exception C32), and that the sequence has not reached its end. \<open>commit_publishes\<close> relates
  the commits of the store to these steps.\<close>

inductive published :: "Options \<Rightarrow> kafka_record list \<Rightarrow> State \<Rightarrow> bool" for options :: Options where
  empty_topic: "published options [] NewState"
| commit: "published options rs s \<Longrightarrow> Apply s e = Inr s' \<Longrightarrow> payload_ok e \<Longrightarrow> envelope_utf8 e \<Longrightarrow>
    snap_Sequence s' + 1 \<noteq> 0 \<Longrightarrow> value_record r (transitionKey (env_Sequence e)) (marshal_Envelope e) \<Longrightarrow>
    published options (rs @ [r]) s'"
| repeated: "published options rs s \<Longrightarrow> fmlookup (ks_items (replica options rs)) q = Some v \<Longrightarrow>
    value_record r (transitionKey q) v \<Longrightarrow> published options (rs @ [r]) s"
| snapshot: "published options rs s \<Longrightarrow> snapshot_utf8 s \<Longrightarrow> Restore s = Inr s \<Longrightarrow>
    value_record r snapshotRecordKey (marshal_Snapshot s) \<Longrightarrow> published options (rs @ [r]) s"
| announced: "published options rs s \<Longrightarrow> validate_primary p = None \<Longrightarrow> valid_utf8 (pa_Holder p) \<Longrightarrow>
    valid_utf8 (pa_Address p) \<Longrightarrow> pa_Epoch (ks_primary (replica options rs)) \<le> pa_Epoch p \<Longrightarrow>
    value_record r primaryRecordKey (print_json (enc_primaryAnnouncement p)) \<Longrightarrow> published options (rs @ [r]) s"
| restored: "published options rs s \<Longrightarrow> lastSequence (replica options rs) = 0 \<Longrightarrow>
    ks_snapshot (replica options rs) = '''' \<Longrightarrow> Restore sn = Inr sn \<Longrightarrow> snapshot_utf8 sn \<Longrightarrow>
    snap_Sequence sn \<noteq> 0 \<Longrightarrow> snap_Sequence sn + 1 \<noteq> 0 \<Longrightarrow>
    value_record r snapshotRecordKey (marshal_Snapshot sn) \<Longrightarrow>
    value_record r' restoreRecordKey (print_json (enc_restoreCheckpoint (checkpoint_of sn))) \<Longrightarrow>
    published options (rs @ [r, r']) sn"
| control: "published options rs s \<Longrightarrow> kr_Control r \<Longrightarrow> published options (rs @ [r]) s"

lemma kafka_has_content: "kafka_content st = kafka_content st' \<Longrightarrow> kafka_has st s = kafka_has st' s"
  by (simp add: kafka_has_def kafka_content_def)

lemma content_position [simp]: "kafka_has (st\<lparr>ks_position := p\<rparr>) s = kafka_has st s"
  by (rule kafka_has_content) simp

lemma apply_one:
  assumes "applyRecord r st = Inr st'" and "\<not> kr_Control r"
  obtains p where "apply_records [r] st = (None, st'\<lparr>ks_position := p\<rparr>)"
proof (cases "kr_Offset r + 1 > ks_position st'")
  case True
  then show thesis using assms that [of "kr_Offset r + 1"] by simp
next
  case False
  then show thesis using assms that [of "ks_position st'"] by simp
qed

lemma marshal_Snapshot_nonempty [simp]: "marshal_Snapshot s \<noteq> ''''"
  by (simp add: marshal_Snapshot_def enc_Snapshot_def obj_def)

lemma applyRecord_transition:
  assumes "value_record r (transitionKey (env_Sequence e)) (marshal_Envelope e)" and "payload_ok e"
    and "envelope_utf8 e" and "Validate e = None" and "fmlookup (ks_items st) (env_Sequence e) = None"
  shows "applyRecord r st = Inr (st\<lparr>ks_items := fmupd (env_Sequence e) (marshal_Envelope e) (ks_items st)\<rparr>)"
proof -
  have "env_Sequence e \<noteq> 0" using assms(4) by (simp add: Validate_None_iff)
  then show ?thesis
    using assms by (simp add: applyRecord_def value_record_def apply_transition_record_def unmarshal_marshal_Envelope)
qed

lemma log_items_snoc:
  assumes "log_from a (log @ [e])"
  shows "log_items (log @ [e]) = fmupd (env_Sequence e) (marshal_Envelope e) (log_items log)"
proof (rule fmap_ext)
  fix q
  have log: "log_from a log" "unat (env_Sequence e) = a + length log + 1" using assms by (simp_all add: log_from_snoc)
  have "q = env_Sequence e \<longleftrightarrow> unat q = a + length log + 1" using log(2) by (metis unsigned_word_eqI)
  then show "fmlookup (log_items (log @ [e])) q = fmlookup (fmupd (env_Sequence e) (marshal_Envelope e) (log_items log)) q"
    by (auto simp: log_items_lookup [OF assms] log_items_lookup [OF log(1)] nth_append)
qed

lemma has_commit:
  assumes "kafka_has st s" and "Apply s e = Inr s'" and "payload_ok e" and "envelope_utf8 e"
    and "snap_Sequence s' + 1 \<noteq> 0" and "value_record r (transitionKey (env_Sequence e)) (marshal_Envelope e)"
  obtains st' where "applyRecord r st = Inr st'" and "kafka_has st' s'"
proof -
  obtain base log where b: "snapshot_base (ks_snapshot st) base" and l: "logged base (unat (ks_base st)) log s"
    and items: "ks_items st = log_items log" using assms(1) by (auto simp: kafka_has_def)
  note l' = logged_snoc [OF l assms(2-5)]
  have log: "log_from (unat (ks_base st)) log" "log_from (unat (ks_base st)) (log @ [e])"
    using l l'(1) by (simp_all add: logged_def)
  have "Validate e = None" using assms(2) by (auto elim!: Apply_Inr)
  moreover have "fmlookup (ks_items st) (env_Sequence e) = None"
    using log_items_lookup [OF log(1), of "env_Sequence e"] l'(3) items by simp
  ultimately have "applyRecord r st =
      Inr (st\<lparr>ks_items := fmupd (env_Sequence e) (marshal_Envelope e) (ks_items st)\<rparr>)"
    using assms(3,4,6) by (intro applyRecord_transition)
  moreover have "kafka_has (st\<lparr>ks_items := fmupd (env_Sequence e) (marshal_Envelope e) (ks_items st)\<rparr>) s'"
    using b l'(1) log_items_snoc [OF log(2)] items unfolding kafka_has_def
    by (intro exI [of _ base] exI [of _ "log @ [e]"]) simp
  ultimately show thesis by (rule that)
qed

lemma has_snapshot:
  assumes "kafka_has st s" and "snapshot_utf8 s" and "Restore s = Inr s"
    and "value_record r snapshotRecordKey (marshal_Snapshot s)"
  shows "applyRecord r st = Inr (st\<lparr>ks_snapshot := marshal_Snapshot s\<rparr>)"
    and "kafka_has (st\<lparr>ks_snapshot := marshal_Snapshot s\<rparr>) s"
proof -
  show "applyRecord r st = Inr (st\<lparr>ks_snapshot := marshal_Snapshot s\<rparr>)"
    using assms(3,4) by (simp add: applyRecord_def value_record_def apply_snapshot_record_def
        unmarshal_marshal_Snapshot [OF assms(2)])
  obtain log where "logged s (unat (ks_base st)) log s" and "ks_items st = log_items log"
    using assms(1) unfolding kafka_has_def by (blast intro: logged_rebase)
  then show "kafka_has (st\<lparr>ks_snapshot := marshal_Snapshot s\<rparr>) s"
    using assms(3) unmarshal_marshal_Snapshot [OF assms(2)]
    by (auto simp: kafka_has_def snapshot_base_def intro!: exI [of _ s])
qed

lemma has_announced:
  assumes "kafka_has st s" and "validate_primary p = None" and "valid_utf8 (pa_Holder p)" and "valid_utf8 (pa_Address p)"
    and "pa_Epoch (ks_primary st) \<le> pa_Epoch p"
    and "value_record r primaryRecordKey (print_json (enc_primaryAnnouncement p))"
  shows "applyRecord r st = Inr (st\<lparr>ks_primary := p\<rparr>)" and "kafka_has (st\<lparr>ks_primary := p\<rparr>) s"
  using assms(1,2,5,6)
  by (simp_all add: applyRecord_def value_record_def apply_primary_record_def kafka_has_def
      unmarshal_primaryAnnouncement [OF assms(3,4)])

lemma has_restored:
  assumes "kafka_has st s" and "lastSequence st = 0" and "Restore sn = Inr sn" and "snapshot_utf8 sn"
    and "snap_Sequence sn \<noteq> 0" and "snap_Sequence sn + 1 \<noteq> 0"
    and "value_record r snapshotRecordKey (marshal_Snapshot sn)"
    and "value_record r' restoreRecordKey (print_json (enc_restoreCheckpoint (checkpoint_of sn)))"
  obtains st1 st2 where "applyRecord r st = Inr st1" and "\<And>p. applyRecord r' (st1\<lparr>ks_position := p\<rparr>) = Inr (st2\<lparr>ks_position := p\<rparr>)"
    and "kafka_has st2 sn"
proof -
  let ?st1 = "st\<lparr>ks_snapshot := marshal_Snapshot sn\<rparr>"
  let ?st2 = "?st1\<lparr>ks_base := snap_Sequence sn\<rparr>"
  have "applyRecord r st = Inr ?st1"
    using assms(3,7) by (simp add: applyRecord_def value_record_def apply_snapshot_record_def
        unmarshal_marshal_Snapshot [OF assms(4)])
  moreover have "applyRecord r' (?st1\<lparr>ks_position := p\<rparr>) = Inr (?st2\<lparr>ks_position := p\<rparr>)" for p
    using assms(5,8) unmarshal_restoreCheckpoint [of "checkpoint_of sn"]
    by (simp add: applyRecord_def value_record_def apply_restore_record_def checkpoint_of_def)
  moreover have "kafka_has ?st2 sn"
  proof -
    from assms(1) obtain base log where l: "logged base (unat (ks_base st)) log s" and items: "ks_items st = log_items log"
      by (auto simp: kafka_has_def)
    have "log_from (unat (ks_base st)) log" using l by (simp add: logged_def)
    then have "unat (snap_Sequence s) = unat (ks_base st) + length log"
      unfolding logged_Sequence [OF l] by (intro unat_of_nat_u64) (simp add: log_from_def)
    then have "log = []" using lastSequence_logged [OF l items] assms(2) by simp
    then show ?thesis
      using logged_start [OF assms(6)] assms(3) unmarshal_marshal_Snapshot [OF assms(4)] items
      by (auto simp: kafka_has_def snapshot_base_def intro!: exI [of _ sn] exI [of _ "[]"])
  qed
  ultimately show thesis by (rule that)
qed

text \<open>One record more: the replica that has read the records before it reads it.\<close>

lemma one_record_more:
  assumes "apply_records rs st0 = (None, st)" and "applyRecord r st = Inr st'" and "value_record r k v" and "kafka_has st' s"
  shows "\<exists>p. apply_records (rs @ [r]) st0 = (None, st'\<lparr>ks_position := p\<rparr>) \<and> kafka_has (st'\<lparr>ks_position := p\<rparr>) s"
proof -
  obtain p where "apply_records [r] st = (None, st'\<lparr>ks_position := p\<rparr>)"
    using apply_one [OF assms(2)] assms(3) by (auto simp: value_record_def)
  with assms(1,4) show ?thesis by (auto simp: apply_records_append simp del: apply_records.simps)
qed

lemma repeated_record:
  assumes "kafka_inv st" and "fmlookup (ks_items st) q = Some v" and "value_record r (transitionKey q) v"
  shows "applyRecord r st = Inr st"
proof -
  from assms(1,2) obtain e where "unmarshal_Envelope v = Some e" "env_Sequence e = q" "Validate e = None" "q \<noteq> 0"
    unfolding kafka_inv_def fmpred_iff by blast
  moreover have "fmupd q v (ks_items st) = ks_items st" using assms(2) by (intro fmap_ext) auto
  ultimately show ?thesis
    using assms(2,3) by (simp add: applyRecord_def value_record_def apply_transition_record_def)
qed

lemma published_has:
  "published options rs s \<Longrightarrow> \<exists>st. apply_records rs (new_KafkaStore options) = (None, st) \<and> kafka_has st s"
proof (induction rule: published.induct)
  case empty_topic
  have "kafka_has (new_KafkaStore options) NewState"
    using logged_start [of NewState]
    by (auto simp: kafka_has_def new_KafkaStore_def snapshot_base_def log_items_def NewState_def intro!: exI [of _ "[]"])
  then show ?case by simp
next
  case (commit rs s e s' r)
  then obtain st where st: "apply_records rs (new_KafkaStore options) = (None, st)" "kafka_has st s" by blast
  obtain st' where "applyRecord r st = Inr st'" "kafka_has st' s'"
    using has_commit [OF st(2) commit(2-6)] by blast
  with one_record_more [OF st(1) _ commit(6)] show ?case by blast
next
  case (repeated rs s q v r)
  then obtain st where st: "apply_records rs (new_KafkaStore options) = (None, st)" "kafka_has st s" by blast
  have "fmlookup (ks_items st) q = Some v" using repeated(2) st(1) by (simp add: replica_def)
  moreover have "kafka_inv st" using apply_records_inv [OF st(1)] by simp
  ultimately have "applyRecord r st = Inr st" using repeated(3) by (intro repeated_record)
  with one_record_more [OF st(1) _ repeated(3) st(2)] show ?case by blast
next
  case (snapshot rs s r)
  then obtain st where st: "apply_records rs (new_KafkaStore options) = (None, st)" "kafka_has st s" by blast
  note h = has_snapshot [OF st(2) snapshot(2-4)]
  from one_record_more [OF st(1) h(1) snapshot(4) h(2)] show ?case by blast
next
  case (announced rs s p r)
  then obtain st where st: "apply_records rs (new_KafkaStore options) = (None, st)" "kafka_has st s" by blast
  have "pa_Epoch (ks_primary st) \<le> pa_Epoch p" using announced(5) st by (simp add: replica_def)
  note h = has_announced [OF st(2) announced(2-4) this announced(6)]
  from one_record_more [OF st(1) h(1) announced(6) h(2)] show ?case by blast
next
  case (restored rs s sn r r')
  then obtain st where st: "apply_records rs (new_KafkaStore options) = (None, st)" "kafka_has st s" by blast
  have "lastSequence st = 0" using restored(2) st by (simp add: replica_def)
  from has_restored [OF st(2) this restored(4-9)] obtain st1 st2 where
    a: "applyRecord r st = Inr st1" "\<And>p. applyRecord r' (st1\<lparr>ks_position := p\<rparr>) = Inr (st2\<lparr>ks_position := p\<rparr>)"
    and h: "kafka_has st2 sn" by blast
  obtain p where p: "apply_records [r] st = (None, st1\<lparr>ks_position := p\<rparr>)"
    using apply_one [OF a(1)] restored(8) by (auto simp: value_record_def)
  obtain p' where "apply_records [r'] (st1\<lparr>ks_position := p\<rparr>) = (None, (st2\<lparr>ks_position := p\<rparr>)\<lparr>ks_position := p'\<rparr>)"
    using apply_one [OF a(2) [of p]] restored(9) by (auto simp: value_record_def)
  with p have "apply_records ([r] @ [r']) st = (None, st2\<lparr>ks_position := p'\<rparr>)"
    by (simp add: apply_records_append del: apply_records.simps append.simps)
  with st h show ?case by (simp add: apply_records_append del: apply_records.simps)
next
  case (control rs s r)
  then obtain st where st: "apply_records rs (new_KafkaStore options) = (None, st)" "kafka_has st s" by blast
  have "\<exists>p. apply_records [r] st = (None, st\<lparr>ks_position := p\<rparr>)"
    using control(2) by (cases "kr_Offset r + 1 > ks_position st") (auto intro: exI [of _ "ks_position st"])
  with st show ?case by (auto simp: apply_records_append simp del: apply_records.simps)
qed

text \<open>C33: Any replica that replays everything a primary has published, in whatever batches, accepts
  every record, finds no transition missing, and recovers exactly the state the primary has
  published: commits, repeated commits, snapshots, elections and a restored backup included, for
  transitions whose strings are UTF-8.\<close>

theorem kafka_recovers_published_state:
  assumes "published options rs s" and "batches_of (ko_Topic options) rs ps"
  shows "\<exists>st. apply_partitions ps (new_KafkaStore options) = (None, st) \<and> validateReplay st = None
    \<and> recoverState (kafka_Store commit save) None (\<lambda>_. None) st = (Inr s, st)
    \<and> lastSequence st = snap_Sequence s"
proof -
  obtain st where st: "apply_records rs (new_KafkaStore options) = (None, st)" "kafka_has st s"
    using published_has [OF assms(1)] by blast
  have "map_prod id kafka_content (apply_partitions ps (new_KafkaStore options)) =
      map_prod id kafka_content (apply_records rs (new_KafkaStore options))"
    using assms(2) by (intro apply_partitions_content) (simp_all add: new_KafkaStore_def)
  then obtain st' where "apply_partitions ps (new_KafkaStore options) = (None, st')" "kafka_content st' = kafka_content st"
    using st(1) by (cases "apply_partitions ps (new_KafkaStore options)") simp
  moreover from this have "kafka_has st' s" using st(2) kafka_has_content by blast
  ultimately show ?thesis using kafka_has_recovers by blast
qed

end
