(* ===== verification/Kafka_Guarantees.thy ===== *)
theory Kafka_Guarantees
  imports Kafka_Recovery
begin

text \<open>
  What a commit to the Kafka store promises: nothing but the next transition of the current
  primary enters the log, success means that the transition has been read back, and a replica
  that was overtaken by another primary is fenced off.
\<close>

section \<open>What the code relies on of Kafka transactions\<close>

text \<open>\<open>log\<close> is what a read-committed consumer sees, \<open>pending\<close> the records of the open
  transaction. A commit whose answer is lost may or may not have happened.\<close>

locale kafka_transactions =
  fixes p :: "'k producer"
    and log :: "'k \<Rightarrow> (string \<times> string) list"
    and pending :: "'k \<Rightarrow> (string \<times> string) list"
  assumes id_log: "log (snd (pr_ProducerID p k)) = log k"
    and begin_log: "log (snd (pr_BeginTransaction p k)) = log k"
    and begin_pending: "fst (pr_BeginTransaction p k) = None \<Longrightarrow> pending (snd (pr_BeginTransaction p k)) = []"
    and produce_log: "log (snd (pr_ProduceSync p rs k)) = log k"
    and produce_pending: "fst (pr_ProduceSync p rs k) = None \<Longrightarrow> pending (snd (pr_ProduceSync p rs k)) = pending k @ rs"
    and commit_log: "fst (pr_EndTransaction p True k) = None \<Longrightarrow> log (snd (pr_EndTransaction p True k)) = log k @ pending k"
    and commit_lost: "fst (pr_EndTransaction p True k) \<noteq> None \<Longrightarrow>
      log (snd (pr_EndTransaction p True k)) \<in> {log k, log k @ pending k}"
    and abort_log: "log (snd (pr_EndTransaction p False k)) = log k"
begin

lemma initialize_log: "initializeProducer p waits k = Some (out, k') \<Longrightarrow> log k' = log k"
proof (induction waits arbitrary: k)
  case Nil
  obtain err k1 where 1: "pr_ProducerID p k = (err, k1)" by fastforce
  have "log k1 = log k" using id_log [of k] 1 by simp
  with Nil 1 show ?case by (simp add: initializeProducer.simps split: option.splits if_splits)
next
  case (Cons w waits)
  obtain err k1 where 1: "pr_ProducerID p k = (err, k1)" by fastforce
  have "log k1 = log k" using id_log [of k] 1 by simp
  with Cons.prems 1 Cons.IH [of k1] show ?case
    by (auto simp: initializeProducer.simps [of p "w # waits"] split: option.splits if_splits)
qed

lemma transaction_log:
  assumes "kafka_transaction p ctx waits rs k = Some (out, k')"
  shows "log k' \<in> {log k, log k @ rs}" and "out = None \<Longrightarrow> log k' = log k @ rs"
proof -
  have "log k' \<in> {log k, log k @ rs} \<and> (out = None \<longrightarrow> log k' = log k @ rs)"
  proof (cases "ctx \<noteq> None \<or> (\<exists>err k1. initializeProducer p waits k = Some (Some err, k1))")
    case True
    then show ?thesis using assms initialize_log
      by (auto simp: kafka_transaction_def split: option.splits)
  next
    case False
    then obtain k1 where k1: "ctx = None" "initializeProducer p waits k = Some (None, k1)"
      using assms by (auto simp: kafka_transaction_def split: option.splits)
    have l1: "log k1 = log k" using initialize_log [OF k1(2)] .
    obtain b k2 where k2: "pr_BeginTransaction p k1 = (b, k2)" by fastforce
    have l2: "log k2 = log k" and p2: "b = None \<Longrightarrow> pending k2 = []"
      using begin_log [of k1] begin_pending [of k1] k2 l1 by simp_all
    obtain c k3 where k3: "pr_ProduceSync p rs k2 = (c, k3)" by fastforce
    have l3: "log k3 = log k" and p3: "b = None \<Longrightarrow> c = None \<Longrightarrow> pending k3 = rs"
      using produce_log [of rs k2] produce_pending [of rs k2] k3 l2 p2 by simp_all
    have l4: "log (snd (pr_EndTransaction p False k3)) = log k" using abort_log [of k3] l3 by simp
    obtain d k5 where k5: "pr_EndTransaction p True k3 = (d, k5)" by fastforce
    have l5: "log k5 \<in> {log k, log k @ pending k3}" "d = None \<Longrightarrow> log k5 = log k @ pending k3"
      using commit_log [of k3] commit_lost [of k3] k5 l3 by (cases d; simp)+
    show ?thesis
      using assms k1 k2 k3 k5 l2 l4 l5 p3
      by (cases b; cases c; cases d) (auto simp: kafka_transaction_def)
  qed
  then show "log k' \<in> {log k, log k @ rs}" and "out = None \<Longrightarrow> log k' = log k @ rs" by blast+
qed

end

text \<open>A broker in memory that commits what it is given.\<close>

record mem_broker =
  mb_log :: "(string \<times> string) list"
  mb_pending :: "(string \<times> string) list"

definition mem_producer :: "mem_broker producer" where
  "mem_producer = \<lparr>pr_ProducerID = (\<lambda>k. (None, k)), pr_IsRetriable = (\<lambda>_. False),
     pr_BeginTransaction = (\<lambda>k. (None, k\<lparr>mb_pending := []\<rparr>)),
     pr_ProduceSync = (\<lambda>rs k. (None, k\<lparr>mb_pending := mb_pending k @ rs\<rparr>)),
     pr_EndTransaction = (\<lambda>commit k. (None, if commit then k\<lparr>mb_log := mb_log k @ mb_pending k\<rparr> else k))\<rparr>"

interpretation mem_kafka: kafka_transactions mem_producer mb_log mb_pending
  by unfold_locales (simp_all add: mem_producer_def)

section \<open>Commit\<close>

lemma waitForTransition_observed:
  "waitForTransition ws q encoded st = Some (None, st') \<Longrightarrow> fmlookup (ks_items st') q = Some encoded"
  unfolding waitForTransition_def
proof (induction ws arbitrary: st)
  case (Cons w ws)
  then show ?case by (subst (asm) (2) wait_until.simps) (auto split: option.splits if_splits wakeup.splits)
qed (subst (asm) wait_until.simps, auto split: option.splits if_splits)

lemma kafka_Commit_log:
  assumes "kafka_transactions p log pending" and "kafka_Commit p sched ctx e (k, st) = Some (err, k', st')"
  shows "log k' = log k \<or> log k' = log k @ [(transitionKey (env_Sequence e), marshal_Envelope e)]"
  using assms(2) kafka_transactions.transaction_log(1) [OF assms(1)]
  by (auto simp: kafka_Commit_def Let_def split: option.splits sum.splits bool.splits prod.splits)

text \<open>C34: Whatever the broker answers and whatever happens meanwhile, a commit adds at most its own
  transition to the log, and only as the next one, checked, by a replica that holds the lease of
  the announced primary. A commit that succeeds has seen its transition in what the replica
  consumed, and nothing else under that sequence.\<close>

theorem kafka_commit_safety:
  assumes "kafka_transactions p log pending" and "kafka_Commit p sched ctx e (k, st) = Some (err, k', st')"
  shows "(log k' = log k \<or> log k' = log k @ [(transitionKey (env_Sequence e), marshal_Envelope e)]
        \<and> Validate e = None \<and> checkLeadership st = None \<and> env_Sequence e = lastSequence st + 1)
    \<and> (err = None \<longrightarrow> Validate e = None \<and> checkLeadership st = None
        \<and> fmlookup (ks_items st') (env_Sequence e) = Some (marshal_Envelope e))"
proof (cases "Validate e = None \<and> checkLeadership st = None \<and> checkSequence (env_Sequence e) (marshal_Envelope e) st = Inr False")
  case True
  from True assms(2) obtain out observed st1 where
    t: "kafka_transaction p ctx (sd_waits sched) [(transitionKey (env_Sequence e), marshal_Envelope e)] k = Some (out, k')"
    and w: "waitForTransition (sd_wakeups sched) (env_Sequence e) (marshal_Envelope e)
        (fold happen (sd_during sched) st) = Some (observed, st1)"
    and err: "err = None \<Longrightarrow> observed = None \<and> st' = st1"
    by (auto simp: kafka_Commit_def Let_def split: option.splits prod.splits)
  have "env_Sequence e = lastSequence st + 1"
    using True by (auto simp: checkSequence_def split: if_splits)
  then show ?thesis
    using kafka_transactions.transaction_log(1) [OF assms(1) t] waitForTransition_observed [of _ _ _ _ st1] w err True by auto
next
  case False
  have stored: "fmlookup (ks_items st) (env_Sequence e) = Some (marshal_Envelope e)"
    if "checkSequence (env_Sequence e) (marshal_Envelope e) st = Inr True"
    using that marshal_nonempty [of e]
    by (auto simp: checkSequence_def item_at_def simp del: marshal_nonempty split: if_splits option.splits)
  have "log k' = log k \<and> (err = None \<longrightarrow> Validate e = None \<and> checkLeadership st = None
      \<and> checkSequence (env_Sequence e) (marshal_Envelope e) st = Inr True \<and> st' = st)"
    using assms(2) False
    by (auto simp: kafka_Commit_def Let_def split: option.splits sum.splits bool.splits)
  with stored show ?thesis by blast
qed

text \<open>So commits keep the topic within what \<open>published\<close> describes, with the state before or after the
  transition, as long as the envelope survives its own coding, which the store does not check.\<close>

definition topic_of :: "kafka_record list \<Rightarrow> (string \<times> string) list" where
  "topic_of rs = map (\<lambda>r. (kr_Key r, the (kr_Value r))) (filter (\<lambda>r. \<not> kr_Control r) rs)"

theorem commit_publishes:
  assumes "kafka_transactions p log pending" and "kafka_Commit p sched ctx e (k, st) = Some (err, k', st')"
    and "published options rs s" and "log k = topic_of rs" and "Apply s e = Inr s'" and "payload_ok e" and "envelope_utf8 e"
    and "snap_Sequence s' + 1 \<noteq> 0"
  shows "\<exists>new t. log k' = topic_of (rs @ new) \<and> published options (rs @ new) t \<and> t \<in> {s, s'}"
proof -
  obtain r where r: "value_record r (transitionKey (env_Sequence e)) (marshal_Envelope e)"
    by (rule that [of "\<lparr>kr_Offset = 0, kr_Key = transitionKey (env_Sequence e), kr_Value = Some (marshal_Envelope e), kr_Control = False\<rparr>"])
      (simp add: value_record_def)
  consider "log k' = log k" | "log k' = log k @ [(transitionKey (env_Sequence e), marshal_Envelope e)]"
    using kafka_Commit_log [OF assms(1,2)] by blast
  then show ?thesis
  proof cases
    case 1
    with assms(3,4) show ?thesis by (intro exI [of _ "[]"] exI [of _ s]) simp
  next
    case 2
    then have "log k' = topic_of (rs @ [r])" using assms(4) r by (simp add: topic_of_def value_record_def)
    with published.commit [OF assms(3,5-8) r] show ?thesis by blast
  qed
qed

section \<open>Fencing\<close>

text \<open>No poll deletes the primary record.\<close>

definition keeps_primary :: "kafka_event \<Rightarrow> bool" where
  "keeps_primary ev = (case ev of
     Polled f \<Rightarrow> \<forall>p \<in> set (fx_Partitions f). \<forall>r \<in> set (fp_Records p). kr_Key r = primaryRecordKey \<longrightarrow> kr_Value r \<noteq> None
   | _ \<Rightarrow> True)"

abbreviation epoch_of :: "KafkaStore \<Rightarrow> u64" where "epoch_of st \<equiv> pa_Epoch (ks_primary st)"

lemma apply_partition_cases:
  obtains (other) "apply_partition p st = (None, st)"
  | (applied) err st2 i j where "apply_records (fp_Records p) (st\<lparr>ks_end := i\<rparr>) = (err, st2)"
      and "apply_partition p st = (err, st2\<lparr>ks_position := j\<rparr>)"
proof (cases "fp_Topic p \<noteq> ko_Topic (ks_options st) \<or> fp_Partition p \<noteq> topicPartition")
  case True
  then show thesis using other by (simp add: apply_partition_def)
next
  case False
  let ?i = "if fp_LastStableOffset p > ks_end st then fp_LastStableOffset p else ks_end st"
  have st1: "(if fp_LastStableOffset p > ks_end st then st\<lparr>ks_end := fp_LastStableOffset p\<rparr> else st) = st\<lparr>ks_end := ?i\<rparr>"
    by simp
  obtain err st2 where r: "apply_records (fp_Records p) (st\<lparr>ks_end := ?i\<rparr>) = (err, st2)" by fastforce
  let ?j = "if fp_Records p = [] \<and> fp_LastStableOffset p > ks_position st2 then fp_LastStableOffset p else ks_position st2"
  have st3: "(if fp_Records p = [] \<and> fp_LastStableOffset p > ks_position st2
      then st2\<lparr>ks_position := fp_LastStableOffset p\<rparr> else st2) = st2\<lparr>ks_position := ?j\<rparr>"
    by simp
  have "apply_partition p st = (err, st2\<lparr>ks_position := ?j\<rparr>)"
    unfolding apply_partition_def Let_def st1 r using False st3 by (simp only: if_False prod.case)
  with r show thesis by (rule applied)
qed

text \<open>What one record keeps, consuming keeps: the relation ignores the replica's own fields.\<close>

lemma happen_relates:
  assumes refl: "\<And>s. R s s" and trans: "\<And>a b c. R a b \<Longrightarrow> R b c \<Longrightarrow> R a c"
    and own: "\<And>a b. kafka_content a = kafka_content b \<Longrightarrow> ks_lease a = ks_lease b \<Longrightarrow> ks_options a = ks_options b \<Longrightarrow> R a b"
    and one: "\<And>r a b. applyRecord r a = Inr b \<Longrightarrow> P r \<Longrightarrow> R a b"
    and ev: "\<And>f p r. ev = Polled f \<Longrightarrow> p \<in> set (fx_Partitions f) \<Longrightarrow> r \<in> set (fp_Records p) \<Longrightarrow> P r"
  shows "R st (happen ev st)"
proof -
  have records: "R s (snd (apply_records rs s))" if "\<forall>r \<in> set rs. P r" for rs s
    using that
  proof (induction rs arbitrary: s)
    case (Cons r rs)
    show ?case
    proof (cases "if kr_Control r then Inr s else applyRecord r s")
      case (Inl err)
      show ?thesis unfolding apply_records_Inl [OF Inl] using refl by simp
    next
      case (Inr s')
      let ?s2 = "if kr_Offset r + 1 > ks_position s' then s'\<lparr>ks_position := kr_Offset r + 1\<rparr> else s'"
      have "R s s'" using Inr one [of r s s'] refl Cons.prems by (cases "kr_Control r") simp_all
      moreover have "R s' ?s2" by (rule own) simp_all
      moreover have "R ?s2 (snd (apply_records rs ?s2))" using Cons.prems by (intro Cons.IH) simp
      ultimately show ?thesis unfolding apply_records_Inr [OF Inr] using trans by blast
    qed
  qed (simp add: refl)
  have partition: "R s (snd (apply_partition p s))" if "\<forall>r \<in> set (fp_Records p). P r" for p s
  proof (cases rule: apply_partition_cases [of p s])
    case other
    then show ?thesis using refl by simp
  next
    case (applied err st2 i j)
    have "R s (s\<lparr>ks_end := i\<rparr>)" by (rule own) (simp_all add: kafka_content_def)
    moreover have "R (s\<lparr>ks_end := i\<rparr>) st2" using records [OF that, of "s\<lparr>ks_end := i\<rparr>"] applied(1) by simp
    moreover have "R st2 (st2\<lparr>ks_position := j\<rparr>)" by (rule own) (simp_all add: kafka_content_def)
    ultimately show ?thesis unfolding applied(2) using trans by (metis snd_conv)
  qed
  have partitions: "R s (snd (apply_partitions ps s))" if "\<forall>p \<in> set ps. \<forall>r \<in> set (fp_Records p). P r" for ps s
    using that
  proof (induction ps arbitrary: s)
    case (Cons p ps)
    obtain err s' where p: "apply_partition p s = (err, s')" by fastforce
    have "R s s'" using partition [of p s] Cons.prems p by simp
    moreover have "R s' (snd (apply_partitions ps s'))" using Cons by simp
    ultimately show ?case using p trans by (cases err) auto
  qed (simp add: refl)
  have aside: "R s (kafka_recordError e s)" "R s (recordFatalError e s)" "R s (s\<lparr>ks_consuming := c\<rparr>)"
    "R s (s\<lparr>ks_lastErr := l, ks_ready := c\<rparr>)" "R s (observe_end ping committed s)" "R s (kafka_Close s)" for e s c l ping committed
    by (rule own; simp add: kafka_content_def kafka_recordError_def recordFatalError_def observe_end_def kafka_Close_def
        Let_def split: option.split sum.split)+
  show ?thesis
  proof (cases ev)
    case (Polled f)
    obtain err s' where f: "applyFetches f st = (err, s')" by fastforce
    have "R st s'"
      using partitions [of "fx_Partitions f" st] ev [OF Polled] f refl
      by (auto simp: applyFetches_def split: option.splits)
    then have "R st (consumeLoop_turn f st)"
      using f aside trans by (auto simp: consumeLoop_turn_def split: option.split list.split) (metis aside trans)+
    then show ?thesis using Polled refl by simp
  qed (use aside in simp_all)
qed

lemma happen_epoch:
  assumes "keeps_primary ev"
  shows "epoch_of st \<le> epoch_of (happen ev st) \<and> ks_lease (happen ev st) = ks_lease st
    \<and> ks_options (happen ev st) = ks_options st"
proof (rule happen_relates [where P = "\<lambda>r. kr_Key r = primaryRecordKey \<longrightarrow> kr_Value r \<noteq> None"])
  fix r a b
  assume "applyRecord r a = Inr b" and keep: "kr_Key r = primaryRecordKey \<longrightarrow> kr_Value r \<noteq> None"
  then show "epoch_of a \<le> epoch_of b \<and> ks_lease b = ks_lease a \<and> ks_options b = ks_options a"
    by (cases rule: applyRecord_cases) (use keep in simp_all)
qed (use assms in \<open>auto simp: kafka_content_def keeps_primary_def intro: order_trans\<close>)

lemma happens_epoch:
  "\<forall>ev \<in> set es. keeps_primary ev \<Longrightarrow> epoch_of st \<le> epoch_of (fold happen es st)
    \<and> ks_lease (fold happen es st) = ks_lease st \<and> ks_options (fold happen es st) = ks_options st"
proof (induction es arbitrary: st)
  case (Cons ev es)
  have "keeps_primary ev" using Cons.prems by simp
  note one = happen_epoch [OF this, of st]
  have "\<forall>ev \<in> set es. keeps_primary ev" using Cons.prems by simp
  from Cons.IH [OF this, of "happen ev st"] one show ?case by (auto intro: order_trans)
qed simp

text \<open>C37: A replica that has seen an announcement with an epoch above its lease is fenced off:
  whatever it consumes afterwards, as long as no record deletes the announcement, every commit is
  refused with the sentinel of the storage contract, before anything is sent to the broker.\<close>

theorem overtaken_primary_is_fenced:
  assumes "ko_RequireLeadership (ks_options st)" and "le_Epoch (ks_lease st) < pa_Epoch (ks_primary st)"
    and "\<forall>ev \<in> set es. keeps_primary ev" and "Validate e = None"
  shows "kafka_Commit p sched ctx e (k, fold happen es st) = Some (Some ErrNotPrimary, k, fold happen es st)"
proof -
  have "checkLeadership (fold happen es st) = Some ErrNotPrimary"
    using happens_epoch [OF assms(3), of st] assms(1,2) by (auto simp: checkLeadership_def)
  with assms(4) show ?thesis by (simp add: kafka_Commit_def)
qed

section \<open>A commit completes\<close>

text \<open>A fetch that delivers one record of the state topic.\<close>

definition delivers :: "KafkaStore \<Rightarrow> fetches \<Rightarrow> kafka_record \<Rightarrow> bool" where
  "delivers st f r \<longleftrightarrow> fx_Errors f = [] \<and> (\<exists>p. fx_Partitions f = [p] \<and> fp_Records p = [r]
     \<and> fp_Topic p = ko_Topic (ks_options st) \<and> fp_Partition p = topicPartition)"

lemma delivered_item:
  assumes "delivers st f r" and "value_record r (transitionKey (env_Sequence e)) (marshal_Envelope e)"
    and "payload_ok e" and "envelope_utf8 e" and "Validate e = None" and "ks_consuming st"
    and "fmlookup (ks_items st) (env_Sequence e) = None"
  shows "fmlookup (ks_items (happen (Polled f) st)) (env_Sequence e) = Some (marshal_Envelope e)"
proof -
  obtain p where f: "fx_Errors f = []" "fx_Partitions f = [p]" and p: "fp_Records p = [r]"
    "fp_Topic p = ko_Topic (ks_options st)" "fp_Partition p = topicPartition"
    using assms(1) by (auto simp: delivers_def)
  have one: "applyRecord r s = Inr (s\<lparr>ks_items := fmupd (env_Sequence e) (marshal_Envelope e) (ks_items s)\<rparr>)"
    if "ks_items s = ks_items st" for s
    using assms(2-5,7) that by (intro applyRecord_transition) simp_all
  have c: "\<not> kr_Control r" using assms(2) by (simp add: value_record_def)
  obtain st' where "applyFetches f st = (None, st')"
    "fmlookup (ks_items st') (env_Sequence e) = Some (marshal_Envelope e)"
    using f p c by (simp add: applyFetches_def apply_partition_def Let_def one)
  then show ?thesis using assms(6) f by (simp add: consumeLoop_turn_def)
qed

text \<open>C38: A commit completes: once the transaction has been sent, whether its answer arrived or was
  lost, delivering the transition to the running consumer makes the commit return success, for
  every transition the checks let through, and leaves the transition in the store.\<close>

theorem kafka_commit_completes:
  assumes "Validate e = None" and "payload_ok e" and "envelope_utf8 e" and "checkLeadership st = None"
    and "checkSequence (env_Sequence e) (marshal_Envelope e) st = Inr False"
    and "kafka_transaction p ctx (sd_waits sched) [(transitionKey (env_Sequence e), marshal_Envelope e)] k = Some (out, k')"
    and "st1 = fold happen (sd_during sched) st" and "\<not> ks_closed st1" and "ks_consuming st1"
    and "fmlookup (ks_items st1) (env_Sequence e) = None" and "delivers st1 f r"
    and "value_record r (transitionKey (env_Sequence e)) (marshal_Envelope e)"
    and "sd_wakeups sched = Changed [Polled f] # rest"
  shows "\<exists>st'. kafka_Commit p sched ctx e (k, st) = Some (None, k', st')
    \<and> fmlookup (ks_items st') (env_Sequence e) = Some (marshal_Envelope e)"
proof -
  have item: "fmlookup (ks_items (happen (Polled f) st1)) (env_Sequence e) = Some (marshal_Envelope e)"
    using assms by (intro delivered_item)
  have "waitForTransition (sd_wakeups sched) (env_Sequence e) (marshal_Envelope e) st1 =
      Some (None, happen (Polled f) st1)"
    unfolding waitForTransition_def assms(13)
    by (subst wait_until.simps, simp add: assms(8,10) del: happen.simps, subst wait_until.simps, simp add: item del: happen.simps)
  then have "kafka_Commit p sched ctx e (k, st) = Some (None, k', happen (Polled f) st1)"
    using assms(1,4-7) by (cases out) (simp_all add: kafka_Commit_def Let_def del: happen.simps)
  with item show ?thesis by blast
qed

section \<open>Compaction of a restored topic\<close>

text \<open>C39: A restored topic does not survive compaction: while the restored snapshot record is in
  the topic, its checkpoint is accepted, but once a later snapshot has replaced it and the broker
  has compacted it away, every replica that replays the topic rejects the checkpoint and cannot
  start, unless SHA-256 gives the snapshot and the empty text the same digest.\<close>

theorem compacted_restore_is_rejected:
  assumes "Restore sn = Inr sn" and "snapshot_utf8 sn" and "snap_Sequence sn \<noteq> 0"
    and "value_record r snapshotRecordKey (marshal_Snapshot sn)"
    and "value_record r' restoreRecordKey (print_json (enc_restoreCheckpoint (checkpoint_of sn)))"
  shows "fst (apply_records [r, r'] (new_KafkaStore options)) = None
    \<and> (hex_encode (sha256 (marshal_Snapshot sn)) \<noteq> hex_encode (sha256 '''') \<longrightarrow>
        fst (apply_records (r' # rs) (new_KafkaStore options)) = Some (FmtErr ''invalid Kafka restore checkpoint'' [] None))"
proof -
  have snap: "applyRecord r st = Inr (st\<lparr>ks_snapshot := marshal_Snapshot sn\<rparr>)" for st
    using assms(1,4) by (simp add: applyRecord_def value_record_def apply_snapshot_record_def
        unmarshal_marshal_Snapshot [OF assms(2)])
  have cp: "applyRecord r' st = (if snapshotChecksum (marshal_Snapshot sn) = snapshotChecksum (ks_snapshot st)
      then Inr (st\<lparr>ks_base := snap_Sequence sn\<rparr>) else Inl (FmtErr ''invalid Kafka restore checkpoint'' [] None))" for st
    using assms(3,5) unmarshal_restoreCheckpoint [of "checkpoint_of sn"]
    by (simp add: applyRecord_def value_record_def apply_restore_record_def checkpoint_of_def)
  have ctl: "\<not> kr_Control r" "\<not> kr_Control r'" using assms(4,5) by (simp_all add: value_record_def)
  have "ks_snapshot (new_KafkaStore options) = ''''" by (simp add: new_KafkaStore_def)
  then show ?thesis by (auto simp: snap cp ctl snapshotChecksum_def)
qed

end
