(* ===== verification/Kafka_Coordinator.thy ===== *)
theory Kafka_Coordinator
  imports Kafka_Guarantees
begin

text \<open>
  \<open>internal/storage/kafka/coordinator.go\<close>: the election of the primary. Ownership of the one
  partition of the state topic, told by callbacks of the client library, entitles a replica to
  announce itself with the next epoch; the store then accepts commits under that lease only.

  The goroutines that meet here, the caller of \<open>Acquire\<close>, the group callbacks, \<open>Release\<close> and the
  commits, are modelled by their critical sections. What runs under the coordinator's mutex is one
  step, and so is what runs under the store's commit mutex: \<open>activatePrimary\<close>, \<open>deactivatePrimary\<close>
  and \<open>Commit\<close>, which exclude each other and touch no field of the coordinator. Between two sections
  of a goroutine any other may run.
\<close>

section \<open>State\<close>

record CoordinatorOptions =
  cg_GroupID :: string
  cg_Advertisement :: string
  cg_SessionTimeout :: int
  cg_AcquireTimeout :: int

record Coordinator =
  co_options :: CoordinatorOptions
  co_client :: bool
  co_assigned :: bool
  co_released :: bool
  co_lease :: Lease

definition NewCoordinator :: "KafkaStore option \<Rightarrow> CoordinatorOptions \<Rightarrow> go_error + Coordinator" where
  "NewCoordinator store o0 =
     (case store of
        None \<Rightarrow> Inl (FmtErr ''kafka store is required'' [] None)
      | Some st \<Rightarrow>
          (let o1 = (if cg_GroupID o0 = ''''
                     then o0\<lparr>cg_GroupID := ''riquet-'' @ ko_Topic (ks_options st) @ ''-primary''\<rparr> else o0)
           in if cg_Advertisement o1 = ''''
              then Inl (FmtErr ''internal primary advertisement is required'' [] None)
              else
                (let o2 = (if cg_SessionTimeout o1 \<le> 0 then o1\<lparr>cg_SessionTimeout := 10 * 10 ^ 9\<rparr> else o1);
                     o3 = (if cg_AcquireTimeout o2 \<le> 0 then o2\<lparr>cg_AcquireTimeout := 30 * 10 ^ 9\<rparr> else o2)
                 in Inr \<lparr>co_options = o3, co_client = False, co_assigned = False, co_released = False,
                      co_lease = zero_Lease\<rparr>)))"

section \<open>The store's side\<close>

definition deactivatePrimary :: "Lease \<Rightarrow> KafkaStore \<Rightarrow> KafkaStore" where
  "deactivatePrimary lease st = (if ks_lease st = lease then st\<lparr>ks_lease := zero_Lease\<rparr> else st)"

definition ownsLease :: "Lease \<Rightarrow> KafkaStore \<Rightarrow> bool" where
  "ownsLease lease st \<longleftrightarrow> ks_lease st = lease \<and> pa_Holder (ks_primary st) = le_Holder lease
     \<and> pa_Epoch (ks_primary st) = le_Epoch lease"

definition Primary :: "KafkaStore \<Rightarrow> Lease \<times> string \<times> bool" where
  "Primary st =
     (if pa_Holder (ks_primary st) = '''' \<or> pa_Epoch (ks_primary st) = 0 then (zero_Lease, '''', False)
      else (\<lparr>le_Holder = pa_Holder (ks_primary st), le_Epoch = pa_Epoch (ks_primary st)\<rparr>,
            pa_Address (ks_primary st), True))"

definition CatchUp :: "go_error + int \<Rightarrow> wakeup list \<Rightarrow> KafkaStore \<Rightarrow> (go_error option \<times> KafkaStore) option" where
  "CatchUp committed ws st =
     (case committed of
        Inl err \<Rightarrow> Some (Some err, st)
      | Inr target \<Rightarrow>
          wait_until (\<lambda>s. if ks_position s \<ge> target then Some (validateReplay s)
                          else if ks_closed s then Some (Some ErrClosed) else None) ws
            (if target > ks_end st then st\<lparr>ks_end := target\<rparr> else st))"

definition waitForPrimary :: "wakeup list \<Rightarrow> primaryAnnouncement \<Rightarrow> KafkaStore \<Rightarrow> (go_error option \<times> KafkaStore) option" where
  "waitForPrimary ws wanted =
     wait_until (\<lambda>s. if ks_primary s = wanted then Some None
                     else if pa_Epoch (ks_primary s) > pa_Epoch wanted then Some (Some ErrNotPrimary)
                     else if ks_closed s then Some (Some ErrClosed) else None) ws"

text \<open>What the broker answers to an activation, and what wakes its waits.\<close>

record activation =
  av_committed :: "go_error + int"
  av_catchup :: "wakeup list"
  av_schedule :: schedule

definition activatePrimary :: "'k producer \<Rightarrow> activation \<Rightarrow> ctx \<Rightarrow> string \<Rightarrow> string \<Rightarrow> 'k \<times> KafkaStore
    \<Rightarrow> ((go_error + Lease) \<times> 'k \<times> KafkaStore) option" where
  "activatePrimary p a ctx holder address world = (case world of (k, st) \<Rightarrow>
     (case CatchUp (av_committed a) (av_catchup a) st of
        None \<Rightarrow> None
      | Some (Some err, st1) \<Rightarrow> Some (Inl (FmtErr ''recover before primary activation: %w'' [] (Some err)), k, st1)
      | Some (None, st1) \<Rightarrow>
          (let epoch = pa_Epoch (ks_primary st1) + 1;
               announcement = \<lparr>pa_FormatVersion = stateFormatVersion, pa_Holder = holder, pa_Epoch = epoch,
                 pa_Address = address\<rparr>;
               st2 = fold happen (sd_during (av_schedule a)) st1
           in case kafka_transaction p ctx (sd_waits (av_schedule a))
                     [(primaryRecordKey, print_json (enc_primaryAnnouncement announcement))] k of
                None \<Rightarrow> None
              | Some (Some err, k') \<Rightarrow> Some (Inl (FmtErr ''publish fenced Kafka primary epoch: %w'' [] (Some err)), k', st2)
              | Some (None, k') \<Rightarrow>
                  (case waitForPrimary (sd_wakeups (av_schedule a)) announcement st2 of
                     None \<Rightarrow> None
                   | Some (Some err, st3) \<Rightarrow> Some (Inl err, k', st3)
                   | Some (None, st3) \<Rightarrow>
                       (let lease = \<lparr>le_Holder = holder, le_Epoch = epoch\<rparr>
                        in Some (Inr lease, k', st3\<lparr>ks_lease := lease\<rparr>))))))"

section \<open>The coordinator's side\<close>

definition hasStatePartition :: "(string \<times> int list) list \<Rightarrow> string \<Rightarrow> bool" where
  "hasStatePartition partitions topic =
     (case map_of partitions topic of None \<Rightarrow> False | Some ps \<Rightarrow> list_ex (\<lambda>p. p = topicPartition) ps)"

text \<open>The section of \<open>setAssigned\<close> under the mutex, and the lease the goroutine deactivates after it,
  if any; likewise for \<open>Release\<close>.\<close>

definition setAssigned :: "bool \<Rightarrow> Coordinator \<Rightarrow> Coordinator \<times> Lease option" where
  "setAssigned value c =
     (let lease = co_lease c;
          c1 = c\<lparr>co_assigned := value\<rparr>;
          c2 = (if \<not> value then c1\<lparr>co_lease := zero_Lease\<rparr> else c1)
      in (c2, if \<not> value \<and> lease \<noteq> zero_Lease then Some lease else None))"

definition Release :: "Lease \<Rightarrow> Coordinator \<Rightarrow> go_error option \<times> Coordinator \<times> Lease option" where
  "Release lease c =
     (if co_released c then (None, c, None)
      else if co_lease c \<noteq> zero_Lease \<and> co_lease c \<noteq> lease then (Some ErrNotPrimary, c, None)
      else (None, c\<lparr>co_released := True\<rparr>, Some lease))"

text \<open>\<open>Renew\<close> reads the coordinator first and the store after it.\<close>

definition renew_looks :: "ctx \<Rightarrow> Lease \<Rightarrow> Coordinator \<Rightarrow> go_error + bool" where
  "renew_looks ctx lease c =
     (case ctx of Some err \<Rightarrow> Inl err
      | None \<Rightarrow> Inr (\<not> co_released c \<and> co_assigned c \<and> co_lease c = lease))"

definition renew_decides :: "go_error + bool \<Rightarrow> Lease \<Rightarrow> KafkaStore \<Rightarrow> go_error option" where
  "renew_decides seen lease st =
     (case seen of Inl err \<Rightarrow> Some err
      | Inr valid \<Rightarrow> if \<not> valid \<or> \<not> ownsLease lease st then Some ErrNotPrimary else None)"

definition Renew :: "ctx \<Rightarrow> Lease \<Rightarrow> Coordinator \<times> KafkaStore \<Rightarrow> go_error option" where
  "Renew ctx lease w = (case w of (c, st) \<Rightarrow> renew_decides (renew_looks ctx lease c) lease st)"

definition LocalLease :: "Coordinator \<Rightarrow> Lease \<times> bool" where
  "LocalLease c =
     (if co_released c \<or> \<not> co_assigned c \<or> co_lease c = zero_Lease then (zero_Lease, False) else (co_lease c, True))"

text \<open>\<open>created\<close> is what creating the group client returns.\<close>

definition start_group :: "go_error option \<Rightarrow> Coordinator \<Rightarrow> go_error option \<times> Coordinator" where
  "start_group created c =
     (if co_released c then (Some ErrClosed, c)
      else if co_client c then (None, c)
      else case created of
        Some err \<Rightarrow> (Some (FmtErr ''create Kafka coordination client: %w'' [] (Some err)), c)
      | None \<Rightarrow> (None, c\<lparr>co_client := True\<rparr>))"

text \<open>Where a call of \<open>Acquire\<close> stands: before it looks at the coordinator, before \<open>activatePrimary\<close>,
  after it and before it takes the lease over, before it deactivates a lease it may not take over,
  or waiting for a change.\<close>

datatype acquire_at =
    Idle
  | Looking string
  | Activating string
  | Activated string Lease
  | Withdrawing string Lease
  | Waiting string
  | Returned "go_error + Lease"

text \<open>A replica: its call of \<open>Acquire\<close>, of which there is one at a time, since only the coordination
  loop calls it; its coordinator; the leases that goroutines have still to deactivate, after the
  section of \<open>setAssigned\<close> or \<open>Release\<close> and before they return; the broker; the store.\<close>

record 'k replica =
  rp_acquire :: acquire_at
  rp_coordinator :: Coordinator
  rp_due :: "Lease list"
  rp_broker :: 'k
  rp_store :: KafkaStore

definition new_replica :: "Coordinator \<Rightarrow> 'k \<Rightarrow> KafkaStore \<Rightarrow> 'k replica" where
  "new_replica c k st = \<lparr>rp_acquire = Idle, rp_coordinator = c, rp_due = [], rp_broker = k, rp_store = st\<rparr>"

text \<open>A call of \<open>Acquire\<close> up to its loop, and its next section; what the section asks of the outside
  is the activation, the state of its context, and whether the deadline ends a wait.\<close>

definition Acquire :: "go_error option \<Rightarrow> string \<Rightarrow> Coordinator \<Rightarrow> acquire_at \<times> Coordinator" where
  "Acquire created holder c =
     (if holder = '''' then (Returned (Inl (FmtErr ''coordination holder is required'' [] None)), c)
      else case start_group created c of
        (Some err, c') \<Rightarrow> (Returned (Inl err), c')
      | (None, c') \<Rightarrow> (Looking holder, c'))"

record acquire_input =
  ai_activation :: activation
  ai_ctx :: ctx
  ai_deadline :: "go_error option"

definition acquire_look :: "string \<Rightarrow> Coordinator \<Rightarrow> acquire_at" where
  "acquire_look holder c =
     (if co_released c then Returned (Inl ErrClosed)
      else if le_Holder (co_lease c) = holder \<and> le_Epoch (co_lease c) > 0 \<and> co_assigned c then Returned (Inr (co_lease c))
      else if co_assigned c then Activating holder
      else Waiting holder)"

definition acquire_take :: "string \<Rightarrow> Lease \<Rightarrow> Coordinator \<Rightarrow> acquire_at \<times> Coordinator" where
  "acquire_take holder lease c =
     (if \<not> co_assigned c \<or> co_released c then (Withdrawing holder lease, c)
      else (Returned (Inr lease), c\<lparr>co_lease := lease\<rparr>))"

definition acquire_section :: "'k producer \<Rightarrow> acquire_input \<Rightarrow> 'k replica \<Rightarrow> 'k replica option" where
  "acquire_section p i w =
     (case rp_acquire w of
        Looking holder \<Rightarrow> Some (w\<lparr>rp_acquire := acquire_look holder (rp_coordinator w)\<rparr>)
      | Activating holder \<Rightarrow>
          (case activatePrimary p (ai_activation i) (ai_ctx i) holder (cg_Advertisement (co_options (rp_coordinator w)))
                  (rp_broker w, rp_store w) of
             None \<Rightarrow> None
           | Some (Inl err, k, st) \<Rightarrow> Some (w\<lparr>rp_acquire := Returned (Inl err), rp_broker := k, rp_store := st\<rparr>)
           | Some (Inr lease, k, st) \<Rightarrow> Some (w\<lparr>rp_acquire := Activated holder lease, rp_broker := k, rp_store := st\<rparr>))
      | Activated holder lease \<Rightarrow>
          (let (at, c) = acquire_take holder lease (rp_coordinator w) in Some (w\<lparr>rp_acquire := at, rp_coordinator := c\<rparr>))
      | Withdrawing holder lease \<Rightarrow>
          Some (w\<lparr>rp_acquire := Looking holder, rp_store := deactivatePrimary lease (rp_store w)\<rparr>)
      | Waiting holder \<Rightarrow>
          Some (w\<lparr>rp_acquire := (case ai_deadline i of Some err \<Rightarrow> Returned (Inl err) | None \<Rightarrow> Looking holder)\<rparr>)
      | _ \<Rightarrow> None)"

text \<open>The sections of the group callbacks and of \<open>Release\<close>.\<close>

datatype group_event =
    Assigned "(string \<times> int list) list"
  | Revoked "(string \<times> int list) list"
  | Releasing Lease

definition then_deactivates :: "Coordinator \<times> Lease option \<Rightarrow> 'k replica \<Rightarrow> 'k replica" where
  "then_deactivates section w = w\<lparr>rp_coordinator := fst section,
     rp_due := rp_due w @ (case snd section of None \<Rightarrow> [] | Some lease \<Rightarrow> [lease])\<rparr>"

fun group_section :: "group_event \<Rightarrow> 'k replica \<Rightarrow> 'k replica" where
  "group_section (Assigned ps) w =
     (if hasStatePartition ps (ko_Topic (ks_options (rp_store w))) then then_deactivates (setAssigned True (rp_coordinator w)) w else w)"
| "group_section (Revoked ps) w =
     (if hasStatePartition ps (ko_Topic (ks_options (rp_store w))) then then_deactivates (setAssigned False (rp_coordinator w)) w else w)"
| "group_section (Releasing lease) w = then_deactivates (snd (Release lease (rp_coordinator w))) w"

section \<open>Authority\<close>

text \<open>A wait only lets events happen, and ends with what it looked for or with its context.\<close>

lemma wait_until_events:
  "wait_until look ws st = Some (out, st') \<Longrightarrow>
     \<exists>es. st' = fold happen es st \<and> (look st' = Some out \<or> (\<exists>err. out = Some err))"
proof (induction ws arbitrary: st)
  case Nil
  then show ?case by (subst (asm) wait_until.simps) (auto intro: exI [of _ "[]"] split: option.splits)
next
  case (Cons w ws)
  show ?case
  proof (cases "look st")
    case None
    show ?thesis
    proof (cases w)
      case (Done err)
      with Cons.prems None show ?thesis
        by (subst (asm) wait_until.simps) (auto intro: exI [of _ "[]"])
    next
      case (Changed es)
      with Cons.prems None have "wait_until look ws (fold happen es st) = Some (out, st')"
        by (subst (asm) wait_until.simps) simp
      from Cons.IH [OF this] obtain es' where "st' = fold happen es' (fold happen es st)"
        and "look st' = Some out \<or> (\<exists>err. out = Some err)" by blast
      then show ?thesis by (intro exI [of _ "es @ es'"]) simp
    qed
  next
    case (Some outcome)
    with Cons.prems show ?thesis by (subst (asm) wait_until.simps) (auto intro: exI [of _ "[]"])
  qed
qed

lemma happen_lease: "ks_lease (happen ev st) = ks_lease st"
  by (rule happen_relates [where P = "\<lambda>_. True" and R = "\<lambda>a b. ks_lease b = ks_lease a"])
    (auto elim: applyRecord_cases)

lemma happens_lease: "ks_lease (fold happen es st) = ks_lease st"
  by (induction es arbitrary: st) (simp_all add: happen_lease del: happen.simps)

lemma CatchUp_keeps:
  assumes "CatchUp committed ws st = Some (out, st')" and "kafka_inv st"
  shows "kafka_inv st' \<and> ks_lease st' = ks_lease st"
proof (cases committed)
  case (Inr target)
  let ?st = "if target > ks_end st then st\<lparr>ks_end := target\<rparr> else st"
  have inv: "kafka_inv ?st" using assms(2) by (simp add: kafka_inv_def)
  from assms(1) Inr obtain es where "st' = fold happen es ?st"
    by (auto simp: CatchUp_def dest: wait_until_events)
  then show ?thesis using happens_inv [OF inv, of es] happens_lease [of es ?st] by simp
qed (use assms in \<open>simp add: CatchUp_def\<close>)

text \<open>An activation that succeeds has announced the epoch after the one observed.\<close>

lemma activatePrimary_cases:
  assumes "activatePrimary p a ctx holder address (k, st) = Some (out, k', st')" and "kafka_inv st"
  obtains (failed) err where "out = Inl err" and "kafka_inv st'" and "ks_lease st' = ks_lease st"
  | (active) st1 lease where "out = Inr lease" and "kafka_inv st'" and "ks_lease st' = lease"
      and "CatchUp (av_committed a) (av_catchup a) st = Some (None, st1)"
      and "le_Holder lease = holder" and "le_Epoch lease = pa_Epoch (ks_primary st1) + 1" and "le_Epoch lease \<noteq> 0"
      and "holder \<noteq> ''''"
      and "ks_primary st' = \<lparr>pa_FormatVersion = 1, pa_Holder = holder, pa_Epoch = le_Epoch lease, pa_Address = address\<rparr>"
proof -
  from assms(1) obtain cout st1 where c: "CatchUp (av_committed a) (av_catchup a) st = Some (cout, st1)"
    by (auto simp: activatePrimary_def split: option.splits prod.splits)
  have st1: "kafka_inv st1" "ks_lease st1 = ks_lease st" using CatchUp_keeps [OF c assms(2)] by simp_all
  show thesis
  proof (cases cout)
    case (Some err)
    with assms(1) c st1 show thesis by (intro failed) (auto simp: activatePrimary_def)
  next
    case None
    let ?ann = "\<lparr>pa_FormatVersion = stateFormatVersion, pa_Holder = holder, pa_Epoch = pa_Epoch (ks_primary st1) + 1,
      pa_Address = address\<rparr>"
    let ?st2 = "fold happen (sd_during (av_schedule a)) st1"
    have st2: "kafka_inv ?st2" "ks_lease ?st2 = ks_lease st"
      using happens_inv [OF st1(1)] happens_lease st1(2) by simp_all
    from assms(1) c None obtain tout k1 where
      t: "kafka_transaction p ctx (sd_waits (av_schedule a)) [(primaryRecordKey, print_json (enc_primaryAnnouncement ?ann))] k
        = Some (tout, k1)"
      by (auto simp: activatePrimary_def Let_def split: option.splits)
    show thesis
    proof (cases tout)
      case (Some err)
      with assms(1) c None t st2 show thesis by (intro failed) (auto simp: activatePrimary_def Let_def)
    next
      case tNone: None
      with assms(1) c None t obtain wout st3 where
        w: "waitForPrimary (sd_wakeups (av_schedule a)) ?ann ?st2 = Some (wout, st3)"
        by (auto simp: activatePrimary_def Let_def split: option.splits)
      from w obtain es where es: "st3 = fold happen es ?st2"
        and seen: "wout = None \<Longrightarrow> ks_primary st3 = ?ann"
        unfolding waitForPrimary_def by (fastforce dest!: wait_until_events split: if_splits)
      have st3: "kafka_inv st3" "ks_lease st3 = ks_lease st"
        using es happens_inv [OF st2(1), of es] happens_lease [of es ?st2] st2(2) by simp_all
      show thesis
      proof (cases wout)
        case (Some err)
        with assms(1) c None t tNone w st3 show thesis by (intro failed) (auto simp: activatePrimary_def Let_def)
      next
        case wNone: None
        have "validate_primary ?ann = None"
          using st3(1) seen [OF wNone] by (auto simp: kafka_inv_def zero_primaryAnnouncement_def)
        then have ok: "holder \<noteq> ''''" "pa_Epoch (ks_primary st1) + 1 \<noteq> 0"
          by (auto simp: validate_primary_def split: if_splits)
        have "kafka_inv (st3\<lparr>ks_lease := l\<rparr>)" for l using st3(1) by (simp add: kafka_inv_def)
        with assms(1) c None t tNone w wNone seen [OF wNone] ok show thesis
          by (intro active [of "\<lparr>le_Holder = holder, le_Epoch = pa_Epoch (ks_primary st1) + 1\<rparr>" st1])
            (auto simp: activatePrimary_def Let_def)
      qed
    qed
  qed
qed

text \<open>The store's lease is the coordinator's, or a goroutine is on its way to deactivate it, or \<open>Acquire\<close>
  has it from its activation and has not yet taken it over or withdrawn it. A coordinator has a lease
  only while it owns the partition.\<close>

definition in_passing :: "acquire_at \<Rightarrow> Lease \<Rightarrow> bool" where
  "in_passing at lease \<longleftrightarrow> (\<exists>holder. at = Activated holder lease \<or> at = Withdrawing holder lease)"

definition authority_inv :: "'k replica \<Rightarrow> bool" where
  "authority_inv w \<longleftrightarrow> kafka_inv (rp_store w)
     \<and> (co_lease (rp_coordinator w) \<noteq> zero_Lease \<longrightarrow> co_assigned (rp_coordinator w) \<and> le_Epoch (co_lease (rp_coordinator w)) \<noteq> 0)
     \<and> (\<forall>lease. in_passing (rp_acquire w) lease \<longrightarrow> le_Epoch lease \<noteq> 0 \<and> ks_lease (rp_store w) \<in> {lease, zero_Lease})
     \<and> (ks_lease (rp_store w) = zero_Lease
        \<or> \<not> co_released (rp_coordinator w) \<and> co_lease (rp_coordinator w) = ks_lease (rp_store w)
        \<or> ks_lease (rp_store w) \<in> set (rp_due w)
        \<or> in_passing (rp_acquire w) (ks_lease (rp_store w)))"

lemma deactivate_inv [simp]: "kafka_inv (deactivatePrimary lease st) = kafka_inv st"
  by (simp add: deactivatePrimary_def kafka_inv_def)

lemma deactivate_lease [simp]:
  "ks_lease (deactivatePrimary lease st) = (if ks_lease st = lease then zero_Lease else ks_lease st)"
  by (simp add: deactivatePrimary_def)

lemma in_passing_simps [simp]:
  "in_passing (Activated h l) lease \<longleftrightarrow> l = lease" "in_passing (Withdrawing h l) lease \<longleftrightarrow> l = lease"
  "\<not> in_passing Idle lease" "\<not> in_passing (Looking h) lease" "\<not> in_passing (Activating h) lease"
  "\<not> in_passing (Waiting h) lease" "\<not> in_passing (Returned out) lease" "\<not> in_passing (acquire_look h c) lease"
  by (auto simp: in_passing_def acquire_look_def)

lemma group_section_inv: "authority_inv w \<Longrightarrow> authority_inv (group_section ev w)"
  by (cases ev) (auto simp: authority_inv_def then_deactivates_def setAssigned_def Release_def Let_def split: if_splits)

lemma deactivates_inv:
  assumes "authority_inv w"
  shows "authority_inv (w\<lparr>rp_due := remove1 lease (rp_due w), rp_store := deactivatePrimary lease (rp_store w)\<rparr>)"
  using assms by (cases "ks_lease (rp_store w) = lease") (simp_all add: authority_inv_def)

lemma acquire_section_inv:
  assumes "acquire_section p i w = Some w'" and "authority_inv w"
  shows "authority_inv w'"
proof (cases "rp_acquire w")
  case (Activating holder)
  then obtain out k st where
    a: "activatePrimary p (ai_activation i) (ai_ctx i) holder (cg_Advertisement (co_options (rp_coordinator w)))
        (rp_broker w, rp_store w) = Some (out, k, st)"
    using assms(1) by (auto simp: acquire_section_def split: option.splits)
  have "kafka_inv (rp_store w)" using assms(2) by (simp add: authority_inv_def)
  with a show ?thesis
  proof (cases rule: activatePrimary_cases)
    case (failed err)
    then show ?thesis using a assms Activating by (auto simp: acquire_section_def authority_inv_def)
  next
    case (active st1 lease)
    then show ?thesis using a assms Activating by (auto simp: acquire_section_def authority_inv_def)
  qed
next
  case (Activated holder lease)
  then show ?thesis using assms
    by (auto simp: acquire_section_def authority_inv_def acquire_take_def zero_Lease_def split: if_splits)
next
  case (Withdrawing holder lease)
  then have "w' = w\<lparr>rp_acquire := Looking holder, rp_store := deactivatePrimary lease (rp_store w)\<rparr>"
    using assms(1) by (simp add: acquire_section_def)
  with assms(2) Withdrawing show ?thesis by (auto simp: authority_inv_def)
next
  case (Looking holder)
  then have "w' = w\<lparr>rp_acquire := acquire_look holder (rp_coordinator w)\<rparr>"
    using assms(1) by (simp add: acquire_section_def)
  with assms(2) Looking show ?thesis by (simp add: authority_inv_def)
next
  case (Waiting holder)
  then have "w' = w\<lparr>rp_acquire := (case ai_deadline i of Some err \<Rightarrow> Returned (Inl err) | None \<Rightarrow> Looking holder)\<rparr>"
    using assms(1) by (simp add: acquire_section_def)
  with assms(2) Waiting show ?thesis by (simp add: authority_inv_def split: option.split)
qed (use assms(1) in \<open>simp_all add: acquire_section_def\<close>)

section \<open>A replica at work\<close>

lemma kafka_Commit_events:
  assumes "kafka_Commit p sched ctx e (k, st) = Some (err, k', st')"
  shows "\<exists>es. st' = fold happen es st"
proof (cases "Validate e = None \<and> checkLeadership st = None \<and> checkSequence (env_Sequence e) (marshal_Envelope e) st = Inr False")
  case True
  from True assms obtain observed st1 cause where
    w: "waitForTransition (sd_wakeups sched) (env_Sequence e) (marshal_Envelope e)
        (fold happen (sd_during sched) st) = Some (observed, st1)"
    and st': "st' = st1 \<or> st' = kafka_recordError (Some cause) st1"
    by (auto simp: kafka_Commit_def Let_def split: option.splits prod.splits)
  from w obtain es where es: "st1 = fold happen es (fold happen (sd_during sched) st)"
    unfolding waitForTransition_def by (blast dest: wait_until_events)
  have "st1 = fold happen (sd_during sched @ es) st"
    "kafka_recordError (Some cause) st1 = fold happen (sd_during sched @ es @ [Failed cause]) st"
    using es by simp_all
  with st' show ?thesis by blast
next
  case False
  then have "st' = st"
    using assms by (auto simp: kafka_Commit_def Let_def split: option.splits sum.splits bool.splits)
  then show ?thesis by (intro exI [of _ "[]"]) simp
qed

text \<open>Everything that moves a replica: the next section of its \<open>Acquire\<close>, of a group callback or of
  \<open>Release\<close>, a deactivation that is due, its commits, its consumer, and whatever other replicas do to
  the broker.\<close>

inductive replica_step :: "'k producer \<Rightarrow> 'k replica \<Rightarrow> 'k replica \<Rightarrow> bool" for p :: "'k producer" where
  acquires: "acquire_section p i w = Some w' \<Longrightarrow> replica_step p w w'"
| group: "replica_step p w (group_section ev w)"
| deactivates: "lease \<in> set (rp_due w) \<Longrightarrow>
    replica_step p w (w\<lparr>rp_due := remove1 lease (rp_due w), rp_store := deactivatePrimary lease (rp_store w)\<rparr>)"
| commits: "kafka_Commit p sched ctx e (rp_broker w, rp_store w) = Some (err, k, st) \<Longrightarrow>
    replica_step p w (w\<lparr>rp_broker := k, rp_store := st\<rparr>)"
| consumes: "replica_step p w (w\<lparr>rp_store := happen ev (rp_store w)\<rparr>)"
| elsewhere: "replica_step p w (w\<lparr>rp_broker := k\<rparr>)"

text \<open>A replica whose \<open>Acquire\<close> is called, with any holder, whenever no call is under way.\<close>

inductive replica_run :: "'k producer \<Rightarrow> 'k replica \<Rightarrow> 'k replica \<Rightarrow> bool" for p :: "'k producer" where
  steps: "replica_step p w w' \<Longrightarrow> replica_run p w w'"
| calls: "rp_acquire w = Idle \<or> rp_acquire w = Returned out \<Longrightarrow> Acquire created holder (rp_coordinator w) = (at, c) \<Longrightarrow>
    replica_run p w (w\<lparr>rp_acquire := at, rp_coordinator := c\<rparr>)"

lemma authority_happens: "authority_inv w \<Longrightarrow> authority_inv (w\<lparr>rp_store := fold happen es (rp_store w)\<rparr>)"
  using happens_inv [of "rp_store w" es] happens_lease [of es "rp_store w"] by (auto simp: authority_inv_def)

lemma authority_broker [simp]: "authority_inv (w\<lparr>rp_broker := k\<rparr>) = authority_inv w"
  by (simp add: authority_inv_def)

lemma replica_step_inv: "replica_step p w w' \<Longrightarrow> authority_inv w \<Longrightarrow> authority_inv w'"
proof (induction rule: replica_step.induct)
  case (commits sched ctx e w err k st)
  then obtain es where "st = fold happen es (rp_store w)" using kafka_Commit_events [OF commits(1)] by blast
  with authority_happens [OF commits(2), of es] show ?case by (simp add: authority_inv_def)
next
  case (consumes w ev)
  then show ?case using authority_happens [of w "[ev]"] by (simp del: happen.simps)
qed (auto intro: acquire_section_inv group_section_inv deactivates_inv)

lemma Acquire_inv:
  assumes "Acquire created holder (rp_coordinator w) = (at, c)" and "authority_inv w" and "\<And>lease. \<not> in_passing (rp_acquire w) lease"
  shows "authority_inv (w\<lparr>rp_acquire := at, rp_coordinator := c\<rparr>)"
  using assms by (auto simp: Acquire_def start_group_def authority_inv_def split: if_splits option.splits)

lemma replica_run_inv: "replica_run p w w' \<Longrightarrow> authority_inv w \<Longrightarrow> authority_inv w'"
  by (induction rule: replica_run.induct) (auto intro: replica_step_inv Acquire_inv)

lemma new_replica_inv:
  assumes "NewCoordinator (Some st) copts = Inr c" and "kafka_inv st" and "ks_lease st = zero_Lease"
  shows "authority_inv (new_replica c k st)"
  using assms by (auto simp: NewCoordinator_def new_replica_def authority_inv_def Let_def split: if_splits)

text \<open>C35: Write authority follows the election. Whatever a replica and the rest of the cluster have
  done since it started, section by section, a store that requires leadership lets a commit pass only
  under the lease that was last announced in the topic; and then this replica's coordinator owns the
  partition, has not been released and holds that lease, or else one of its goroutines is on its way
  to the deactivation of just this lease, from a callback or a \<open>Release\<close> that has not returned, or
  from an \<open>Acquire\<close> that has activated it and has still to take it over or withdraw it.\<close>

theorem write_authority:
  assumes "NewCoordinator (Some st0) copts = Inr c0" and "kafka_inv st0" and "ks_lease st0 = zero_Lease"
    and "(replica_run p)\<^sup>*\<^sup>* (new_replica c0 k0 st0) w"
    and "c = rp_coordinator w" and "st = rp_store w" and "lease = ks_lease st"
    and "ko_RequireLeadership (ks_options st)" and "checkLeadership st = None"
  shows "Primary st = (lease, pa_Address (ks_primary st), True)
    \<and> (LocalLease c = (lease, True) \<and> Renew None lease (c, st) = None
       \<or> lease \<in> set (rp_due w)
       \<or> (\<exists>holder. rp_acquire w = Activated holder lease \<or> rp_acquire w = Withdrawing holder lease))"
proof -
  have "authority_inv w"
    using assms(4) new_replica_inv [OF assms(1-3)] by (induction rule: rtranclp_induct) (auto intro: replica_run_inv)
  then have inv: "co_lease c \<noteq> zero_Lease \<Longrightarrow> co_assigned c"
    and why: "lease = zero_Lease \<or> \<not> co_released c \<and> co_lease c = lease \<or> lease \<in> set (rp_due w)
      \<or> in_passing (rp_acquire w) lease"
    using assms(5-7) by (simp_all add: authority_inv_def)
  from assms(7-9) have primary: "le_Holder lease \<noteq> ''''" "le_Epoch lease \<noteq> 0" "ks_lease st = lease"
    "pa_Holder (ks_primary st) = le_Holder lease" "pa_Epoch (ks_primary st) = le_Epoch lease"
    by (simp_all add: checkLeadership_def split: if_splits)
  then have nz: "lease \<noteq> zero_Lease" by (auto simp: zero_Lease_def)
  have "LocalLease c = (lease, True) \<and> Renew None lease (c, st) = None" if "\<not> co_released c" "co_lease c = lease"
    using that inv nz primary(3-5) by (simp add: LocalLease_def Renew_def renew_looks_def renew_decides_def ownsLease_def)
  moreover have "Primary st = (lease, pa_Address (ks_primary st), True)"
    using primary by (simp add: Primary_def)
  ultimately show ?thesis using why nz unfolding in_passing_def by blast
qed

text \<open>An election that succeeds leaves the replica as the announced primary, with the epoch
  after the last one it had observed when it had caught up with the topic: the next primary's
  epoch is above that of every primary it has seen, and the replica's commits then pass.\<close>

theorem election_raises_epoch:
  assumes "activatePrimary p a ctx holder address (k, st) = Some (Inr lease, k', st')" and "kafka_inv st"
  shows "\<exists>st1. CatchUp (av_committed a) (av_catchup a) st = Some (None, st1)
    \<and> pa_Epoch (ks_primary st1) < le_Epoch lease \<and> le_Holder lease = holder
    \<and> ownsLease lease st' \<and> checkLeadership st' = None
    \<and> Primary st' = (lease, address, True)"
  using assms
proof (cases rule: activatePrimary_cases)
  case (active st1 l)
  then have "pa_Epoch (ks_primary st1) < le_Epoch lease" using u64_plus1_greater [of "pa_Epoch (ks_primary st1)"] by simp
  moreover have l: "l = lease" using active(1) by simp
  note facts = active(3,5,7-9) [unfolded l]
  have "ownsLease lease st'" "checkLeadership st' = None" "Primary st' = (lease, address, True)"
    using facts(1-4) by (simp_all add: ownsLease_def checkLeadership_def Primary_def facts(5))
  ultimately show ?thesis using active(4) facts(2) by blast
qed simp

end
