(* ===== verification/Config.thy ===== *)
theory Config
  imports Security
begin

text \<open>
  \<open>internal/config/config.go\<close>: the runtime configuration, its defaults, how a file, the
  environment and flags override one another, and its validation. The YAML decoder is third-party
  code and a parameter, as are the file and the process environment. A duration is its number of
  nanoseconds.
\<close>

section \<open>Data\<close>

record Listeners =
  ls_Public :: string
  ls_Internal :: string
  ls_Health :: string
  ls_Metrics :: string

record KafkaTLS =
  kt_Enabled :: bool
  kt_CAFile :: string
  kt_CertFile :: string
  kt_KeyFile :: string
  kt_ServerName :: string

record KafkaSASL =
  ks_Mechanism :: string
  ks_Username :: string
  ks_Password :: string

record KafkaStorage =
  kf_Brokers :: "string list"
  kf_Topic :: string
  kf_TransactionalID :: string
  kf_GroupID :: string
  kf_ReplicaID :: string
  kf_AdvertiseURL :: string
  kf_ReplicationFactor :: int64
  kf_AutoCreateTopic :: bool
  kf_MaxReadyLag :: int64
  kf_TransactionTimeout :: int64
  kf_TLS :: KafkaTLS
  kf_SASL :: KafkaSASL

record PVCStorage =
  pvc_Path :: string

record StorageConfig =
  st_Backend :: string
  st_PVC :: PVCStorage
  st_Kafka :: KafkaStorage

record TLSConfig =
  tls_CertFile :: string
  tls_KeyFile :: string
  tls_TrustedProxyCIDRs :: "string list"

record Auth =
  au_Mode :: string
  au_Username :: string
  au_Password :: string
  au_BearerToken :: string
  au_InternalToken :: string
  au_AdminToken :: string

record RequestLimits =
  rl_RequestBytes :: int64
  rl_ReadTimeout :: int64
  rl_WriteTimeout :: int64
  rl_ShutdownTimeout :: int64

record Config =
  cf_Listeners :: Listeners
  cf_Storage :: StorageConfig
  cf_TLS :: TLSConfig
  cf_Auth :: Auth
  cf_Limits :: RequestLimits

record Overrides =
  ov_PublicAddress :: "string option"
  ov_DataPath :: "string option"
  ov_Backend :: "string option"

definition second :: int where
  "second = 1000000000"

definition Default :: Config where
  "Default =
     \<lparr>cf_Listeners = \<lparr>ls_Public = '':8081'', ls_Internal = '''', ls_Health = '':8082'', ls_Metrics = '':9090''\<rparr>,
      cf_Storage = \<lparr>st_Backend = ''pvc'', st_PVC = \<lparr>pvc_Path = ''.riquet/riquet.db''\<rparr>,
        st_Kafka = \<lparr>kf_Brokers = [], kf_Topic = ''_riquet_state'', kf_TransactionalID = '''', kf_GroupID = '''',
          kf_ReplicaID = '''', kf_AdvertiseURL = '''', kf_ReplicationFactor = 1, kf_AutoCreateTopic = False,
          kf_MaxReadyLag = 0, kf_TransactionTimeout = int64_of (30 * second),
          kf_TLS = \<lparr>kt_Enabled = False, kt_CAFile = '''', kt_CertFile = '''', kt_KeyFile = '''', kt_ServerName = ''''\<rparr>,
          kf_SASL = \<lparr>ks_Mechanism = '''', ks_Username = '''', ks_Password = ''''\<rparr>\<rparr>\<rparr>,
      cf_TLS = \<lparr>tls_CertFile = '''', tls_KeyFile = '''', tls_TrustedProxyCIDRs = []\<rparr>,
      cf_Auth = \<lparr>au_Mode = ''anonymous'', au_Username = '''', au_Password = '''', au_BearerToken = '''',
        au_InternalToken = '''', au_AdminToken = ''''\<rparr>,
      cf_Limits = \<lparr>rl_RequestBytes = int64_of 2097152, rl_ReadTimeout = int64_of (30 * second),
        rl_WriteTimeout = int64_of (30 * second), rl_ShutdownTimeout = int64_of (15 * second)\<rparr>\<rparr>"

section \<open>Diagnostics\<close>

text \<open>\<open>Config.String\<close>: the JSON of the configuration, without the fields tagged \<open>json:"-"\<close>.
  A nil slice is written as \<open>null\<close>.\<close>

definition enc_strings :: "string list \<Rightarrow> json" where
  "enc_strings xs = (if xs = [] then JNull else JArr (map enc_string xs))"

definition enc_KafkaStorage :: "KafkaStorage \<Rightarrow> json" where
  "enc_KafkaStorage k = obj
     [(''brokers'', enc_strings (kf_Brokers k)), (''topic'', enc_string (kf_Topic k)),
      (''transactionalId'', enc_string (kf_TransactionalID k)), (''groupId'', enc_string (kf_GroupID k)),
      (''replicaId'', enc_string (kf_ReplicaID k)), (''advertiseUrl'', enc_string (kf_AdvertiseURL k)),
      (''replicationFactor'', enc_i64 (kf_ReplicationFactor k)), (''autoCreateTopic'', JBool (kf_AutoCreateTopic k)),
      (''maxReadyLag'', enc_i64 (kf_MaxReadyLag k)), (''transactionTimeout'', enc_i64 (kf_TransactionTimeout k)),
      (''tls'', obj [(''enabled'', JBool (kt_Enabled (kf_TLS k))), (''caFile'', enc_string (kt_CAFile (kf_TLS k))),
         (''certFile'', enc_string (kt_CertFile (kf_TLS k))), (''keyFile'', enc_string (kt_KeyFile (kf_TLS k))),
         (''serverName'', enc_string (kt_ServerName (kf_TLS k)))]),
      (''sasl'', obj [(''mechanism'', enc_string (ks_Mechanism (kf_SASL k))),
         (''username'', enc_string (ks_Username (kf_SASL k)))])]"

definition enc_Config :: "Config \<Rightarrow> json" where
  "enc_Config c = obj
     [(''listeners'', obj [(''public'', enc_string (ls_Public (cf_Listeners c))),
         (''internal'', enc_string (ls_Internal (cf_Listeners c))), (''health'', enc_string (ls_Health (cf_Listeners c))),
         (''metrics'', enc_string (ls_Metrics (cf_Listeners c)))]),
      (''storage'', obj [(''backend'', enc_string (st_Backend (cf_Storage c))),
         (''pvc'', obj [(''path'', enc_string (pvc_Path (st_PVC (cf_Storage c))))]),
         (''kafka'', enc_KafkaStorage (st_Kafka (cf_Storage c)))]),
      (''tls'', obj [(''certFile'', enc_string (tls_CertFile (cf_TLS c))), (''keyFile'', enc_string (tls_KeyFile (cf_TLS c))),
         (''trustedProxyCidrs'', enc_strings (tls_TrustedProxyCIDRs (cf_TLS c)))]),
      (''auth'', obj [(''mode'', enc_string (au_Mode (cf_Auth c))), (''username'', enc_string (au_Username (cf_Auth c)))]),
      (''limits'', obj [(''requestBytes'', enc_i64 (rl_RequestBytes (cf_Limits c))),
         (''readTimeout'', enc_i64 (rl_ReadTimeout (cf_Limits c))), (''writeTimeout'', enc_i64 (rl_WriteTimeout (cf_Limits c))),
         (''shutdownTimeout'', enc_i64 (rl_ShutdownTimeout (cf_Limits c)))])]"

definition Config_String :: "Config \<Rightarrow> string" where
  "Config_String c = print_json (enc_Config c)"

section \<open>Validation\<close>

text \<open>The listeners are visited in an order Go leaves open, here the order of their fields;
  whether two share an address does not depend on it.\<close>

fun check_listeners :: "(string \<times> string) list \<Rightarrow> (string \<times> string) list \<Rightarrow> go_error option" where
  "check_listeners seen [] = None"
| "check_listeners seen ((name, address) # rest) =
     (if address = '''' then check_listeners seen rest
      else case map_of seen address of
        Some previous \<Rightarrow> Some (FmtErr ''%s and %s listeners cannot share %q'' [AStr previous, AStr name, AStr address] None)
      | None \<Rightarrow> check_listeners ((address, name) # seen) rest)"

definition config_error :: "string \<Rightarrow> go_error option" where
  "config_error text = Some (FmtErr text [] None)"

definition validate_auth :: "Auth \<Rightarrow> go_error option" where
  "validate_auth a =
     (if au_Mode a = ''anonymous'' then None
      else if au_Mode a = ''basic'' then
        (if au_Username a = '''' \<or> au_Password a = ''''
         then config_error ''basic authentication requires username and password'' else None)
      else if au_Mode a = ''bearer'' then
        (if au_BearerToken a = '''' then config_error ''bearer authentication requires a token'' else None)
      else Some (FmtErr ''unsupported authentication mode %q'' [AStr (au_Mode a)] None))"

definition validate_kafka :: "Config \<Rightarrow> go_error option" where
  "validate_kafka c =
     (let k = st_Kafka (cf_Storage c); mechanism = ks_Mechanism (kf_SASL k) in
      if kf_Brokers k = [] \<or> kf_Topic k = '''' then config_error ''kafka brokers and topic are required''
      else if ls_Internal (cf_Listeners c) = '''' \<or> au_InternalToken (cf_Auth c) = '''' \<or> kf_ReplicaID k = ''''
        \<or> kf_AdvertiseURL k = ''''
      then config_error ''kafka HA requires an internal listener, token, replica ID, and advertise URL''
      else if (kt_CertFile (kf_TLS k) = '''') \<noteq> (kt_KeyFile (kf_TLS k) = '''')
      then config_error ''kafka TLS client certificate and key must be configured together''
      else if mechanism = '''' then None
      else if mechanism = ''plain'' \<or> mechanism = ''scram-sha-256'' \<or> mechanism = ''scram-sha-512'' then
        (if ks_Username (kf_SASL k) = '''' \<or> ks_Password (kf_SASL k) = ''''
         then config_error ''kafka SASL requires username and password'' else None)
      else Some (FmtErr ''unsupported Kafka SASL mechanism %q'' [AStr mechanism] None))"

definition validate_storage :: "Config \<Rightarrow> go_error option" where
  "validate_storage c =
     (if st_Backend (cf_Storage c) = ''pvc'' then
        (if pvc_Path (st_PVC (cf_Storage c)) = '''' then config_error ''PVC storage path is required'' else None)
      else if st_Backend (cf_Storage c) = ''kafka'' then validate_kafka c
      else Some (FmtErr ''unsupported storage backend %q'' [AStr (st_Backend (cf_Storage c))] None))"

definition validate_limits :: "RequestLimits \<Rightarrow> go_error option" where
  "validate_limits l =
     (if rl_RequestBytes l < 1 \<or> rl_ReadTimeout l \<le> 0 \<or> rl_WriteTimeout l \<le> 0 \<or> rl_ShutdownTimeout l \<le> 0
      then config_error ''request and timeout limits must be positive'' else None)"

fun first_error :: "go_error option list \<Rightarrow> go_error option" where
  "first_error [] = None"
| "first_error (None # es) = first_error es"
| "first_error (Some e # es) = Some e"

definition Config_Validate :: "Config \<Rightarrow> go_error option" where
  "Config_Validate c =
     (let l = cf_Listeners c in
      if ls_Public l = '''' then config_error ''public listener is required''
      else first_error
        [check_listeners [] [(''public'', ls_Public l), (''internal'', ls_Internal l),
           (''health'', ls_Health l), (''metrics'', ls_Metrics l)],
         if (tls_CertFile (cf_TLS c) = '''') \<noteq> (tls_KeyFile (cf_TLS c) = '''')
         then config_error ''TLS certificate and key must be configured together'' else None,
         validate_auth (cf_Auth c), validate_storage c, validate_limits (cf_Limits c)])"

section \<open>Sources of values\<close>

definition splitNonEmpty :: "string \<Rightarrow> string list" where
  "splitNonEmpty v = filter (\<lambda>item. item \<noteq> '''') (map TrimSpace (Split (CHR '','') v))"

type_synonym environment = "string \<Rightarrow> string option"

text \<open>\<open>os.Environ\<close> as a map: an entry without an equals sign is skipped, a later one wins.\<close>

definition currentEnvironment :: "string list \<Rightarrow> environment" where
  "currentEnvironment environ =
     foldl (\<lambda>m item. if CHR ''='' \<in> set item then m(fst (Cut (CHR ''='') item) \<mapsto> snd (Cut (CHR ''='') item)) else m)
       Map.empty environ"

definition env_set :: "environment \<Rightarrow> string \<Rightarrow> (string \<Rightarrow> Config \<Rightarrow> Config) \<Rightarrow> Config \<Rightarrow> Config" where
  "env_set env key upd c = (case env key of None \<Rightarrow> c | Some v \<Rightarrow> upd v c)"

abbreviation upd_kafka :: "(KafkaStorage \<Rightarrow> KafkaStorage) \<Rightarrow> Config \<Rightarrow> Config" where
  "upd_kafka f \<equiv> cf_Storage_update (st_Kafka_update f)"

definition env_strings :: "(string \<times> (string \<Rightarrow> Config \<Rightarrow> Config)) list" where
  "env_strings =
     [(''RIQUET_PUBLIC_ADDRESS'', \<lambda>v. cf_Listeners_update (ls_Public_update (\<lambda>_. v))),
      (''RIQUET_INTERNAL_ADDRESS'', \<lambda>v. cf_Listeners_update (ls_Internal_update (\<lambda>_. v))),
      (''RIQUET_HEALTH_ADDRESS'', \<lambda>v. cf_Listeners_update (ls_Health_update (\<lambda>_. v))),
      (''RIQUET_METRICS_ADDRESS'', \<lambda>v. cf_Listeners_update (ls_Metrics_update (\<lambda>_. v))),
      (''RIQUET_STORAGE_BACKEND'', \<lambda>v. cf_Storage_update (st_Backend_update (\<lambda>_. v))),
      (''RIQUET_DATA_PATH'', \<lambda>v. cf_Storage_update (st_PVC_update (pvc_Path_update (\<lambda>_. v)))),
      (''RIQUET_KAFKA_TOPIC'', \<lambda>v. upd_kafka (kf_Topic_update (\<lambda>_. v))),
      (''RIQUET_KAFKA_TRANSACTIONAL_ID'', \<lambda>v. upd_kafka (kf_TransactionalID_update (\<lambda>_. v))),
      (''RIQUET_KAFKA_GROUP_ID'', \<lambda>v. upd_kafka (kf_GroupID_update (\<lambda>_. v))),
      (''RIQUET_REPLICA_ID'', \<lambda>v. upd_kafka (kf_ReplicaID_update (\<lambda>_. v))),
      (''RIQUET_INTERNAL_ADVERTISE_URL'', \<lambda>v. upd_kafka (kf_AdvertiseURL_update (\<lambda>_. v))),
      (''RIQUET_KAFKA_TLS_CA_FILE'', \<lambda>v. upd_kafka (kf_TLS_update (kt_CAFile_update (\<lambda>_. v)))),
      (''RIQUET_KAFKA_TLS_CERT_FILE'', \<lambda>v. upd_kafka (kf_TLS_update (kt_CertFile_update (\<lambda>_. v)))),
      (''RIQUET_KAFKA_TLS_KEY_FILE'', \<lambda>v. upd_kafka (kf_TLS_update (kt_KeyFile_update (\<lambda>_. v)))),
      (''RIQUET_KAFKA_TLS_SERVER_NAME'', \<lambda>v. upd_kafka (kf_TLS_update (kt_ServerName_update (\<lambda>_. v)))),
      (''RIQUET_KAFKA_SASL_MECHANISM'', \<lambda>v. upd_kafka (kf_SASL_update (ks_Mechanism_update (\<lambda>_. v)))),
      (''RIQUET_KAFKA_SASL_USERNAME'', \<lambda>v. upd_kafka (kf_SASL_update (ks_Username_update (\<lambda>_. v)))),
      (''RIQUET_KAFKA_SASL_PASSWORD'', \<lambda>v. upd_kafka (kf_SASL_update (ks_Password_update (\<lambda>_. v)))),
      (''RIQUET_KAFKA_BROKERS'', \<lambda>v. upd_kafka (kf_Brokers_update (\<lambda>_. splitNonEmpty v))),
      (''RIQUET_TLS_CERT_FILE'', \<lambda>v. cf_TLS_update (tls_CertFile_update (\<lambda>_. v))),
      (''RIQUET_TLS_KEY_FILE'', \<lambda>v. cf_TLS_update (tls_KeyFile_update (\<lambda>_. v))),
      (''RIQUET_TRUSTED_PROXY_CIDRS'', \<lambda>v. cf_TLS_update (tls_TrustedProxyCIDRs_update (\<lambda>_. splitNonEmpty v))),
      (''RIQUET_AUTH_MODE'', \<lambda>v. cf_Auth_update (au_Mode_update (\<lambda>_. v))),
      (''RIQUET_AUTH_USERNAME'', \<lambda>v. cf_Auth_update (au_Username_update (\<lambda>_. v))),
      (''RIQUET_AUTH_PASSWORD'', \<lambda>v. cf_Auth_update (au_Password_update (\<lambda>_. v))),
      (''RIQUET_AUTH_BEARER_TOKEN'', \<lambda>v. cf_Auth_update (au_BearerToken_update (\<lambda>_. v))),
      (''RIQUET_INTERNAL_TOKEN'', \<lambda>v. cf_Auth_update (au_InternalToken_update (\<lambda>_. v))),
      (''RIQUET_ADMIN_TOKEN'', \<lambda>v. cf_Auth_update (au_AdminToken_update (\<lambda>_. v)))]"

text \<open>A value that is parsed: its decoder, the update, and the error of a bad one.\<close>

definition env_parse :: "environment \<Rightarrow> string \<Rightarrow> (string \<Rightarrow> 'a option) \<Rightarrow> ('a \<Rightarrow> Config \<Rightarrow> Config) \<Rightarrow> go_error
    \<Rightarrow> Config \<Rightarrow> go_error + Config" where
  "env_parse env key dec upd err c =
     (case env key of None \<Rightarrow> Inr c
      | Some v \<Rightarrow> (case dec v of None \<Rightarrow> Inl err | Some x \<Rightarrow> Inr (upd x c)))"

text \<open>\<open>strconv.ParseInt\<close> with 16 bits, and at least 1.\<close>

definition parse_factor :: "string \<Rightarrow> int64 option" where
  "parse_factor v =
     (case ParseInt v of None \<Rightarrow> None
      | Some n \<Rightarrow> if - 32768 \<le> sint64 n \<and> sint64 n \<le> 32767 \<and> \<not> n < 1 then Some n else None)"

definition applyEnvironment :: "environment \<Rightarrow> Config \<Rightarrow> go_error + Config" where
  "applyEnvironment env c =
     (let c1 = foldl (\<lambda>c (key, upd). env_set env key upd c) c env_strings in
      case env_parse env ''RIQUET_MAX_READY_LAG'' ParseInt (\<lambda>n. upd_kafka (kf_MaxReadyLag_update (\<lambda>_. n)))
          (FmtErr ''RIQUET_MAX_READY_LAG: %w'' [] (Some (Sentinel ''strconv''))) c1 of
        Inl e \<Rightarrow> Inl e
      | Inr c2 \<Rightarrow>
      case env_parse env ''RIQUET_KAFKA_REPLICATION_FACTOR'' parse_factor
          (\<lambda>n. upd_kafka (kf_ReplicationFactor_update (\<lambda>_. n)))
          (FmtErr ''RIQUET_KAFKA_REPLICATION_FACTOR: invalid positive int16'' [] None) c2 of
        Inl e \<Rightarrow> Inl e
      | Inr c3 \<Rightarrow>
      case env_parse env ''RIQUET_KAFKA_AUTO_CREATE_TOPIC'' ParseBool (\<lambda>b. upd_kafka (kf_AutoCreateTopic_update (\<lambda>_. b)))
          (FmtErr ''RIQUET_KAFKA_AUTO_CREATE_TOPIC: %w'' [] (Some (Sentinel ''strconv''))) c3 of
        Inl e \<Rightarrow> Inl e
      | Inr c4 \<Rightarrow>
      env_parse env ''RIQUET_KAFKA_TLS_ENABLED'' ParseBool (\<lambda>b. upd_kafka (kf_TLS_update (kt_Enabled_update (\<lambda>_. b))))
          (FmtErr ''RIQUET_KAFKA_TLS_ENABLED: %w'' [] (Some (Sentinel ''strconv''))) c4)"

definition override :: "'v option \<Rightarrow> ('v \<Rightarrow> Config \<Rightarrow> Config) \<Rightarrow> Config \<Rightarrow> Config" where
  "override x upd c = (case x of None \<Rightarrow> c | Some v \<Rightarrow> upd v c)"

text \<open>The file system and the YAML decoder are arguments; the decoder takes the text and the
  values already in place. No environment argument means the one of the process.\<close>

definition Load ::
  "(string \<Rightarrow> go_error + string) \<Rightarrow> (string \<Rightarrow> Config \<Rightarrow> go_error + Config) \<Rightarrow> string list
     \<Rightarrow> string \<Rightarrow> environment option \<Rightarrow> Overrides \<Rightarrow> go_error + Config" where
  "Load readFile yaml environ path env overrides =
     (case (if path = '''' then Inr Default
            else case readFile path of
              Inl e \<Rightarrow> Inl (FmtErr ''read configuration: %w'' [] (Some e))
            | Inr raw \<Rightarrow>
                (case yaml raw Default of
                   Inl e \<Rightarrow> Inl (FmtErr ''decode configuration: %w'' [] (Some e))
                 | Inr c \<Rightarrow> Inr c)) of
        Inl e \<Rightarrow> Inl e
      | Inr c0 \<Rightarrow>
          (case applyEnvironment (case env of None \<Rightarrow> currentEnvironment environ | Some m \<Rightarrow> m) c0 of
             Inl e \<Rightarrow> Inl e
           | Inr c1 \<Rightarrow>
               (let c2 = override (ov_PublicAddress overrides) (\<lambda>v. cf_Listeners_update (ls_Public_update (\<lambda>_. v))) c1;
                    c3 = override (ov_DataPath overrides) (\<lambda>v. cf_Storage_update (st_PVC_update (pvc_Path_update (\<lambda>_. v)))) c2;
                    c4 = override (ov_Backend overrides) (\<lambda>v. cf_Storage_update (st_Backend_update (\<lambda>_. v))) c3
                in case Config_Validate c4 of Some e \<Rightarrow> Inl e | None \<Rightarrow> Inr c4)))"

section \<open>What a loaded configuration guarantees\<close>

lemma check_listeners_None:
  "check_listeners seen xs = None \<longleftrightarrow>
     distinct (filter (\<lambda>a. a \<noteq> '''') (map snd xs)) \<and> (\<forall>a \<in> set (map snd xs). a \<noteq> '''' \<longrightarrow> map_of seen a = None)"
  by (induction seen xs rule: check_listeners.induct) (auto split: option.splits)

lemma first_error_None: "first_error es = None \<longleftrightarrow> (\<forall>e \<in> set es. e = None)"
  by (induction es rule: first_error.induct) auto

lemma config_error_Some [simp]: "config_error t \<noteq> None" "None \<noteq> config_error t"
  by (simp_all add: config_error_def)

lemma Config_Validate_None:
  "Config_Validate c = None \<longleftrightarrow>
     ls_Public (cf_Listeners c) \<noteq> ''''
     \<and> distinct (filter (\<lambda>a. a \<noteq> '''') [ls_Public (cf_Listeners c), ls_Internal (cf_Listeners c),
          ls_Health (cf_Listeners c), ls_Metrics (cf_Listeners c)])
     \<and> (tls_CertFile (cf_TLS c) = '''' \<longleftrightarrow> tls_KeyFile (cf_TLS c) = '''')
     \<and> validate_auth (cf_Auth c) = None \<and> validate_storage c = None \<and> validate_limits (cf_Limits c) = None"
  by (simp add: Config_Validate_def Let_def first_error_None check_listeners_None)

lemma Load_validated: "Load readFile yaml environ path env overrides = Inr c \<Longrightarrow> Config_Validate c = None"
  by (auto simp: Load_def Let_def split: sum.splits option.splits if_splits)

text \<open>How \<open>Run\<close> configures the guard of the public listener.\<close>

definition auth_config :: "Config \<Rightarrow> AuthConfig" where
  "auth_config c = \<lparr>ac_Mode = au_Mode (cf_Auth c), ac_Username = au_Username (cf_Auth c),
     ac_Password = au_Password (cf_Auth c), ac_BearerToken = au_BearerToken (cf_Auth c)\<rparr>"

definition no_credentials :: "request \<Rightarrow> bool" where
  "no_credentials r \<longleftrightarrow> HeaderGet (rq_Header r) ''Authorization'' \<in> {'''', ''Bearer ''} \<or> BasicAuth r = Some ('''', '''')"

lemma BasicAuth_scheme:
  "BasicAuth r \<noteq> None \<Longrightarrow> map fold_char (take 6 (HeaderGet (rq_Header r) ''Authorization'')) = ''BASIC ''"
  by (auto simp: BasicAuth_def Let_def split: if_splits)

lemma BasicAuth_none: "HeaderGet (rq_Header r) ''Authorization'' \<in> {'''', ''Bearer ''} \<Longrightarrow> BasicAuth r = None"
proof (rule ccontr)
  assume h: "HeaderGet (rq_Header r) ''Authorization'' \<in> {'''', ''Bearer ''}" and "BasicAuth r \<noteq> None"
  then have "map fold_char (take 6 (HeaderGet (rq_Header r) ''Authorization'')) = ''BASIC ''"
    by (intro BasicAuth_scheme)
  with h show False by (auto simp: fold_char_def char_of_eval)
qed

lemma bearer_not_basic: "HasPrefix (HeaderGet (rq_Header r) ''Authorization'') ''Bearer '' \<Longrightarrow> BasicAuth r = None"
proof (rule ccontr)
  let ?h = "HeaderGet (rq_Header r) ''Authorization''"
  assume "HasPrefix ?h ''Bearer ''" "BasicAuth r \<noteq> None"
  then have "take 7 ?h = ''Bearer ''" and f: "map fold_char (take 6 ?h) = ''BASIC ''"
    using BasicAuth_scheme [of r] by (simp_all add: HasPrefix_def eval_nat_numeral)
  moreover have "take 6 ?h = take 6 (take 7 ?h)" by simp
  ultimately have "take 6 ?h = ''Bearer''" by simp
  with f show False by (simp add: fold_char_def char_of_eval)
qed

lemma unauthorized:
  assumes "validate_auth (cf_Auth c) = None" and "au_Mode (cf_Auth c) \<noteq> ''anonymous''" and "no_credentials r"
  shows "\<not> authorized (auth_config c) r"
proof -
  let ?a = "cf_Auth c"
  consider (basic) "au_Mode ?a = ''basic''" "au_Username ?a \<noteq> ''''"
    | (bearer) "au_Mode ?a = ''bearer''" "au_BearerToken ?a \<noteq> ''''"
    using assms(1,2) by (auto simp: validate_auth_def split: if_splits)
  then show ?thesis
  proof cases
    case basic
    have "BasicAuth r = None \<or> BasicAuth r = Some ('''', '''')"
      using assms(3) BasicAuth_none [of r] by (auto simp: no_credentials_def)
    with basic show ?thesis by (auto simp: authorized_def auth_config_def)
  next
    case bearer
    have "\<not> HasPrefix (HeaderGet (rq_Header r) ''Authorization'') ''Bearer '' \<or> HeaderGet (rq_Header r) ''Authorization'' = ''Bearer ''"
      using assms(3) bearer_not_basic [of r] by (auto simp: no_credentials_def HasPrefix_def)
    with bearer show ?thesis by (auto simp: authorized_def auth_config_def Let_def TrimPrefix_def)
  qed
qed

text \<open>C17: A configuration that loads is closed: its listeners have addresses of their own, Kafka
  replicas have an internal token, and unless the mode is anonymous the public listener answers a
  request without credentials, or with empty ones, by 401 and leaves everything as it is. The internal
  listener, where one is configured, asks for no credentials and is not covered.\<close>

theorem loaded_configuration_closed:
  assumes "Load readFile yaml environ path env overrides = Inr c"
  shows "distinct (filter (\<lambda>a. a \<noteq> '''') [ls_Public (cf_Listeners c), ls_Internal (cf_Listeners c),
          ls_Health (cf_Listeners c), ls_Metrics (cf_Listeners c)])
    \<and> (st_Backend (cf_Storage c) = ''kafka'' \<longrightarrow> au_InternalToken (cf_Auth c) \<noteq> '''')
    \<and> (au_Mode (cf_Auth c) \<noteq> ''anonymous'' \<and>
        no_credentials r \<longrightarrow>
        snd (public_handler (auth_config c) token internal w r) = w
        \<and> rs_Status (fst (public_handler (auth_config c) token internal w r)) = 401)"
proof -
  have ok: "Config_Validate c = None" using assms by (rule Load_validated)
  have "\<not> authorized (auth_config c) r"
    if "au_Mode (cf_Auth c) \<noteq> ''anonymous''" "no_credentials r"
    using unauthorized [OF _ that] ok by (simp add: Config_Validate_None)
  then show ?thesis
    using ok by (auto simp: Config_Validate_None validate_storage_def validate_kafka_def Let_def public_handler_def
        Authenticate_def writeAuthError_def split: if_splits)
qed

end
