(* ===== verification/Forwarder.thy ===== *)
theory Forwarder
  imports Config Kafka_Store
begin

text \<open>
  \<open>internal/ha/forwarder.go\<close>: a replica that is not the primary sends a mutation to the one
  that is, as a JSON message over HTTP, and the primary runs it through its own public handler.
  The authority answers as it does at each call (\<open>au_Primary\<close> by the number of the attempt, 0
  for the check before them). The client is a function on the state of the peers: what the
  address answers, or an error where the address cannot be joined with the path, no answer
  comes, or the deadline passes. What a handler writes is bytes there, so the rendering of a
  response body is an argument.
\<close>

section \<open>Messages\<close>

definition protocolVersion :: int64 where "protocolVersion = 1"
definition internalPath :: "string list" where "internalPath = [''internal'', ''v1'', ''mutations'']"
definition forwardError :: string where "forwardError = ''X-Riquet-Forward-Error''"
definition internalHop :: string where "internalHop = ''X-Riquet-Internal-Hop''"
definition maxMutationBody :: nat where "maxMutationBody = 2097152"

record Authority =
  au_LocalLease :: "Lease \<times> bool"
  au_Primary :: "nat \<Rightarrow> Lease \<times> string \<times> bool"

record Forwarder =
  fw_Authority :: Authority
  fw_Token :: string
  fw_Retries :: nat

record mutationRequest =
  mq_Version :: int64
  mq_Lease :: Lease
  mq_OperationID :: string
  mq_Method :: string
  mq_Path :: string
  mq_Query :: string
  mq_Headers :: "(string, string) fmap"
  mq_Body :: string

record mutationResponse =
  mp_Status :: int64
  mp_Headers :: "(string, string) fmap"
  mp_Body :: string

text \<open>A byte slice is written in base 64.\<close>

definition enc_bytes :: "string \<Rightarrow> json" where
  "enc_bytes s = enc_string (b64_encode s)"

definition dec_bytes :: "string decoder" where
  "dec_bytes j old = (case j of JStr r \<Rightarrow> b64_decode (unquote r) | JNull \<Rightarrow> Some '''' | _ \<Rightarrow> None)"

definition enc_Lease :: "Lease \<Rightarrow> json" where
  "enc_Lease l = obj [(''Holder'', enc_string (le_Holder l)), (''Epoch'', enc_u64 (le_Epoch l))]"

definition dec_Lease :: "Lease decoder" where
  "dec_Lease = dec_struct True
     [(''Holder'', field dec_string le_Holder le_Holder_update), (''Epoch'', field dec_u64 le_Epoch le_Epoch_update)]"

definition enc_mutationRequest :: "mutationRequest \<Rightarrow> json" where
  "enc_mutationRequest q = obj
     ([(''version'', enc_i64 (mq_Version q)), (''lease'', enc_Lease (mq_Lease q)),
       (''operationId'', enc_string (mq_OperationID q)), (''method'', enc_string (mq_Method q)),
       (''path'', enc_string (mq_Path q))]
      @ omitempty ''query'' (mq_Query q = '''') (enc_string (mq_Query q))
      @ omitempty ''headers'' (mq_Headers q = fmempty) (enc_map (\<lambda>k. k) enc_string (mq_Headers q))
      @ omitempty ''body'' (mq_Body q = '''') (enc_bytes (mq_Body q)))"

definition zero_mutationRequest :: mutationRequest where
  "zero_mutationRequest = \<lparr>mq_Version = 0, mq_Lease = zero_Lease, mq_OperationID = '''', mq_Method = '''',
     mq_Path = '''', mq_Query = '''', mq_Headers = fmempty, mq_Body = ''''\<rparr>"

definition dec_mutationRequest :: "mutationRequest decoder" where
  "dec_mutationRequest = dec_struct True
     [(''version'', field dec_i64 mq_Version mq_Version_update),
      (''lease'', field dec_Lease mq_Lease mq_Lease_update),
      (''operationId'', field dec_string mq_OperationID mq_OperationID_update),
      (''method'', field dec_string mq_Method mq_Method_update),
      (''path'', field dec_string mq_Path mq_Path_update),
      (''query'', field dec_string mq_Query mq_Query_update),
      (''headers'', field (dec_map Some dec_string '''') mq_Headers mq_Headers_update),
      (''body'', field dec_bytes mq_Body mq_Body_update)]"

definition enc_mutationResponse :: "mutationResponse \<Rightarrow> json" where
  "enc_mutationResponse p = obj
     ([(''status'', enc_i64 (mp_Status p))]
      @ omitempty ''headers'' (mp_Headers p = fmempty) (enc_map (\<lambda>k. k) enc_string (mp_Headers p))
      @ omitempty ''body'' (mp_Body p = '''') (enc_bytes (mp_Body p)))"

definition zero_mutationResponse :: mutationResponse where
  "zero_mutationResponse = \<lparr>mp_Status = 0, mp_Headers = fmempty, mp_Body = ''''\<rparr>"

definition dec_mutationResponse :: "mutationResponse decoder" where
  "dec_mutationResponse = dec_struct False
     [(''status'', field dec_i64 mp_Status mp_Status_update),
      (''headers'', field (dec_map Some dec_string '''') mp_Headers mp_Headers_update),
      (''body'', field dec_bytes mp_Body mp_Body_update)]"

text \<open>One \<open>Decode\<close> of a stream that ends after the given number of bytes.\<close>

definition decode_limited :: "nat \<Rightarrow> 'a decoder \<Rightarrow> 'a \<Rightarrow> string \<Rightarrow> 'a option" where
  "decode_limited limit dec z text =
     (case decode_stream (take limit text) of None \<Rightarrow> None | Some (j, _) \<Rightarrow> dec j z)"

section \<open>Helpers\<close>

definition validBearer :: "string \<Rightarrow> string \<Rightarrow> bool" where
  "validBearer header token \<longleftrightarrow>
     HasPrefix header ''Bearer '' \<and> length (TrimPrefix header ''Bearer '') = length token
     \<and> TrimPrefix header ''Bearer '' = token"

definition isMutation :: "string \<Rightarrow> bool" where
  "isMutation m \<longleftrightarrow> m = ''POST'' \<or> m = ''PUT'' \<or> m = ''DELETE''"

definition validForwardPath :: "string \<Rightarrow> bool" where
  "validForwardPath p \<longleftrightarrow> HasPrefix p ''/'' \<and> \<not> HasPrefix p ''/internal/'' \<and> bslash \<notin> set p"

definition select_present :: "string list \<Rightarrow> (string \<times> string) list \<Rightarrow> (string, string) fmap" where
  "select_present names h =
     foldl (\<lambda>m n. if HeaderGet h n \<noteq> '''' then fmupd n (HeaderGet h n) m else m) fmempty names"

definition selectHeaders :: "(string \<times> string) list \<Rightarrow> (string, string) fmap" where
  "selectHeaders h = select_present [''Accept'', ''Content-Type''] h"

definition selectResponseHeaders :: "(string \<times> string) list \<Rightarrow> (string, string) fmap" where
  "selectResponseHeaders h = select_present [''Content-Type'', ''X-Request-ID''] h"

definition writeUnavailable :: "string \<Rightarrow> response" where
  "writeUnavailable msg =
     \<lparr>rs_Status = 500, rs_Header = [(''Content-Type'', ''application/vnd.schemaregistry.v1+json'')],
      rs_Body = BError 50001 (MText msg)\<rparr>"

text \<open>\<open>http.Error\<close> behind a forwarding error header.\<close>

definition forward_refusal :: "string \<Rightarrow> string \<Rightarrow> nat \<Rightarrow> response" where
  "forward_refusal reason msg status =
     \<lparr>rs_Status = status,
      rs_Header = [(forwardError, reason), (''Content-Type'', ''text/plain; charset=utf-8''),
        (''X-Content-Type-Options'', ''nosniff'')],
      rs_Body = BText (msg @ [CHR 0x0A])\<rparr>"

section \<open>The receiver\<close>

text \<open>The headers of a map are set in an order Go leaves open; the names differ.\<close>

definition set_headers :: "(string, string) fmap \<Rightarrow> (string \<times> string) list \<Rightarrow> (string \<times> string) list" where
  "set_headers m h = foldl (\<lambda>h (k, v). HeaderSet k v h) h (sorted_list_of_fmap m)"

definition forwarded_target :: "mutationRequest \<Rightarrow> string" where
  "forwarded_target input = mq_Path input @ (if mq_Query input = '''' then '''' else CHR ''?'' # mq_Query input)"

definition forwarded_request :: "mutationRequest \<Rightarrow> string list \<times> string list \<times> string \<Rightarrow> request \<Rightarrow> request" where
  "forwarded_request input url r =
     (let h1 = set_headers (mq_Headers input) [];
          h2 = (if mq_OperationID input \<noteq> '''' then HeaderSet ''X-Request-ID'' (mq_OperationID input) h1 else h1)
      in \<lparr>rq_Method = mq_Method input, rq_Path = fst url, rq_Escaped = fst (snd url), rq_RawQuery = snd (snd url),
          rq_Header = HeaderSet internalHop ''1'' h2, rq_RemoteAddr = '''', rq_Body = mq_Body input,
          rq_Ctx = rq_Ctx r, rq_Random = rq_Random r, rq_Now = rq_Now r, rq_PathValues = []\<rparr>)"

definition receive ::
  "Forwarder \<Rightarrow> (string \<Rightarrow> bool) \<Rightarrow> (body \<Rightarrow> string) \<Rightarrow> 'w handler \<Rightarrow> 'w handler" where
  "receive f authority_ok render public w r =
     (if rq_Method r \<noteq> ''POST'' \<or> \<not> validBearer (HeaderGet (rq_Header r) ''Authorization'') (fw_Token f)
      then (forward_refusal ''authentication'' ''unauthorized'' 401, w)
      else case decode_limited (maxMutationBody + 4096) dec_mutationRequest zero_mutationRequest (rq_Body r) of
        None \<Rightarrow> (forward_refusal ''invalid'' ''invalid internal mutation'' 400, w)
      | Some input \<Rightarrow>
          if mq_Version input \<noteq> protocolVersion \<or> \<not> isMutation (mq_Method input) \<or> \<not> validForwardPath (mq_Path input)
          then (forward_refusal ''invalid'' ''invalid internal mutation'' 400, w)
          else
            (case au_LocalLease (fw_Authority f) of
               (local, ok) \<Rightarrow>
                 if \<not> ok \<or> local \<noteq> mq_Lease input
                 then (forward_refusal ''stale-epoch'' ''stale primary epoch'' 409, w)
                 else
                   (case url_Parse authority_ok (forwarded_target input) of
                      None \<Rightarrow> (forward_refusal ''invalid'' ''invalid internal mutation'' 400, w)
                    | Some url \<Rightarrow>
                        (case public w (forwarded_request input url r) of
                           (rs, w') \<Rightarrow>
                             (\<lparr>rs_Status = 200, rs_Header = [(''Content-Type'', ''application/json'')],
                               rs_Body = BJson (enc_mutationResponse
                                 \<lparr>mp_Status = int64_of (int (rs_Status rs)),
                                  mp_Headers = selectResponseHeaders (rs_Header rs),
                                  mp_Body = render (rs_Body rs)\<rparr>)\<rparr>, w')))))"

section \<open>The sender\<close>

type_synonym 'p client = "string \<Rightarrow> request \<Rightarrow> 'p \<Rightarrow> (go_error + response) \<times> 'p"

text \<open>The message of one attempt; the lease and the address are the primary's at that time.\<close>

definition mutation_message :: "Lease \<Rightarrow> string \<Rightarrow> request \<Rightarrow> mutationRequest" where
  "mutation_message lease opid r =
     \<lparr>mq_Version = protocolVersion, mq_Lease = lease, mq_OperationID = opid, mq_Method = rq_Method r,
      mq_Path = URL_Path r, mq_Query = rq_RawQuery r, mq_Headers = selectHeaders (rq_Header r), mq_Body = rq_Body r\<rparr>"

definition internal_request :: "Forwarder \<Rightarrow> Lease \<Rightarrow> string \<Rightarrow> request \<Rightarrow> request" where
  "internal_request f lease opid r =
     \<lparr>rq_Method = ''POST'', rq_Path = internalPath, rq_Escaped = internalPath, rq_RawQuery = '''',
      rq_Header = [(''Authorization'', ''Bearer '' @ fw_Token f), (''Content-Type'', ''application/json'')],
      rq_RemoteAddr = '''', rq_Body = print_json (enc_mutationRequest (mutation_message lease opid r)),
      rq_Ctx = rq_Ctx r, rq_Random = rq_Random r, rq_Now = rq_Now r, rq_PathValues = []\<rparr>"

text \<open>\<open>None\<close> where the attempt is given up and another one is due.\<close>

definition forward ::
  "Forwarder \<Rightarrow> (body \<Rightarrow> string) \<Rightarrow> 'p client \<Rightarrow> Lease \<Rightarrow> string \<Rightarrow> string \<Rightarrow> request \<Rightarrow> 'p
     \<Rightarrow> mutationResponse option \<times> 'p" where
  "forward f render client lease address opid r p =
     (case client address (internal_request f lease opid r) p of
        (Inl err, p') \<Rightarrow> (None, p')
      | (Inr rs, p') \<Rightarrow>
          if HeaderGet (rs_Header rs) forwardError \<noteq> '''' then (None, p')
          else
            (case decode_limited (maxMutationBody + 4096) dec_mutationResponse zero_mutationResponse (render (rs_Body rs)) of
               None \<Rightarrow> (None, p')
             | Some decoded \<Rightarrow>
                 if mp_Status decoded < 100 \<or> mp_Status decoded > 599 then (None, p') else (Some decoded, p')))"

fun attempts ::
  "Forwarder \<Rightarrow> (body \<Rightarrow> string) \<Rightarrow> 'p client \<Rightarrow> string \<Rightarrow> request \<Rightarrow> nat \<Rightarrow> nat \<Rightarrow> 'p \<Rightarrow> response \<times> 'p" where
  "attempts f render client opid r i 0 p = (writeUnavailable ''Primary registry is unavailable'', p)"
| "attempts f render client opid r i (Suc n) p =
     (case au_Primary (fw_Authority f) i of
        (lease, address, ok) \<Rightarrow>
          if \<not> ok \<or> address = '''' then attempts f render client opid r (Suc i) n p
          else (case forward f render client lease address opid r p of
              (None, p') \<Rightarrow> attempts f render client opid r (Suc i) n p'
            | (Some response, p') \<Rightarrow>
                (\<lparr>rs_Status = nat (sint64 (mp_Status response)), rs_Header = set_headers (mp_Headers response) [],
                  rs_Body = BText (mp_Body response)\<rparr>, p')))"

text \<open>The operation ID of a mutation to be forwarded: the client's, or a random one, chosen before the
  first attempt.\<close>

definition forward_id :: "request \<Rightarrow> string option" where
  "forward_id r =
     (if HeaderGet (rq_Header r) ''X-Request-ID'' \<noteq> '''' then Some (HeaderGet (rq_Header r) ''X-Request-ID'')
      else map_option hex_encode (rq_Random r))"

definition servePublic ::
  "Forwarder \<Rightarrow> (body \<Rightarrow> string) \<Rightarrow> 'p client \<Rightarrow> 'w handler \<Rightarrow> ('w \<times> 'p) handler" where
  "servePublic f render client public wp r =
     (let (w, p) = wp; local_answer = (let (rs, w') = public w r in (rs, (w', p))) in
      if \<not> isMutation (rq_Method r) then local_answer
      else if HeaderGet (rq_Header r) internalHop \<noteq> ''''
      then (writeUnavailable ''Internal mutation forwarding loop rejected'', wp)
      else if snd (au_LocalLease (fw_Authority f)) \<and> snd (snd (au_Primary (fw_Authority f) 0))
        \<and> fst (au_Primary (fw_Authority f) 0) = fst (au_LocalLease (fw_Authority f))
      then local_answer
      else if length (rq_Body r) > maxMutationBody
      then (writeUnavailable ''Mutation could not be forwarded'', wp)
      else
        (case forward_id r of
           None \<Rightarrow> (writeUnavailable ''Mutation operation identifier is unavailable'', wp)
         | Some opid \<Rightarrow>
             (let (rs, p') = attempts f render client opid r 1 (fw_Retries f) p in (rs, (w, p')))))"

text \<open>The checks of the constructor, and its handler tree.\<close>

definition Forwarder_new :: "Authority \<Rightarrow> string \<Rightarrow> int64 \<Rightarrow> go_error + Forwarder" where
  "Forwarder_new authority token retries =
     (if token = '''' then Inl (FmtErr ''internal forwarding token is required'' [] None)
      else if retries < 0 then Inl (FmtErr ''forward retries cannot be negative'' [] None)
      else Inr \<lparr>fw_Authority = authority, fw_Token = token,
        fw_Retries = (if retries = 0 then 2 else nat (sint64 retries))\<rparr>)"

definition Forwarder_Handler ::
  "Forwarder \<Rightarrow> (string \<Rightarrow> bool) \<Rightarrow> (body \<Rightarrow> string) \<Rightarrow> 'p client \<Rightarrow> 'w handler \<Rightarrow> ('w \<times> 'p) handler" where
  "Forwarder_Handler f authority_ok render client public wp r =
     (if redirects r then (redirect_response r, wp)
      else if rq_Path r = internalPath
      then (let (rs, w') = receive f authority_ok render public (fst wp) r in (rs, (w', snd wp)))
      else servePublic f render client public wp r)"

end
