(* ===== verification/Forwarding.thy ===== *)
theory Forwarding
  imports Forwarder Json_Text
begin

text \<open>
  What forwarding a mutation to the primary guarantees, and where it does not: a forwarded
  mutation is run like a direct one where the path reads the same escaped and unescaped, and it
  changes the registry at most once however often it is tried.
\<close>

section \<open>Messages read back\<close>

lemma b64_char_ascii: "n < 64 \<Longrightarrow> byte (b64_char n) < 128"
proof -
  have "list_all (\<lambda>n. byte (b64_char n) < 128) [0..<64]" by code_simp
  then show "n < 64 \<Longrightarrow> byte (b64_char n) < 128" by (simp add: list_all_iff)
qed

lemma valid_utf8_b64 [simp]: "valid_utf8 (b64_encode s)"
proof -
  have "list_all (\<lambda>c. byte c < 128) (b64_encode s)"
    by (induction s rule: b64_encode.induct)
      (simp_all add: b64_char_ascii [OF b64_sextets(1)] b64_char_ascii [OF b64_sextets(2)] b64_char_ascii [OF b64_sextets(3)]
        b64_char_ascii [OF b64_sextets(4)] b64_char_ascii [OF b64_sextets(5)] b64_char_ascii [OF b64_sextets(6)])
  from valid_utf8_ascii_append [OF this, of "[]"] show ?thesis by simp
qed

lemma dec_bytes_enc [simp]: "dec_bytes (enc_bytes s) old = Some s"
  by (simp add: dec_bytes_def enc_bytes_def enc_string_def)

lemma dec_Lease_enc:
  "valid_utf8 (le_Holder l) \<Longrightarrow> dec_Lease (enc_Lease l) zero_Lease = Some l"
  by (cases l) (simp add: dec_Lease_def enc_Lease_def dec_struct_simps zero_Lease_def)

definition headers_utf8 :: "(string, string) fmap \<Rightarrow> bool" where
  "headers_utf8 m \<longleftrightarrow> fmpred (\<lambda>k v. valid_utf8 k \<and> valid_utf8 v) m"

lemma dec_headers: "headers_utf8 m \<Longrightarrow> dec_map Some dec_string z (enc_map (\<lambda>k. k) enc_string m) fmempty = Some m"
  by (rule dec_map_enc_map) (auto simp: headers_utf8_def fmpred_iff)

lemma enc_mutation_ok [simp]: "json_ok (enc_mutationRequest q)" "json_ok (enc_mutationResponse p)"
  by (auto simp: enc_mutationRequest_def enc_mutationResponse_def enc_Lease_def enc_bytes_def enc_map_ok ball_Un)

lemma dec_mutationRequest_enc:
  assumes "headers_utf8 (mq_Headers q)" and "valid_utf8 (le_Holder (mq_Lease q))" and "valid_utf8 (mq_OperationID q)"
    and "valid_utf8 (mq_Method q)" and "valid_utf8 (mq_Path q)" and "valid_utf8 (mq_Query q)"
  shows "dec_mutationRequest (enc_mutationRequest q) zero_mutationRequest = Some q"
  using assms
  by (cases q) (simp add: dec_mutationRequest_def enc_mutationRequest_def dec_struct_simps zero_mutationRequest_def
      dec_Lease_enc dec_headers)

lemma dec_mutationResponse_enc:
  "headers_utf8 (mp_Headers p) \<Longrightarrow> dec_mutationResponse (enc_mutationResponse p) zero_mutationResponse = Some p"
  by (cases p) (simp add: dec_mutationResponse_def enc_mutationResponse_def dec_struct_simps zero_mutationResponse_def
      dec_headers)

lemma decode_limited_print:
  assumes "json_ok j" and "ends rest" and "length (print_json j @ rest) \<le> limit"
  shows "decode_limited limit dec z (print_json j @ rest) = dec j z"
  using decode_stream_print [OF assms(1,2)] assms(3) by (simp add: decode_limited_def)

lemma headers_utf8_upd: "valid_utf8 k \<Longrightarrow> valid_utf8 v \<Longrightarrow> headers_utf8 m \<Longrightarrow> headers_utf8 (fmupd k v m)"
  by (simp add: headers_utf8_def fmpred_upd_drop)

lemma headers_utf8_fold:
  "\<forall>n \<in> set names. valid_utf8 n \<and> valid_utf8 (g n) \<Longrightarrow> headers_utf8 m \<Longrightarrow>
     headers_utf8 (foldl (\<lambda>m n. if g n \<noteq> '''' then fmupd n (g n) m else m) m names)"
  by (induction names arbitrary: m) (simp_all add: headers_utf8_upd)

lemma headers_utf8_select:
  "\<forall>n \<in> set names. valid_utf8 n \<and> valid_utf8 (HeaderGet h n) \<Longrightarrow> headers_utf8 (select_present names h)"
  unfolding select_present_def by (rule headers_utf8_fold) (simp_all add: headers_utf8_def)

section \<open>Like a direct request\<close>

text \<open>The network with one reachable primary.\<close>

definition primary_client ::
  "Forwarder \<Rightarrow> (string \<Rightarrow> bool) \<Rightarrow> (body \<Rightarrow> string) \<Rightarrow> 'w handler \<Rightarrow> string \<Rightarrow> 'w client" where
  "primary_client pf authority_ok render public address a q p =
     (if a = address then (let (rs, p') = receive pf authority_ok render public p q in (Inr rs, p'))
      else (Inl (Sentinel ''unreachable''), p))"

text \<open>A request that survives the coding of the message under an operation ID: UTF-8 throughout, path
  and query free of characters that mean something else unescaped, no segment that is a dot or two,
  and a message within the receiver's limit.\<close>

definition forwardable :: "Forwarder \<Rightarrow> Lease \<Rightarrow> string \<Rightarrow> request \<Rightarrow> bool" where
  "forwardable f lease opid r \<longleftrightarrow>
     isMutation (rq_Method r) \<and> rq_Path r \<noteq> [] \<and> list_all segment_plain (rq_Path r)
     \<and> list_all (\<lambda>x. x \<notin> {'''', ''.'', ''..''}) (rq_Path r) \<and> query_plain (rq_RawQuery r)
     \<and> validForwardPath (URL_Path r) \<and> length (rq_Body r) \<le> maxMutationBody
     \<and> valid_utf8 (URL_Path r) \<and> valid_utf8 (rq_RawQuery r) \<and> valid_utf8 (le_Holder lease)
     \<and> opid \<noteq> '''' \<and> valid_utf8 opid
     \<and> valid_utf8 (HeaderGet (rq_Header r) ''Accept'') \<and> valid_utf8 (HeaderGet (rq_Header r) ''Content-Type'')
     \<and> length (rq_Body (internal_request f lease opid r)) \<le> maxMutationBody + 4096"

definition returnable :: "(body \<Rightarrow> string) \<Rightarrow> response \<Rightarrow> bool" where
  "returnable render rs \<longleftrightarrow>
     100 \<le> rs_Status rs \<and> rs_Status rs \<le> 599
     \<and> valid_utf8 (HeaderGet (rs_Header rs) ''Content-Type'') \<and> valid_utf8 (HeaderGet (rs_Header rs) ''X-Request-ID'')
     \<and> length (encode_body (enc_mutationResponse \<lparr>mp_Status = int64_of (int (rs_Status rs)),
          mp_Headers = selectResponseHeaders (rs_Header rs), mp_Body = render (rs_Body rs)\<rparr>)) \<le> maxMutationBody + 4096"

lemma message_reads_back:
  assumes "forwardable f lease opid r"
  shows "decode_limited (maxMutationBody + 4096) dec_mutationRequest zero_mutationRequest
      (rq_Body (internal_request f lease opid r)) = Some (mutation_message lease opid r)"
proof -
  let ?m = "mutation_message lease opid r"
  have "headers_utf8 (mq_Headers ?m)"
    using assms by (auto simp: mutation_message_def selectHeaders_def forwardable_def valid_utf8_ascii_list
        intro!: headers_utf8_select)
  moreover have "valid_utf8 (rq_Method r)"
    using assms by (auto simp: forwardable_def isMutation_def valid_utf8_ascii_list)
  ultimately have "dec_mutationRequest (enc_mutationRequest ?m) zero_mutationRequest = Some ?m"
    using assms by (intro dec_mutationRequest_enc) (simp_all add: mutation_message_def forwardable_def)
  moreover have "length (print_json (enc_mutationRequest ?m)) \<le> maxMutationBody + 4096"
    using assms unfolding forwardable_def internal_request_def by simp
  ultimately show ?thesis
    using decode_limited_print [of "enc_mutationRequest ?m" "[]" "maxMutationBody + 4096" dec_mutationRequest zero_mutationRequest]
    by (simp add: internal_request_def)
qed

text \<open>The request the primary's public handler sees.\<close>

definition primary_request :: "Forwarder \<Rightarrow> Lease \<Rightarrow> string \<Rightarrow> request \<Rightarrow> request" where
  "primary_request f lease opid r =
     forwarded_request (mutation_message lease opid r) (rq_Path r, escaped_form r, rq_RawQuery r) (internal_request f lease opid r)"

lemma receive_forwarded:
  assumes "forwardable f lease opid r"
    and "fw_Token pf = fw_Token f" and "au_LocalLease (fw_Authority pf) = (lease, True)"
    and "public p (primary_request f lease opid r) = (rs, p')"
  shows "receive pf authority_ok render public p (internal_request f lease opid r) =
    (\<lparr>rs_Status = 200, rs_Header = [(''Content-Type'', ''application/json'')],
      rs_Body = BJson (enc_mutationResponse \<lparr>mp_Status = int64_of (int (rs_Status rs)),
        mp_Headers = selectResponseHeaders (rs_Header rs), mp_Body = render (rs_Body rs)\<rparr>)\<rparr>, p')"
proof -
  let ?q = "internal_request f lease opid r" and ?m = "mutation_message lease opid r"
  have q: "rq_Method ?q = ''POST''" "validBearer (HeaderGet (rq_Header ?q) ''Authorization'') (fw_Token pf)"
    using assms(2) HasPrefix_append [of "''Bearer ''"] TrimPrefix_append [of "''Bearer ''"]
    by (simp_all add: internal_request_def validBearer_def)
  have m: "mq_Version ?m = protocolVersion" "isMutation (mq_Method ?m)" "validForwardPath (mq_Path ?m)" "mq_Lease ?m = lease"
    using assms(1) by (simp_all add: mutation_message_def forwardable_def)
  have "url_Parse authority_ok (forwarded_target ?m) = Some (rq_Path r, escaped_form r, rq_RawQuery r)"
    using url_Parse_plain [of r "rq_RawQuery r" authority_ok] assms(1)
    unfolding forwarded_target_def mutation_message_def forwardable_def mutationRequest.select_convs by blast
  then show ?thesis
    using q m assms(3,4) message_reads_back [OF assms(1)]
    by (simp add: receive_def primary_request_def Let_def)
qed

lemma sint64_status: "n \<le> 599 \<Longrightarrow> sint64 (int64_of (int n)) = int n"
  by (rule sint64_int64_of) simp_all

lemma status_bounds:
  assumes "100 \<le> n" and "n \<le> 599"
  shows "\<not> int64_of (int n) < 100" and "\<not> int64_of (int n) > 599"
proof -
  have "sint64 100 = 100" "sint64 599 = 599" by (simp_all add: sint64_def numeral_int64)
  then show "\<not> int64_of (int n) < 100" and "\<not> int64_of (int n) > 599"
    using assms by (simp_all add: less_int64_def sint64_status)
qed

lemma forward_to_primary:
  assumes "forwardable f lease opid r"
    and "fw_Token pf = fw_Token f" and "au_LocalLease (fw_Authority pf) = (lease, True)"
    and "public p (primary_request f lease opid r) = (rs, p')" and "returnable render rs"
    and "\<forall>j. render (BJson j) = encode_body j"
  shows "forward f render (primary_client pf authority_ok render public address) lease address opid r p =
    (Some \<lparr>mp_Status = int64_of (int (rs_Status rs)), mp_Headers = selectResponseHeaders (rs_Header rs),
      mp_Body = render (rs_Body rs)\<rparr>, p')"
proof -
  let ?m = "\<lparr>mp_Status = int64_of (int (rs_Status rs)), mp_Headers = selectResponseHeaders (rs_Header rs),
      mp_Body = render (rs_Body rs)\<rparr>"
  have c: "primary_client pf authority_ok render public address address (internal_request f lease opid r) p =
      (Inr \<lparr>rs_Status = 200, rs_Header = [(''Content-Type'', ''application/json'')],
        rs_Body = BJson (enc_mutationResponse ?m)\<rparr>, p')"
    using receive_forwarded [of f lease opid r pf public p rs p' authority_ok render] assms(1-4)
    by (simp add: primary_client_def)
  have "headers_utf8 (mp_Headers ?m)"
    using assms(5) by (auto simp: selectResponseHeaders_def returnable_def valid_utf8_ascii_list
        intro!: headers_utf8_select)
  then have dec: "dec_mutationResponse (enc_mutationResponse ?m) zero_mutationResponse = Some ?m"
    by (rule dec_mutationResponse_enc)
  have "ends [CHR 0x0A]" by (simp add: ends_def num_char_def is_digit_def)
  then have "decode_limited (maxMutationBody + 4096) dec_mutationResponse zero_mutationResponse
      (encode_body (enc_mutationResponse ?m)) = Some ?m"
    using decode_limited_print [OF enc_mutation_ok(2) [of ?m], of "[CHR 0x0A]" "maxMutationBody + 4096"
        dec_mutationResponse zero_mutationResponse] assms(5) dec
    by (simp add: encode_body_def returnable_def)
  moreover have "\<not> int64_of (int (rs_Status rs)) < 100" "\<not> int64_of (int (rs_Status rs)) > 599"
    using assms(5) status_bounds [of "rs_Status rs"] by (simp_all add: returnable_def)
  ultimately show ?thesis
    using c assms(6) by (simp add: forward_def forwardError_def)
qed

text \<open>C10: A mutation forwarded by a replica that does not hold the announced lease is run like a direct one, provided
  it survives the coding of the message: the path reads the same escaped and unescaped and has no dot
  segments, text is UTF-8 and the message is within the receiver's limit (\<open>forwardable\<close>), and likewise
  the answer. Then the primary's public handler sees the same method, path, query and body, under the
  operation ID of the client or the one generated for it, and is not redirected; its effect on the
  primary is the whole effect, and the replica answers with the primary's status, body and headers.\<close>

theorem forwarded_like_direct:
  assumes "forward_id r = Some opid" and "forwardable f lease opid r" and "HeaderGet (rq_Header r) internalHop = ''''"
    and "\<not> (snd (au_LocalLease (fw_Authority f)) \<and> snd (snd (au_Primary (fw_Authority f) 0))
        \<and> fst (au_Primary (fw_Authority f) 0) = fst (au_LocalLease (fw_Authority f)))" and "fw_Retries f \<noteq> 0"
    and "au_Primary (fw_Authority f) 1 = (lease, address, True)" and "address \<noteq> ''''"
    and "fw_Token pf = fw_Token f" and "au_LocalLease (fw_Authority pf) = (lease, True)"
    and "q = primary_request f lease opid r" and "public p q = (rs, p')" and "returnable render rs"
    and "\<forall>j. render (BJson j) = encode_body j"
  shows "servePublic f render (primary_client pf authority_ok render public address) local (w, p) r =
      (\<lparr>rs_Status = rs_Status rs, rs_Header = set_headers (selectResponseHeaders (rs_Header rs)) [],
        rs_Body = BText (render (rs_Body rs))\<rparr>, (w, p'))
    \<and> rq_Method q = rq_Method r \<and> rq_Path q = rq_Path r \<and> rq_RawQuery q = rq_RawQuery r \<and> rq_Body q = rq_Body r
    \<and> operationID q = opid \<and> \<not> redirects q"
proof
  have r: "isMutation (rq_Method r)" "\<not> length (rq_Body r) > maxMutationBody" "opid \<noteq> ''''"
    using assms(2) by (simp_all add: forwardable_def)
  obtain n where n: "fw_Retries f = Suc n" using assms(5) by (cases "fw_Retries f") auto
  have s: "nat (sint64 (int64_of (int (rs_Status rs)))) = rs_Status rs"
    using assms(12) sint64_status [of "rs_Status rs"] by (simp add: returnable_def)
  have "attempts f render (primary_client pf authority_ok render public address) opid r 1 (fw_Retries f) p =
      (\<lparr>rs_Status = rs_Status rs, rs_Header = set_headers (selectResponseHeaders (rs_Header rs)) [],
        rs_Body = BText (render (rs_Body rs))\<rparr>, p')"
    using assms(6,7) s forward_to_primary [of f lease opid r pf public p rs p' render authority_ok address] assms(2,8-13)
    by (simp add: n)
  then show "servePublic f render (primary_client pf authority_ok render public address) local (w, p) r =
      (\<lparr>rs_Status = rs_Status rs, rs_Header = set_headers (selectResponseHeaders (rs_Header rs)) [],
        rs_Body = BText (render (rs_Body rs))\<rparr>, (w, p'))"
    using r assms(1,3,4) by (auto simp: servePublic_def Let_def)
  have "cleanPath (escaped_form r) = escaped_form r"
    using assms(2) by (intro escaped_form_clean) (simp_all add: forwardable_def)
  then show "rq_Method q = rq_Method r \<and> rq_Path q = rq_Path r \<and> rq_RawQuery q = rq_RawQuery r \<and> rq_Body q = rq_Body r
    \<and> operationID q = opid \<and> \<not> redirects q"
    using r(3) assms(10)
    by (simp add: primary_request_def forwarded_request_def mutation_message_def operationID_def redirects_def Let_def internalHop_def)
qed

section \<open>At most once\<close>

text \<open>The primary and what it has run: each request, and whether it came through the receiver.\<close>

type_synonym ('n, 'st) logged = "('n, 'st) Server \<times> (bool \<times> request) list"

definition logging :: "bool \<Rightarrow> ('n, 'st) logged handler" where
  "logging forwarded p r = (let (rs, s) = Handler (fst p) r in (rs, (s, snd p @ [(forwarded, r)])))"

definition runs_others :: "request list \<Rightarrow> ('n, 'st) logged \<Rightarrow> ('n, 'st) logged" where
  "runs_others qs p = fold (\<lambda>q p. snd (logging False p q)) qs p"

text \<open>A network that may lose requests and answers, with other clients of the primary: each call reaches
  the primary's receiver or not, the caller sees any answer or none, and before and after it any
  number of other requests are run.\<close>

definition lossy :: "Forwarder \<Rightarrow> (string \<Rightarrow> bool) \<Rightarrow> (body \<Rightarrow> string) \<Rightarrow> ('n, 'st) logged client \<Rightarrow> bool" where
  "lossy pf authority_ok render client \<longleftrightarrow>
     (\<forall>a q p. \<exists>before after. snd (client a q p) = runs_others after (runs_others before p)
        \<or> snd (client a q p) = runs_others after (snd (receive pf authority_ok render (logging True) (runs_others before p) q)))"

text \<open>What the receiver makes of a message, even one that is cut off or damaged by the coding, has the
  operation ID that was sent.\<close>

lemma coerce_utf8_nonempty: "s \<noteq> '''' \<Longrightarrow> coerce_utf8 s \<noteq> ''''"
  by (cases s rule: coerce_utf8.cases) (auto simp: coerce_utf8.simps(2) replacement_def Let_def)

lemma decoded_operation:
  assumes "dec_mutationRequest (enc_mutationRequest q) zero_mutationRequest = Some input"
  shows "mq_OperationID input = coerce_utf8 (mq_OperationID q)"
  using assms
  by (cases q) (auto simp: dec_mutationRequest_def enc_mutationRequest_def dec_struct_simps zero_mutationRequest_def
      split: option.splits if_splits)

lemma received_operation:
  assumes "decode_limited limit dec_mutationRequest zero_mutationRequest (rq_Body (internal_request f lease opid r)) = Some input"
  shows "mq_OperationID input = coerce_utf8 opid"
proof -
  let ?q = "mutation_message lease opid r"
  obtain kvs where kvs: "enc_mutationRequest ?q = JObj kvs" by (simp add: enc_mutationRequest_def obj_def)
  from assms obtain j rest where d: "decode_stream (take limit (print_json (JObj kvs))) = Some (j, rest)"
    and input: "dec_mutationRequest j zero_mutationRequest = Some input"
    unfolding kvs [symmetric] by (auto simp: decode_limited_def internal_request_def split: option.splits)
  have "json_ok (JObj kvs)" using enc_mutation_ok(1) [of ?q] kvs by simp
  from decode_prefix_of_object [OF this d append_take_drop_id] input kvs
  have "dec_mutationRequest (enc_mutationRequest ?q) zero_mutationRequest = Some input" by simp
  from decoded_operation [OF this] show ?thesis by (simp add: mutation_message_def)
qed

lemma receive_effect:
  assumes "opid \<noteq> ''''"
  obtains "snd (receive pf authority_ok render public p (internal_request f lease opid r)) = p"
  | q where "operationID q = coerce_utf8 opid"
    and "snd (receive pf authority_ok render public p (internal_request f lease opid r)) = snd (public p q)"
proof -
  let ?q = "internal_request f lease opid r"
  let ?e = "snd (receive pf authority_ok render public p ?q)"
  have id: "operationID (forwarded_request input url ?q) = coerce_utf8 opid"
    if "decode_limited (maxMutationBody + 4096) dec_mutationRequest zero_mutationRequest (rq_Body ?q) = Some input" for input url
    using received_operation [OF that] coerce_utf8_nonempty [OF assms]
    by (simp add: operationID_def forwarded_request_def Let_def internalHop_def)
  have "?e = p \<or> (\<exists>input url. decode_limited (maxMutationBody + 4096) dec_mutationRequest zero_mutationRequest (rq_Body ?q) = Some input
      \<and> ?e = snd (public p (forwarded_request input url ?q)))"
    unfolding receive_def by (simp add: case_prod_unfold split: option.split) blast
  with id that show thesis by blast
qed

text \<open>The log extends, the server is where its requests have led it, and those that came through the
  receiver have the operation ID.\<close>

definition ran_under :: "string \<Rightarrow> ('n, 'st) logged \<Rightarrow> ('n, 'st) logged \<Rightarrow> bool" where
  "ran_under opid p p' \<longleftrightarrow> (\<exists>log. snd p' = snd p @ log \<and> fst p' = serve (fst p) (map snd log)
     \<and> (\<forall>q. (True, q) \<in> set log \<longrightarrow> operationID q = opid))"

lemma serve_append: "serve s (xs @ ys) = serve (serve s xs) ys"
  by (induction xs arbitrary: s) simp_all

lemma ran_under_refl [simp]: "ran_under opid p p"
  by (auto simp: ran_under_def intro: exI [of _ "[]"])

lemma ran_under_trans: "ran_under opid p p' \<Longrightarrow> ran_under opid p' p'' \<Longrightarrow> ran_under opid p p''"
  unfolding ran_under_def
  by (elim exE conjE, rule exI [of _ "_ @ _"]) (auto simp: serve_append)

lemma ran_under_logging: "forwarded \<longrightarrow> operationID q = opid \<Longrightarrow> ran_under opid p (snd (logging forwarded p q))"
  by (auto simp: ran_under_def logging_def case_prod_unfold Let_def intro!: exI [of _ "[(forwarded, q)]"])

lemma ran_under_others: "ran_under opid p (runs_others qs p)"
  unfolding runs_others_def
proof (induction qs arbitrary: p)
  case (Cons q qs)
  show ?case using ran_under_trans [OF ran_under_logging Cons.IH] by simp
qed simp

lemma ran_under_receive:
  assumes "opid \<noteq> ''''"
  shows "ran_under (coerce_utf8 opid) p (snd (receive pf authority_ok render (logging True) p (internal_request f lease opid r)))"
  by (rule receive_effect [OF assms, of pf authority_ok render "logging True" p f lease r]) (auto intro: ran_under_logging)

lemma ran_under_client:
  assumes "lossy pf authority_ok render' client" and "opid \<noteq> ''''"
  shows "ran_under (coerce_utf8 opid) p (snd (client a (internal_request f lease opid r) p))" (is "ran_under ?id p ?p'")
proof -
  obtain before after where "?p' = runs_others after (runs_others before p)
      \<or> ?p' = runs_others after (snd (receive pf authority_ok render' (logging True) (runs_others before p) (internal_request f lease opid r)))"
    using assms(1) unfolding lossy_def by meson
  then show ?thesis
  proof
    assume "?p' = runs_others after (runs_others before p)"
    then show ?thesis by (simp only:) (rule ran_under_trans [OF ran_under_others ran_under_others])
  next
    assume "?p' = runs_others after (snd (receive pf authority_ok render' (logging True) (runs_others before p) (internal_request f lease opid r)))"
    then show ?thesis
      by (simp only:) (rule ran_under_trans [OF ran_under_trans [OF ran_under_others ran_under_receive [OF assms(2)]] ran_under_others])
  qed
qed

lemma ran_under_attempts:
  assumes "lossy pf authority_ok render' client" and "opid \<noteq> ''''"
  shows "ran_under (coerce_utf8 opid) p (snd (attempts f render client opid r i n p))"
proof (induction n arbitrary: i p)
  case (Suc n)
  obtain lease address ok where a: "au_Primary (fw_Authority f) i = (lease, address, ok)"
    by (cases "au_Primary (fw_Authority f) i") auto
  let ?p' = "snd (client address (internal_request f lease opid r) p)"
  have one: "ran_under (coerce_utf8 opid) p ?p'" by (rule ran_under_client [OF assms])
  have "snd (forward f render client lease address opid r p) = ?p'"
    by (auto simp: forward_def split: prod.splits sum.splits option.splits)
  then obtain x where x: "forward f render client lease address opid r p = (x, ?p')" by (metis prod.collapse)
  show ?case
    using Suc.IH [of p "Suc i"] ran_under_trans [OF one Suc.IH [of ?p' "Suc i"]] one by (auto simp: a x split: option.splits)
qed simp

text \<open>C9: However often a replica that does not hold the announced lease tries to forward a mutation, to whichever addresses, whether or not
  requests and answers are lost on the way, and whatever other requests the primary runs in between,
  the registry changes at most once by it. All that is run at the primary on its behalf has one
  operation ID, the client's or, if it sent none, one that is generated before the first attempt; and
  of all requests under that ID at most one changes the registry.\<close>

theorem forwarded_at_most_once:
  assumes "isMutation (rq_Method r)" and "rq_Random r \<noteq> Some ''''"
    and "\<not> (snd (au_LocalLease (fw_Authority f)) \<and> snd (snd (au_Primary (fw_Authority f) 0))
        \<and> fst (au_Primary (fw_Authority f) 0) = fst (au_LocalLease (fw_Authority f)))"
    and "lossy pf authority_ok render' client"
    and "servePublic f render client local (w, (s, [])) r = (rs, (w', (s', log)))"
  shows "w' = w \<and> s' = serve s (map snd log)
    \<and> (\<forall>opid. forward_id r = Some opid \<longrightarrow>
        (\<forall>q. (True, q) \<in> set log \<longrightarrow> operationID q = coerce_utf8 opid)
        \<and> changes (coerce_utf8 opid) s (map snd log) \<le> 1)
    \<and> (forward_id r = None \<longrightarrow> log = [])"
proof (cases "HeaderGet (rq_Header r) internalHop \<noteq> '''' \<or> length (rq_Body r) > maxMutationBody \<or> forward_id r = None")
  case True
  then have "w' = w \<and> s' = s \<and> log = []"
    using assms(1,3,5) by (auto simp: servePublic_def Let_def split: if_splits)
  then show ?thesis by simp
next
  case False
  then obtain opid where opid: "forward_id r = Some opid" by auto
  have nonempty: "opid \<noteq> ''''" using opid assms(2) by (auto simp: forward_id_def hex_encode_def split: if_splits)
  have run: "w' = w \<and> (s', log) = snd (attempts f render client opid r 1 (fw_Retries f) (s, []))"
    using False assms(1,3,5) opid by (auto simp: servePublic_def Let_def split: if_splits prod.splits)
  have "ran_under (coerce_utf8 opid) (s, []) (s', log)"
    using ran_under_attempts [OF assms(4) nonempty, where f = f and render = render and r = r and i = 1
        and n = "fw_Retries f" and p = "(s, [])"] unfolding conjunct2 [OF run] .
  then have "s' = serve s (map snd log) \<and> (\<forall>q. (True, q) \<in> set log \<longrightarrow> operationID q = coerce_utf8 opid)"
    by (simp add: ran_under_def)
  then show ?thesis
    using conjunct1 [OF run] opid changes_at_most_once [OF coerce_utf8_nonempty [OF nonempty], of s "map snd log"] by simp
qed

section \<open>Paths that do not survive\<close>

text \<open>The message carries the unescaped path and the receiver parses it as an escaped one. A
  question mark inside a subject, which the client has to escape, starts the query there: what a
  replica forwards as the deletion of one version of a subject is, at the primary, the deletion of
  all versions of another subject.\<close>

theorem forwarded_path_confusion:
  assumes "rq_Path r = [''subjects'', ''orders?x'', ''versions'', ''1'']" and "rq_RawQuery r = ''''"
    and "rq_Method q = ''DELETE''" and "url_Parse authority_ok (forwarded_target (mutation_message lease opid r)) = Some (rq_Path q, rq_Escaped q, rq_RawQuery q)"
  shows "rq_Path q = [''subjects'', ''orders'']
    \<and> Handler s q = (let (rs, s') = deleteSubject s (routed_request q [(''subject'', ''orders'')])
        in (echo_id (operationID q) rs, s'))"
proof -
  have "forwarded_target (mutation_message lease opid r) = ''/subjects/orders?x/versions/1''"
    using assms(1,2) by (simp add: forwarded_target_def mutation_message_def URL_Path_def)
  moreover have "url_Parse authority_ok ''/subjects/orders?x/versions/1'' = Some ([''subjects'', ''orders''], [''subjects'', ''orders''], ''x/versions/1'')"
    by (simp add: url_Parse_def Cut_def ctl_byte_def HasPrefix_def path_segments_def valid_encoded_def those_def Let_def)
  ultimately have q: "rq_Path q = [''subjects'', ''orders'']" "rq_Escaped q = [''subjects'', ''orders'']" using assms(4) by auto
  then have "\<not> redirects q" by (simp add: redirects_def cleanPath_def)
  with assms(3) q show ?thesis
    by (simp add: Handler_def mux_def middleware_def routes_def method_matches_def routed_request_def Let_def)
qed

end
