(* ===== verification/App.thy ===== *)
theory App
  imports Observability Engines Kafka_Coordinator Forwarding
begin

text \<open>
  \<open>internal/app/app.go\<close>: how the parts are put together. Opening the store of the configured
  backend, the health of either backend, the handlers of the public listener, the coordination loop of
  a Kafka replica, and the whole life of a server on a bbolt file: recovery, listeners, requests,
  shutdown, the last snapshot and the closing of the store. What the network, the file system and the
  certificate reader answer are arguments. Joined errors are the list of them, empty where Go
  has nil.
\<close>

section \<open>Stores\<close>

record app_config =
  ap_ListenAddress :: string
  ap_DataPath :: string
  ap_Listener :: bool
  ap_Runtime :: "Config option"

definition run_config :: "app_config \<Rightarrow> app_config" where
  "run_config config =
     (let c1 = (case ap_Runtime config of None \<Rightarrow> config
                | Some runtime \<Rightarrow> config\<lparr>ap_ListenAddress := ls_Public (cf_Listeners runtime),
                    ap_DataPath := pvc_Path (st_PVC (cf_Storage runtime))\<rparr>)
      in if ap_ListenAddress c1 = '''' then c1\<lparr>ap_ListenAddress := '':8081''\<rparr> else c1)"

text \<open>The settings of TLS and SASL, with the bytes of the root certificates and whatever a key pair
  is read to.\<close>

record 'c tls_settings =
  ts_ServerName :: string
  ts_RootCAs :: "string option"
  ts_Certificates :: "'c list"

datatype mechanism =
    Plain (me_User: string) (me_Pass: string)
  | ScramSha256 (me_User: string) (me_Pass: string)
  | ScramSha512 (me_User: string) (me_Pass: string)

record 'c files =
  fi_ReadFile :: "string \<Rightarrow> go_error + string"
  fi_HasCertificates :: "string \<Rightarrow> bool"
  fi_LoadX509KeyPair :: "string \<Rightarrow> string \<Rightarrow> go_error + 'c"

definition kafka_tls :: "'c files \<Rightarrow> KafkaTLS \<Rightarrow> go_error + 'c tls_settings option" where
  "kafka_tls fs t =
     (if \<not> kt_Enabled t then Inr None
      else
        (let base = \<lparr>ts_ServerName = kt_ServerName t, ts_RootCAs = None, ts_Certificates = []\<rparr>;
             rooted = (if kt_CAFile t = '''' then Inr base
               else case fi_ReadFile fs (kt_CAFile t) of
                 Inl err \<Rightarrow> Inl (FmtErr ''read Kafka TLS CA: %w'' [] (Some err))
               | Inr encoded \<Rightarrow>
                   if \<not> fi_HasCertificates fs encoded then Inl (FmtErr ''kafka TLS CA contains no certificates'' [] None)
                   else Inr (base\<lparr>ts_RootCAs := Some encoded\<rparr>))
         in case rooted of
           Inl err \<Rightarrow> Inl err
         | Inr tls \<Rightarrow>
             if kt_CertFile t = '''' then Inr (Some tls)
             else case fi_LoadX509KeyPair fs (kt_CertFile t) (kt_KeyFile t) of
               Inl err \<Rightarrow> Inl (FmtErr ''load Kafka TLS client certificate: %w'' [] (Some err))
             | Inr certificate \<Rightarrow> Inr (Some (tls\<lparr>ts_Certificates := [certificate]\<rparr>))))"

definition kafka_sasl :: "KafkaSASL \<Rightarrow> go_error + mechanism list" where
  "kafka_sasl s =
     (if ks_Mechanism s = '''' then Inr []
      else if ks_Mechanism s = ''plain'' then Inr [Plain (ks_Username s) (ks_Password s)]
      else if ks_Mechanism s = ''scram-sha-256'' then Inr [ScramSha256 (ks_Username s) (ks_Password s)]
      else if ks_Mechanism s = ''scram-sha-512'' then Inr [ScramSha512 (ks_Username s) (ks_Password s)]
      else Inl (FmtErr ''unsupported Kafka SASL mechanism %q'' [AStr (ks_Mechanism s)] None))"

definition kafkaSecurity :: "'c files \<Rightarrow> KafkaStorage \<Rightarrow> go_error + 'c tls_settings option \<times> mechanism list" where
  "kafkaSecurity fs v =
     (case kafka_tls fs (kf_TLS v) of
        Inl err \<Rightarrow> Inl err
      | Inr tlsConfig \<Rightarrow>
          (case kafka_sasl (kf_SASL v) of
             Inl err \<Rightarrow> Inl err
           | Inr mechanisms \<Rightarrow> Inr (tlsConfig, mechanisms)))"

definition kafka_options :: "KafkaStorage \<Rightarrow> Options" where
  "kafka_options v =
     \<lparr>ko_Brokers = kf_Brokers v, ko_Topic = kf_Topic v, ko_ClientID = '''', ko_TransactionalID = kf_TransactionalID v,
      ko_ReplicationFactor = sint64 (kf_ReplicationFactor v), ko_AutoCreateTopic = kf_AutoCreateTopic v,
      ko_TransactionTimeout = sint64 (kf_TransactionTimeout v), ko_OperationTimeout = 0,
      ko_RequireLeadership = True, ko_MaxReadyLag = sint64 (kf_MaxReadyLag v)\<rparr>"

text \<open>The store that is opened. The client takes the TLS and SASL settings, so what it answers
  (\<open>answers\<close>) depends on them. Opening a Kafka store that never catches up does not return: \<open>None\<close>.
  \<open>mkdir\<close> is the answer of \<open>os.MkdirAll\<close> for the directory of a path, \<open>opened\<close> that of \<open>bolt.Open\<close>.\<close>

datatype 'db opened = BoltOpened "'db BoltStore" | KafkaOpened KafkaStore

definition data_path :: "app_config \<Rightarrow> string" where
  "data_path config = (if ap_DataPath config = '''' then ''.riquet/riquet.db'' else ap_DataPath config)"

definition open_bolt :: "'db bbolt \<Rightarrow> (string \<Rightarrow> go_error option) \<Rightarrow> (string \<Rightarrow> go_error + 'db) \<Rightarrow> app_config
    \<Rightarrow> go_error + 'db BoltStore" where
  "open_bolt api mkdir opened config =
     (case mkdir (data_path config) of
        Some err \<Rightarrow> Inl (FmtErr ''create data directory: %w'' [] (Some err))
      | None \<Rightarrow> bolt_Open api (data_path config) (opened (data_path config)))"

definition openStore :: "'c files \<Rightarrow> ('c tls_settings option \<times> mechanism list \<Rightarrow> open_answers) \<Rightarrow> 'db bbolt
    \<Rightarrow> (string \<Rightarrow> go_error option) \<Rightarrow> (string \<Rightarrow> go_error + 'db) \<Rightarrow> app_config \<Rightarrow> (go_error + 'db opened) option" where
  "openStore fs answers api mkdir opened config =
     (case ap_Runtime config of
        Some runtime \<Rightarrow>
          if st_Backend (cf_Storage runtime) = ''kafka'' then
            (case kafkaSecurity fs (st_Kafka (cf_Storage runtime)) of
               Inl err \<Rightarrow> Some (Inl err)
             | Inr security \<Rightarrow>
                 map_option (map_sum (\<lambda>err. err) KafkaOpened)
                   (kafka_Open (answers security) (kafka_options (st_Kafka (cf_Storage runtime)))))
          else Some (map_sum (\<lambda>err. err) BoltOpened (open_bolt api mkdir opened config))
      | None \<Rightarrow> Some (map_sum (\<lambda>err. err) BoltOpened (open_bolt api mkdir opened config)))"

section \<open>Health and handlers\<close>

definition kafka_stateProvider :: "KafkaStore \<Rightarrow> ObservedState" where
  "kafka_stateProvider st =
     (let status = kafka_Status st in
      \<lparr>ob_Started = True, ob_Ready = ss_Ready status, ob_BackendHealthy = ss_BackendHealthy status,
       ob_Role = ss_Role status, ob_Epoch = ss_Epoch status,
       ob_AppliedPosition = int64_of (ss_AppliedPosition status),
       ob_CommittedPosition = int64_of (ss_CommittedPosition status), ob_Lag = int64_of (ss_Lag status),
       ob_Reason = ''''\<rparr>)"

text \<open>The detail of the health of a closed store is \<open>closed\<close>; the text of an error is an argument.\<close>

definition bolt_stateProvider :: "(go_error \<Rightarrow> string) \<Rightarrow> 'db bbolt \<Rightarrow> 'db BoltStore \<Rightarrow> ObservedState" where
  "bolt_stateProvider text api st =
     (let health = bolt_Health api None st;
          detail = (if he_Closed health then ''closed''
                    else case he_Detail health of None \<Rightarrow> '''' | Some err \<Rightarrow> text err) in
      \<lparr>ob_Started = True, ob_Ready = he_Healthy health, ob_BackendHealthy = he_Healthy health, ob_Role = ''single'',
       ob_Epoch = 0, ob_AppliedPosition = I64 (he_LastSequence health),
       ob_CommittedPosition = I64 (he_LastSequence health), ob_Lag = 0, ob_Reason = detail\<rparr>)"

definition publicHandler :: "Config option \<Rightarrow> (request \<Rightarrow> int64) \<Rightarrow> (request \<Rightarrow> u64) \<Rightarrow> 'w handler
    \<Rightarrow> (log_entry list \<times> HTTPMetrics \<times> 'w) handler" where
  "publicHandler runtime duration elapsed internal =
     LogMiddleware duration (Middleware elapsed
       (case runtime of None \<Rightarrow> internal
        | Some c \<Rightarrow> public_handler (auth_config c) (au_AdminToken (cf_Auth c)) internal))"

section \<open>Coordination\<close>

definition coordinator_options :: "KafkaStorage \<Rightarrow> CoordinatorOptions" where
  "coordinator_options v =
     \<lparr>cg_GroupID = kf_GroupID v, cg_Advertisement = kf_AdvertiseURL v, cg_SessionTimeout = 0, cg_AcquireTimeout = 0\<rparr>"

text \<open>The loop of \<open>coordinate\<close>: it seeks the lease, with a call of \<open>Acquire\<close> under way or not, holds it
  from one tick to the next, is between the two looks of \<open>Renew\<close>, or has ended with its context.
  Between its own steps anything may happen to the replica.\<close>

datatype coordination = Seeking | Holding Lease | Checking Lease "go_error + bool" | Ended

inductive coordinate ::
  "'k producer \<Rightarrow> string \<Rightarrow> coordination \<times> 'k replica \<Rightarrow> coordination \<times> 'k replica \<Rightarrow> bool"
  for p :: "'k producer" and replicaID :: string where
  called: "rp_acquire w = Idle \<Longrightarrow> Acquire created replicaID (rp_coordinator w) = (at, c) \<Longrightarrow>
    coordinate p replicaID (Seeking, w) (Seeking, w\<lparr>rp_acquire := at, rp_coordinator := c\<rparr>)"
| acquired: "rp_acquire w = Returned (Inr lease) \<Longrightarrow>
    coordinate p replicaID (Seeking, w) (Holding lease, w\<lparr>rp_acquire := Idle\<rparr>)"
| missed: "rp_acquire w = Returned (Inl err) \<Longrightarrow>
    coordinate p replicaID (Seeking, w) (Seeking, w\<lparr>rp_acquire := Idle\<rparr>)"
| checks: "coordinate p replicaID (Holding lease, w) (Checking lease (renew_looks ctx lease (rp_coordinator w)), w)"
| renewed: "renew_decides seen lease (rp_store w) = None \<Longrightarrow>
    coordinate p replicaID (Checking lease seen, w) (Holding lease, w)"
| lost: "renew_decides seen lease (rp_store w) = Some err \<Longrightarrow>
    coordinate p replicaID (Checking lease seen, w) (Seeking, w)"
| cancelled: "coordinate p replicaID (control, w) (Ended, w)"
| meanwhile: "replica_step p w w' \<Longrightarrow> coordinate p replicaID (control, w) (control, w')"

section \<open>A server on a bbolt file\<close>

definition errors_Join :: "go_error option list \<Rightarrow> go_error list" where
  "errors_Join es = map the (filter (\<lambda>e. e \<noteq> None) es)"

abbreviation ErrServerClosed :: string where
  "ErrServerClosed \<equiv> ''http: Server closed''"

definition unless_closed :: "go_error option \<Rightarrow> go_error option" where
  "unless_closed err = (case err of None \<Rightarrow> None | Some e \<Rightarrow> if errors_Is e ErrServerClosed then None else Some e)"

text \<open>The auxiliary listeners are started one after the other; an empty address starts none. The
  result is the number of those that run, with the error of the one that could not.\<close>

fun startAuxiliaries :: "(string \<Rightarrow> go_error option) \<Rightarrow> (string \<times> string) list \<Rightarrow> nat \<Rightarrow> go_error option \<times> nat" where
  "startAuxiliaries listen [] n = (None, n)"
| "startAuxiliaries listen ((name, address) # rest) n =
     (if address = '''' then startAuxiliaries listen rest n
      else case listen address of
        Some err \<Rightarrow> (Some (FmtErr (name @ '' listener: %w'') [] (Some err)), n)
      | None \<Rightarrow> startAuxiliaries listen rest (Suc n))"

definition shutdownAuxiliaries :: "go_error option list \<Rightarrow> go_error \<Rightarrow> go_error list" where
  "shutdownAuxiliaries answers cause = errors_Join (Some cause # answers)"

definition auxiliaries :: "Config option \<Rightarrow> (string \<times> string) list" where
  "auxiliaries runtime =
     (case runtime of None \<Rightarrow> []
      | Some c \<Rightarrow> [(''health'', ls_Health (cf_Listeners c)), (''metrics'', ls_Metrics (cf_Listeners c)),
          (''internal'', ls_Internal (cf_Listeners c))])"

text \<open>Why serving ended, and what is returned at once; \<open>None\<close> means that the server is shut down in
  order. \<open>Follow\<close> runs with Kafka only.\<close>

datatype stop = Served "go_error option" | Followed "go_error option" | Cancelled

fun run_select :: "ctx \<Rightarrow> stop \<Rightarrow> go_error list option" where
  "run_select ctx (Served err) = Some (errors_Join [unless_closed err])"
| "run_select ctx (Followed (Some err)) =
     (if ctx = None then Some [FmtErr ''follow Kafka registry state: %w'' [] (Some err)] else None)"
| "run_select ctx (Followed None) = None"
| "run_select ctx Cancelled = None"

text \<open>A request reaches the public listener or, where there is one, the internal listener, which serves
  the same API without the guards of the public one.\<close>

datatype arrival = AtPublic request | AtInternal request

record 'db run_world =
  rw_mkdir :: "string \<Rightarrow> go_error option"
  rw_opened :: "string \<Rightarrow> go_error + 'db"
  rw_ctx :: ctx
  rw_polls :: polls
  rw_listen :: "string \<Rightarrow> go_error option"
  rw_duration :: "request \<Rightarrow> int64"
  rw_elapsed :: "request \<Rightarrow> u64"
  rw_arrivals :: "arrival list"
  rw_stop :: stop
  rw_stop_ctx :: ctx
  rw_shutdown :: "go_error option"
  rw_aux_shutdown :: "go_error option list"
  rw_aux_served :: "go_error option list"
  rw_served :: "go_error option"
  rw_snapshot_ctx :: ctx

definition app_server :: "('s, 'k, 'f, 'm, 'd, 'v, 'c) libraries \<Rightarrow> 'st Store \<Rightarrow> ctx \<Rightarrow> State \<Rightarrow> 'st
    \<Rightarrow> (('s, 'f, 'c) native, 'st) Server" where
  "app_server lib store ctx s st =
     NewServer (NewMachine s (Some (st_Commit store)) (Some (compatibilityChecker ctx (engines lib))) st)
       [avro_Engine (lib_texts lib) (lib_hamba lib), protobuf_Engine (lib_texts lib) (lib_protobuf lib),
        json_Engine (lib_texts lib) (lib_ranges lib) (lib_validator lib)]"

definition bolt_ready :: "(go_error \<Rightarrow> string) \<Rightarrow> 'db bbolt \<Rightarrow> ('n, 'db BoltStore) Server \<Rightarrow> ('n, 'db BoltStore) Server" where
  "bolt_ready text api s = s\<lparr>srv_ready := ob_Ready (bolt_stateProvider text api (m_store (srv_machine s)))\<rparr>"

definition bolt_api :: "(go_error \<Rightarrow> string) \<Rightarrow> 'db bbolt \<Rightarrow> ('n, 'db BoltStore) Server handler" where
  "bolt_api text api s r = Handler (bolt_ready text api s) r"

fun arrive :: "(go_error \<Rightarrow> string) \<Rightarrow> 'db bbolt \<Rightarrow> Config option \<Rightarrow> 'db run_world \<Rightarrow> arrival
    \<Rightarrow> log_entry list \<times> HTTPMetrics \<times> ('n, 'db BoltStore) Server \<Rightarrow> log_entry list \<times> HTTPMetrics \<times> ('n, 'db BoltStore) Server" where
  "arrive text api runtime rw (AtPublic r) w =
     snd (publicHandler runtime (rw_duration rw) (rw_elapsed rw) (bolt_api text api) w r)"
| "arrive text api runtime rw (AtInternal r) (log, m, s) =
     (case runtime of
        None \<Rightarrow> (log, m, s)
      | Some c \<Rightarrow> if ls_Internal (cf_Listeners c) = '''' then (log, m, s) else (log, m, snd (bolt_api text api s r)))"

text \<open>From the start until serving ends: the errors of a start that failed, with the store if it was
  open, or the server with everything it has served.\<close>

definition run_up :: "('s, 'k, 'f, 'm, 'd, 'v, 'c) libraries \<Rightarrow> (go_error \<Rightarrow> string) \<Rightarrow> 'db bbolt \<Rightarrow> app_config \<Rightarrow> 'db run_world
    \<Rightarrow> go_error list \<times> 'db BoltStore option + nat \<times> (('s, 'f, 'c) native, 'db BoltStore) Server" where
  "run_up lib text api config0 rw =
     (let config = run_config config0 in
      case open_bolt api (rw_mkdir rw) (rw_opened rw) config of
        Inl err \<Rightarrow> Inl ([err], None)
      | Inr st0 \<Rightarrow>
          (case recoverState (bolt_Store api) (rw_ctx rw) (rw_polls rw) st0 of
             (Inl err, st1) \<Rightarrow> Inl ([FmtErr ''recover registry: %w'' [] (Some err)], Some st1)
           | (Inr s, st1) \<Rightarrow>
               (let server = app_server lib (bolt_Store api) (rw_ctx rw) s st1 in
                case (if ap_Listener config then None else rw_listen rw (ap_ListenAddress config)) of
                  Some err \<Rightarrow> Inl ([FmtErr ''listen: %w'' [] (Some err)], Some st1)
                | None \<Rightarrow>
                    (case startAuxiliaries (rw_listen rw) (auxiliaries (ap_Runtime config)) 0 of
                       (Some err, n) \<Rightarrow> Inl (shutdownAuxiliaries (take n (rw_aux_shutdown rw)) err, Some st1)
                     | (None, n) \<Rightarrow>
                         Inr (n, snd (snd (fold (arrive text api (ap_Runtime config) rw) (rw_arrivals rw)
                                ([], NewHTTPMetrics, server))))))))"

text \<open>The deferred closing of the store.\<close>

definition run_close :: "'db bbolt \<Rightarrow> go_error list \<Rightarrow> 'db BoltStore \<Rightarrow> go_error list \<times> 'db BoltStore" where
  "run_close api errs st = (case bolt_Close api st of (err, st') \<Rightarrow> (errs @ errors_Join [err], st'))"

text \<open>A replica takes the last snapshot only while it holds the lease, a server on a file always.\<close>

definition shouldSnapshot :: "Coordinator option \<Rightarrow> bool" where
  "shouldSnapshot coordinator = (case coordinator of None \<Rightarrow> True | Some c \<Rightarrow> snd (LocalLease c))"

text \<open>From the end of serving: the shutdown of all listeners, the last snapshot.\<close>

definition run_down :: "'db bbolt \<Rightarrow> 'db run_world \<Rightarrow> nat \<Rightarrow> 'db BoltStore Machine \<Rightarrow> go_error list \<times> 'db BoltStore" where
  "run_down api rw n m =
     (case run_select (rw_stop_ctx rw) (rw_stop rw) of
        Some errs \<Rightarrow> run_close api errs (m_store m)
      | None \<Rightarrow>
          (let shutdownErr = rw_shutdown rw # concat (map (\<lambda>(a, b). [a, unless_closed b])
                 (take n (zip (rw_aux_shutdown rw) (rw_aux_served rw))));
               serveErr = unless_closed (rw_served rw)
           in case (if shouldSnapshot None then bolt_SaveSnapshot api (rw_snapshot_ctx rw) (m_state m) (m_store m)
                    else (None, m_store m)) of
                (snapshotErr, st) \<Rightarrow> run_close api (errors_Join (shutdownErr @ [serveErr, snapshotErr])) st))"

definition run_bolt :: "('s, 'k, 'f, 'm, 'd, 'v, 'c) libraries \<Rightarrow> (go_error \<Rightarrow> string) \<Rightarrow> 'db bbolt \<Rightarrow> app_config \<Rightarrow> 'db run_world
    \<Rightarrow> go_error list \<times> 'db BoltStore option" where
  "run_bolt lib text api config rw =
     (case run_up lib text api config rw of
        Inl (errs, None) \<Rightarrow> (errs, None)
      | Inl (errs, Some st) \<Rightarrow> map_prod (\<lambda>e. e) Some (run_close api errs st)
      | Inr (n, server) \<Rightarrow> map_prod (\<lambda>e. e) Some (run_down api rw n (srv_machine server)))"

end
