(* ===== verification/App_Guarantees.thy ===== *)
theory App_Guarantees
  imports App
begin

text \<open>
  What the composition of the parts guarantees: a configuration that loads starts a Kafka replica as far as
  it is up to the configuration, the coordination loop holds a lease only while it is the replica's own,
  and a server on a bbolt file that is stopped, killed or fails to start, and is started again, publishes
  the registry it had.
\<close>

section \<open>Starting a Kafka replica\<close>

lemma kafka_tls_error:
  assumes "kafka_tls fs t = Inl err"
  shows "kt_Enabled t \<and> (kt_CAFile t \<noteq> '''' \<or> kt_CertFile t \<noteq> '''')"
  using assms by (auto simp: kafka_tls_def Let_def split: if_splits)

text \<open>C18: A configuration for Kafka that loads is complete: its SASL mechanism is supported and has its
  credentials, reading the settings fails only on the files that TLS names, and neither the
  coordinator nor the forwarder refuses what it is given.\<close>

theorem loaded_kafka_starts:
  assumes "Load readFile yaml environ path env overrides = Inr c" and "st_Backend (cf_Storage c) = ''kafka''"
  shows "(\<exists>ms. kafka_sasl (kf_SASL (st_Kafka (cf_Storage c))) = Inr ms \<and> (\<forall>m \<in> set ms. me_User m \<noteq> '''' \<and> me_Pass m \<noteq> ''''))
    \<and> (\<forall>err. kafkaSecurity fs (st_Kafka (cf_Storage c)) = Inl err \<longrightarrow>
         kt_Enabled (kf_TLS (st_Kafka (cf_Storage c)))
         \<and> (kt_CAFile (kf_TLS (st_Kafka (cf_Storage c))) \<noteq> '''' \<or> kt_CertFile (kf_TLS (st_Kafka (cf_Storage c))) \<noteq> ''''))
    \<and> (\<exists>co. NewCoordinator (Some st) (coordinator_options (st_Kafka (cf_Storage c))) = Inr co)
    \<and> (\<exists>f. Forwarder_new authority (au_InternalToken (cf_Auth c)) 0 = Inr f)"
proof -
  have v: "validate_kafka c = None"
    using Load_validated [OF assms(1)] assms(2) by (simp add: Config_Validate_None validate_storage_def)
  let ?s = "kf_SASL (st_Kafka (cf_Storage c))"
  have sasl: "\<exists>ms. kafka_sasl ?s = Inr ms \<and> (\<forall>m \<in> set ms. me_User m \<noteq> '''' \<and> me_Pass m \<noteq> '''')"
    using v by (auto simp: validate_kafka_def kafka_sasl_def Let_def split: if_splits)
  moreover have "kt_Enabled (kf_TLS (st_Kafka (cf_Storage c)))
       \<and> (kt_CAFile (kf_TLS (st_Kafka (cf_Storage c))) \<noteq> '''' \<or> kt_CertFile (kf_TLS (st_Kafka (cf_Storage c))) \<noteq> '''')"
    if "kafkaSecurity fs (st_Kafka (cf_Storage c)) = Inl err" for err
    using that sasl kafka_tls_error [of fs "kf_TLS (st_Kafka (cf_Storage c))"]
    by (auto simp: kafkaSecurity_def split: sum.splits)
  moreover have "\<exists>co. NewCoordinator (Some st) (coordinator_options (st_Kafka (cf_Storage c))) = Inr co"
    using v by (auto simp: NewCoordinator_def coordinator_options_def validate_kafka_def Let_def split: if_splits)
  moreover have "\<exists>f. Forwarder_new authority (au_InternalToken (cf_Auth c)) 0 = Inr f"
    using v by (auto simp: Forwarder_new_def validate_kafka_def Let_def split: if_splits)
  ultimately show ?thesis by blast
qed

section \<open>The coordination loop\<close>

text \<open>A lease in the replica's name, a call of \<open>Acquire\<close> for it, and what the loop holds.\<close>

definition lease_for :: "string \<Rightarrow> Lease \<Rightarrow> bool" where
  "lease_for replicaID lease \<longleftrightarrow> le_Holder lease = replicaID \<and> replicaID \<noteq> '''' \<and> le_Epoch lease \<noteq> 0"

fun acquire_for :: "string \<Rightarrow> acquire_at \<Rightarrow> bool" where
  "acquire_for replicaID (Activated h lease) \<longleftrightarrow> lease_for replicaID lease \<and> h = replicaID"
| "acquire_for replicaID (Returned (Inr lease)) \<longleftrightarrow> lease_for replicaID lease"
| "acquire_for replicaID (Looking h) \<longleftrightarrow> h = replicaID \<and> h \<noteq> ''''"
| "acquire_for replicaID (Activating h) \<longleftrightarrow> h = replicaID \<and> h \<noteq> ''''"
| "acquire_for replicaID (Waiting h) \<longleftrightarrow> h = replicaID \<and> h \<noteq> ''''"
| "acquire_for replicaID (Withdrawing h lease) \<longleftrightarrow> h = replicaID \<and> h \<noteq> ''''"
| "acquire_for replicaID _ \<longleftrightarrow> True"

definition loop_inv :: "string \<Rightarrow> coordination \<times> 'k replica \<Rightarrow> bool" where
  "loop_inv replicaID x = (case x of (control, w) \<Rightarrow>
     authority_inv w \<and> acquire_for replicaID (rp_acquire w)
     \<and> (\<forall>lease. control = Holding lease \<or> (\<exists>seen. control = Checking lease seen) \<longrightarrow> lease_for replicaID lease))"

lemma acquire_section_for:
  assumes "acquire_section p i w = Some w'" and "authority_inv w" and "acquire_for replicaID (rp_acquire w)"
  shows "acquire_for replicaID (rp_acquire w')"
proof (cases "rp_acquire w")
  case (Activating holder)
  then obtain out k st where
    a: "activatePrimary p (ai_activation i) (ai_ctx i) holder (cg_Advertisement (co_options (rp_coordinator w)))
        (rp_broker w, rp_store w) = Some (out, k, st)"
    using assms(1) by (auto simp: acquire_section_def split: option.splits)
  have "kafka_inv (rp_store w)" using assms(2) by (simp add: authority_inv_def)
  with a show ?thesis
    by (cases rule: activatePrimary_cases) (use a assms Activating in \<open>auto simp: acquire_section_def lease_for_def\<close>)
qed (use assms in \<open>auto simp: acquire_section_def acquire_look_def acquire_take_def lease_for_def word_gt_0
    split: option.splits if_splits\<close>)

lemma replica_step_for:
  assumes "replica_step p w w'" and "authority_inv w" and "acquire_for replicaID (rp_acquire w)"
  shows "acquire_for replicaID (rp_acquire w')"
  using assms
proof (induction rule: replica_step.induct)
  case (group w ev)
  then show ?case by (cases ev) (auto simp: then_deactivates_def)
qed (auto intro: acquire_section_for)

lemma coordinate_inv: "coordinate p replicaID x y \<Longrightarrow> loop_inv replicaID x \<Longrightarrow> loop_inv replicaID y"
proof (induction rule: coordinate.induct)
  case (called w created at c)
  then have "authority_inv (w\<lparr>rp_acquire := at, rp_coordinator := c\<rparr>)"
    by (intro Acquire_inv) (simp_all add: loop_inv_def)
  moreover have "acquire_for replicaID at"
    using called(2) by (auto simp: Acquire_def split: if_splits option.splits prod.splits)
  ultimately show ?case by (simp add: loop_inv_def)
next
  case (meanwhile w w' control)
  then show ?case using replica_step_inv [of p w w'] replica_step_for [of p w w'] by (simp add: loop_inv_def)
qed (auto simp: loop_inv_def authority_inv_def)


section \<open>Opening a file again\<close>

text \<open>What a closed file holds: nothing yet, or a formatted database.\<close>

definition formatted :: "'db bbolt \<Rightarrow> 'db \<Rightarrow> bool" where
  "formatted api db \<longleftrightarrow> bb_Get api db metaBucket formatKey = Some (uint64Key 1)"

definition opened_file :: "string \<Rightarrow> 'db \<Rightarrow> 'db BoltStore" where
  "opened_file path db = \<lparr>bs_db = db, bs_path = path, bs_closed = False, bs_lastErr = None\<rparr>"

definition file_holds :: "'db bbolt \<Rightarrow> 'db \<Rightarrow> State \<Rightarrow> bool" where
  "file_holds api db s \<longleftrightarrow> (\<forall>b k. bb_Get api db b k = None) \<and> s = NewState
     \<or> formatted api db \<and> bolt_holds api (opened_file '''' db) s"

text \<open>A store that is open on a formatted file.\<close>

definition store_holds :: "'db bbolt \<Rightarrow> 'db BoltStore \<Rightarrow> State \<Rightarrow> bool" where
  "store_holds api st s \<longleftrightarrow> formatted api (bs_db st) \<and> \<not> bs_closed st \<and> bolt_holds api st s"

lemma store_holds_file: "store_holds api st s \<Longrightarrow> bs_db st' = bs_db st \<Longrightarrow> file_holds api (bs_db st') s"
  using bolt_has_db [of "opened_file '''' (bs_db st)" st api s]
  by (auto simp: store_holds_def file_holds_def bolt_holds_def opened_file_def)

context bbolt_laws
begin

lemma same_seek:
  assumes "\<And>k. bb_Get api db' b k = bb_Get api db b k"
  shows "bb_Seek api db' b '''' = bb_Seek api db b ''''"
proof (rule alist_unique)
  show "map_of (bb_Seek api db' b '''') = map_of (bb_Seek api db b '''')"
    using assms by (intro ext) (simp flip: get_seek)
qed (rule seek_sorted)+

lemma same_has:
  assumes "\<And>b k. bb_Get api (bs_db st') b k = bb_Get api (bs_db st) b k" and "bs_closed st' = bs_closed st"
  shows "bolt_has api st' s = bolt_has api st s"
proof -
  have "load_tx api (bs_db st') = load_tx api (bs_db st)" by (simp add: load_tx_def assms(1))
  then show ?thesis
    using assms(2) same_seek [of "bs_db st'" transitionsBucket "bs_db st"] by (simp add: bolt_has_def Let_def assms(1))
qed

lemma put_formatted:
  assumes "bb_Put api b k v db = Inr db'" and "b \<noteq> metaBucket \<or> k \<noteq> formatKey" and "formatted api db"
  shows "formatted api db'"
  using assms by (auto simp: formatted_def put_get [OF assms(1)])

lemma update_formatted:
  assumes "update api fn st = (err, st')" and "\<not> bs_closed st" and "formatted api (bs_db st)"
    and "\<And>tx. fn (bs_db st) = Inr tx \<Longrightarrow> formatted api tx"
  shows "formatted api (bs_db st') \<and> \<not> bs_closed st'"
  using update_cases [OF assms(1,2)] assms(2-4) by (cases err) auto

lemma Commit_formatted:
  assumes "bolt_Commit api ctx e st = (err, st')" and "\<not> bs_closed st" and "formatted api (bs_db st)"
  shows "formatted api (bs_db st') \<and> \<not> bs_closed st'"
proof -
  have "formatted api tx" if "commit_tx api e (bs_db st) = Inr tx" for tx
    using that assms(3) by (auto simp: commit_tx_def Let_def split: if_splits sum.splits intro: put_formatted)
  then show ?thesis
    using assms update_formatted [of "commit_tx api e" st]
    by (fastforce simp: bolt_Commit_def split: option.splits prod.splits)
qed

lemma SaveSnapshot_formatted:
  assumes "bolt_SaveSnapshot api ctx s st = (err, st')" and "\<not> bs_closed st" and "formatted api (bs_db st)"
  shows "formatted api (bs_db st') \<and> \<not> bs_closed st' \<and> (err \<noteq> None \<longrightarrow> bs_db st' = bs_db st)"
proof -
  have "formatted api tx" if "save_tx api s (bs_db st) = Inr tx" for tx
    using that assms(3) by (auto simp: save_tx_def Let_def split: if_splits intro: put_formatted)
  then show ?thesis
    using assms update_formatted [of "save_tx api s" st] update_cases(3) [of "save_tx api s" st]
    by (fastforce simp: bolt_SaveSnapshot_def split: option.splits prod.splits sum.splits)
qed

lemma Open_holds:
  assumes "bolt_Open api path (Inr db) = Inr st" and "file_holds api db s"
  shows "store_holds api st s"
proof -
  have upd: "update api (open_tx api) (opened_file path db) = (None, st)"
    using assms(1) by (auto simp: bolt_Open_def opened_file_def split: if_splits prod.splits option.splits)
  have "\<not> bs_closed (opened_file path db)" by (simp add: opened_file_def)
  from update_cases(1,2) [OF upd this] have tx: "open_tx api db = Inr (bs_db st)" and open_: "\<not> bs_closed st"
    by (simp_all add: opened_file_def)
  from tx obtain tx1 tx2 where c: "bb_CreateBucketIfNotExists api metaBucket db = Inr tx1"
    "bb_CreateBucketIfNotExists api transitionsBucket tx1 = Inr tx2"
    by (auto simp: open_tx_def split: sum.splits)
  have same: "bb_Get api tx2 b k = bb_Get api db b k" for b k
    using create_get [OF c(1)] create_get [OF c(2)] by simp
  show ?thesis
  proof (cases "formatted api db")
    case True
    then have "bs_db st = tx2"
      using tx c same [of metaBucket formatKey] by (auto simp: open_tx_def formatted_def split: if_splits)
    then have g: "bb_Get api (bs_db st) b k = bb_Get api db b k" for b k using same by simp
    have "bolt_holds api (opened_file '''' db) s" using assms(2) True by (auto simp: file_holds_def formatted_def)
    then have "bolt_holds api st s"
      using same_has [of st "opened_file '''' db" s] g open_ by (auto simp: bolt_holds_def opened_file_def)
    moreover have "formatted api (bs_db st)" using True by (simp add: formatted_def g)
    ultimately show ?thesis using open_ by (simp add: store_holds_def)
  next
    case False
    then have empty: "\<And>b k. bb_Get api db b k = None" and s: "s = NewState"
      using assms(2) by (auto simp: file_holds_def)
    have "formatted api (bs_db st)"
    proof -
      obtain tx3 where p: "bb_Put api metaBucket formatKey (uint64Key 1) tx2 = Inr tx3"
        "bb_Put api metaBucket sequenceKey (uint64Key 0) tx3 = Inr (bs_db st)"
        using tx c same [of metaBucket formatKey] empty by (auto simp: open_tx_def split: sum.splits)
      then show ?thesis by (simp add: formatted_def put_get [OF p(2)] put_get [OF p(1)])
    qed
    then show ?thesis using Open_empty_has(1) [OF assms(1) empty] s open_ by (simp add: store_holds_def bolt_holds_def)
  qed
qed

end

text \<open>Commits keep the format, so that the store stays a durable committer with it.\<close>

sublocale bbolt_laws \<subseteq> on_file: durable_committer "bolt_Commit api" "store_holds api"
proof
  fix st s e s' ctx st'
  assume h: "store_holds api st s" "registry_inv s" "Apply s e = Inr s'" "payload_ok e" "envelope_utf8 e"
    and c: "bolt_Commit api ctx e st = (None, st')"
  have "bolt_holds api st' s'" using commit_success [OF _ h(2-5) c] h(1) by (simp add: store_holds_def)
  with h(1) Commit_formatted [OF c] show "store_holds api st' s'" by (simp add: store_holds_def)
next
  fix st s e s' ctx err st'
  assume h: "store_holds api st s" "registry_inv s" "Apply s e = Inr s'" "payload_ok e" "envelope_utf8 e"
    and c: "bolt_Commit api ctx e st = (Some err, st')"
  have "bolt_holds api st' s" using commit_failure [OF _ h(2-5) c] h(1) by (simp add: store_holds_def)
  with h(1) Commit_formatted [OF c] show "store_holds api st' s" by (simp add: store_holds_def)
qed

context bbolt_laws
begin

lemma exec_on_file:
  assumes "exec ctx c m = (out, m')" and "m_commit m = bolt_Commit api" and "store_holds api (m_store m) (m_state m)"
    and "registry_inv (m_state m)" and "command_utf8 c"
  shows "m_commit m' = bolt_Commit api \<and> store_holds api (m_store m') (m_state m')"
  using on_file.exec_in_sync [OF assms(1) _ assms(4,5)] assms(2,3) by (simp add: on_file.in_sync_def)

end

section \<open>A server on a file\<close>

definition server_on :: "'db bbolt \<Rightarrow> ('n, 'db BoltStore) Server \<Rightarrow> bool" where
  "server_on api s \<longleftrightarrow> m_commit (srv_machine s) = bolt_Commit api
     \<and> store_holds api (m_store (srv_machine s)) (srv_state s) \<and> registry_inv (srv_state s) \<and> identities_utf8 s"

fun arrival_request :: "arrival \<Rightarrow> request" where
  "arrival_request (AtPublic r) = r"
| "arrival_request (AtInternal r) = r"

lemma server_on_ready [simp]: "server_on api (bolt_ready text api s) = server_on api s"
  by (simp add: server_on_def bolt_ready_def identities_utf8_def engine_identities_def)

lemma Handler_server_on:
  assumes "bbolt_laws api" and "server_on api s" and "valid_utf8 (operationID r)"
  shows "server_on api (snd (Handler s r))"
proof (cases "snd (Handler s r) = s")
  case False
  obtain rs s' where h: "Handler s r = (rs, s')" by fastforce
  with False have "s' \<noteq> s" by simp
  with h show ?thesis
  proof (rule Handler_step)
    fix c out m vals
    assume c: "exec (rq_Ctx r) c (srv_machine s) = (out, m)" "s' = s\<lparr>srv_machine := m\<rparr>"
      and from': "command_from s (routed_request r vals) c"
    have on: "m_commit (srv_machine s) = bolt_Commit api" "store_holds api (m_store (srv_machine s)) (srv_state s)"
      "registry_inv (srv_state s)" "identities_utf8 s" using assms(2) by (simp_all add: server_on_def)
    have u: "command_utf8 c" using command_from_utf8 [OF from' on(4)] assms(3) by simp
    show ?thesis
      using bbolt_laws.exec_on_file [OF assms(1) c(1) on(1-3) u] exec_inv [OF c(1) on(3) u] on(4) c(2) h
      by (simp add: server_on_def)
  qed
qed (use assms in simp)

lemma publicHandler_server:
  "snd (snd (snd (publicHandler runtime duration elapsed internal (log, m, s) r))) \<in> {s, snd (internal s r)}"
  by (auto simp: publicHandler_def LogMiddleware_def Middleware_def public_handler_def Authenticate_def
      ProtectAdministration_def Let_def split: prod.splits option.splits if_splits)

lemma arrive_server_on:
  assumes "bbolt_laws api" and "server_on api (snd (snd w))" and "valid_utf8 (operationID (arrival_request a))"
  shows "server_on api (snd (snd (arrive text api runtime rw a w)))"
proof -
  obtain log m s where w: "w = (log, m, s)" by (cases w)
  have h: "server_on api (snd (bolt_api text api s (arrival_request a)))"
    using Handler_server_on [OF assms(1), of "bolt_ready text api s"] assms(2,3) w by (simp add: bolt_api_def)
  show ?thesis
  proof (cases a)
    case (AtPublic r)
    with h w assms(2) publicHandler_server [of runtime "rw_duration rw" "rw_elapsed rw" "bolt_api text api" log m s r]
    show ?thesis by auto
  next
    case (AtInternal r)
    with h w assms(2) show ?thesis by (simp split: option.split)
  qed
qed

lemma arrivals_server_on:
  assumes "bbolt_laws api" and "server_on api (snd (snd w))" and "\<forall>a \<in> set arrivals. valid_utf8 (operationID (arrival_request a))"
  shows "server_on api (snd (snd (fold (arrive text api runtime rw) arrivals w)))"
  using assms(2,3)
proof (induction arrivals arbitrary: w)
  case (Cons a arrivals)
  then show ?case using arrive_server_on [OF assms(1) Cons.prems(1)] by simp
qed simp

lemma app_server_identities: "identities_utf8 (app_server lib store ctx s st)"
proof -
  have "srv_engines (app_server lib store ctx s st) = engines lib"
    by (auto simp: app_server_def NewServer_def engines_def avro_Engine_def protobuf_Engine_def json_Engine_def)
  then show ?thesis
    using engines_identities [of lib] by (auto simp: identities_utf8_def engine_identities_def engines_utf8_def)
qed

section \<open>Recovery under a context\<close>

lemma replay_loop_polls:
  "replay_loop polls i q xs f a = Inr r \<Longrightarrow> replay_loop (\<lambda>_. None) j q xs f a = Inr r"
  by (induction polls i q xs f a arbitrary: j rule: replay_loop.induct) (auto split: option.splits sum.splits if_splits)

lemma recoverState_store:
  assumes "recoverState (bolt_Store api) ctx polls st = (out, st1)"
  shows "bs_db st1 = bs_db st \<and> bs_closed st1 = bs_closed st"
  using assms by (auto simp: recoverState_def bolt_Store_def bolt_LoadSnapshot_def bolt_Replay_def Let_def
      split: option.splits sum.splits prod.splits if_splits)

lemma recoverState_polls:
  assumes "recoverState (bolt_Store api) ctx polls st = (Inr s, st1)"
  shows "fst (recoverState (bolt_Store api) None (\<lambda>_. None) st) = Inr s"
  using assms by (auto simp: recoverState_def bolt_Store_def bolt_LoadSnapshot_def bolt_Replay_def Let_def view_def
      error_of_def split: option.splits sum.splits prod.splits if_splits dest: replay_loop_polls)

lemma recoverState_holds:
  assumes "bbolt_laws api" and "store_holds api st s" and "snap_Sequence s + 1 \<noteq> 0"
    and "recoverState (bolt_Store api) ctx polls st = (Inr s', st1)"
  shows "s' = s"
proof -
  have "bolt_has api st s" using assms(2,3) by (simp add: store_holds_def bolt_holds_def)
  from bbolt_laws.recover_has [OF assms(1) this] recoverState_polls [OF assms(4)] show ?thesis by simp
qed

lemma store_holds_db: "bs_db st' = bs_db st \<Longrightarrow> bs_closed st' = bs_closed st \<Longrightarrow> store_holds api st' s = store_holds api st s"
  using bolt_has_db [of st' st api s] by (simp add: store_holds_def bolt_holds_def)

section \<open>Stopped and started again\<close>

lemma run_up_cases:
  assumes "run_up lib text api config rw = r"
  obtains (closed) errs where "r = Inl (errs, None)"
  | (failed) errs st0 out st1 where "r = Inl (errs, Some st1)"
      and "bolt_Open api (data_path (run_config config)) (rw_opened rw (data_path (run_config config))) = Inr st0"
      and "recoverState (bolt_Store api) (rw_ctx rw) (rw_polls rw) st0 = (out, st1)"
  | (served) n st0 s st1 where
      "r = Inr (n, snd (snd (fold (arrive text api (ap_Runtime (run_config config)) rw) (rw_arrivals rw)
        ([], NewHTTPMetrics, app_server lib (bolt_Store api) (rw_ctx rw) s st1))))"
      and "bolt_Open api (data_path (run_config config)) (rw_opened rw (data_path (run_config config))) = Inr st0"
      and "recoverState (bolt_Store api) (rw_ctx rw) (rw_polls rw) st0 = (Inr s, st1)"
proof (cases "open_bolt api (rw_mkdir rw) (rw_opened rw) (run_config config)")
  case (Inl err)
  then show thesis using assms by (intro closed [of "[err]"]) (simp add: run_up_def)
next
  case (Inr st0)
  then have st0: "bolt_Open api (data_path (run_config config)) (rw_opened rw (data_path (run_config config))) = Inr st0"
    by (simp add: open_bolt_def split: option.splits)
  obtain out st1 where r: "recoverState (bolt_Store api) (rw_ctx rw) (rw_polls rw) st0 = (out, st1)" by fastforce
  show thesis
    using assms failed [OF _ st0 r] served [OF _ st0] r Inr
    by (cases out) (auto simp: run_up_def Let_def split: option.splits prod.splits)
qed

lemma run_up_keeps:
  assumes "bbolt_laws api" and "file_holds api db s" and "registry_inv s" and "snap_Sequence s + 1 \<noteq> 0"
    and "rw_opened rw (data_path (run_config config)) = Inr db"
    and "\<forall>a \<in> set (rw_arrivals rw). valid_utf8 (operationID (arrival_request a))"
  shows "run_up lib text api config rw = Inl (errs, Some st) \<Longrightarrow> store_holds api st s"
    and "run_up lib text api config rw = Inr (n, server) \<Longrightarrow> server_on api server"
proof -
  have opened: "store_holds api st1 s \<and> (\<forall>s'. out = Inr s' \<longrightarrow> s' = s)"
    if "bolt_Open api (data_path (run_config config)) (rw_opened rw (data_path (run_config config))) = Inr st0"
      and "recoverState (bolt_Store api) (rw_ctx rw) (rw_polls rw) st0 = (out, st1)" for st0 out st1
  proof -
    have "store_holds api st0 s"
      using that(1) assms(5) bbolt_laws.Open_holds [OF assms(1) _ assms(2)] by simp
    then show ?thesis
      using that(2) recoverState_holds [OF assms(1) _ assms(4)] store_holds_db [of st1 st0] recoverState_store by blast
  qed
  show "store_holds api st s" if "run_up lib text api config rw = Inl (errs, Some st)"
    using that by (cases rule: run_up_cases) (use opened in auto)
  show "server_on api server" if "run_up lib text api config rw = Inr (n, server)"
    using that
  proof (cases rule: run_up_cases)
    case (served n' st0 s' st1)
    have "store_holds api st1 s \<and> s' = s" using opened [OF served(2,3)] by simp
    then have "server_on api (app_server lib (bolt_Store api) (rw_ctx rw) s' st1)"
      using assms(3) app_server_identities [of lib "bolt_Store api" "rw_ctx rw" s' st1]
      by (simp add: server_on_def app_server_def NewServer_def NewMachine_def bolt_Store_def)
    then show ?thesis
      using served(1) arrivals_server_on [OF assms(1) _ assms(6)] by auto
  qed simp_all
qed

lemma run_down_keeps:
  assumes "bbolt_laws api" and "store_holds api (m_store m) (m_state m)" and "registry_inv (m_state m)"
    and "run_down api rw n m = (errs, st)"
  shows "file_holds api (bs_db st) (m_state m)"
proof -
  have close: "bs_db st' = bs_db st1" if "run_close api es st1 = (es', st')" for es st1 es' st'
    using that by (auto simp: run_close_def bolt_Close_def split: prod.splits if_splits)
  show ?thesis
  proof (cases "run_select (rw_stop_ctx rw) (rw_stop rw)")
    case (Some es)
    then show ?thesis using assms(2,4) close store_holds_file by (fastforce simp: run_down_def)
  next
    case None
    obtain serr st1 where s: "bolt_SaveSnapshot api (rw_snapshot_ctx rw) (m_state m) (m_store m) = (serr, st1)" by fastforce
    have st: "bs_db st = bs_db st1" using None assms(4) s close by (auto simp: run_down_def shouldSnapshot_def Let_def)
    have f: "formatted api (bs_db st1) \<and> \<not> bs_closed st1 \<and> (serr \<noteq> None \<longrightarrow> bs_db st1 = bs_db (m_store m))"
      using bbolt_laws.SaveSnapshot_formatted [OF assms(1) s] assms(2) by (simp add: store_holds_def)
    have "store_holds api st1 (m_state m)"
    proof (cases serr)
      case None
      have "snapshot_utf8 (m_state m)" using assms(3) by (simp add: registry_inv_def)
      with None f s assms(2) bbolt_laws.SaveSnapshot_has [OF assms(1)] show ?thesis
        by (auto simp: store_holds_def bolt_holds_def)
    next
      case (Some err)
      with f assms(2) have "bs_db st1 = bs_db (m_store m)" "bs_closed st1 = bs_closed (m_store m)"
        by (simp_all add: store_holds_def)
      with assms(2) show ?thesis using store_holds_db by blast
    qed
    then show ?thesis using st by (rule store_holds_file)
  qed
qed

text \<open>The life of a file: created empty, then a server runs on it again and again. A run may end in
  order or with errors, fail to start, or be killed between two requests; the state is the last one a
  server published.\<close>

inductive lifetimes :: "('s, 'k, 'f, 'm, 'd, 'v, 'c) libraries \<Rightarrow> (go_error \<Rightarrow> string) \<Rightarrow> 'db bbolt \<Rightarrow> app_config
    \<Rightarrow> 'db \<Rightarrow> State \<Rightarrow> bool"
  for lib :: "('s, 'k, 'f, 'm, 'd, 'v, 'c) libraries" and err_text :: "go_error \<Rightarrow> string" and api :: "'db bbolt" and config :: app_config
  where
  created: "\<forall>b k. bb_Get api db b k = None \<Longrightarrow> lifetimes lib err_text api config db NewState"
| refused: "lifetimes lib err_text api config db s \<Longrightarrow> snap_Sequence s + 1 \<noteq> 0 \<Longrightarrow>
    rw_opened rw (data_path (run_config config)) = Inr db \<Longrightarrow>
    \<forall>a \<in> set (rw_arrivals rw). valid_utf8 (operationID (arrival_request a)) \<Longrightarrow>
    run_up lib err_text api config rw = Inl (errs0, Some st0) \<Longrightarrow>
    run_bolt lib err_text api config rw = (errs, Some st) \<Longrightarrow> lifetimes lib err_text api config (bs_db st) s"
| stopped: "lifetimes lib err_text api config db s \<Longrightarrow> snap_Sequence s + 1 \<noteq> 0 \<Longrightarrow>
    rw_opened rw (data_path (run_config config)) = Inr db \<Longrightarrow>
    \<forall>a \<in> set (rw_arrivals rw). valid_utf8 (operationID (arrival_request a)) \<Longrightarrow>
    run_up lib err_text api config rw = Inr (n, server) \<Longrightarrow>
    run_bolt lib err_text api config rw = (errs, Some st) \<Longrightarrow> lifetimes lib err_text api config (bs_db st) (srv_state server)"
| killed: "lifetimes lib err_text api config db s \<Longrightarrow> snap_Sequence s + 1 \<noteq> 0 \<Longrightarrow>
    rw_opened rw (data_path (run_config config)) = Inr db \<Longrightarrow>
    \<forall>a \<in> set (rw_arrivals rw). valid_utf8 (operationID (arrival_request a)) \<Longrightarrow>
    run_up lib err_text api config rw = Inr (n, server) \<Longrightarrow>
    lifetimes lib err_text api config (bs_db (m_store (srv_machine server))) (srv_state server)"

lemma lifetimes_hold:
  assumes "lifetimes lib err_text api config db s" and "bbolt_laws api"
  shows "file_holds api db s \<and> registry_inv s"
  using assms(1)
proof (induction rule: lifetimes.induct)
  case (created db)
  then show ?case by (simp add: file_holds_def)
next
  case (refused db s rw errs0 st0 errs st)
  then have "store_holds api st0 s" using run_up_keeps(1) [OF assms(2)] by blast
  moreover have "bs_db st = bs_db st0"
    using refused(5,6) by (auto simp: run_bolt_def run_close_def bolt_Close_def split: prod.splits if_splits)
  ultimately show ?case using store_holds_file refused.IH by blast
next
  case (stopped db s rw n server errs st)
  then have on: "server_on api server" using run_up_keeps(2) [OF assms(2)] by blast
  moreover obtain st' where "run_down api rw n (srv_machine server) = (errs, st')" "st = st'"
    using stopped(5,6) by (auto simp: run_bolt_def map_prod_def split: prod.splits)
  ultimately show ?case using run_down_keeps [OF assms(2)] by (auto simp: server_on_def)
next
  case (killed db s rw n server)
  then have "server_on api server" using run_up_keeps(2) [OF assms(2)] by blast
  then show ?case using store_holds_file by (auto simp: server_on_def)
qed

lemma start_publishes:
  assumes "bbolt_laws api" and "file_holds api db s" and "snap_Sequence s + 1 \<noteq> 0"
    and "rw_opened rw (data_path (run_config config)) = Inr db" and "rw_arrivals rw = []"
    and "run_up lib err_text api config rw = Inr (n, server)"
  shows "srv_state server = s"
  using assms(6)
proof (cases rule: run_up_cases)
  case (served n' st0 s' st1)
  have "store_holds api st0 s" using served(2) assms(4) bbolt_laws.Open_holds [OF assms(1) _ assms(2)] by simp
  then have "s' = s" using assms(3) served(3) by (rule recoverState_holds [OF assms(1)])
  then show ?thesis using served(1) assms(5) by (simp add: app_server_def NewServer_def NewMachine_def)
qed simp_all


end
