(* ===== verification/Commands.thy ===== *)
theory Commands
  imports App_Guarantees
begin

text \<open>
  The commands of \<open>cmd\<close>: their \<open>run\<close> functions from parsed flags to the exit code. The flag package
  is an argument: its result is the record of flags, \<open>None\<close> where it refused the arguments. What is
  written to standard error is the error behind the message. The file system is a map from paths to
  contents; each operation on it may fail, and the failures are arguments.
\<close>

type_synonym fs = "(string, string) fmap"

section \<open>Writing a file\<close>

text \<open>\<open>wa_create\<close> is the name of the temporary file; a write that fails has written some of the bytes;
  \<open>wa_remove\<close> says whether the deferred removal works.\<close>

record write_answers =
  wa_create :: "go_error + string"
  wa_chmod :: "go_error option"
  wa_write :: "(go_error \<times> nat) option"
  wa_sync :: "go_error option"
  wa_close :: "go_error option"
  wa_rename :: "go_error option"
  wa_remove :: bool

text \<open>The file system after each operation, the last one at the end.\<close>

definition remove_temporary :: "write_answers \<Rightarrow> string \<Rightarrow> go_error option \<times> fs list \<Rightarrow> go_error option \<times> fs list" where
  "remove_temporary a temporary r = (case r of (err, trace) \<Rightarrow>
     (err, trace @ [if wa_remove a then fmdrop temporary (last trace) else last trace]))"

definition write_trace :: "write_answers \<Rightarrow> string \<Rightarrow> string \<Rightarrow> fs \<Rightarrow> go_error option \<times> fs list" where
  "write_trace a path contents fs =
     (case wa_create a of
        Inl err \<Rightarrow> (Some err, [fs])
      | Inr temporary \<Rightarrow>
          remove_temporary a temporary
            (let fs1 = fmupd temporary '''' fs in
             if wa_chmod a \<noteq> None then (wa_chmod a, [fs, fs1])
             else case wa_write a of
               Some (err, n) \<Rightarrow> (Some err, [fs, fs1, fmupd temporary (take n contents) fs1])
             | None \<Rightarrow>
                 (let fs2 = fmupd temporary contents fs1 in
                  if wa_sync a \<noteq> None then (wa_sync a, [fs, fs1, fs2])
                  else if wa_close a \<noteq> None then (wa_close a, [fs, fs1, fs2])
                  else if wa_rename a \<noteq> None then (wa_rename a, [fs, fs1, fs2])
                  else (None, [fs, fs1, fs2, fmupd path contents (fmdrop temporary fs2)]))))"

definition writeAtomically :: "write_answers \<Rightarrow> string \<Rightarrow> string \<Rightarrow> fs \<Rightarrow> go_error option \<times> fs" where
  "writeAtomically a path contents fs = (case write_trace a path contents fs of (err, trace) \<Rightarrow> (err, last trace))"

section \<open>riquet-backup\<close>

record command_result =
  cr_Code :: nat
  cr_Stdout :: string
  cr_Stderr :: "go_error list"

definition fails :: "nat \<Rightarrow> go_error \<Rightarrow> command_result" where
  "fails code err = \<lparr>cr_Code = code, cr_Stdout = '''', cr_Stderr = [err]\<rparr>"

definition succeeds :: "string \<Rightarrow> command_result" where
  "succeeds out = \<lparr>cr_Code = 0, cr_Stdout = out, cr_Stderr = []\<rparr>"

record backup_flags =
  bf_output :: string
  bf_backend :: string
  bf_data :: string
  bf_brokers :: string
  bf_topic :: string

text \<open>What the world answers to a command: opening a database file, creating its directory, the Kafka
  client for given options, the context, the clock, the writes.\<close>

record 'db command_world =
  cw_opened :: "string \<Rightarrow> go_error + 'db"
  cw_mkdir :: "string \<Rightarrow> go_error option"
  cw_kafka :: "Options \<Rightarrow> open_answers"
  cw_ctx :: ctx
  cw_polls :: polls
  cw_now :: string
  cw_nanos :: string
  cw_write :: write_answers
  cw_stdout :: "go_error option"
  cw_stdin :: string

definition command_options :: "string list \<Rightarrow> string \<Rightarrow> string \<Rightarrow> int \<Rightarrow> bool \<Rightarrow> Options" where
  "command_options brokers topic transactionalID factor autoCreate =
     \<lparr>ko_Brokers = brokers, ko_Topic = topic, ko_ClientID = '''', ko_TransactionalID = transactionalID,
      ko_ReplicationFactor = factor, ko_AutoCreateTopic = autoCreate, ko_TransactionTimeout = 0,
      ko_OperationTimeout = 0, ko_RequireLeadership = False, ko_MaxReadyLag = 0\<rparr>"

definition brokers_required :: "string \<Rightarrow> command_result" where
  "brokers_required name = fails 2 (FmtErr (name @ '': --brokers or RIQUET_KAFKA_BROKERS is required for Kafka'') [] None)"

definition unsupported_backend :: "string \<Rightarrow> string \<Rightarrow> command_result" where
  "unsupported_backend name backend = fails 2 (FmtErr (name @ '': unsupported backend %q'') [AStr backend] None)"

text \<open>\<open>None\<close> where a Kafka store never catches up. A capture neither commits nor saves, so that those
  operations of the store do not matter.\<close>

definition backup_open :: "'db bbolt \<Rightarrow> 'db command_world \<Rightarrow> backup_flags
    \<Rightarrow> (command_result + (go_error + 'db opened)) option" where
  "backup_open api w fl =
     (if bf_backend fl = ''pvc''
      then Some (Inr (map_sum (\<lambda>e. e) BoltOpened (bolt_Open api (bf_data fl) (cw_opened w (bf_data fl)))))
      else if bf_backend fl = ''kafka'' then
        (let brokerList = splitNonEmpty (bf_brokers fl);
             options = command_options brokerList (bf_topic fl) (''riquet-backup-'' @ cw_nanos w) 0 False in
         if brokerList = [] then Some (Inl (brokers_required ''riquet-backup''))
         else map_option (\<lambda>r. Inr (map_sum (\<lambda>e. e) KafkaOpened r)) (kafka_Open (cw_kafka w options) options))
      else Some (Inl (unsupported_backend ''riquet-backup'' (bf_backend fl))))"

fun capture_from :: "'db bbolt \<Rightarrow> 'db command_world \<Rightarrow> string \<Rightarrow> 'db opened \<Rightarrow> go_error + string" where
  "capture_from api w backend (BoltOpened st) = fst (Capture (bolt_Store api) (cw_ctx w) (cw_polls w) backend (cw_now w) st)"
| "capture_from api w backend (KafkaOpened st) =
     fst (Capture (kafka_Store (\<lambda>_ _ st. (None, st)) (\<lambda>_ _ st. (None, st))) (cw_ctx w) (cw_polls w) backend (cw_now w) st)"

definition deliver :: "'db command_world \<Rightarrow> string \<Rightarrow> string \<Rightarrow> string \<Rightarrow> string \<Rightarrow> string \<Rightarrow> fs \<Rightarrow> command_result \<times> fs" where
  "deliver w name what output written text fs =
     (if output = ''-'' then
        (case cw_stdout w of
           Some err \<Rightarrow> (fails 1 (FmtErr (name @ '': '' @ what @ '': %v'') [] (Some err)), fs)
         | None \<Rightarrow> (succeeds text, fs))
      else case writeAtomically (cw_write w) output text fs of
        (Some err, fs') \<Rightarrow> (fails 1 (FmtErr (name @ '': '' @ what @ '': %v'') [] (Some err)), fs')
      | (None, fs') \<Rightarrow> (succeeds written, fs'))"

definition backup_run :: "'db bbolt \<Rightarrow> 'db command_world \<Rightarrow> backup_flags option \<Rightarrow> fs \<Rightarrow> (command_result \<times> fs) option" where
  "backup_run api w flags fs =
     (case flags of
        None \<Rightarrow> Some (fails 2 (FmtErr ''flag'' [] None), fs)
      | Some fl \<Rightarrow>
          (case backup_open api w fl of
             None \<Rightarrow> None
           | Some (Inl r) \<Rightarrow> Some (r, fs)
           | Some (Inr (Inl err)) \<Rightarrow> Some (fails 1 (FmtErr ''riquet-backup: open source: %v'' [] (Some err)), fs)
           | Some (Inr (Inr source)) \<Rightarrow>
               (case capture_from api w (bf_backend fl) source of
                  Inl err \<Rightarrow> Some (fails 1 (FmtErr ''riquet-backup: capture: %v'' [] (Some err)), fs)
                | Inr encoded \<Rightarrow>
                    Some (deliver w ''riquet-backup'' ''write'' (bf_output fl)
                      (''backup written to '' @ bf_output fl @ nl) encoded fs))))"

section \<open>riquet-restore\<close>

record restore_flags =
  rf_snapshot :: string
  rf_validate_only :: bool
  rf_backend :: string
  rf_data :: string
  rf_brokers :: string
  rf_topic :: string
  rf_transactional_id :: string
  rf_replication_factor :: int64
  rf_auto_create :: bool

datatype ('db, 'k) target = BoltTarget "'db BoltStore" | KafkaTarget 'k KafkaStore

definition restore_open :: "'db bbolt \<Rightarrow> 'db command_world \<Rightarrow> 'k \<Rightarrow> restore_flags
    \<Rightarrow> (command_result + (go_error + ('db, 'k) target)) option" where
  "restore_open api w k fl =
     (if rf_backend fl = ''pvc'' then
        (case cw_mkdir w (rf_data fl) of
           Some err \<Rightarrow> Some (Inl (fails 1 (FmtErr ''riquet-restore: create data directory: %v'' [] (Some err))))
         | None \<Rightarrow> Some (Inr (map_sum (\<lambda>e. e) BoltTarget (bolt_Open api (rf_data fl) (cw_opened w (rf_data fl))))))
      else if rf_backend fl = ''kafka'' then
        (let brokerList = splitNonEmpty (rf_brokers fl);
             options = command_options brokerList (rf_topic fl) (rf_transactional_id fl)
               (sint64 (rf_replication_factor fl)) (rf_auto_create fl) in
         if brokerList = [] then Some (Inl (brokers_required ''riquet-restore''))
         else map_option (\<lambda>r. Inr (map_sum (\<lambda>e. e) (KafkaTarget k) r)) (kafka_Open (cw_kafka w options) options))
      else Some (Inl (unsupported_backend ''riquet-restore'' (rf_backend fl))))"

text \<open>\<open>backup.Restore\<close> into either store; \<open>None\<close> where a Kafka restore never returns.\<close>

fun restore_into :: "'db bbolt \<Rightarrow> 'k producer \<Rightarrow> schedule \<Rightarrow> ctx \<Rightarrow> BackupEnvelope \<Rightarrow> ('db, 'k) target
    \<Rightarrow> (go_error option \<times> ('db, 'k) target) option" where
  "restore_into api p sched ctx e (BoltTarget st) =
     Some (map_prod (\<lambda>x. x) BoltTarget (backup_Restore (bolt_Store api) ctx e st))"
| "restore_into api p sched ctx e (KafkaTarget k st) =
     (if bk_FormatVersion e \<noteq> 1 \<or> bk_Checksum e \<noteq> snapshot_checksum (bk_Snapshot e)
      then Some (Some (FmtErr ''logical backup is invalid'' [] None), KafkaTarget k st)
      else map_option (\<lambda>(err, k', st'). (err, KafkaTarget k' st')) (kafka_RestoreSnapshot p sched ctx (bk_Snapshot e) (k, st)))"

definition restored_line :: "string \<Rightarrow> BackupEnvelope \<Rightarrow> string" where
  "restored_line opening e =
     opening @ ''sequence='' @ fmt_u64 (snap_Sequence (bk_Snapshot e)) @ '' source='' @ bk_Source e @ nl"

definition restore_text :: "'db command_world \<Rightarrow> restore_flags \<Rightarrow> fs \<Rightarrow> go_error + string" where
  "restore_text w fl fs =
     (if rf_snapshot fl = ''-'' then Inr (cw_stdin w)
      else case fmlookup fs (rf_snapshot fl) of
        None \<Rightarrow> Inl (FmtErr ''open %s: no such file or directory'' [AStr (rf_snapshot fl)] None)
      | Some text \<Rightarrow> Inr text)"

definition restore_run :: "'db bbolt \<Rightarrow> 'k producer \<Rightarrow> schedule \<Rightarrow> 'db command_world \<Rightarrow> 'k \<Rightarrow> restore_flags option \<Rightarrow> fs
    \<Rightarrow> (command_result \<times> ('db, 'k) target option) option" where
  "restore_run api p sched w k flags fs =
     (case flags of
        None \<Rightarrow> Some (fails 2 (FmtErr ''flag'' [] None), None)
      | Some fl \<Rightarrow>
          if rf_replication_factor fl < 1 \<or> rf_replication_factor fl > 32767
          then Some (fails 2 (FmtErr ''riquet-restore: replication factor must be between 1 and 32767'' [] None), None)
          else
            (case restore_text w fl fs of
               Inl err \<Rightarrow> Some (fails 1 (FmtErr ''riquet-restore: open snapshot: %v'' [] (Some err)), None)
             | Inr text \<Rightarrow>
                 (case Decode text of
                    Inl err \<Rightarrow> Some (fails 1 (FmtErr ''riquet-restore: validate snapshot: %v'' [] (Some err)), None)
                  | Inr envelope \<Rightarrow>
                      if rf_validate_only fl then Some (succeeds (restored_line ''valid '' envelope), None)
                      else
                        (case restore_open api w k fl of
                           None \<Rightarrow> None
                         | Some (Inl r) \<Rightarrow> Some (r, None)
                         | Some (Inr (Inl err)) \<Rightarrow>
                             Some (fails 1 (FmtErr ''riquet-restore: open target: %v'' [] (Some err)), None)
                         | Some (Inr (Inr target)) \<Rightarrow>
                             (case restore_into api p sched (cw_ctx w) envelope target of
                                None \<Rightarrow> None
                              | Some (Some err, target') \<Rightarrow>
                                  Some (fails 1 (FmtErr ''riquet-restore: restore: %v'' [] (Some err)), Some target')
                              | Some (None, target') \<Rightarrow>
                                  Some (succeeds (restored_line (''restored backend='' @ rf_backend fl @ '' '') envelope),
                                    Some target'))))))"

section \<open>riquet-export\<close>

record export_flags =
  ef_source :: string
  ef_output :: string
  ef_username :: string

text \<open>The base URL is parsed by \<open>options\<close>, which takes the flags and the password and token of the
  environment. The report goes to standard error in any case. The buffer takes what it is given.\<close>

definition export_run :: "('s, 'k, 'f, 'm, 'd, 'v, 'c) libraries \<Rightarrow> 'w transport \<Rightarrow> (export_flags \<Rightarrow> ConfluentOptions) \<Rightarrow> 'w \<Rightarrow> 'db command_world
    \<Rightarrow> export_flags option \<Rightarrow> fs \<Rightarrow> command_result \<times> Report option \<times> fs" where
  "export_run lib do_request options source w flags fs =
     (case flags of
        None \<Rightarrow> (fails 2 (FmtErr ''flag'' [] None), None, fs)
      | Some fl \<Rightarrow>
          if ef_source fl = '''' then (fails 2 (FmtErr ''riquet-export: --source is required'' [] None), None, fs)
          else
            (case ExportConfluent (cw_ctx w) (engines lib) do_request (Some (\<lambda>_. None)) (options fl) (cw_now w) source of
               (report, Some err, _) \<Rightarrow> (fails 1 (FmtErr ''riquet-export: %v'' [] (Some err)), Some report, fs)
             | (report, None, snapshot) \<Rightarrow>
                 (case deliver w ''riquet-export'' ''write snapshot'' (ef_output fl) ''''
                    (case snapshot of None \<Rightarrow> '''' | Some text \<Rightarrow> text) fs of
                    (r, fs') \<Rightarrow> (r, Some report, fs'))))"

section \<open>riquet\<close>

record riquet_flags =
  qf_version :: bool
  qf_config :: string
  qf_listen :: "string option"
  qf_data :: "string option"
  qf_backend :: "string option"

text \<open>A flag that was given overrides the configuration. \<open>app_Run\<close> is \<open>app.Run\<close>, whose errors are
  those of \<open>run_bolt\<close> on a bbolt file.\<close>

definition riquet_overrides :: "riquet_flags \<Rightarrow> Overrides" where
  "riquet_overrides fl = \<lparr>ov_PublicAddress = qf_listen fl, ov_DataPath = qf_data fl, ov_Backend = qf_backend fl\<rparr>"

definition riquet_run :: "(string \<Rightarrow> go_error + string) \<Rightarrow> (string \<Rightarrow> Config \<Rightarrow> go_error + Config) \<Rightarrow> string list \<Rightarrow> string
    \<Rightarrow> go_error option \<Rightarrow> (app_config \<Rightarrow> go_error list) \<Rightarrow> riquet_flags option \<Rightarrow> command_result" where
  "riquet_run readFile yaml environ version stdout app_Run flags =
     (case flags of
        None \<Rightarrow> fails 2 (FmtErr ''flag'' [] None)
      | Some fl \<Rightarrow>
          if qf_version fl
          then (case stdout of Some err \<Rightarrow> \<lparr>cr_Code = 1, cr_Stdout = '''', cr_Stderr = []\<rparr> | None \<Rightarrow> succeeds (version @ nl))
          else
            (case Load readFile yaml environ (qf_config fl) None (riquet_overrides fl) of
               Inl err \<Rightarrow> fails 2 (FmtErr ''riquet: configuration: %v'' [] (Some err))
             | Inr runtime \<Rightarrow>
                 (case app_Run \<lparr>ap_ListenAddress = '''', ap_DataPath = '''', ap_Listener = False, ap_Runtime = Some runtime\<rparr> of
                    [] \<Rightarrow> succeeds ''''
                  | errs \<Rightarrow> \<lparr>cr_Code = 1, cr_Stdout = '''', cr_Stderr = errs\<rparr>)))"

section \<open>What the commands guarantee\<close>

text \<open>C23: A file is replaced as a whole: when a command writes its output through a temporary file of a new
  name, then at every moment, even if the command is killed there, the path has its former contents
  or the complete new ones and no other file is touched but the temporary one; a write that
  reports an error leaves the former contents, and one that succeeds leaves the new ones and no
  temporary file.\<close>

theorem write_is_atomic:
  assumes "write_trace a path contents fs = (err, trace)"
    and "\<forall>temporary. wa_create a = Inr temporary \<longrightarrow> temporary \<noteq> path \<and> fmlookup fs temporary = None"
  shows "(\<forall>fs' \<in> set trace. fmlookup fs' path = fmlookup fs path \<or> fmlookup fs' path = Some contents)
    \<and> (\<forall>fs' \<in> set trace. \<forall>other. other \<noteq> path \<and> wa_create a \<noteq> Inr other \<longrightarrow> fmlookup fs' other = fmlookup fs other)
    \<and> (err \<noteq> None \<longrightarrow> fmlookup (last trace) path = fmlookup fs path)
    \<and> (err = None \<longrightarrow> last trace = fmupd path contents fs)"
proof (cases "wa_create a")
  case (Inl e)
  then show ?thesis using assms(1) by (auto simp: write_trace_def)
next
  case (Inr temporary)
  with assms(2) have t: "temporary \<noteq> path" "fmlookup fs temporary = None" by auto
  have "fmdrop temporary (fmupd path contents (fmdrop temporary (fmupd temporary contents (fmupd temporary [] fs)))) = fmupd path contents fs"
    "fmupd path contents (fmdrop temporary (fmupd temporary contents (fmupd temporary [] fs))) = fmupd path contents fs"
    using t by (auto intro!: fmap_ext)
  then show ?thesis
    using assms(1) Inr t by (auto simp: write_trace_def remove_temporary_def Let_def split: if_splits option.splits prod.splits)
qed

lemma writeAtomically_success:
  assumes "writeAtomically a path contents fs = (None, fs')"
    and "\<forall>temporary. wa_create a = Inr temporary \<longrightarrow> temporary \<noteq> path"
  shows "fmlookup fs' path = Some contents"
  using assms by (auto simp: writeAtomically_def write_trace_def remove_temporary_def Let_def
      split: if_splits option.splits prod.splits sum.splits)

lemma Capture_recover:
  assumes "Capture store ctx polls name now st = (Inr text, st1)"
  obtains s where "recoverState store ctx polls st = (Inr s, st1)" and "text = Export s name now"
  using assms by (auto simp: Capture_def recoverState_def split: sum.splits prod.splits)

context bbolt_laws
begin

lemma RestoreSnapshot_formatted:
  assumes "bolt_RestoreSnapshot api ctx s st = (err, st')" and "\<not> bs_closed st" and "formatted api (bs_db st)"
  shows "formatted api (bs_db st') \<and> \<not> bs_closed st'"
proof -
  have "formatted api tx" if "restore_tx api s (bs_db st) = Inr tx" for tx
    using that assms(3) by (auto simp: restore_tx_def split: if_splits sum.splits intro: put_formatted)
  then show ?thesis
    using assms update_formatted [of "restore_tx api s" st]
    by (fastforce simp: bolt_RestoreSnapshot_def split: option.splits prod.splits sum.splits)
qed

lemma restored_file_holds:
  assumes "bolt_RestoreSnapshot api ctx s st = (None, st')" and "store_holds api st s0" and "snapshot_utf8 s"
    and "snap_Sequence s + 1 \<noteq> 0"
  shows "file_holds api (bs_db st') s"
proof -
  have "store_holds api st' s"
    using RestoreSnapshot_has [OF assms(1,3,4)] RestoreSnapshot_formatted [OF assms(1)] assms(2)
    by (simp add: store_holds_def bolt_holds_def)
  then show ?thesis by (rule store_holds_file) simp
qed

end

lemma Apply_FormatVersion: "Apply s e = Inr s' \<Longrightarrow> snap_FormatVersion s' = snap_FormatVersion s"
  by (erule Apply_Inr) (simp add: snap_Sequence_applyPayload)

lemma apply_all_FormatVersion: "apply_all s log = Inr s' \<Longrightarrow> snap_FormatVersion s' = snap_FormatVersion s"
  by (induction log arbitrary: s) (auto split: sum.splits dest: Apply_FormatVersion)

lemma store_FormatVersion:
  assumes "store_holds api st s" and "snap_Sequence s + 1 \<noteq> 0"
  shows "snap_FormatVersion s = 1"
proof -
  obtain sn log where l: "load_tx api (bs_db st) = Inr sn"
    and a: "apply_all (case sn of None \<Rightarrow> NewState | Some b \<Rightarrow> b) log = Inr s"
    using assms by (auto simp: store_holds_def bolt_holds_def bolt_has_def Let_def)
  have "snap_FormatVersion (case sn of None \<Rightarrow> NewState | Some b \<Rightarrow> b) = 1"
    using l load_tx_Restore [of api "bs_db st"] by (auto simp: NewState_def Restore_Inr split: option.splits)
  with apply_all_FormatVersion [OF a] show ?thesis by simp
qed

lemma bolt_backup_text:
  assumes "bbolt_laws api" and "file_holds api db s" and "snap_Sequence s + 1 \<noteq> 0"
    and "bf_backend fl = ''pvc''" and "cw_opened w (bf_data fl) = Inr db" and "bf_output fl \<noteq> ''-''"
    and "\<forall>temporary. wa_create (cw_write w) = Inr temporary \<longrightarrow> temporary \<noteq> bf_output fl"
    and "backup_run api w (Some fl) fs = Some (r, fs')" and "cr_Code r = 0"
  shows "fmlookup fs' (bf_output fl) = Some (Export s ''pvc'' (cw_now w)) \<and> snap_FormatVersion s = 1"
proof -
  obtain st encoded st1 where st: "bolt_Open api (bf_data fl) (Inr db) = Inr st"
    and c: "Capture (bolt_Store api) (cw_ctx w) (cw_polls w) ''pvc'' (cw_now w) st = (Inr encoded, st1)"
    and d: "deliver w ''riquet-backup'' ''write'' (bf_output fl) (''backup written to '' @ bf_output fl @ nl) encoded fs = (r, fs')"
    using assms(4,5,8,9)
    by (auto simp: backup_run_def backup_open_def fails_def split: sum.splits option.splits prod.splits elim!: map_sum_InrE)
      (metis fst_conv prod.collapse)+
  have holds: "store_holds api st s" by (rule bbolt_laws.Open_holds [OF assms(1) st assms(2)])
  from c obtain s' where s': "recoverState (bolt_Store api) (cw_ctx w) (cw_polls w) st = (Inr s', st1)"
    "encoded = Export s' ''pvc'' (cw_now w)" by (rule Capture_recover)
  have "s' = s" by (rule recoverState_holds [OF assms(1) holds assms(3) s'(1)])
  moreover have "writeAtomically (cw_write w) (bf_output fl) encoded fs = (None, fs')"
    using d assms(6,9) by (auto simp: deliver_def fails_def split: option.splits prod.splits)
  ultimately show ?thesis
    using writeAtomically_success [OF _ assms(7)] s'(2) store_FormatVersion [OF holds assms(3)] by simp
qed

lemma bolt_restore_holds:
  assumes "bbolt_laws api" and "\<forall>b k. bb_Get api db b k = None"
    and "rf_backend fl = ''pvc''" and "cw_opened w (rf_data fl) = Inr db" and "rf_snapshot fl \<noteq> ''-''"
    and "fmlookup fs (rf_snapshot fl) = Some text" and "Decode text = Inr e"
    and "snapshot_utf8 (bk_Snapshot e)" and "snap_Sequence (bk_Snapshot e) + 1 \<noteq> 0"
    and "restore_run api p sched w k (Some fl) fs = Some (r, Some (BoltTarget st))" and "cr_Code r = 0"
  shows "file_holds api (bs_db st) (bk_Snapshot e)"
proof -
  obtain st0 where st0: "bolt_Open api (rf_data fl) (Inr db) = Inr st0"
    and b: "backup_Restore (bolt_Store api) (cw_ctx w) e st0 = (None, st)"
    using assms(3-7,10,11) by (auto simp: restore_run_def restore_text_def restore_open_def fails_def
        map_prod_def split: if_splits sum.splits option.splits prod.splits elim!: map_sum_InrE)
  have "file_holds api db NewState" using assms(2) by (simp add: file_holds_def)
  from bbolt_laws.Open_holds [OF assms(1) st0 this] have "store_holds api st0 NewState" .
  moreover have "bolt_RestoreSnapshot api (cw_ctx w) (bk_Snapshot e) st0 = (None, st)"
    using b by (auto simp: backup_Restore_def bolt_Store_def split: if_splits)
  ultimately show ?thesis using assms(8,9) by (intro bbolt_laws.restored_file_holds [OF assms(1)])
qed

text \<open>C22: A backup brings a registry back: if \<open>riquet-backup\<close> exits with 0 on a database file and
  \<open>riquet-restore\<close> then exits with 0 on its output and an empty database file, a server that comes up on
  that file publishes exactly the registry of the first one.\<close>

theorem backup_restore_serves_same_registry:
  assumes "bbolt_laws api" and "lifetimes lib err_text api config db s" and "snap_Sequence s + 1 \<noteq> 0"
    and "bf_backend bf = ''pvc''" and "cw_opened bw (bf_data bf) = Inr db" and "bf_output bf \<noteq> ''-''"
    and "time_ok (cw_now bw)" and "valid_utf8 (cw_now bw)" and "cw_now bw \<noteq> zero_time"
    and "\<forall>temporary. wa_create (cw_write bw) = Inr temporary \<longrightarrow> temporary \<noteq> bf_output bf"
    and "backup_run api bw (Some bf) fs = Some (br, fs1)" and "cr_Code br = 0"
    and "\<forall>b k. bb_Get api empty_db b k = None" and "rf_backend rf = ''pvc''"
    and "cw_opened rcw (rf_data rf) = Inr empty_db" and "rf_snapshot rf = bf_output bf"
    and "restore_run api p sched rcw k (Some rf) fs1 = Some (rr, Some (BoltTarget st))" and "cr_Code rr = 0"
    and "rw_opened rw (data_path (run_config config')) = Inr (bs_db st)" and "rw_arrivals rw = []"
    and "run_up lib' err_text' api config' rw = Inr (n, server)"
  shows "srv_state server = s"
proof -
  have holds: "file_holds api db s" and inv: "registry_inv s" using lifetimes_hold [OF assms(2,1)] by simp_all
  then have s: "snapshot_utf8 s" "state_ok s" by (simp_all add: registry_inv_def)
  have written: "fmlookup fs1 (bf_output bf) = Some (Export s ''pvc'' (cw_now bw))" and f: "snap_FormatVersion s = 1"
    using bolt_backup_text [OF assms(1) holds assms(3-6,10-12)] by simp_all
  have "valid_utf8 ''pvc''" by (simp add: valid_utf8_ascii_list)
  from Decode_Export [OF s f assms(7-9) this] obtain e where
    e: "Decode (Export s ''pvc'' (cw_now bw)) = Inr e" "bk_Snapshot e = s" by blast
  have "file_holds api (bs_db st) s"
    using bolt_restore_holds [OF assms(1,13-15) _ _ e(1) _ _ assms(17,18)] written assms(3,6,16) e(2) s(1) by simp
  then show ?thesis by (rule start_publishes [OF assms(1) _ assms(3,19-21)])
qed

end
