(* ===== verification/Walkthrough.thy ===== *)
theory Walkthrough
  imports Machine_Behaviour Backup
begin

text \<open>
  A small registry to try the guarantees on: an empty registry in which a schema is registered
  under the subject \<open>orders\<close>, and the registry with that schema already stored, in which it is
  deleted, reconfigured and referred to. Digests stay symbolic: no witness depends on their value.
\<close>

section \<open>The fixture\<close>

definition demo_machine :: "unit Machine" where
  "demo_machine = NewMachine NewState None None ()"

definition demo_registration :: RegisterCommand where
  "demo_registration = \<lparr>rc_OperationID = ''op'', rc_Subject = ''orders'', rc_Identity = ''id'',
     rc_Type = ''AVRO'', rc_Definition = ''string'', rc_References = [], rc_RequestedID = 0,
     rc_RequestedVersion = 0, rc_Timestamp = 0\<rparr>"

definition demo_schema :: Schema where
  "demo_schema = \<lparr>sch_ID = 1, sch_GUID = ''guid'', sch_Identity = ''id'', sch_Type = ''AVRO'',
     sch_Definition = ''string'', sch_References = []\<rparr>"

definition demo_version :: "bool \<Rightarrow> SubjectVersion" where
  "demo_version deleted = \<lparr>sv_Subject = ''orders'', sv_Version = 1, sv_SchemaID = 1, sv_Timestamp = 0,
     sv_Sequence = 1, sv_Deleted = deleted, sv_Permanent = False\<rparr>"

definition demo_state :: "bool \<Rightarrow> State" where
  "demo_state deleted = NewState\<lparr>snap_Sequence := 1, snap_NextSchemaID := 2,
     snap_Schemas := fmupd 1 demo_schema fmempty, snap_IdentityToID := fmupd ''id'' 1 fmempty,
     snap_Subjects := fmupd ''orders'' [demo_version deleted] fmempty\<rparr>"

definition stored_machine :: "bool \<Rightarrow> unit Machine" where
  "stored_machine deleted = NewMachine (demo_state deleted) None None ()"

lemmas demo_defs = demo_machine_def demo_registration_def demo_schema_def demo_version_def
  demo_state_def stored_machine_def NewMachine_def

lemma stored_versions [simp]:
  "versions_of (demo_state d) u = (if u = ''orders'' then [demo_version d] else [])"
  by (simp add: demo_defs versions_of_def)

lemma stored_sequence [simp]: "snap_Sequence (demo_state d) = 1"
  by (simp add: demo_state_def)

lemma small_int64 [simp]: "(1::int64) \<le> 2" "(1::int64) < 2"
  by (simp_all add: int64_eval)

lemma stored_inv [simp]: "registry_inv (demo_state d)"
proof -
  have "state_ok (demo_state d)"
    by (simp add: state_ok_def demo_defs NewState_def CompatibilityLevel_Valid_def Mode_Valid_def
        fmpred_iff versions_ok_def)
  moreover have "ids_ok (demo_state d)"
    by (simp add: ids_ok_def demo_defs NewState_def fmpred_iff)
  moreover have "sequences_ok (demo_state d)"
    by (auto simp: sequences_ok_def stored_sequence demo_version_def split: if_splits)
  moreover have "snapshot_utf8 (demo_state d)"
    by (auto simp: snapshot_utf8_def demo_defs NewState_def fmpred_iff coerce_Schema_def
        valid_utf8_ascii_list split: if_splits)
  ultimately show ?thesis by (simp add: registry_inv_def)
qed

text \<open>A machine without a store commits whatever it can apply.\<close>

lemma demo_commit:
  assumes "exec ctx c (NewMachine s None None st) = commitApply ctx e r (NewMachine s None None st)"
    and "issued s c e r" and "registry_inv s" and "command_utf8 c" and "applicable s c"
  shows "exec ctx c (NewMachine s None None st) = (Inr r, snd (exec ctx c (NewMachine s None None st)))"
    and "m_state (snd (exec ctx c (NewMachine s None None st))) \<noteq> s"
    and "Apply s e = Inr (m_state (snd (exec ctx c (NewMachine s None None st))))"
proof -
  from issued_applies [OF assms(2-5)] obtain s' where s': "Apply s e = Inr s'" by blast
  have "exec ctx c (NewMachine s None None st) = (Inr r, (NewMachine s None None st)\<lparr>m_store := st, m_state := s'\<rparr>)"
    unfolding assms(1) by (simp add: commitApply_def NewMachine_def s')
  then show "exec ctx c (NewMachine s None None st) = (Inr r, snd (exec ctx c (NewMachine s None None st)))"
    and "m_state (snd (exec ctx c (NewMachine s None None st))) \<noteq> s"
    and "Apply s e = Inr (m_state (snd (exec ctx c (NewMachine s None None st))))"
    using Apply_sequence_less [OF s'] s' by auto
qed

section \<open>A registration\<close>

definition demo_registered :: "unit Machine" where
  "demo_registered = snd (Register None demo_registration demo_machine)"

lemma demo_plan:
  "exec None (CRegister demo_registration) demo_machine =
     commitApply None (newEnvelope 1 ''op'' TransitionSchemaRegistered
       (enc_registration (planned_registration NewState demo_registration 1))
       (planned_result NewState demo_registration 1)) (planned_result NewState demo_registration 1) demo_machine"
  by (simp add: Register_def retried_def ResultFor_def planRegister_def plan_new_def demo_machine_def
      NewMachine_def NewState_def versions_of_def demo_registration_def validSchemaType_def
      EffectiveMode_def SubjectMode_def choose_id_def nextVersion_def planned_registration_def
      planned_result_def planned_version_def EffectiveCompatibility_def SubjectCompatibility_def
      compatibilitySchemas_def Versions_def Let_def)

lemma demo_issued:
  "issued NewState (CRegister demo_registration) (newEnvelope 1 ''op'' TransitionSchemaRegistered
     (enc_registration (planned_registration NewState demo_registration 1))
     (planned_result NewState demo_registration 1)) (planned_result NewState demo_registration 1)"
  using issued.register [of NewState demo_registration 1]
  by (simp add: demo_registration_def NewState_def may_register_def validSchemaType_def
      EffectiveMode_def SubjectMode_def choose_id_def versions_of_def)

lemma demo_utf8 [simp]: "command_utf8 (CRegister demo_registration)" "valid_utf8 ''orders''"
  by (simp_all add: demo_registration_def valid_utf8_ascii_list)

lemma demo_applicable: "applicable NewState (CRegister demo_registration)"
  by (simp add: applicable_def planned_version_def nextVersion_def demo_registration_def NewState_def
      versions_of_def max_int64_def int64_of_def int64_eval valid_utf8_ascii_list)

lemma demo_register:
  "Register None demo_registration demo_machine = (Inr (planned_result NewState demo_registration 1), demo_registered)"
  "m_state demo_registered \<noteq> m_state demo_machine"
  using demo_commit(1,2) [OF demo_plan [unfolded demo_machine_def] demo_issued NewState_inv demo_utf8(1) demo_applicable]
  by (simp_all add: demo_registered_def demo_machine_def NewMachine_def)

section \<open>Witnesses: registration\<close>

lemma demo_empty [simp]:
  "m_state demo_machine = NewState" "versions_of NewState u = []" "retried NewState op = None"
  "EffectiveMode NewState u = ModeReadWrite" "Versions NewState u b = []" "ResultFor NewState op = None"
  by (simp_all add: demo_machine_def NewMachine_def NewState_def versions_of_def retried_def ResultFor_def
      EffectiveMode_def SubjectMode_def Versions_def sort_slice_def)

lemma demo_empty_maps [simp]:
  "snap_Schemas NewState = fmempty" "snap_IdentityToID NewState = fmempty" "snap_NextSchemaID NewState = 1"
  "snap_Sequence NewState = 0"
  by (simp_all add: NewState_def)

lemma demo_runs: "runs demo_machine demo_registered"
  by (rule runs.step [OF runs.start demo_utf8(1), of None]) (simp add: demo_register(1))

definition demo_envelope :: Envelope where
  "demo_envelope = newEnvelope 1 ''op'' TransitionSchemaRegistered
     (enc_registration (planned_registration NewState demo_registration 1))
     (planned_result NewState demo_registration 1)"

lemma demo_applied: "Apply NewState demo_envelope = Inr (m_state demo_registered)"
  using demo_commit(3) [OF demo_plan [unfolded demo_machine_def] demo_issued NewState_inv demo_utf8(1) demo_applicable]
  by (simp add: demo_registered_def demo_machine_def demo_envelope_def)

lemma demo_fields [simp]:
  "rc_Subject demo_registration = ''orders''" "rc_Identity demo_registration = ''id''"
  "rc_RequestedID demo_registration = 0" "rc_RequestedVersion demo_registration = 0"
  "rc_OperationID demo_registration = ''op''" "rc_References demo_registration = []"
  by (simp_all add: demo_registration_def)

lemma demo_result [simp]:
  "res_Version (planned_result NewState demo_registration 1) = 1"
  "res_SchemaID (planned_result NewState demo_registration 1) = 1"
  by (simp_all add: planned_result_def planned_version_def nextVersion_def int64_eval)

theorem Register_read_back_witness:
  "\<exists>item schema. Lookup (m_state demo_registered) ''orders'' 1 False = (item, schema, True)
     \<and> sv_SchemaID item = 1 \<and> sch_Identity schema = ''id''
     \<and> fmlookup (snap_IdentityToID (m_state demo_registered)) ''id'' = Some 1"
  using Register_read_back [OF _ demo_utf8(1) _ _ demo_register(1)] by auto

theorem Register_version_fresh_witness:
  "\<exists>item. versions_of (m_state demo_registered) ''orders'' = [item] \<and> sv_Version item = 1"
  using Register_version_fresh [OF _ demo_utf8(1) _ demo_register] by auto

theorem Register_id_witness:
  "fmlookup (snap_IdentityToID NewState) ''id'' = None \<and> snap_NextSchemaID NewState = 1
     \<and> (1::int64) < snap_NextSchemaID (m_state demo_registered)"
  using Register_id [OF _ demo_utf8(1) _ _ demo_register(1)] by simp

theorem operation_retry_idempotent_witness:
  "exec None (CRegister demo_registration) demo_registered =
     (Inr (planned_result NewState demo_registration 1), demo_registered)"
  using operation_retry_idempotent [of None "CRegister demo_registration" demo_machine _ demo_registered None]
    demo_register by simp

theorem exec_error_keeps_state_witness:
  "m_state (snd (exec None (CDeleteSubject \<lparr>ds_OperationID = '''', ds_Subject = ''orders'', ds_Permanent = False\<rparr>)
     demo_machine)) = NewState"
proof -
  let ?c = "CDeleteSubject \<lparr>ds_OperationID = '''', ds_Subject = ''orders'', ds_Permanent = False\<rparr>"
  have "exec None ?c demo_machine =
      (Inl (domainError ErrorNotFound ''subject'' ''%s'' [AStr ''orders'']), snd (exec None ?c demo_machine))"
    by (simp add: DeleteSubject_def Let_def)
  from exec_error_keeps_state [OF this] show ?thesis by simp
qed

theorem runs_registry_inv_witness: "registry_inv (m_state demo_registered)"
  using runs_registry_inv [OF demo_runs] by simp

theorem snapshot_roundtrip_witness:
  "unmarshal_Snapshot (marshal_Snapshot (m_state demo_registered)) = Some (m_state demo_registered)"
  by (rule snapshot_roundtrip [OF demo_runs [unfolded demo_machine_def]])

theorem commands_never_corrupt_witness:
  "let c = demo_registration\<lparr>rc_Subject := ''''\<rparr>; out = exec None (CRegister c) demo_machine in
     refusal (projl (fst out)) \<and> snd out = demo_machine"
proof -

  let ?c = "CRegister (demo_registration\<lparr>rc_Subject := []\<rparr>)"
  have "command_utf8 ?c" using demo_utf8(1) by simp
  moreover have "headroom NewState ?c" "\<not> misaddressed ?c"
    by (simp_all add: headroom_def misaddressed_def demo_registration_def NewState_def versions_of_def nextVersion_def max_int64_def
        int64_of_def int64_eval)
  moreover have "exec None ?c demo_machine = (Inl (projl (fst (exec None ?c demo_machine))), snd (exec None ?c demo_machine))"
    by (simp add: Register_def planRegister_def)
  ultimately have "refusal (projl (fst (exec None ?c demo_machine))) \<and> snd (exec None ?c demo_machine) = demo_machine
      \<or> (\<exists>e cause st. m_commit demo_machine None e (m_store demo_machine) = (Some cause, st)
          \<and> snd (exec None ?c demo_machine) = demo_machine\<lparr>m_store := st\<rparr>
          \<and> projl (fst (exec None ?c demo_machine)) =
              DomainErr ErrorStorage ''transition'' ''durable commit failed'' [] (Some cause))"
    using commands_never_corrupt [of demo_machine ?c None "projl (fst (exec None ?c demo_machine))" "snd (exec None ?c demo_machine)"]
    by simp
  then show ?thesis by (simp add: demo_machine_def NewMachine_def Let_def)
qed

theorem no_dangling_references_witness: "references_ok (m_state demo_registered)"
  using no_dangling_references [of None "CRegister demo_registration" demo_machine _ demo_registered] demo_register(1)
  by (simp add: references_match_def references_ok_def fmran'_def)

theorem followers_converge_witness:
  "follow [demo_envelope, demo_envelope] demo_machine = (None, demo_machine\<lparr>m_state := m_state demo_registered\<rparr>)"
  using followers_converge [of demo_machine "[demo_envelope]" "[]" "m_state demo_registered" "[demo_envelope]" "[]"]
  by (simp add: demo_applied)

theorem transitions_append_only_witness:
  "history_extends NewState (m_state demo_registered) \<and> snap_Sequence (m_state demo_registered) = 1"
  using transitions_append_only [of NewState "[demo_envelope]"]
  by (simp add: demo_applied validate_None_iff)

section \<open>Witnesses: deletion, configuration and queries\<close>

lemma stored_entries [simp]: "entries (demo_state d) = [(''orders'', [demo_version d])]"
  by (simp add: entries_def demo_state_def sorted_list_of_fmap_def sorted_list_of_fset.rep_eq)

lemma stored_lookup [simp]:
  "m_state (stored_machine d) = demo_state d" "retried (demo_state d) op = None"
  "EffectiveMode (demo_state d) u = ModeReadWrite" "ReferencedBy (demo_state d) u v = []"
  "fmlookup (snap_Schemas (demo_state d)) 1 = Some demo_schema"
proof -
  show "fmlookup (snap_Schemas (demo_state d)) 1 = Some demo_schema"
    by (simp add: demo_state_def)
  then have "references_of (demo_state d) (demo_version d) = []"
    by (simp add: references_of_def demo_version_def demo_schema_def)
  then show "ReferencedBy (demo_state d) u v = []"
    by (simp add: ReferencedBy_def ReferencedBy_over_def sort_slice_def)
qed (simp_all add: stored_machine_def NewMachine_def demo_state_def NewState_def retried_def ResultFor_def
      EffectiveMode_def SubjectMode_def)

lemma stored_Lookup [simp]:
  "Lookup (demo_state d) ''orders'' 1 b = (if b \<or> \<not> d then (demo_version d, demo_schema, True)
     else (zero_SubjectVersion, zero_Schema, False))"
  by (simp add: Lookup_def visible_def active_def demo_version_def)

lemma stored_applicable: "applicable (demo_state d) c" if "\<forall>x. c \<noteq> CRegister x"
  using that by (cases c) (simp_all add: applicable_def)

definition purge_version :: DeleteVersionCommand where
  "purge_version = \<lparr>dv_OperationID = '''', dv_Subject = ''orders'', dv_Version = 1, dv_Permanent = True\<rparr>"

lemma purge_version_deletes:
  shows "DeleteVersion None purge_version (stored_machine True) =
      (Inr (zero_Result\<lparr>res_Version := 1\<rparr>), snd (DeleteVersion None purge_version (stored_machine True)))"
    and "m_state (snd (DeleteVersion None purge_version (stored_machine True))) \<noteq> demo_state True"
proof -
  let ?r = "zero_Result\<lparr>res_Version := 1\<rparr>"
  let ?e = "newEnvelope (snap_Sequence (demo_state True) + 1) '''' TransitionVersionDeleted
     (enc_deleteVersion \<lparr>dvt_Subject = ''orders'', dvt_Version = 1, dvt_Permanent = True\<rparr>) ?r"
  have plan: "exec None (CDeleteVersion purge_version) (NewMachine (demo_state True) None None ()) =
      commitApply None ?e ?r (NewMachine (demo_state True) None None ())"
    by (simp add: DeleteVersion_def purge_version_def Let_def demo_version_def NewMachine_def)
  have i: "issued (demo_state True) (CDeleteVersion purge_version) ?e ?r"
    using issued.delete_version [of "demo_state True" purge_version "demo_version True" demo_schema ?r]
    by (simp add: purge_version_def demo_version_def)
  have "command_utf8 (CDeleteVersion purge_version)" by (simp add: purge_version_def)
  from demo_commit(1,2) [OF plan i stored_inv this stored_applicable]
  show "DeleteVersion None purge_version (stored_machine True) =
      (Inr ?r, snd (DeleteVersion None purge_version (stored_machine True)))"
    and "m_state (snd (DeleteVersion None purge_version (stored_machine True))) \<noteq> demo_state True"
    by (simp_all add: stored_machine_def)
qed

theorem DeleteVersion_effect_witness:
  "versions_of (m_state (snd (DeleteVersion None purge_version (stored_machine True)))) ''orders'' =
     [(demo_version True)\<lparr>sv_Permanent := True\<rparr>]"
proof -
  have "state_ok (demo_state True)" using stored_inv [of True] by (simp add: registry_inv_def)
  with DeleteVersion_effect [OF _ _ purge_version_deletes(1)] purge_version_deletes(2)
  show ?thesis by (simp add: purge_version_def demo_version_def)
qed

definition remove_subject :: DeleteSubjectCommand where
  "remove_subject = \<lparr>ds_OperationID = '''', ds_Subject = ''orders'', ds_Permanent = False\<rparr>"

lemma stored_Versions [simp]: "Versions (demo_state d) ''orders'' b = (if b \<or> \<not> d then [1] else [])"
  by (simp add: Versions_def visible_def active_def demo_version_def sort_slice_def)

lemma remove_subject_deletes:
  shows "DeleteSubject None remove_subject (stored_machine False) =
      (Inr (zero_Result\<lparr>res_Versions := [1]\<rparr>), snd (DeleteSubject None remove_subject (stored_machine False)))"
    and "m_state (snd (DeleteSubject None remove_subject (stored_machine False))) \<noteq> demo_state False"
proof -
  let ?r = "zero_Result\<lparr>res_Versions := [1]\<rparr>"
  let ?e = "newEnvelope (snap_Sequence (demo_state False) + 1) '''' TransitionSubjectDeleted
     (enc_deleteSubject \<lparr>dst_Subject = ''orders'', dst_Versions = [1], dst_Permanent = False\<rparr>) ?r"
  have plan: "exec None (CDeleteSubject remove_subject) (NewMachine (demo_state False) None None ()) =
      commitApply None ?e ?r (NewMachine (demo_state False) None None ())"
    by (simp add: DeleteSubject_def remove_subject_def Let_def NewMachine_def)
  have i: "issued (demo_state False) (CDeleteSubject remove_subject) ?e ?r"
    using issued.delete_subject [of "demo_state False" remove_subject ?r]
    by (simp add: remove_subject_def)
  have "command_utf8 (CDeleteSubject remove_subject)" by (simp add: remove_subject_def)
  from demo_commit(1,2) [OF plan i stored_inv this stored_applicable]
  show "DeleteSubject None remove_subject (stored_machine False) =
      (Inr ?r, snd (DeleteSubject None remove_subject (stored_machine False)))"
    and "m_state (snd (DeleteSubject None remove_subject (stored_machine False))) \<noteq> demo_state False"
    by (simp_all add: stored_machine_def)
qed

theorem DeleteSubject_effect_witness:
  "versions_of (m_state (snd (DeleteSubject None remove_subject (stored_machine False)))) ''orders'' = [demo_version True]"
proof -
  have "state_ok (demo_state False)" using stored_inv [of False] by (simp add: registry_inv_def)
  with DeleteSubject_effect [OF _ _ remove_subject_deletes(1)] remove_subject_deletes(2)
  show ?thesis by (simp add: remove_subject_def demo_version_def mark_def)
qed

theorem readonly_refuses_witness:
  "\<exists>err. exec None (CRegister demo_registration)
       (NewMachine (NewState\<lparr>snap_GlobalMode := ModeReadOnly\<rparr>) None None ()) =
     (Inl err, NewMachine (NewState\<lparr>snap_GlobalMode := ModeReadOnly\<rparr>) None None ())
     \<and> (CategoryOf err = ErrorReadOnly \<or> CategoryOf err = ErrorInvalid)"
  by (rule readonly_refuses)
    (simp_all add: NewMachine_def NewState_def EffectiveMode_def SubjectMode_def retried_def ResultFor_def)

lemma demo_configure:
  fixes level :: string
  assumes "CompatibilityLevel_Valid level"
  shows "exec None (CSetCompatibility '''' \<lparr>sc_Subject = ''orders''\<rparr> level) demo_machine =
      (Inr zero_Result, snd (exec None (CSetCompatibility '''' \<lparr>sc_Subject = ''orders''\<rparr> level) demo_machine))"
    and "m_state (snd (exec None (CSetCompatibility '''' \<lparr>sc_Subject = ''orders''\<rparr> level) demo_machine)) \<noteq> NewState"
proof -
  let ?c = "CSetCompatibility '''' \<lparr>sc_Subject = ''orders''\<rparr> level"
  have "exec None ?c (NewMachine NewState None None ()) =
      commitApply None (newEnvelope (snap_Sequence NewState + 1) '''' TransitionCompatibilitySet
        (enc_compatibility \<lparr>ct_Scope = \<lparr>sc_Subject = ''orders''\<rparr>, ct_Level = level\<rparr>) zero_Result) zero_Result
        (NewMachine NewState None None ())"
    using simpleMutation_commit [of "NewMachine NewState None None ()" "''''" None TransitionCompatibilitySet
        "enc_compatibility \<lparr>ct_Scope = \<lparr>sc_Subject = ''orders''\<rparr>, ct_Level = level\<rparr>"] assms
    by (simp add: SetCompatibility_def NewMachine_def)
  from demo_commit(1,2) [OF this issued.set_compatibility [OF assms] NewState_inv]
  show "exec None ?c demo_machine = (Inr zero_Result, snd (exec None ?c demo_machine))"
    and "m_state (snd (exec None ?c demo_machine)) \<noteq> NewState"
    by (simp_all add: demo_machine_def applicable_def)
qed

theorem configuration_effect_witness:
  "EffectiveCompatibility (m_state (snd (exec None
     (CSetCompatibility '''' \<lparr>sc_Subject = ''orders''\<rparr> ''FULL'') demo_machine))) ''orders'' = ''FULL''"
proof -
  have "CompatibilityLevel_Valid ''FULL''" by (simp add: CompatibilityLevel_Valid_def)
  note c = demo_configure [OF this]
  from configuration_effect [OF _ _ c(1)] c(2) show ?thesis by simp
qed

theorem queries_order_free_witness:
  "VersionsForID (demo_state False) 1 = [demo_version False] \<and> ReferencedBy (demo_state False) ''orders'' 1 = []"
proof (rule queries_order_free)
  have "state_ok (demo_state False)" using stored_inv [of False] by (simp add: registry_inv_def)
  then show "validate (demo_state False) = None" by (simp add: validate_None_iff)
  show "mset [(''orders'', [demo_version False])] = mset (entries (demo_state False))" by simp
  have "references_of (demo_state False) (demo_version False) = []"
    by (simp add: references_of_def demo_version_def demo_schema_def)
  then show "mset [] = mset (filter (\<lambda>i. active i \<and> list_ex (\<lambda>r. ref_Subject r = ''orders'' \<and> ref_Version r = 1)
      (references_of (demo_state False) i)) (items [(''orders'', [demo_version False])]))"
    by simp
  show "mset [demo_version False] =
      mset (filter (\<lambda>i. sv_SchemaID i = 1 \<and> active i) (items [(''orders'', [demo_version False])]))"
    by (simp add: active_def demo_version_def)
qed simp_all

theorem operation_id_not_utf8_witness:
  "let e = newEnvelope 1 [CHR 0xFF] TransitionModeDeleted
       (enc_mode \<lparr>mt_Scope = \<lparr>sc_Subject = ''orders''\<rparr>, mt_Mode = ''''\<rparr>) zero_Result in
   Validate e = None \<and> (\<exists>e'. unmarshal_Envelope (marshal_Envelope e) = Some e' \<and> checksum_text e' \<noteq> checksum_text e)"
proof -
  let ?e = "newEnvelope 1 [CHR 0xFF] TransitionModeDeleted
       (enc_mode \<lparr>mt_Scope = \<lparr>sc_Subject = ''orders''\<rparr>, mt_Mode = ''''\<rparr>) zero_Result"
  have v: "Validate ?e = None" by (simp add: Validate_newEnvelope)
  have "payload_ok ?e" by (simp add: payload_ok_def)
  moreover have "\<not> valid_utf8 (env_OperationID ?e)"
    by (simp add: valid_utf8.simps(2) rune_width_def lead_width_def Let_def)
  ultimately show ?thesis using operation_id_not_utf8 [OF v] v by (simp add: Let_def) blast
qed

section \<open>Witnesses: the bbolt store and backups\<close>

definition empty_file :: memdb where
  "empty_file = (\<lambda>_. fmempty)"

definition demo_store :: "memdb BoltStore" where
  "demo_store = projr (bolt_Open mem_api ''registry.db'' (Inr empty_file))"

lemma demo_store_open: "bolt_Open mem_api ''registry.db'' (Inr empty_file) = Inr demo_store"
  by (simp add: demo_store_def bolt_Open_def update_def open_tx_def mem_api_def empty_file_def)

lemma demo_store_has: "bolt_has mem_api demo_store NewState"
  by (rule mem.Open_empty_has [OF demo_store_open]) (simp add: mem_api_def empty_file_def)

definition durable_machine :: "memdb BoltStore Machine" where
  "durable_machine = NewMachine NewState (Some (bolt_Commit mem_api)) None demo_store"

definition durable_registered :: "memdb BoltStore Machine" where
  "durable_registered = snd (exec None (CRegister demo_registration) durable_machine)"

lemma durable_sequence: "snap_Sequence (m_state durable_registered) + 1 \<noteq> 0"
proof -
  have "exec None (CRegister demo_registration) durable_machine =
      (fst (exec None (CRegister demo_registration) durable_machine), durable_registered)"
    by (simp add: durable_registered_def)
  then show ?thesis
  proof (cases rule: exec_state_cases)
    case same
    then show ?thesis by (simp add: durable_machine_def NewMachine_def)
  next
    case (moved e r st)
    from Apply_Sequence [OF moved(2)] show ?thesis by (simp add: durable_machine_def NewMachine_def)
  qed
qed

theorem bolt_recovers_published_state_witness:
  "recoverState (bolt_Store mem_api) None (\<lambda>_. None) (m_store durable_registered) =
     (Inr (m_state durable_registered), m_store durable_registered)"
proof (rule bolt_recovers_published_state [OF mem.bbolt_laws_axioms demo_store_open _ _ durable_sequence])
  show "runs (NewMachine NewState (Some (bolt_Commit mem_api)) None demo_store) durable_registered"
    unfolding durable_machine_def [symmetric] durable_registered_def
    by (rule runs.step [OF runs.start demo_utf8(1), of None]) (rule prod.collapse [symmetric])
qed (simp add: mem_api_def empty_file_def)

theorem bolt_commit_sequencing_witness:
  "\<exists>err st'. bolt_Commit mem_api None (newEnvelope 2 '''' ''k'' JNull zero_Result) demo_store = (err, st')
     \<and> bs_db st' = bs_db demo_store \<and> err \<noteq> None"
proof -
  obtain err st' where c: "bolt_Commit mem_api None (newEnvelope 2 '''' ''k'' JNull zero_Result) demo_store = (err, st')"
    by fastforce
  from bolt_commit_sequencing [OF mem.bbolt_laws_axioms demo_store_has c] c show ?thesis by auto
qed

definition restored_store :: "memdb BoltStore" where
  "restored_store = snd (bolt_RestoreSnapshot mem_api None (demo_state False) demo_store)"

lemma mem_restores:
  assumes "state_ok s" and "snap_FormatVersion s = 1"
  shows "bolt_RestoreSnapshot mem_api None s demo_store = (None, snd (bolt_RestoreSnapshot mem_api None s demo_store))"
proof -
  have "Restore s = Inr s" using assms by (simp add: Restore_Inr)
  moreover have "readSequence (bb_Get mem_api (bs_db demo_store) metaBucket sequenceKey) = 0" and "\<not> bs_closed demo_store"
    using bolt_has_readSequence [OF demo_store_has] demo_store_has by (simp_all add: bolt_has_def)
  moreover have "bs_db demo_store transitionsBucket = fmempty" "fmlookup (bs_db demo_store metaBucket) snapshotKey = None"
    by (simp_all add: demo_store_def bolt_Open_def update_def open_tx_def mem_api_def empty_file_def)
  ultimately have "\<exists>tx. restore_tx mem_api s (bs_db demo_store) = Inr tx"
    by (simp add: restore_tx_def mem_api_def sorted_list_of_fmap_def sorted_list_of_fset.rep_eq)
  with \<open>Restore s = Inr s\<close> \<open>\<not> bs_closed demo_store\<close>
  show ?thesis by (auto simp: bolt_RestoreSnapshot_def update_def mem_api_def recordError_def)
qed

lemma demo_restores: "bolt_RestoreSnapshot mem_api None (demo_state False) demo_store = (None, restored_store)"
  unfolding restored_store_def
  using stored_inv [of False] by (intro mem_restores) (simp_all add: registry_inv_def demo_state_def NewState_def)

lemma demo_time: "time_ok ''2025-01-31T23:59:59Z''" "valid_utf8 ''2025-01-31T23:59:59Z''" "''2025-01-31T23:59:59Z'' \<noteq> zero_time"
  by (auto simp: zero_time_def valid_utf8_ascii_list time_ok_def two_digits_def is_digit_def nat_of_digits_def days_in_def
      frac_zone_ok_def zone_ok_def digit_val_def)

lemma stored_utf8: "snapshot_utf8 (demo_state False)"
  using stored_inv [of False] by (simp add: registry_inv_def)

theorem bolt_snapshots_recover_witness:
  "recoverState (bolt_Store mem_api) None (\<lambda>_. None) restored_store = (Inr (demo_state False), restored_store)"
  using bolt_snapshots_recover [OF mem.bbolt_laws_axioms stored_utf8 _ disjI1 [OF demo_restores]] by simp

theorem backup_roundtrip_witness:
  "\<exists>text e. Capture (bolt_Store mem_api) None (\<lambda>_. None) ''riquet'' ''2025-01-31T23:59:59Z'' restored_store =
       (Inr text, restored_store)
     \<and> Decode text = Inr e"
proof -
  have "recoverState (bolt_Store mem_api) None (\<lambda>_. None) restored_store = (Inr (demo_state False), restored_store)"
    by (rule mem.recover_has, rule mem.RestoreSnapshot_has [OF demo_restores stored_utf8]) simp
  from backup_roundtrip [OF mem.bbolt_laws_axioms this stored_inv _ _ demo_time, of "''riquet''"]
  show ?thesis by (auto simp: demo_state_def NewState_def valid_utf8_ascii_list)
qed

end
