(* ===== verification/Kafka_Topic.thy ===== *)
theory Kafka_Topic
  imports Kafka_Store
begin

text \<open>
  \<open>internal/storage/kafka/topic.go\<close>: creating the state topic and checking that it is one the
  store can rely on. The administration requests go to the broker, which is a record of functions
  over its state; an error code is the error it stands for.
\<close>

record create_request =
  cq_Topic :: string
  cq_NumPartitions :: int
  cq_ReplicationFactor :: int
  cq_Configs :: "(string \<times> string) list"
  cq_TimeoutMillis :: int

record metadata_partition =
  mp_Partition :: int
  mp_Error :: "go_error option"

record metadata_topic =
  mt_Error :: "go_error option"
  mt_Partitions :: "metadata_partition list"

record described_resource =
  dr_Error :: "go_error option"
  dr_Configs :: "(string \<times> string option) list"

record 'k admin =
  ad_CreateTopics :: "create_request \<Rightarrow> 'k \<Rightarrow> (go_error + go_error option list) \<times> 'k"
  ad_Metadata :: "string \<Rightarrow> 'k \<Rightarrow> (go_error + metadata_topic list) \<times> 'k"
  ad_DescribeConfigs :: "string \<Rightarrow> string list \<Rightarrow> 'k \<Rightarrow> (go_error + described_resource list) \<times> 'k"

definition cleanupPolicyCompact :: string where "cleanupPolicyCompact = ''compact''"

definition createTopic :: "'k admin \<Rightarrow> Options \<Rightarrow> 'k \<Rightarrow> go_error option \<times> 'k" where
  "createTopic a options k =
     (case ad_CreateTopics a \<lparr>cq_Topic = ko_Topic options, cq_NumPartitions = 1,
             cq_ReplicationFactor = ko_ReplicationFactor options,
             cq_Configs = [(''cleanup.policy'', cleanupPolicyCompact), (''retention.ms'', ''-1'')],
             cq_TimeoutMillis = 30000\<rparr> k of
        (Inl err, k') \<Rightarrow> (Some (FmtErr ''create Kafka state topic: %w'' [] (Some err)), k')
      | (Inr topics, k') \<Rightarrow>
          (case topics of
             [code] \<Rightarrow>
               (case code of
                  Some err \<Rightarrow>
                    if errors_Is err ''TOPIC_ALREADY_EXISTS'' then (None, k')
                    else (Some (FmtErr ''create Kafka state topic %q: %w'' [AStr (ko_Topic options)] (Some err)), k')
                | None \<Rightarrow> (None, k'))
           | _ \<Rightarrow> (Some (FmtErr ''kafka returned no state-topic creation result'' [] None), k')))"

text \<open>The map of the configured values: the last entry of a name wins, a nil value is skipped, an
  absent name reads as the empty string.\<close>

definition config_value :: "(string \<times> string option) list \<Rightarrow> string \<Rightarrow> string" where
  "config_value configs name =
     foldl (\<lambda>v (n, x). case x of Some y \<Rightarrow> if n = name then y else v | None \<Rightarrow> v) '''' configs"

definition validateTopicConfigs :: "'k admin \<Rightarrow> string \<Rightarrow> 'k \<Rightarrow> go_error option \<times> 'k" where
  "validateTopicConfigs a topic k =
     (case ad_DescribeConfigs a topic [''cleanup.policy'', ''retention.ms''] k of
        (Inl err, k') \<Rightarrow> (Some (FmtErr ''describe Kafka state topic configuration: %w'' [] (Some err)), k')
      | (Inr resources, k') \<Rightarrow>
          (case resources of
             [resource] \<Rightarrow>
               (case dr_Error resource of
                  Some err \<Rightarrow> (Some (FmtErr ''describe Kafka state topic %q: %w'' [AStr topic] (Some err)), k')
                | None \<Rightarrow>
                    let policy = config_value (dr_Configs resource) ''cleanup.policy'';
                        retention = config_value (dr_Configs resource) ''retention.ms''
                    in if policy \<noteq> cleanupPolicyCompact
                       then (Some (FmtErr ''kafka state topic %q cleanup.policy must be compact, got %q''
                              [AStr topic, AStr policy] None), k')
                       else if retention \<noteq> ''-1''
                       then (Some (FmtErr ''kafka state topic %q retention.ms must be -1, got %q''
                              [AStr topic, AStr retention] None), k')
                       else (None, k'))
           | _ \<Rightarrow> (Some (FmtErr ''kafka returned no state-topic configuration'' [] None), k')))"

definition validate_metadata :: "string \<Rightarrow> metadata_topic list \<Rightarrow> go_error option" where
  "validate_metadata topic topics =
     (case topics of
        [t] \<Rightarrow>
          (case mt_Error t of
             Some err \<Rightarrow> Some (FmtErr ''kafka state topic %q: %w'' [AStr topic] (Some err))
           | None \<Rightarrow>
               (case mt_Partitions t of
                  [p] \<Rightarrow>
                    if mp_Partition p \<noteq> topicPartition
                    then Some (FmtErr ''kafka state topic %q must have exactly one partition'' [AStr topic] None)
                    else (case mp_Error p of
                       Some err \<Rightarrow> Some (FmtErr ''kafka state topic %q partition: %w'' [AStr topic] (Some err))
                     | None \<Rightarrow> None)
                | _ \<Rightarrow> Some (FmtErr ''kafka state topic %q must have exactly one partition'' [AStr topic] None)))
      | _ \<Rightarrow> Some (FmtErr ''kafka state topic %q metadata was not returned'' [AStr topic] None))"

definition provisionAndValidateTopic :: "'k admin \<Rightarrow> Options \<Rightarrow> 'k \<Rightarrow> go_error option \<times> 'k" where
  "provisionAndValidateTopic a options k =
     (case (if ko_AutoCreateTopic options then createTopic a options k else (None, k)) of
        (Some err, k1) \<Rightarrow> (Some err, k1)
      | (None, k1) \<Rightarrow>
          (case ad_Metadata a (ko_Topic options) k1 of
             (Inl err, k2) \<Rightarrow> (Some (FmtErr ''read Kafka state topic metadata: %w'' [] (Some err)), k2)
           | (Inr topics, k2) \<Rightarrow>
               (case validate_metadata (ko_Topic options) topics of
                  Some err \<Rightarrow> (Some err, k2)
                | None \<Rightarrow> validateTopicConfigs a (ko_Topic options) k2)))"

text \<open>A topic is accepted only as the store needs it: the broker described it with exactly one
  partition, number 0, without errors, with compaction as its cleanup policy and without a
  retention limit, which would delete transitions.\<close>

theorem accepted_topic_keeps_transitions:
  assumes "provisionAndValidateTopic a options k = (None, k')"
  shows "\<exists>k1 k2 t p resource. ad_Metadata a (ko_Topic options) k1 = (Inr [t], k2)
    \<and> mt_Error t = None \<and> mt_Partitions t = [p] \<and> mp_Partition p = 0 \<and> mp_Error p = None
    \<and> ad_DescribeConfigs a (ko_Topic options) [''cleanup.policy'', ''retention.ms''] k2 = (Inr [resource], k')
    \<and> dr_Error resource = None \<and> config_value (dr_Configs resource) ''cleanup.policy'' = ''compact''
    \<and> config_value (dr_Configs resource) ''retention.ms'' = ''-1''"
proof -
  from assms obtain k1 k2 topics where m: "ad_Metadata a (ko_Topic options) k1 = (Inr topics, k2)"
    and v: "validate_metadata (ko_Topic options) topics = None"
    and c: "validateTopicConfigs a (ko_Topic options) k2 = (None, k')"
    by (auto simp: provisionAndValidateTopic_def split: prod.splits option.splits sum.splits)
  from v obtain t p where "topics = [t]" "mt_Error t = None" "mt_Partitions t = [p]" "mp_Partition p = 0" "mp_Error p = None"
    by (auto simp: validate_metadata_def split: list.splits option.splits if_splits)
  moreover from c obtain resource where
    "ad_DescribeConfigs a (ko_Topic options) [''cleanup.policy'', ''retention.ms''] k2 = (Inr [resource], k')"
    "dr_Error resource = None" "config_value (dr_Configs resource) ''cleanup.policy'' = ''compact''"
    "config_value (dr_Configs resource) ''retention.ms'' = ''-1''"
    by (auto simp: validateTopicConfigs_def Let_def cleanupPolicyCompact_def
        split: prod.splits sum.splits list.splits option.splits if_splits)
  ultimately show ?thesis using m by blast
qed

end
