(* ===== verification/Kafka_Walkthrough.thy ===== *)
theory Kafka_Walkthrough
  imports Walkthrough Kafka_Coordinator Kafka_Topic
begin

text \<open>
  The registration of the walkthrough through Kafka: one replica commits it under the lease it
  was elected with, another replays it.
\<close>

section \<open>The fixture\<close>

definition demo_options :: Options where
  "demo_options = \<lparr>ko_Brokers = [''broker:9092''], ko_Topic = ''state'', ko_ClientID = ''riquet'',
     ko_TransactionalID = ''riquet-state'', ko_ReplicationFactor = 1, ko_AutoCreateTopic = False,
     ko_TransactionTimeout = 1, ko_OperationTimeout = 1, ko_RequireLeadership = True, ko_MaxReadyLag = 0\<rparr>"

definition demo_record :: kafka_record where
  "demo_record = \<lparr>kr_Offset = 0, kr_Key = transitionKey (env_Sequence demo_envelope),
     kr_Value = Some (marshal_Envelope demo_envelope), kr_Control = False\<rparr>"

definition demo_batch :: "kafka_record list \<Rightarrow> fetch_partition" where
  "demo_batch rs = \<lparr>fp_Topic = ''state'', fp_Partition = 0, fp_LastStableOffset = 0, fp_Records = rs\<rparr>"

definition demo_fetch :: "kafka_record list \<Rightarrow> fetches" where
  "demo_fetch rs = \<lparr>fx_Errors = [], fx_Partitions = [demo_batch rs]\<rparr>"

lemma demo_envelope_ok:
  "Validate demo_envelope = None" "payload_ok demo_envelope" "envelope_utf8 demo_envelope" "env_Sequence demo_envelope = 1"
proof -
  note facts = issued_facts [OF demo_issued] issued_envelope_utf8 [OF demo_issued NewState_inv demo_utf8(1)]
  show "payload_ok demo_envelope" "envelope_utf8 demo_envelope" "env_Sequence demo_envelope = 1"
    using facts by (simp_all add: demo_envelope_def)
  show "Validate demo_envelope = None" by (simp add: demo_envelope_def Validate_newEnvelope)
qed

lemma demo_value_record:
  "value_record demo_record (transitionKey (env_Sequence demo_envelope)) (marshal_Envelope demo_envelope)"
  by (simp add: demo_record_def value_record_def)

lemma demo_registered_sequence: "snap_Sequence (m_state demo_registered) = 1"
  using Apply_Sequence [OF demo_applied] by simp

lemma demo_published: "published demo_options [demo_record] (m_state demo_registered)"
  using published.commit [OF published.empty_topic demo_applied demo_envelope_ok(2,3) _ demo_value_record, of demo_options]
  by (simp add: demo_registered_sequence)

lemma demo_batches: "batches_of (ko_Topic demo_options) [demo_record] [demo_batch [demo_record]]"
  "batches_of (ko_Topic demo_options) [demo_record] [demo_batch [], demo_batch [demo_record]]"
  by (simp_all add: batches_of_def demo_batch_def demo_options_def)

section \<open>Witnesses: replay\<close>

theorem kafka_recovers_published_state_witness:
  "\<exists>st. apply_partitions [demo_batch [demo_record]] (new_KafkaStore demo_options) = (None, st)
     \<and> recoverState (kafka_Store (\<lambda>_ _ st. (None, st)) (\<lambda>_ _ st. (None, st))) None (\<lambda>_. None) st =
         (Inr (m_state demo_registered), st)"
  using kafka_recovers_published_state [OF demo_published demo_batches(1)] by blast

theorem replicas_agree_witness:
  "kafka_content (snd (apply_partitions [demo_batch [demo_record]] (new_KafkaStore demo_options))) =
   kafka_content (snd (apply_partitions [demo_batch [], demo_batch [demo_record]] (new_KafkaStore demo_options)))"
  using replicas_agree [OF demo_batches prod.collapse [symmetric] prod.collapse [symmetric]] by blast


section \<open>Witnesses: elections\<close>

definition demo_announcement :: primaryAnnouncement where
  "demo_announcement = \<lparr>pa_FormatVersion = 1, pa_Holder = ''a'', pa_Epoch = 1, pa_Address = ''http://a''\<rparr>"

definition announcement_record :: kafka_record where
  "announcement_record = \<lparr>kr_Offset = 0, kr_Key = primaryRecordKey,
     kr_Value = Some (print_json (enc_primaryAnnouncement demo_announcement)), kr_Control = False\<rparr>"

definition waiting_store :: KafkaStore where
  "waiting_store = (new_KafkaStore demo_options)\<lparr>ks_ready := True, ks_consuming := True\<rparr>"

lemma waiting_store_inv [simp]: "kafka_inv waiting_store"
  by (simp add: kafka_inv_def waiting_store_def new_KafkaStore_def)

theorem kafka_consumption_append_only_witness:
  "kafka_extends waiting_store (fold happen [Polled (demo_fetch [demo_record]), Closed] waiting_store)"
  using kafka_consumption_append_only [OF waiting_store_inv] by blast

definition demo_activation :: activation where
  "demo_activation = \<lparr>av_committed = Inr 0, av_catchup = [],
     av_schedule = \<lparr>sd_waits = [], sd_during = [], sd_wakeups = [Changed [Polled (demo_fetch [announcement_record])]]\<rparr>\<rparr>"

lemma apply_announcement:
  "applyRecord announcement_record st = Inr (st\<lparr>ks_primary := demo_announcement\<rparr>)" if "pa_Epoch (ks_primary st) \<le> 1"
  using that unmarshal_primaryAnnouncement [of demo_announcement]
  by (simp add: applyRecord_def announcement_record_def apply_primary_record_def validate_primary_def
      demo_announcement_def valid_utf8_ascii_list)

definition elected_store :: KafkaStore where
  "elected_store = waiting_store\<lparr>ks_primary := demo_announcement, ks_position := 1,
     ks_lease := \<lparr>le_Holder = ''a'', le_Epoch = 1\<rparr>\<rparr>"

definition empty_broker :: mem_broker where
  "empty_broker = \<lparr>mb_log = [], mb_pending = []\<rparr>"

definition elected_broker :: mem_broker where
  "elected_broker = \<lparr>mb_log = [(primaryRecordKey, print_json (enc_primaryAnnouncement demo_announcement))],
     mb_pending = [(primaryRecordKey, print_json (enc_primaryAnnouncement demo_announcement))]\<rparr>"

lemma mem_transaction:
  "kafka_transaction mem_producer None waits rs k = Some (None, k\<lparr>mb_log := mb_log k @ rs, mb_pending := rs\<rparr>)"
  by (simp add: kafka_transaction_def initializeProducer.simps mem_producer_def)

lemma announcement_fields: "kr_Offset announcement_record = 0" "\<not> kr_Control announcement_record"
  by (simp_all add: announcement_record_def)

lemma poll_announcement:
  "happen (Polled (demo_fetch [announcement_record])) waiting_store = waiting_store\<lparr>ks_primary := demo_announcement, ks_position := 1\<rparr>"
  by (simp add: waiting_store_def consumeLoop_turn_def demo_fetch_def demo_batch_def applyFetches_def apply_partition_def
      new_KafkaStore_def demo_options_def Let_def apply_announcement zero_primaryAnnouncement_def announcement_fields)

lemma demo_elected:
  "activatePrimary mem_producer demo_activation None ''a'' ''http://a'' (empty_broker, waiting_store) =
     Some (Inr \<lparr>le_Holder = ''a'', le_Epoch = 1\<rparr>, elected_broker, elected_store)"
proof -
  have catch: "CatchUp (Inr 0) [] waiting_store = Some (None, waiting_store)"
    by (simp add: CatchUp_def wait_until.simps waiting_store_def new_KafkaStore_def validateReplay_def
        lastSequence_def sequence_range_def sorted_list_of_fmap_def sorted_list_of_fset.rep_eq)
  have epoch: "pa_Epoch (ks_primary waiting_store) = 0"
    by (simp add: waiting_store_def new_KafkaStore_def zero_primaryAnnouncement_def)
  have other: "ks_primary waiting_store \<noteq> demo_announcement" "\<not> ks_closed waiting_store"
    by (simp_all add: waiting_store_def new_KafkaStore_def zero_primaryAnnouncement_def demo_announcement_def)
  have wait: "waitForPrimary [Changed [Polled (demo_fetch [announcement_record])]] demo_announcement waiting_store =
      Some (None, waiting_store\<lparr>ks_primary := demo_announcement, ks_position := 1\<rparr>)"
    unfolding waitForPrimary_def
    by (subst wait_until.simps, simp add: other epoch poll_announcement del: happen.simps, subst wait_until.simps, simp)
  have ann: "\<lparr>pa_FormatVersion = 1, pa_Holder = ''a'', pa_Epoch = 1, pa_Address = ''http://a''\<rparr> = demo_announcement"
    by (simp add: demo_announcement_def)
  show ?thesis
    by (simp add: activatePrimary_def demo_activation_def catch epoch ann wait mem_transaction Let_def
        elected_store_def elected_broker_def empty_broker_def)
qed

theorem election_raises_epoch_witness:
  "ownsLease \<lparr>le_Holder = ''a'', le_Epoch = 1\<rparr> elected_store \<and> checkLeadership elected_store = None"
  using election_raises_epoch [OF demo_elected waiting_store_inv] by blast

definition demo_coordinator :: Coordinator where
  "demo_coordinator = \<lparr>co_options = \<lparr>cg_GroupID = ''g'', cg_Advertisement = ''http://a'', cg_SessionTimeout = 1,
     cg_AcquireTimeout = 1\<rparr>, co_client = False, co_assigned = False, co_released = False, co_lease = zero_Lease\<rparr>"

definition elected_coordinator :: Coordinator where
  "elected_coordinator = demo_coordinator\<lparr>co_client := True, co_assigned := True,
     co_lease := \<lparr>le_Holder = ''a'', le_Epoch = 1\<rparr>\<rparr>"

lemma demo_NewCoordinator:
  "NewCoordinator (Some waiting_store) \<lparr>cg_GroupID = ''g'', cg_Advertisement = ''http://a'', cg_SessionTimeout = 1,
     cg_AcquireTimeout = 1\<rparr> = Inr demo_coordinator"
  by (simp add: NewCoordinator_def demo_coordinator_def)

abbreviation demo_lease_a :: Lease where
  "demo_lease_a \<equiv> \<lparr>le_Holder = ''a'', le_Epoch = 1\<rparr>"

definition elected_replica :: "acquire_at \<Rightarrow> mem_broker replica" where
  "elected_replica at = \<lparr>rp_acquire = at, rp_coordinator = elected_coordinator, rp_due = [], rp_broker = elected_broker,
     rp_store = elected_store\<rparr>"

text \<open>The replica becomes the owner of the partition; a call of \<open>Acquire\<close> looks, activates and takes the
  lease over.\<close>

definition assigned_replica :: "mem_broker replica" where
  "assigned_replica = new_replica (demo_coordinator\<lparr>co_assigned := True\<rparr>) empty_broker waiting_store"

lemma demo_assigned: "replica_step mem_producer (new_replica demo_coordinator empty_broker waiting_store) assigned_replica"
proof -
  have "assigned_replica = group_section (Assigned [(''state'', [0])]) (new_replica demo_coordinator empty_broker waiting_store)"
    by (simp add: assigned_replica_def new_replica_def then_deactivates_def hasStatePartition_def setAssigned_def
        waiting_store_def new_KafkaStore_def demo_options_def)
  then show ?thesis by (metis replica_step.group)
qed

lemma demo_Acquire:
  "Acquire None ''a'' (rp_coordinator assigned_replica) = (Looking ''a'', demo_coordinator\<lparr>co_assigned := True, co_client := True\<rparr>)"
  by (simp add: Acquire_def start_group_def assigned_replica_def new_replica_def demo_coordinator_def)

definition called_replica :: "acquire_at \<Rightarrow> mem_broker replica" where
  "called_replica at = assigned_replica\<lparr>rp_acquire := at,
     rp_coordinator := demo_coordinator\<lparr>co_assigned := True, co_client := True\<rparr>\<rparr>"

definition activated_replica :: "mem_broker replica" where
  "activated_replica = (called_replica (Activated ''a'' demo_lease_a))\<lparr>rp_broker := elected_broker, rp_store := elected_store\<rparr>"

definition demo_input :: acquire_input where
  "demo_input = \<lparr>ai_activation = demo_activation, ai_ctx = None, ai_deadline = None\<rparr>"

lemma demo_sections:
  "replica_step mem_producer (called_replica (Looking ''a'')) (called_replica (Activating ''a''))"
  "replica_step mem_producer (called_replica (Activating ''a'')) activated_replica"
  "replica_step mem_producer activated_replica (elected_replica (Returned (Inr demo_lease_a)))"
proof -
  show "replica_step mem_producer (called_replica (Looking ''a'')) (called_replica (Activating ''a''))"
    by (rule replica_step.acquires [of _ demo_input])
      (simp add: acquire_section_def acquire_look_def called_replica_def demo_coordinator_def zero_Lease_def)
  show "replica_step mem_producer (called_replica (Activating ''a'')) activated_replica"
    by (rule replica_step.acquires [of _ demo_input])
      (simp add: acquire_section_def called_replica_def demo_coordinator_def demo_input_def assigned_replica_def new_replica_def
        demo_elected activated_replica_def)
  show "replica_step mem_producer activated_replica (elected_replica (Returned (Inr demo_lease_a)))"
    by (rule replica_step.acquires [of _ demo_input])
      (simp add: acquire_section_def acquire_take_def activated_replica_def called_replica_def assigned_replica_def new_replica_def
        elected_replica_def elected_coordinator_def demo_coordinator_def)
qed

lemma demo_acquires:
  "(replica_run mem_producer)\<^sup>*\<^sup>* (new_replica demo_coordinator empty_broker waiting_store)
     (elected_replica (Returned (Inr demo_lease_a)))"
proof -
  have "replica_run mem_producer assigned_replica (called_replica (Looking ''a''))"
    using replica_run.calls [OF _ demo_Acquire] by (simp add: called_replica_def assigned_replica_def new_replica_def)
  with demo_assigned demo_sections show ?thesis
    by (meson replica_run.steps converse_rtranclp_into_rtranclp r_into_rtranclp)
qed

lemma elected_leads: "checkLeadership elected_store = None" "ko_RequireLeadership (ks_options elected_store)"
  by (simp_all add: checkLeadership_def elected_store_def demo_announcement_def waiting_store_def new_KafkaStore_def
      demo_options_def)

text \<open>The callback that takes the partition away has left its section and has still to deactivate the
  lease: a commit passes, although the coordinator has no lease any more.\<close>

definition revoked_replica :: "mem_broker replica" where
  "revoked_replica = group_section (Revoked [(''state'', [0])]) (elected_replica (Returned (Inr demo_lease_a)))"

lemma revoked_fields:
  "rp_store revoked_replica = elected_store" "rp_due revoked_replica = [demo_lease_a]"
  "LocalLease (rp_coordinator revoked_replica) = (zero_Lease, False)"
  by (simp_all add: revoked_replica_def elected_replica_def then_deactivates_def setAssigned_def elected_coordinator_def
      hasStatePartition_def elected_store_def waiting_store_def new_KafkaStore_def demo_options_def zero_Lease_def LocalLease_def)

theorem write_authority_witness:
  "LocalLease elected_coordinator = (demo_lease_a, True) \<and> Renew None demo_lease_a (elected_coordinator, elected_store) = None
     \<and> Primary (rp_store revoked_replica) = (demo_lease_a, ''http://a'', True)
     \<and> LocalLease (rp_coordinator revoked_replica) = (zero_Lease, False) \<and> demo_lease_a \<in> set (rp_due revoked_replica)"
proof -
  have none: "ks_lease waiting_store = zero_Lease" by (simp add: waiting_store_def new_KafkaStore_def)
  have lease: "ks_lease elected_store = demo_lease_a" by (simp add: elected_store_def)
  have "(replica_run mem_producer)\<^sup>*\<^sup>* (new_replica demo_coordinator empty_broker waiting_store) revoked_replica"
    unfolding revoked_replica_def
    using demo_acquires replica_run.steps [OF replica_step.group] by (metis rtranclp.rtrancl_into_rtrancl)
  note revoked = write_authority [OF demo_NewCoordinator waiting_store_inv none this refl refl refl,
      unfolded revoked_fields lease, OF elected_leads(2,1)]
  have "pa_Address (ks_primary elected_store) = ''http://a''" by (simp add: elected_store_def demo_announcement_def)
  with revoked write_authority [OF demo_NewCoordinator waiting_store_inv none demo_acquires refl refl refl]
    elected_leads lease revoked_fields
  show ?thesis by (simp add: elected_replica_def)
qed

text \<open>A replica without a lease that consumes the announcement again stays fenced off.\<close>

definition overtaken_store :: KafkaStore where
  "overtaken_store = fold happen [Polled (demo_fetch [announcement_record]), Closed] (elected_store\<lparr>ks_lease := zero_Lease\<rparr>)"

theorem overtaken_primary_is_fenced_witness:
  "kafka_Commit mem_producer \<lparr>sd_waits = [], sd_during = [], sd_wakeups = []\<rparr> None demo_envelope (elected_broker, overtaken_store) =
     Some (Some ErrNotPrimary, elected_broker, overtaken_store)"
proof -
  let ?st = "elected_store\<lparr>ks_lease := zero_Lease\<rparr>" and ?es = "[Polled (demo_fetch [announcement_record]), Closed]"
  have "ko_RequireLeadership (ks_options ?st)" using elected_leads by simp
  moreover have "le_Epoch (ks_lease ?st) < pa_Epoch (ks_primary ?st)"
    by (simp add: zero_Lease_def elected_store_def demo_announcement_def)
  moreover have "\<forall>ev \<in> set ?es. keeps_primary ev"
    by (simp add: keeps_primary_def demo_fetch_def demo_batch_def announcement_record_def)
  ultimately show ?thesis
    unfolding overtaken_store_def by (intro overtaken_primary_is_fenced demo_envelope_ok(1))
qed

section \<open>Witnesses: commits\<close>

definition demo_schedule :: schedule where
  "demo_schedule = \<lparr>sd_waits = [], sd_during = [], sd_wakeups = [Changed [Polled (demo_fetch [demo_record])]]\<rparr>"

lemma elected_empty:
  "ks_items elected_store = fmempty" "\<not> ks_closed elected_store" "ks_consuming elected_store" "lastSequence elected_store = 0"
  by (simp_all add: elected_store_def waiting_store_def new_KafkaStore_def lastSequence_def sorted_list_of_fmap_def
      sorted_list_of_fset.rep_eq)

theorem kafka_commit_completes_witness:
  "\<exists>st'. kafka_Commit mem_producer demo_schedule None demo_envelope (elected_broker, elected_store) =
      Some (None, elected_broker\<lparr>mb_log := mb_log elected_broker @ [(transitionKey 1, marshal_Envelope demo_envelope)],
        mb_pending := [(transitionKey 1, marshal_Envelope demo_envelope)]\<rparr>, st')
     \<and> fmlookup (ks_items st') 1 = Some (marshal_Envelope demo_envelope)"
proof -
  have s: "sd_waits demo_schedule = []" "sd_during demo_schedule = []"
    "sd_wakeups demo_schedule = Changed [Polled (demo_fetch [demo_record])] # []" by (simp_all add: demo_schedule_def)
  have "elected_store = fold happen (sd_during demo_schedule) elected_store" by (simp add: s)
  moreover have "delivers elected_store (demo_fetch [demo_record]) demo_record"
    by (simp add: delivers_def demo_fetch_def demo_batch_def elected_store_def waiting_store_def new_KafkaStore_def
        demo_options_def)
  moreover have "checkSequence (env_Sequence demo_envelope) (marshal_Envelope demo_envelope) elected_store = Inr False"
    by (simp add: checkSequence_def elected_empty demo_envelope_ok(4))
  moreover have "fmlookup (ks_items elected_store) (env_Sequence demo_envelope) = None" by (simp add: elected_empty)
  ultimately show ?thesis
    using kafka_commit_completes [OF demo_envelope_ok(1-3) elected_leads(1) _ mem_transaction _ elected_empty(2,3) _ _
        demo_value_record s(3)] demo_envelope_ok(4) by simp
qed

theorem kafka_commit_safety_witness:
  "\<exists>err k' st'. kafka_Commit mem_producer demo_schedule None demo_envelope (elected_broker, elected_store) = Some (err, k', st')
     \<and> length (mb_log k') \<le> length (mb_log elected_broker) + 1"
proof -
  have seq: "checkSequence (env_Sequence demo_envelope) (marshal_Envelope demo_envelope) elected_store = Inr False"
    by (simp add: checkSequence_def elected_empty demo_envelope_ok(4))
  have wait: "\<exists>st'. waitForTransition (sd_wakeups demo_schedule) 1 (marshal_Envelope demo_envelope) elected_store
      = Some (None, st')"
  proof -
    have "fmlookup (ks_items (happen (Polled (demo_fetch [demo_record])) elected_store)) (env_Sequence demo_envelope)
        = Some (marshal_Envelope demo_envelope)"
      by (rule delivered_item [OF _ demo_value_record demo_envelope_ok(2,3,1) elected_empty(3)])
        (simp_all add: elected_empty delivers_def demo_fetch_def demo_batch_def elected_store_def waiting_store_def
          new_KafkaStore_def demo_options_def)
    then show ?thesis
      unfolding waitForTransition_def demo_schedule_def
      by (simp add: wait_until.simps elected_empty demo_envelope_ok(4) del: happen.simps)
  qed
  then obtain err k' st' where
    c: "kafka_Commit mem_producer demo_schedule None demo_envelope (elected_broker, elected_store) = Some (err, k', st')"
    using demo_envelope_ok(1,4) elected_leads(1) seq
    by (auto simp: kafka_Commit_def mem_transaction demo_schedule_def Let_def)
  from kafka_commit_safety [OF mem_kafka.kafka_transactions_axioms c] c show ?thesis by auto
qed

section \<open>Witnesses: a compacted restore, and the topic\<close>

definition restored_snapshot :: kafka_record where
  "restored_snapshot = \<lparr>kr_Offset = 0, kr_Key = snapshotRecordKey, kr_Value = Some (marshal_Snapshot (demo_state False)),
     kr_Control = False\<rparr>"

definition restored_checkpoint :: kafka_record where
  "restored_checkpoint = \<lparr>kr_Offset = 1, kr_Key = restoreRecordKey,
     kr_Value = Some (print_json (enc_restoreCheckpoint (checkpoint_of (demo_state False)))), kr_Control = False\<rparr>"

theorem compacted_restore_is_rejected_witness:
  "fst (apply_records [restored_snapshot, restored_checkpoint] (new_KafkaStore demo_options)) = None
     \<and> (hex_encode (sha256 (marshal_Snapshot (demo_state False))) = hex_encode (sha256 '''')
        \<or> fst (apply_records [restored_checkpoint, restored_snapshot] (new_KafkaStore demo_options)) =
            Some (FmtErr ''invalid Kafka restore checkpoint'' [] None))"
proof -
  have "state_ok (demo_state False)" using stored_inv [of False] by (simp add: registry_inv_def)
  then have "Restore (demo_state False) = Inr (demo_state False)"
    by (simp add: Restore_Inr demo_state_def NewState_def)
  moreover have "value_record restored_snapshot snapshotRecordKey (marshal_Snapshot (demo_state False))"
    "value_record restored_checkpoint restoreRecordKey (print_json (enc_restoreCheckpoint (checkpoint_of (demo_state False))))"
    by (simp_all add: value_record_def restored_snapshot_def restored_checkpoint_def)
  ultimately show ?thesis
    using compacted_restore_is_rejected [of "demo_state False" restored_snapshot restored_checkpoint demo_options "[restored_snapshot]"]
      stored_utf8 by (simp del: apply_records.simps) blast
qed

definition demo_admin :: "unit admin" where
  "demo_admin = \<lparr>ad_CreateTopics = (\<lambda>_ k. (Inr [None], k)),
     ad_Metadata = (\<lambda>_ k. (Inr [\<lparr>mt_Error = None, mt_Partitions = [\<lparr>mp_Partition = 0, mp_Error = None\<rparr>]\<rparr>], k)),
     ad_DescribeConfigs = (\<lambda>_ _ k. (Inr [\<lparr>dr_Error = None,
       dr_Configs = [(''cleanup.policy'', Some ''compact''), (''retention.ms'', Some ''-1'')]\<rparr>], k))\<rparr>"

theorem accepted_topic_keeps_transitions_witness:
  "\<exists>k1 k2 resource. ad_DescribeConfigs demo_admin ''state'' [''cleanup.policy'', ''retention.ms''] k1 = (Inr [resource], k2)
     \<and> config_value (dr_Configs resource) ''cleanup.policy'' = ''compact''"
proof -
  have "provisionAndValidateTopic demo_admin demo_options () = (None, ())"
    by (simp add: provisionAndValidateTopic_def demo_options_def demo_admin_def validate_metadata_def validateTopicConfigs_def
        config_value_def cleanupPolicyCompact_def)
  from accepted_topic_keeps_transitions [OF this] show ?thesis by (auto simp: demo_options_def)
qed

end
