(* ===== verification/Http_Walkthrough.thy ===== *)
theory Http_Walkthrough
  imports Walkthrough Forwarding Server_Guarantees Security Engine_Common
begin

text \<open>
  A server over the empty registry of \<open>Walkthrough\<close>, with one engine that accepts every schema
  as the same Avro schema, and the guarantees of the HTTP layers tried on it.
\<close>

section \<open>The fixture\<close>

definition demo_engine :: "unit Engine" where
  "demo_engine = \<lparr>en_Type = ''AVRO'',
     en_Parse = (\<lambda>ctx request resolver. Inr \<lparr>p_Type = ''AVRO'', p_Definition = ''string'', p_Canonical = ''string'',
       p_Identity = ''id'', p_References = [], p_Native = ()\<rparr>),
     en_Compatible = (\<lambda>ctx level candidate previous. Inr (True, []))\<rparr>"

definition demo_server :: "(unit, unit) Server" where
  "demo_server = NewServer demo_machine [demo_engine]"

definition demo_request :: "string \<Rightarrow> string list \<Rightarrow> string \<Rightarrow> request" where
  "demo_request m p b = \<lparr>rq_Method = m, rq_Path = p, rq_Escaped = p, rq_RawQuery = '''', rq_Header = [(''X-Request-ID'', ''op'')],
     rq_RemoteAddr = '''', rq_Body = b, rq_Ctx = None, rq_Random = None, rq_Now = 0, rq_PathValues = []\<rparr>"

definition demo_body :: json where
  "demo_body = obj [(''schema'', enc_string ''string'')]"

definition demo_post :: request where
  "demo_post = demo_request ''POST'' [''subjects'', ''orders'', ''versions''] (print_json demo_body)"

lemma demo_raw:
  assumes "name \<noteq> ''schema''"
  shows "raw_field name (print_json demo_body) = []"
proof -
  let ?k = "escape_string ''schema''" and ?v = "escape_string ''string''"
  have body: "print_json demo_body = CHR ''{'' # dquote # ?k @ dquote # CHR '':'' # dquote # ?v @ dquote # ''}''"
    by (simp add: demo_body_def obj_def enc_string_def quote_lit_def)
  have "decode_stream (print_json (JStr ?v) @ ''}'') = Some (JStr ?v, ''}'')"
    by (rule decode_stream_print) simp_all
  then have v: "decode_stream (dquote # ?v @ dquote # ''}'') = Some (JStr ?v, ''}'')" by (simp add: quote_lit_def)
  have members: "raw_members (Suc n) (dquote # ?k @ dquote # CHR '':'' # dquote # ?v @ dquote # ''}'')
      = [(''schema'', dquote # ?v @ [dquote])]" for n
    using v by (simp add: parse_lit_ok skip_ws_def is_ws_def valid_utf8_ascii_list)
  then show ?thesis using assms
    by (simp add: raw_field_def raw_field_in_def body skip_ws_def is_ws_def request_fields_def members [unfolded skip_ws_def])
qed

lemma demo_decoded:
  "decode_schemaRequest (print_json demo_body) = Inr (zero_schemaRequest\<lparr>sr_Schema := ''string''\<rparr>)"
proof -
  have "json_ok demo_body" by (simp add: demo_body_def)
  from decode_stream_print [OF this, of "[]"]
  have d: "decode_stream (print_json demo_body) = Some (demo_body, [])" by simp
  have l: "length (print_json demo_body) \<le> maxRequestBytes"
    by (simp add: demo_body_def obj_def enc_string_def quote_lit_def maxRequestBytes_def escape_string.simps escape_byte_def Let_def)
  have "dec_struct True request_fields demo_body zero_schemaRequest = Some (zero_schemaRequest\<lparr>sr_Schema := ''string''\<rparr>)"
    by (simp add: demo_body_def dec_struct_simps request_fields_def dec_string_def enc_string_def)
  with d l have "decodeJSON (dec_struct True request_fields) zero_schemaRequest (print_json demo_body)
      = Inr (zero_schemaRequest\<lparr>sr_Schema := ''string''\<rparr>)"
    by (simp add: decodeJSON_def skip_ws_def Let_def)
  then show ?thesis by (simp add: decode_schemaRequest_def demo_raw zero_schemaRequest_def)
qed

section \<open>A registration over HTTP\<close>

lemma demo_operation [simp]: "operationID (demo_request m p b) = ''op''" "operationID demo_post = ''op''"
  by (simp_all add: operationID_def demo_post_def demo_request_def)

lemma demo_not_redirected:
  "list_all (\<lambda>x. x \<notin> {'''', ''.'', ''..''}) p \<Longrightarrow> p \<noteq> [] \<Longrightarrow> \<not> redirects (demo_request m p b)"
  by (simp add: redirects_def demo_request_def cleanPath_clean)

lemma demo_server_state [simp]: "srv_machine demo_server = demo_machine" "srv_state demo_server = NewState"
  by (simp_all add: demo_server_def NewServer_def)

lemma demo_identities [simp]: "identities_utf8 demo_server"
  by (auto simp: identities_utf8_def engine_identities_def demo_server_def NewServer_def demo_engine_def
      valid_utf8_ascii_list split: if_splits)

definition demo_served :: "(unit, unit) Server" where
  "demo_served = demo_server\<lparr>srv_machine := demo_registered\<rparr>"

lemma TrimSpace_Nil [simp]: "TrimSpace [] = []"
proof -
  have "trim_runes rs [] = []" for rs
    by (subst trim_runes.simps) (auto simp: HasPrefix_def find_Some_iff split: option.split)
  then show ?thesis by (simp add: TrimSpace_def)
qed

lemma demo_parse:
  "parseRequest demo_server (routed_request demo_post vals) =
     Inr (zero_schemaRequest\<lparr>sr_Schema := ''string'', sr_SchemaType := ''AVRO''\<rparr>,
       \<lparr>p_Type = ''AVRO'', p_Definition = ''string'', p_Canonical = ''string'', p_Identity = ''id'', p_References = [], p_Native = ()\<rparr>)"
  by (simp add: parseRequest_def demo_decoded routed_request_def demo_post_def demo_request_def demo_server_def NewServer_def
      demo_engine_def zero_schemaRequest_def emptyAdvancedField_def set_id_def Let_def)

lemma demo_read_back:
  obtains item schema where "Lookup (m_state demo_registered) ''orders'' 1 True = (item, schema, True)"
proof -
  have "registry_inv (m_state demo_registered)" using exec_inv [of None "CRegister demo_registration" demo_machine] demo_register(1) by simp
  then have ok: "state_ok (m_state demo_registered)" by (simp add: registry_inv_def)
  from registration_reads_back [OF _ demo_utf8(1) _ _ demo_register(1)] obtain item schema
    where "Lookup (m_state demo_registered) ''orders'' 1 False = (item, schema, True)" by auto
  from Lookup_include [OF ok this] show thesis by (rule that)
qed

lemma demo_registers:
  obtains rs where "Handler demo_server demo_post = (rs, demo_served)" and "rs_Status rs = 200"
proof -
  obtain item schema where found: "Lookup (m_state demo_registered) ''orders'' 1 True = (item, schema, True)"
    by (rule demo_read_back)
  let ?q = "routed_request demo_post [(''subject'', ''orders'')]"
  have post: "rq_Method demo_post = ''POST''" "rq_Path demo_post = [''subjects'', ''orders'', ''versions'']"
    by (simp_all add: demo_post_def demo_request_def)
  have clean: "\<not> redirects demo_post" by (simp add: demo_post_def demo_not_redirected)
  have "register demo_server ?q =
      (writeJSON 200 (BJson (enc_schemaResponse (responseForRegistration item schema))), demo_served)"
  proof -
    have "Register (rq_Ctx ?q) \<lparr>rc_OperationID = operationID ?q, rc_Subject = PathValue ?q ''subject'', rc_Identity = ''id'',
        rc_Type = ''AVRO'', rc_Definition = ''string'', rc_References = [], rc_RequestedID = 0, rc_RequestedVersion = 0,
        rc_Timestamp = rq_Now ?q\<rparr> demo_machine = (Inr (planned_result NewState demo_registration 1), demo_registered)"
      using demo_register(1) by (simp add: demo_registration_def)
        (simp add: routed_request_def demo_post_def demo_request_def set_id_def operationID_def HeaderSet_def)
    then show ?thesis
      by (simp add: register_def demo_parse zero_schemaRequest_def found demo_served_def)
  qed
  then have "Handler demo_server demo_post =
      (echo_id ''op'' (writeJSON 200 (BJson (enc_schemaResponse (responseForRegistration item schema)))), demo_served)"
    by (simp add: Handler_routes(1) [OF _ _ clean post, where v = "''1''"])
  then show thesis by (rule that) (simp add: echo_id_def writeJSON_def)
qed

section \<open>Witnesses: the API\<close>

theorem reads_change_nothing_witness:
  "snd (Handler demo_server (demo_request ''GET'' [''subjects'', ''orders'', ''versions'', ''1''] '''')) = demo_server"
  by (rule reads_change_nothing) (simp add: demo_request_def)

definition demo_delete :: request where
  "demo_delete = demo_request ''DELETE'' [''subjects'', ''orders''] ''''"

lemma demo_delete_id [simp]: "operationID demo_delete = ''op''"
  by (simp add: demo_delete_def)

lemma demo_ascii [simp]: "valid_utf8 ''op''" "valid_utf8 ''subjects''" "valid_utf8 ''versions''" "valid_utf8 ''orders''"
  by (simp_all add: valid_utf8_ascii_list)

theorem serve_registry_inv_witness: "registry_inv (srv_state (serve demo_server [demo_post, demo_delete, demo_post]))"
  by (rule serve_registry_inv) simp_all

lemma demo_delete_refused:
  "fst (Handler demo_server demo_delete) =
     echo_id ''op'' (writeDomainError (domainError ErrorNotFound ''subject'' ''%s'' [AStr ''orders'']))"
proof -
  have "\<not> redirects demo_delete" by (simp add: demo_delete_def demo_not_redirected)
  then show ?thesis
    by (simp add: Handler_def mux_def middleware_def)
      (simp add: routes_def method_matches_def demo_delete_def demo_request_def
        deleteSubject_def PathValue_def set_id_def operationID_def DeleteSubject_def queryBool_def Query_Get_def Let_def)
qed

theorem refusal_changes_nothing_witness: "srv_state (snd (Handler demo_server demo_delete)) = NewState"
proof -
  have "rs_Status (fst (Handler demo_server demo_delete)) \<noteq> 200"
    by (simp add: demo_delete_refused echo_id_def writeDomainError_def writeAPIError_def domainError_def)
  moreover have "rq_Path demo_delete = [''subjects'', ''orders'']" by (simp add: demo_delete_def demo_request_def)
  ultimately show ?thesis
    using refusal_changes_nothing [OF _ demo_identities _ _ prod.collapse [symmetric], of demo_delete] by simp
qed

theorem request_retry_safe_witness:
  "snd (Handler (serve demo_served [demo_delete, demo_request ''PUT'' [''mode''] '''']) demo_post)
    = serve demo_served [demo_delete, demo_request ''PUT'' [''mode''] '''']"
proof (rule demo_registers)
  fix rs
  assume post: "Handler demo_server demo_post = (rs, demo_served)"
  have changed: "srv_state demo_served \<noteq> srv_state demo_server" using demo_register(2) by (simp add: demo_served_def)
  show ?thesis by (rule request_retry_safe [OF post changed]) (simp_all add: demo_post_def demo_request_def)
qed

lemma fmt_i64_segment: "fmt_i64 v \<notin> {'''', ''.'', ''..''}"
proof -
  have "ParseInt ''.'' = None" "ParseInt ''..'' = None" by code_simp+
  then show ?thesis using ParseInt_fmt_i64 [of v] fmt_i64_not_latest(2) [of v] by (metis insertE empty_iff option.distinct(1))
qed

theorem registration_read_back_over_http_witness:
  "\<exists>item schema. sch_Identity schema = ''id''
     \<and> fst (Handler demo_served (demo_request ''GET'' [''subjects'', ''orders'', ''versions'', fmt_i64 (sv_Version item)] ''''))
       = ok_response (demo_request ''GET'' [''subjects'', ''orders'', ''versions'', fmt_i64 (sv_Version item)] '''')
           (BJson (enc_schemaResponse (responseFor item schema)))"
proof (rule demo_registers)
  fix rs
  assume "Handler demo_server demo_post = (rs, demo_served)" and "rs_Status rs = 200"
  from registration_read_back_over_http [of demo_server demo_post "''orders''", OF _ _ _ _ _ _ _ _ this] obtain item schema
    where "sch_Identity schema = ''id''" and "\<forall>q. \<not> redirects q \<and> rq_Method q = ''GET'' \<and>
         rq_Path q = [''subjects'', ''orders'', ''versions'', fmt_i64 (sv_Version item)] \<longrightarrow>
         fst (Handler demo_served q) = ok_response q (BJson (enc_schemaResponse (responseFor item schema)))"
    by (auto simp: demo_parse) (auto simp: demo_post_def demo_request_def)
  moreover have "\<not> redirects (demo_request ''GET'' [''subjects'', ''orders'', ''versions'', fmt_i64 (sv_Version item)] '''')"
    using fmt_i64_segment by (intro demo_not_redirected) simp_all
  ultimately show ?thesis by (intro exI [of _ item] exI [of _ schema]) (simp add: demo_request_def)
qed

theorem version_path_bounds_witness:
  "\<exists>v. parseVersionPath (demo_state False) ''orders'' ''latest'' False = Inr v \<and> 1 \<le> v"
proof -
  have "state_ok (demo_state False)" using stored_inv by (simp add: registry_inv_def)
  from version_path_bounds [OF this, of "''orders''" "''latest''" False] show ?thesis
    by (auto simp: Versions_def visible_def demo_version_def sort_slice_def)
qed


section \<open>Witnesses: access\<close>


definition demo_overrides :: Overrides where
  "demo_overrides = \<lparr>ov_PublicAddress = None, ov_DataPath = None, ov_Backend = None\<rparr>"

definition demo_environment :: environment where
  "demo_environment = [''RIQUET_AUTH_MODE'' \<mapsto> ''bearer'', ''RIQUET_AUTH_BEARER_TOKEN'' \<mapsto> ''secret'']"

definition demo_config :: Config where
  "demo_config = Default\<lparr>cf_Auth := (cf_Auth Default)\<lparr>au_Mode := ''bearer'', au_BearerToken := ''secret''\<rparr>\<rparr>"

lemma demo_loads: "Load (\<lambda>_. Inl EOF) (\<lambda>_ c. Inr c) [] '''' (Some demo_environment) demo_overrides = Inr demo_config"
proof -
  have "applyEnvironment demo_environment Default = Inr demo_config"
    by (simp add: applyEnvironment_def env_strings_def env_set_def env_parse_def demo_environment_def demo_config_def Let_def)
  moreover have "Config_Validate demo_config = None"
    by (simp add: Config_Validate_None demo_config_def Default_def validate_auth_def validate_storage_def validate_limits_def
        second_def int64_of_def int64_eval)
  ultimately show ?thesis by (simp add: Load_def demo_overrides_def override_def)
qed

theorem loaded_configuration_closed_witness:
  "rs_Status (fst (public_handler (auth_config demo_config) '''' Handler demo_server demo_post)) = 401"
proof -
  have "no_credentials demo_post" by (simp add: no_credentials_def demo_post_def demo_request_def)
  then show ?thesis
    using loaded_configuration_closed [OF demo_loads, of demo_post "''''" Handler demo_server]
    by (simp add: demo_config_def)
qed

section \<open>Witnesses: forwarding\<close>

definition demo_lease :: Lease where
  "demo_lease = \<lparr>le_Holder = ''a'', le_Epoch = 1\<rparr>"

definition demo_follower :: Forwarder where
  "demo_follower = \<lparr>fw_Authority = \<lparr>au_LocalLease = (demo_lease, False), au_Primary = (\<lambda>_. (demo_lease, ''http://a'', True))\<rparr>,
     fw_Token = ''token'', fw_Retries = 2\<rparr>"

definition demo_primary :: Forwarder where
  "demo_primary = demo_follower\<lparr>fw_Authority := (fw_Authority demo_follower)\<lparr>au_LocalLease := (demo_lease, True)\<rparr>\<rparr>"

definition demo_render :: "body \<Rightarrow> string" where
  "demo_render b = (case b of BJson j \<Rightarrow> encode_body j | BText t \<Rightarrow> t | _ \<Rightarrow> '''')"

lemma demo_forwardable: "forwardable demo_follower demo_lease ''op'' demo_delete"
proof -
  have h: "selectHeaders (rq_Header demo_delete) = fmempty"
    by (simp add: selectHeaders_def select_present_def demo_delete_def demo_request_def)
  have "length (rq_Body (internal_request demo_follower demo_lease ''op'' demo_delete)) \<le> maxMutationBody + 4096"
    by (simp add: internal_request_def enc_mutationRequest_def mutation_message_def h)
      (simp add: demo_delete_def demo_request_def demo_lease_def enc_Lease_def protocolVersion_def URL_Path_def
        omitempty_def enc_string_def obj_def quote_lit_def escape_string.simps escape_byte_def maxMutationBody_def Let_def
        enc_i64_def enc_u64_def fmt_i64_def fmt_int_def fmt_u64_def fmt_nat.simps)
  then show ?thesis
    by (simp add: forwardable_def) (simp add: demo_delete_def demo_request_def isMutation_def segment_plain_def query_plain_def
      validForwardPath_def HasPrefix_def ctl_byte_def URL_Path_def demo_lease_def valid_utf8_ascii_list)
qed

lemma demo_forwarded:
  "fst (Handler demo_server (primary_request demo_follower demo_lease ''op'' demo_delete)) =
     echo_id ''op'' (writeDomainError (domainError ErrorNotFound ''subject'' ''%s'' [AStr ''orders'']))"
proof -
  let ?q = "primary_request demo_follower demo_lease ''op'' demo_delete"
  have h: "selectHeaders (rq_Header demo_delete) = fmempty"
    by (simp add: selectHeaders_def select_present_def demo_delete_def demo_request_def)
  have "rq_Method ?q = ''DELETE''" "rq_Path ?q = [''subjects'', ''orders'']" "rq_RawQuery ?q = ''''" "rq_Ctx ?q = None"
    "map_of (rq_Header ?q) ''X-Request-ID'' = Some ''op''"
    by (simp_all add: primary_request_def forwarded_request_def mutation_message_def internal_request_def
        set_headers_def h internalHop_def Let_def)
      (simp_all add: demo_delete_def demo_request_def)
  moreover have "\<not> redirects (?q\<lparr>rq_Header := h\<rparr>)" for h
    using demo_forwardable escaped_form_clean [of demo_delete]
    by (simp add: redirects_def primary_request_def forwarded_request_def forwardable_def Let_def)
  ultimately show ?thesis
    by (simp add: Handler_def mux_def middleware_def routes_def method_matches_def
      deleteSubject_def PathValue_def set_id_def operationID_def DeleteSubject_def queryBool_def Query_Get_def Let_def)
qed

lemma demo_returnable:
  "returnable demo_render (echo_id ''op'' (writeDomainError (domainError ErrorNotFound ''subject'' ''%s'' [AStr ''orders''])))"
proof -
  have h: "sorted_list_of_fmap (selectResponseHeaders [(''X-Request-ID'', ''op''), (''Content-Type'', vendorContentType)])
      = [(''Content-Type'', vendorContentType), (''X-Request-ID'', ''op'')]"
  proof -
    have "sorted_list_of_fset {|''X-Request-ID'', ''Content-Type''|} = [''Content-Type'', ''X-Request-ID'']"
      by (simp add: sorted_list_of_fset.rep_eq less_char_def)
    then show ?thesis
      by (simp add: selectResponseHeaders_def select_present_def sorted_list_of_fmap_def vendorContentType_def)
  qed
  have "length (encode_body (enc_mutationResponse \<lparr>mp_Status = int64_of 404,
          mp_Headers = selectResponseHeaders [(''X-Request-ID'', ''op''), (''Content-Type'', vendorContentType)], mp_Body = ''''\<rparr>))
      \<le> maxMutationBody + 4096"
    by (simp add: encode_body_def enc_mutationResponse_def enc_map_def h)
      (simp add: omitempty_def enc_string_def obj_def quote_lit_def escape_string.simps escape_byte_def maxMutationBody_def
        vendorContentType_def enc_i64_def fmt_i64_def fmt_int_def fmt_nat.simps int64_of_def int64_eval Let_def)
  then show ?thesis
    by (simp add: returnable_def echo_id_def writeDomainError_def writeAPIError_def domainError_def writeJSON_def HeaderSet_def demo_render_def)
      (simp add: vendorContentType_def valid_utf8_ascii_list)
qed

lemma demo_fields_of:
  "HeaderGet (rq_Header demo_delete) internalHop = []" "HeaderGet (rq_Header demo_delete) ''X-Request-ID'' = ''op''"
  "au_LocalLease (fw_Authority demo_follower) = (demo_lease, False)" "fw_Retries demo_follower = 2"
  "au_Primary (fw_Authority demo_follower) n = (demo_lease, ''http://a'', True)"
  "fw_Token demo_primary = fw_Token demo_follower" "au_LocalLease (fw_Authority demo_primary) = (demo_lease, True)"
  by (simp_all add: demo_follower_def demo_primary_def demo_delete_def demo_request_def internalHop_def)

theorem forwarded_like_direct_witness:
  "rs_Status (fst (servePublic demo_follower demo_render
      (primary_client demo_primary (\<lambda>_. True) demo_render Handler ''http://a'') Handler (demo_server, demo_server) demo_delete)) = 404"
proof -
  let ?rs = "echo_id ''op'' (writeDomainError (domainError ErrorNotFound ''subject'' ''%s'' [AStr ''orders'']))"
  let ?q = "primary_request demo_follower demo_lease ''op'' demo_delete"
  have "Handler demo_server ?q = (?rs, snd (Handler demo_server ?q))"
    by (simp flip: demo_forwarded)
  moreover note demo_returnable
  ultimately have "fst (servePublic demo_follower demo_render
      (primary_client demo_primary (\<lambda>_. True) demo_render Handler ''http://a'') Handler (demo_server, demo_server) demo_delete) =
    \<lparr>rs_Status = rs_Status ?rs, rs_Header = set_headers (selectResponseHeaders (rs_Header ?rs)) [],
        rs_Body = BText (demo_render (rs_Body ?rs))\<rparr>"
    using forwarded_like_direct [where public = Handler and f = demo_follower and lease = demo_lease and opid = "''op''"
      and r = demo_delete and q = ?q
      and address = "''http://a''" and pf = demo_primary and p = demo_server and rs = ?rs and render = demo_render
      and authority_ok = "\<lambda>_. True" and local = Handler and w = demo_server
      and p' = "snd (Handler demo_server ?q)", OF _ demo_forwardable]
    by (simp add: demo_fields_of demo_render_def forward_id_def)
  then show ?thesis by (simp add: echo_id_def writeDomainError_def writeAPIError_def domainError_def)
qed

text \<open>A network that delivers every request and loses every answer.\<close>

definition deaf_client :: "(unit, unit) logged client" where
  "deaf_client a q p = (Inl (Sentinel ''timeout''), snd (receive demo_primary (\<lambda>_. True) demo_render (logging True) p q))"

lemma deaf_forward:
  "forward demo_follower demo_render deaf_client demo_lease address ''op'' demo_delete p =
     (None, snd (logging True p (primary_request demo_follower demo_lease ''op'' demo_delete)))"
  using receive_forwarded [OF demo_forwardable, of demo_primary "logging True" p _ _ "\<lambda>_. True" demo_render, OF _ _ prod.collapse [symmetric]]
  by (simp add: forward_def deaf_client_def demo_fields_of)

lemma deaf_log:
  "snd (snd (attempts demo_follower demo_render deaf_client ''op'' demo_delete i n p)) =
     snd p @ replicate n (True, primary_request demo_follower demo_lease ''op'' demo_delete)"
proof (induction n arbitrary: i p)
  case (Suc n)
  then show ?case by (simp add: demo_fields_of deaf_forward logging_def case_prod_unfold Let_def)
qed simp

definition demo_unnamed :: request where
  "demo_unnamed = demo_delete\<lparr>rq_Header := [], rq_Random := Some ''0123456789abcdef''\<rparr>"

theorem forwarded_at_most_once_witness:
  "\<exists>log s' s'' log'. snd (servePublic demo_follower demo_render deaf_client Handler (demo_server, (demo_server, [])) demo_delete)
       = (demo_server, (s', log))
     \<and> length log = 2 \<and> (\<forall>q. (True, q) \<in> set log \<longrightarrow> operationID q = ''op'') \<and> changes ''op'' demo_server (map snd log) \<le> 1
     \<and> snd (servePublic demo_follower demo_render deaf_client Handler (demo_server, (demo_server, [])) demo_unnamed)
       = (demo_server, (s'', log'))
     \<and> (\<forall>q. (True, q) \<in> set log' \<longrightarrow> operationID q = ''30313233343536373839616263646566'')"
proof -
  have lossy: "lossy demo_primary (\<lambda>_. True) demo_render deaf_client"
    unfolding lossy_def deaf_client_def by (intro allI exI [of _ "[]"] disjI2) (simp add: runs_others_def)
  obtain rs w s' log where run: "servePublic demo_follower demo_render deaf_client Handler (demo_server, (demo_server, [])) demo_delete
      = (rs, (w, (s', log)))" by (metis surj_pair)
  obtain rs'' w'' s'' log'' where run'': "servePublic demo_follower demo_render deaf_client Handler (demo_server, (demo_server, [])) demo_unnamed
      = (rs'', (w'', (s'', log'')))" by (metis surj_pair)
  have ids: "forward_id demo_delete = Some ''op''" "forward_id demo_unnamed = Some ''30313233343536373839616263646566''"
    by (simp add: forward_id_def demo_fields_of, simp add: forward_id_def demo_unnamed_def, code_simp)
  have utf8: "coerce_utf8 ''op'' = ''op''" "coerce_utf8 ''30313233343536373839616263646566'' = ''30313233343536373839616263646566''"
    by (simp_all add: valid_utf8_ascii_list)
  have methods: "isMutation (rq_Method demo_delete)" "isMutation (rq_Method demo_unnamed)"
    "rq_Random demo_delete = None" "rq_Random demo_unnamed = Some ''0123456789abcdef''"
    by (simp_all add: demo_unnamed_def demo_delete_def demo_request_def isMutation_def)
  have "w = demo_server \<and> (\<forall>q. (True, q) \<in> set log \<longrightarrow> operationID q = ''op'') \<and> changes ''op'' demo_server (map snd log) \<le> 1"
    using forwarded_at_most_once [OF methods(1) _ _ lossy run] ids(1) utf8(1) methods(3) by (simp add: demo_fields_of)
  moreover have "w'' = demo_server \<and> (\<forall>q. (True, q) \<in> set log'' \<longrightarrow> operationID q = ''30313233343536373839616263646566'')"
    using forwarded_at_most_once [OF methods(2) _ _ lossy run''] ids(2) utf8(2) methods(4) by (simp add: demo_fields_of)
  moreover have "length log = 2"
  proof -
    have "snd (snd (snd (servePublic demo_follower demo_render deaf_client Handler (demo_server, (demo_server, [])) demo_delete)))
        = replicate 2 (True, primary_request demo_follower demo_lease ''op'' demo_delete)"
      using demo_forwardable ids(1) deaf_log [of 1 2 "(demo_server, [])"]
      by (simp add: servePublic_def forwardable_def demo_fields_of case_prod_unfold Let_def)
    then show ?thesis using run by simp
  qed
  ultimately show ?thesis using run run'' by auto
qed

end
