(* ===== verification/Migration_Walkthrough.thy ===== *)
theory Migration_Walkthrough
  imports Http_Walkthrough Migration_Faithful
begin

text \<open>
  A source whose subject \<open>orders\<close> has a softly deleted first version and the same schema
  registered again as the second: the export succeeds without the second one.
\<close>

definition demo_engines :: "string \<Rightarrow> unit Engine option" where
  "demo_engines t = (if t = ''AVRO'' then Some demo_engine else None)"

definition demo_item :: "int64 \<Rightarrow> bool \<Rightarrow> sourceSchema" where
  "demo_item v d = \<lparr>ss_Subject = ''orders'', ss_Version = v, ss_ID = 1, ss_SchemaType = ''AVRO'', ss_References = [],
     ss_Schema = ''string'', ss_Timestamp = 0, ss_Deleted = d, ss_Metadata = '''', ss_RuleSet = '''', ss_SchemaTags = ''''\<rparr>"

definition demo_source :: Migration.inventory where
  "demo_source = \<lparr>inv_schemas = [demo_item 1 True, demo_item 2 False], inv_globalCompatibility = CompatibilityBackward,
     inv_subjectCompatibility = fmempty, inv_globalMode = ModeReadOnly, inv_subjectModes = fmempty\<rparr>"

section \<open>The replay succeeds\<close>

definition storeless :: "replay \<Rightarrow> u64 \<Rightarrow> bool" where
  "storeless w q \<longleftrightarrow> replay_ok w \<and> m_commit (fst w) = (\<lambda>ctx e x. (None, x)) \<and> snap_Sequence (m_state (fst w)) = q"

lemma storeless_commits:
  assumes "storeless (m, n) q" and "exec ctx c m = commitApply ctx e r m" and "issued (m_state m) c e r"
    and "command_utf8 c" and "applicable (m_state m) c" and "operation_of c = nextOperation k (Suc n)"
  shows "\<exists>m'. exec ctx c m = (Inr r, m') \<and> storeless (m', Suc n) (q + 1) \<and> Apply (m_state m) e = Inr (m_state m')"
proof -
  have inv: "registry_inv (m_state m)" "replay_ok (m, n)" using assms(1) by (simp_all add: storeless_def replay_ok_def)
  from issued_applies [OF assms(3) inv(1) assms(4,5)] obtain s' where s': "Apply (m_state m) e = Inr s'" by blast
  then have ex: "exec ctx c m = (Inr r, m\<lparr>m_state := s'\<rparr>)"
    using assms(1) by (simp add: assms(2) commitApply_def storeless_def)
  moreover have "snap_Sequence s' = q + 1"
    using Apply_sequence_less [OF s'] issued_facts(1) [OF assms(3)] assms(1) by (simp add: storeless_def)
  ultimately show ?thesis
    using replay_step(1) [OF inv(2) ex assms(6,4)] assms(1) s' by (auto simp: storeless_def)
qed

lemma storeless_sets_mode:
  assumes "storeless (m, n) q" and "Mode_Valid mode" and "q + 1 \<noteq> 0"
  shows "\<exists>w'. configure ''mode'' (\<lambda>op. SetMode ctx op scope mode) (m, n) = Inr w' \<and> storeless w' (q + 1)"
proof -
  let ?c = "CSetMode (nextOperation ''mode'' (Suc n)) scope mode"
  have "retried (m_state m) (nextOperation ''mode'' (Suc n)) = None" using assms(1) by (intro replay_fresh) (simp add: storeless_def)
  from simpleMutation_commit [OF this]
  have "exec ctx ?c m = commitApply ctx (newEnvelope (snap_Sequence (m_state m) + 1) (nextOperation ''mode'' (Suc n)) TransitionModeSet
      (enc_mode \<lparr>mt_Scope = scope, mt_Mode = mode\<rparr>) zero_Result) zero_Result m"
    using assms(2) by (simp add: SetMode_def)
  from storeless_commits [OF assms(1) this issued.set_mode [OF assms(2)], of "''mode''"] assms(1,3) nextOperation_utf8
  obtain m' where "exec ctx ?c m = (Inr zero_Result, m')" and s: "storeless (m', Suc n) (q + 1)"
    by (auto simp: applicable_def storeless_def)
  then have "SetMode ctx (nextOperation ''mode'' (Suc n)) scope mode m = (None, m')"
    by (cases "SetMode ctx (nextOperation ''mode'' (Suc n)) scope mode m") (auto simp: of_error_def split: option.splits)
  with s show ?thesis by (simp add: configure_def)
qed

lemma storeless_sets_level:
  assumes "storeless (m, n) q" and "CompatibilityLevel_Valid l" and "q + 1 \<noteq> 0"
  shows "\<exists>w'. configure ''config'' (\<lambda>op. SetCompatibility ctx op scope l) (m, n) = Inr w' \<and> storeless w' (q + 1)"
proof -
  let ?c = "CSetCompatibility (nextOperation ''config'' (Suc n)) scope l"
  have "retried (m_state m) (nextOperation ''config'' (Suc n)) = None" using assms(1) by (intro replay_fresh) (simp add: storeless_def)
  from simpleMutation_commit [OF this]
  have "exec ctx ?c m = commitApply ctx (newEnvelope (snap_Sequence (m_state m) + 1) (nextOperation ''config'' (Suc n)) TransitionCompatibilitySet
      (enc_compatibility \<lparr>ct_Scope = scope, ct_Level = l\<rparr>) zero_Result) zero_Result m"
    using assms(2) by (simp add: SetCompatibility_def)
  from storeless_commits [OF assms(1) this issued.set_compatibility [OF assms(2)], of "''config''"] assms(1,3) nextOperation_utf8
  obtain m' where "exec ctx ?c m = (Inr zero_Result, m')" and s: "storeless (m', Suc n) (q + 1)"
    by (auto simp: applicable_def storeless_def)
  then have "SetCompatibility ctx (nextOperation ''config'' (Suc n)) scope l m = (None, m')"
    by (cases "SetCompatibility ctx (nextOperation ''config'' (Suc n)) scope l m") (auto simp: of_error_def split: option.splits)
  with s show ?thesis by (simp add: configure_def)
qed

lemma demo_start: "storeless (NewMachine NewState None None (), 0) 0"
  by (simp add: storeless_def replay_ok_def NewMachine_def) (simp add: NewState_def)

text \<open>The registry after the first command is the empty one in IMPORT mode.\<close>

definition import_state :: "State \<Rightarrow> bool" where
  "import_state s \<longleftrightarrow> snap_Schemas s = fmempty \<and> snap_IdentityToID s = fmempty \<and> snap_Subjects s = fmempty \<and> snap_NextSchemaID s = 1
     \<and> settings s = (ModeImport, fmempty, snap_GlobalCompatibility NewState, fmempty)"

lemma demo_import_mode:
  obtains w where "configure ''mode'' (\<lambda>op. SetMode None op global_scope ModeImport) (NewMachine NewState None None (), 0) = Inr w"
    and "storeless w 1" and "import_state (m_state (fst w))"
proof -
  have "Mode_Valid ModeImport" by (simp add: Mode_Valid_def)
  from storeless_sets_mode [OF demo_start this, of None global_scope] obtain w
    where w: "configure ''mode'' (\<lambda>op. SetMode None op global_scope ModeImport) (NewMachine NewState None None (), 0) = Inr w"
      "storeless w 1" by auto
  have r: "registry w = (registry (NewMachine NewState None None (), 0))\<lparr>snap_GlobalMode := ModeImport\<rparr>"
    using set_mode_replayed [OF w(1)] demo_start by (simp add: storeless_def)
  have "import_state (m_state (fst w))"
    using arg_cong [OF r, of snap_Schemas] arg_cong [OF r, of snap_IdentityToID] arg_cong [OF r, of snap_Subjects]
      arg_cong [OF r, of settings] arg_cong [OF r, of snap_NextSchemaID]
    by (simp add: import_state_def settings_def registry_def NewMachine_def) (simp add: NewState_def)
  with w show thesis by (rule that)
qed

definition demo_parsed :: "unit Parsed" where
  "demo_parsed = \<lparr>p_Type = ''AVRO'', p_Definition = ''string'', p_Canonical = ''string'', p_Identity = ''id'',
     p_References = [], p_Native = ()\<rparr>"

abbreviation demo_command :: "nat \<Rightarrow> int64 \<Rightarrow> bool \<Rightarrow> RegisterCommand" where
  "demo_command n v d \<equiv> import_command n (demo_item v d) demo_parsed"

lemma demo_item_imports:
  "1 \<le> v \<Longrightarrow> Register None (demo_command (Suc n) v d) m = (Inr r, m') \<Longrightarrow>
     import_item None demo_engines (demo_item v d) (m, n) = Inr (m', Suc n)"
proof -
  assume a: "1 \<le> v" "Register None (demo_command (Suc n) v d) m = (Inr r, m')"
  have "en_Parse demo_engine ctx pr resolver = Inr demo_parsed" for ctx pr resolver
    by (simp add: demo_engine_def demo_parsed_def)
  moreover have "demo_engines ''AVRO'' = Some demo_engine" by (simp add: demo_engines_def)
  moreover have "ss_ID (demo_item v d) = 1" "ss_Version (demo_item v d) = v" "ss_Subject (demo_item v d) = ''orders''"
    "ss_Schema (demo_item v d) = ''string''" "ss_SchemaType (demo_item v d) = ''AVRO''" by (simp_all add: demo_item_def)
  ultimately show ?thesis using a by (simp add: import_item_def)
qed

lemma demo_command_fields [simp]:
  "rc_Subject (demo_command n v d) = ''orders''" "rc_Identity (demo_command n v d) = ''id''" "rc_Type (demo_command n v d) = ''AVRO''"
  "rc_Definition (demo_command n v d) = ''string''" "rc_References (demo_command n v d) = []" "rc_RequestedID (demo_command n v d) = 1"
  "rc_RequestedVersion (demo_command n v d) = v" "rc_OperationID (demo_command n v d) = nextOperation ''schema'' n"
  "rc_Timestamp (demo_command n v d) = 0"
  by (simp_all add: import_command_def demo_item_def demo_parsed_def)

lemma demo_first_import:
  assumes "storeless (m, n) q" and "q + 1 \<noteq> 0" and "import_state (m_state m)"
  obtains m' item where "import_item None demo_engines (demo_item 1 True) (m, n) = Inr (m', Suc n)" and "storeless (m', Suc n) (q + 1)"
    and "versions_of (m_state m') ''orders'' = [item]" and "sv_Version item = 1" and "sv_SchemaID item = 1" and "active item"
    and "fmlookup (snap_IdentityToID (m_state m')) ''id'' = Some 1"
    and "settings (m_state m') = (ModeImport, fmempty, snap_GlobalCompatibility NewState, fmempty)"
proof -
  let ?c = "demo_command (Suc n) 1 True" and ?s = "m_state m"
  have inv: "replay_ok (m, n)" "registry_inv ?s" using assms(1) by (simp_all add: storeless_def replay_ok_def)
  have st: "versions_of ?s u = []" "EffectiveMode ?s u = ModeImport" "fmlookup (snap_IdentityToID ?s) i = None"
    "fmlookup (snap_Schemas ?s) k = None" "snap_NextSchemaID ?s = 1" for u i k
    using assms(3) by (simp_all add: import_state_def versions_of_def EffectiveMode_def settings_def)
  have fresh: "retried ?s (nextOperation ''schema'' (Suc n)) = None" using replay_fresh [OF inv(1)] .
  have plan: "planRegister m ?c = Inr (newEnvelope (snap_Sequence ?s + 1) (nextOperation ''schema'' (Suc n)) TransitionSchemaRegistered
      (enc_registration (planned_registration ?s ?c 1)) (planned_result ?s ?c 1), planned_result ?s ?c 1)"
    by (simp add: planRegister_def plan_new_def choose_id_def st Let_def validSchemaType_def planned_registration_def
        planned_result_def planned_version_def)
  have i: "issued ?s (CRegister ?c) (newEnvelope (snap_Sequence ?s + 1) (nextOperation ''schema'' (Suc n)) TransitionSchemaRegistered
      (enc_registration (planned_registration ?s ?c 1)) (planned_result ?s ?c 1)) (planned_result ?s ?c 1)"
    using issued.register [of ?s ?c 1] by (simp add: may_register_def validSchemaType_def st choose_id_def)
  have "exec None (CRegister ?c) m = commitApply None (newEnvelope (snap_Sequence ?s + 1) (nextOperation ''schema'' (Suc n)) TransitionSchemaRegistered
      (enc_registration (planned_registration ?s ?c 1)) (planned_result ?s ?c 1)) (planned_result ?s ?c 1) m"
    using plan fresh issued_facts(4) [OF i] by (simp add: Register_def)
  moreover have utf: "command_utf8 (CRegister ?c)" using nextOperation_utf8 by (simp add: valid_utf8_ascii_list)
  moreover have "applicable ?s (CRegister ?c)"
    using assms(1,2) by (simp add: applicable_def planned_version_def st storeless_def max_int64_def int64_of_def int64_eval valid_utf8_ascii_list)
  ultimately obtain m' where m': "exec None (CRegister ?c) m = (Inr (planned_result ?s ?c 1), m')" "storeless (m', Suc n) (q + 1)"
      and a: "Apply ?s (newEnvelope (snap_Sequence ?s + 1) (nextOperation ''schema'' (Suc n)) TransitionSchemaRegistered
      (enc_registration (planned_registration ?s ?c 1)) (planned_result ?s ?c 1)) = Inr (m_state m')"
    using storeless_commits [OF assms(1) _ i, of None "''schema''"] by auto
  from i a inv(2) utf show thesis
  proof (rule registration_visible)
    fix schema version
    assume "versions_of (m_state m') (rc_Subject ?c) = versions_of ?s (rc_Subject ?c) @ [version]"
      "fmlookup (snap_IdentityToID (m_state m')) (rc_Identity ?c) = Some (res_SchemaID (planned_result ?s ?c 1))"
      "sv_Version version = res_Version (planned_result ?s ?c 1)" "sv_SchemaID version = res_SchemaID (planned_result ?s ?c 1)"
      "active version"
    then show thesis
      using m' settings_kept [OF i a] assms(3) st(1)
      by (intro that [of m' version] demo_item_imports)
        (simp_all add: planned_result_def planned_version_def import_state_def)
  qed (simp add: valid_utf8_ascii_list)
qed

text \<open>The second version is found registered and nothing happens.\<close>

lemma demo_second_import:
  assumes "storeless (m, n) q" and "versions_of (m_state m) ''orders'' = [item]" and "sv_SchemaID item = 1" and "active item"
    and "fmlookup (snap_IdentityToID (m_state m)) ''id'' = Some 1"
    and "settings (m_state m) = (ModeImport, fmempty, snap_GlobalCompatibility NewState, fmempty)"
  shows "import_item None demo_engines (demo_item 2 False) (m, n) = Inr (m, Suc n)" and "storeless (m, Suc n) q"
proof -
  let ?c = "demo_command (Suc n) 2 False"
  have "EffectiveMode (m_state m) u = ModeImport" for u using assms(6) by (simp add: EffectiveMode_def settings_def)
  moreover have "retried (m_state m) (nextOperation ''schema'' (Suc n)) = None"
    using assms(1) by (intro replay_fresh) (simp add: storeless_def)
  moreover have "existing_version (m_state m) ''orders'' 1 = Some item"
    using assms(2-4) by (simp add: existing_version_def)
  ultimately have "\<exists>r. Register None ?c m = (Inr r, m)"
    using assms(5) by (simp add: Register_def planRegister_def Let_def validSchemaType_def zero_Envelope_def)
  then show "import_item None demo_engines (demo_item 2 False) (m, n) = Inr (m, Suc n)"
    using demo_item_imports small_int64(1) by blast
  show "storeless (m, Suc n) q"
    using assms(1) handed_out_Suc(2) by (auto simp: storeless_def replay_ok_def)
qed

lemma demo_deletes:
  assumes "storeless (m, n) q" and "q + 1 \<noteq> 0" and "versions_of (m_state m) ''orders'' = [item]" and "sv_Version item = 1" and "active item"
    and "settings (m_state m) = (ModeImport, fmempty, snap_GlobalCompatibility NewState, fmempty)"
  shows "\<exists>w'. delete_marked None [demo_item 1 True, demo_item 2 False] (m, n) = Inr w' \<and> storeless w' (q + 1)"
proof -
  let ?dv = "\<lparr>dv_OperationID = nextOperation ''delete'' (Suc n), dv_Subject = ''orders'', dv_Version = 1, dv_Permanent = False\<rparr>"
  let ?r = "zero_Result\<lparr>res_Version := 1\<rparr>"
  let ?e = "newEnvelope (snap_Sequence (m_state m) + 1) (nextOperation ''delete'' (Suc n)) TransitionVersionDeleted
     (enc_deleteVersion \<lparr>dvt_Subject = ''orders'', dvt_Version = 1, dvt_Permanent = False\<rparr>) ?r"
  have ok: "state_ok (m_state m)" using assms(1) by (simp add: storeless_def replay_ok_def registry_inv_def)
  have mode: "EffectiveMode (m_state m) u = ModeImport" for u using assms(6) by (simp add: EffectiveMode_def settings_def)
  have fresh: "retried (m_state m) (nextOperation ''delete'' (Suc n)) = None"
    using assms(1) by (intro replay_fresh) (simp add: storeless_def)
  have "sv_SchemaID item |\<in>| fmdom (snap_Schemas (m_state m))"
    using state_ok_versions [OF ok, of "''orders''"] assms(3) by (simp add: versions_ok_def)
  then obtain schema where "fmlookup (snap_Schemas (m_state m)) (sv_SchemaID item) = Some schema" by (rule fmdomE)
  then have l: "Lookup (m_state m) ''orders'' 1 False = (item, schema, True)"
    using assms(3-5) by (simp add: Lookup_True [OF ok] visible_def active_def)
  have "exec None (CDeleteVersion ?dv) m = commitApply None ?e ?r m"
    using l mode fresh by (simp add: DeleteVersion_def Let_def)
  moreover have "issued (m_state m) (CDeleteVersion ?dv) ?e ?r"
    using issued.delete_version [of "m_state m" ?dv item schema ?r] l mode by simp
  ultimately obtain m' where m': "exec None (CDeleteVersion ?dv) m = (Inr ?r, m')" "storeless (m', Suc n) (q + 1)"
    using storeless_commits [OF assms(1), of None "CDeleteVersion ?dv" ?e ?r "''delete''"] assms(1,2) nextOperation_utf8
    by (auto simp: applicable_def storeless_def)
  then show ?thesis by (simp add: demo_item_def)
qed

lemma demo_source_fields [simp]:
  "inv_schemas demo_source = [demo_item 1 True, demo_item 2 False]" "sortedKeys (inv_subjectCompatibility demo_source) = []"
  "sortedKeys (inv_subjectModes demo_source) = []" "ss_Subject (demo_item v d) = ''orders''" "ss_ID (demo_item v d) = 1"
  "ss_Version (demo_item v d) = v" "ss_Deleted (demo_item v d) = d"
  "inv_globalCompatibility demo_source = CompatibilityBackward" "inv_globalMode demo_source = ModeReadOnly"
  by (simp_all add: demo_source_def sortedKeys_def sorted_list_of_fmap_def sorted_list_of_fset.rep_eq demo_item_def)

lemma demo_exports: "\<exists>s. buildState None demo_engines demo_source = Inr s"
proof (rule demo_import_mode)
  fix w
  assume w1: "configure ''mode'' (\<lambda>op. SetMode None op global_scope ModeImport) (NewMachine NewState None None (), 0) = Inr w"
    "storeless w 1" "import_state (m_state (fst w))"
  obtain m n where w: "w = (m, n)" by (cases w)
  show ?thesis
  proof (rule demo_first_import [of m n 1])
    fix m' item
    assume f: "import_item None demo_engines (demo_item 1 True) (m, n) = Inr (m', Suc n)" "storeless (m', Suc n) (1 + 1)"
      "versions_of (m_state m') ''orders'' = [item]" "sv_Version item = 1" "sv_SchemaID item = 1" "active item"
      "fmlookup (snap_IdentityToID (m_state m')) ''id'' = Some 1"
      "settings (m_state m') = (ModeImport, fmempty, snap_GlobalCompatibility NewState, fmempty)"
    note second = demo_second_import [OF f(2,3,5,6,7,8)]
    have "sort_slice by_version [demo_item 1 True, demo_item 2 False] = [demo_item 1 True, demo_item 2 False]"
      by (simp add: sort_slice_def by_version_def demo_item_def int64_eval)
    moreover have "ss_References (demo_item v d) = []" for v d by (simp add: demo_item_def)
    ultimately have w2: "import_schemas None demo_engines (sort_slice by_version (inv_schemas demo_source)) w = Inr (m', Suc (Suc n))"
      using f(1) second(1)
      by (simp add: w demo_source_def import_schemas.simps [of _ _ "_ # _"] import_schemas.simps [of _ _ "[]"] referencesAvailable_def)
    from demo_deletes [OF second(2) _ f(3,4,6,8)] obtain w3 where w3: "delete_marked None (inv_schemas demo_source) (m', Suc (Suc n)) = Inr w3"
      "storeless w3 3" by (auto simp: demo_source_def)
    from storeless_sets_level [of "fst w3" "snd w3" 3 CompatibilityBackward None global_scope] w3(2)
    obtain w4 where w4: "configure ''config'' (\<lambda>op. SetCompatibility None op global_scope CompatibilityBackward) w3 = Inr w4" "storeless w4 4"
      by (auto simp: CompatibilityLevel_Valid_def)
    from storeless_sets_mode [of "fst w4" "snd w4" 4 ModeReadOnly None global_scope] w4(2)
    obtain w7 where "configure ''mode'' (\<lambda>op. SetMode None op global_scope ModeReadOnly) w4 = Inr w7"
      by (auto simp: Mode_Valid_def)
    with w1(1) w2 w3(1) w4(1) show ?thesis
      by (simp add: buildState_def del: delete_marked.simps)
  qed (use w1 w in simp_all)
qed

section \<open>Witnesses\<close>

definition demo_export :: State where
  "demo_export = projr (buildState None demo_engines demo_source)"

lemma demo_export: "buildState None demo_engines demo_source = Inr demo_export" "engines_utf8 demo_engines"
  using demo_exports by (auto simp: demo_export_def engines_utf8_def demo_engines_def demo_engine_def valid_utf8_ascii_list split: if_splits)

theorem import_is_faithful_witness:
  "registry_inv demo_export \<and> snap_GlobalMode demo_export = ModeReadOnly
     \<and> (\<exists>v \<in> set (versions_of demo_export ''orders''). imported_from None demo_engines demo_export (demo_item 1 True) v
          \<or> imported_from None demo_engines demo_export (demo_item 2 False) v)"
  using import_is_faithful [OF demo_export] by (auto simp: settings_def)

theorem reregistered_version_is_lost_witness:
  "\<not> ((\<exists>v \<in> set (versions_of demo_export ''orders''). from_item (demo_item 1 True) v)
     \<and> (\<exists>v \<in> set (versions_of demo_export ''orders''). from_item (demo_item 2 False) v))"
proof -
  have "(1::int64) \<noteq> 2" using small_int64(2) by (metis less_irrefl)
  with reregistered_version_is_lost [OF demo_export, of "demo_item 1 True" "demo_item 2 False"] show ?thesis by simp
qed

end
