(* ===== verification/Engines_Walkthrough.thy ===== *)
theory Engines_Walkthrough
  imports Engines Migration_Walkthrough
begin

text \<open>
  The guarantees of the schema engines on small schemas, with simple instances of the third-party
  libraries: a validator that takes every document, a parser of Avro that keeps the text, and
  Protobuf files that are lists of messages.
\<close>

section \<open>The libraries\<close>

definition demo_texts :: texts where
  "demo_texts = \<lparr>tx_error = (\<lambda>_. ''canceled''), tx_json = (\<lambda>_. ''unexpected end of JSON input''), tx_quote = (\<lambda>s. s)\<rparr>"

definition demo_ranges :: ranges where
  "demo_ranges path loop keys = rev keys"

lemma demo_ranges_ok [simp]: "visits_all demo_ranges"
  by (simp add: visits_all_def demo_ranges_def)

definition demo_validator :: "(unit, unit) validator" where
  "demo_validator = \<lparr>va_NewCompiler = (), va_AddResource = (\<lambda>_ _ _. Inr ()), va_Compile = (\<lambda>_ _. Inr ())\<rparr>"

definition demo_hamba :: "(string, unit) hamba" where
  "demo_hamba = \<lparr>hb_SchemaCache = (), hb_ParseWithCache = (\<lambda>s _. Inr (s, ())), hb_Add = (\<lambda>_ _ _. ()), hb_Named = (\<lambda>_. None),
     hb_String = (\<lambda>s. s), hb_Compatible = (\<lambda>_ _. None)\<rparr>"

text \<open>A file is a list of messages with a name and their fields with number and kind.\<close>

type_synonym demo_field = "int \<times> Kind"
type_synonym demo_message = "string \<times> demo_field list"

definition demo_protobuf :: "(demo_message list, demo_message, demo_field) protobuf" where
  "demo_protobuf = \<lparr>pb_Messages = (\<lambda>f. if distinct (map fst f) then f else []),
     pb_ByName = (\<lambda>f n. find (\<lambda>m. fst m = n) (if distinct (map fst f) then f else [])),
     pb_Name = fst,
     pb_Fields = (\<lambda>m. if distinct (map fst (snd m)) then snd m else []),
     pb_ByNumber = (\<lambda>m n. find (\<lambda>d. fst d = n) (if distinct (map fst (snd m)) then snd m else [])),
     pb_Number = fst, pb_FullName = (\<lambda>_. ''field''), pb_IsMap = (\<lambda>_. False), pb_MapKey = (\<lambda>d. d), pb_MapValue = (\<lambda>d. d),
     pb_Kind = snd, pb_Message_FullName = (\<lambda>_. ''message''), pb_String = (\<lambda>_. ''kind''),
     pb_Compile = (\<lambda>_ _ _. Inr []), pb_PrintProtoToString = (\<lambda>_ _. Inr ''syntax'')\<rparr>"

definition demo_lib :: "(string, unit, demo_message list, demo_message, demo_field, unit, unit) libraries" where
  "demo_lib = \<lparr>lib_texts = demo_texts, lib_hamba = demo_hamba, lib_protobuf = demo_protobuf,
     lib_validator = demo_validator, lib_ranges = demo_ranges\<rparr>"

lemma demo_lib_fields [simp]:
  "lib_texts demo_lib = demo_texts" "lib_hamba demo_lib = demo_hamba" "lib_protobuf demo_lib = demo_protobuf"
  "lib_validator demo_lib = demo_validator" "lib_ranges demo_lib = demo_ranges"
  by (simp_all add: demo_lib_def)

section \<open>Protobuf\<close>

lemma find_by_key:
  "distinct (map f xs) \<Longrightarrow> find (\<lambda>x. f x = k) xs = Some y \<longleftrightarrow> y \<in> set xs \<and> f y = k"
  by (induction xs) (auto simp: image_iff)

lemma demo_descriptors: "descriptors_ok demo_protobuf"
  by (auto simp: descriptors_ok_def demo_protobuf_def find_by_key)

definition demo_file :: "Kind \<Rightarrow> (string, demo_message list, unit) native Parsed" where
  "demo_file kind = \<lparr>p_Type = SchemaTypeProtobuf, p_Definition = ''syntax'', p_Canonical = ''syntax'', p_Identity = ''id'',
     p_References = [], p_Native = NProtobuf [(''Event'', [(1, kind)])]\<rparr>"

theorem protobuf_compatible_iff_same_wire_witness:
  "protobuf_Compatible demo_texts demo_protobuf None CompatibilityForward (demo_file Int32Kind) [demo_file BoolKind] = Inr (True, [])
    \<and> protobuf_Compatible demo_texts demo_protobuf None CompatibilityForward (demo_file Int32Kind) [demo_file StringKind] \<noteq> Inr (True, [])"
proof -
  have is_file: "protobuf_file (p_Native (demo_file k)) = Some [(''Event'', [(1, k)])]" for k
    by (simp add: demo_file_def protobuf_file_def)
  note same = protobuf_compatible_iff_same_wire [OF demo_descriptors, of CompatibilityForward "demo_file Int32Kind"]
  have "same_wire demo_protobuf [(''Event'', [(1, Int32Kind)])] [(''Event'', [(1, BoolKind)])]"
    "\<not> same_wire demo_protobuf [(''Event'', [(1, Int32Kind)])] [(''Event'', [(1, StringKind)])]"
    by (simp_all add: same_wire_def demo_protobuf_def wireClass_def)
  then show ?thesis using same is_file by simp
qed

section \<open>Avro\<close>

definition demo_avro :: string where
  "demo_avro = ''{'' @ quote_lit ''name'' @ '':'' @ quote_lit ''a.Node'' @ '', '' @ quote_lit ''type'' @ '':'' @ quote_lit ''array''
     @ '','' @ quote_lit ''items'' @ '':'' @ quote_lit ''a.Leaf'' @ ''}''"

definition demo_avro_json :: json where
  "demo_avro_json = JObj [(''name'', JStr ''a.Node''), (''type'', JStr ''array''), (''items'', JStr ''a.Leaf'')]"

theorem canonical_definition_reads_back_witness:
  "\<exists>j. parse_json (''{'' @ quote_lit ''type'' @ '':'' @ quote_lit ''array'' @ '','' @ quote_lit ''name'' @ '':'' @ quote_lit ''a.Node''
       @ '','' @ quote_lit ''items'' @ '':'' @ quote_lit ''Leaf'' @ ''}'') = Some j
     \<and> to_any j = simplified (shortenNamedReferences (to_any demo_avro_json) '''') False"
proof (rule canonical_definition_reads_back)
  show "canonicalDefinition demo_texts demo_avro = Inr (''{'' @ quote_lit ''type'' @ '':'' @ quote_lit ''array'' @ '',''
      @ quote_lit ''name'' @ '':'' @ quote_lit ''a.Node'' @ '','' @ quote_lit ''items'' @ '':'' @ quote_lit ''Leaf'' @ ''}'')"
    by code_simp
  show "decode_stream demo_avro = Some (demo_avro_json, [])" by code_simp
qed

section \<open>References\<close>

definition demo_reference :: Reference where
  "demo_reference = \<lparr>ref_Name = ''leaf'', ref_Subject = ''leaf'', ref_Version = 1\<rparr>"

definition demo_resolver :: Resolver where
  "demo_resolver ctx r = Inr \<lparr>sch_ID = 1, sch_GUID = ''guid'', sch_Identity = ''id'', sch_Type = SchemaTypeJSON,
     sch_Definition = ''true'', sch_References = []\<rparr>"

definition demo_limits :: Limits where
  "demo_limits = \<lparr>lim_MaxSchemaBytes = 10, lim_MaxReferences = 2, lim_MaxReferenceDepth = Suc (Suc 0)\<rparr>"

theorem references_bounded_acyclic_witness:
  "(1::nat) \<le> 2 \<and> (0::nat) < 2 \<and> \<not> (refers demo_resolver None)\<^sup>+\<^sup>+ demo_reference demo_reference"
proof -
  have "decodeDocument demo_texts ''true'' = Inr (ABool True)" by code_simp
  then have "load_references (json_loader demo_texts) demo_limits demo_resolver None (lim_MaxReferenceDepth demo_limits) []
      [demo_reference] (0, fmempty) = Inr (1, fmupd ''leaf'' (ABool True) fmempty)"
    by (simp add: demo_limits_def json_loader_def demo_resolver_def demo_reference_def)
  from references_bounded_acyclic [OF this, of demo_reference 0 demo_reference] show ?thesis
    by (simp add: demo_limits_def)
qed

section \<open>JSON Schema\<close>

definition demo_open :: string where "demo_open = ''{ }''"

definition demo_typed :: string where
  "demo_typed = ''{'' @ quote_lit ''type'' @ '':'' @ quote_lit ''object'' @ ''}''"

definition demo_typed_document :: any where
  "demo_typed_document = AMap [(''type'', AString ''object'')]"

lemma demo_documents:
  "decodeDocument demo_texts demo_open = Inr (AMap [])" "compactJSON demo_texts demo_open = Inr ''{}''"
  "decodeDocument demo_texts ''{}'' = Inr (AMap [])" "compactJSON demo_texts ''{}'' = Inr ''{}''"
  "decodeDocument demo_texts demo_typed = Inr demo_typed_document" "compactJSON demo_texts demo_typed = Inr demo_typed"
  by code_simp+

abbreviation demo_Parse :: "ctx \<Rightarrow> ParseRequest \<Rightarrow> Resolver \<Rightarrow> string + (string, demo_message list, unit) native Parsed" where
  "demo_Parse \<equiv> json_Parse demo_texts demo_ranges demo_validator"

abbreviation demo_request :: "string \<Rightarrow> ParseRequest" where
  "demo_request text \<equiv> \<lparr>pr_Definition = text, pr_References = [], pr_Normalize = False, pr_Limits = DefaultLimits\<rparr>"

definition demo_json :: "string \<Rightarrow> any \<Rightarrow> (string, demo_message list, unit) native Parsed" where
  "demo_json compact root = \<lparr>p_Type = SchemaTypeJSON, p_Definition = compact, p_Canonical = writeSortedJSON root,
     p_Identity = json_schemaIdentity compact [], p_References = [], p_Native = NJson root ()\<rparr>"

lemma demo_compiles [simp]: "json_compile ranges demo_validator resources = Inr ()"
proof -
  have "add_resources demo_validator resources urls () = Inr ()" for urls
    by (induction urls) (auto simp: demo_validator_def split: option.splits)
  then show ?thesis by (simp add: json_compile_def demo_validator_def)
qed

lemma demo_json_parses:
  assumes "decodeDocument demo_texts text = Inr root" and "compactJSON demo_texts text = Inr compact" and "0 < length text" and "length text \<le> 100"
  shows "demo_Parse ctx (demo_request text) resolver = Inr (demo_json compact root)"
  using assms
  by (simp add: json_Parse_def check_request_def normalizedLimits_def DefaultLimits_def demo_json_def json_load_def sortedJSON_def Let_def)

theorem json_definition_stable_witness:
  "demo_Parse None (demo_request demo_open) demo_resolver = Inr (demo_json ''{}'' (AMap []))
   \<and> demo_Parse None (demo_request ''{}'') demo_resolver = Inr (demo_json ''{}'' (AMap []))"
proof -
  have "0 < length demo_open" "length demo_open \<le> 100" by (simp_all add: demo_open_def)
  note parsed = demo_json_parses [OF demo_documents(1,2) this, of None demo_resolver]
  from json_definition_stable [OF parsed refl] parsed show ?thesis
    by (simp add: demo_json_def normalizedLimits_def DefaultLimits_def)
qed

theorem json_self_compatible_witness:
  "json_Compatible demo_texts demo_ranges None CompatibilityFullTransitive (demo_json demo_typed demo_typed_document)
     [demo_json demo_typed demo_typed_document] = Inr (True, [])"
  by (rule json_self_compatible [of _ _ _ demo_typed_document]) (simp_all add: demo_json_def json_document_def)

definition demo_matches :: "string \<Rightarrow> any \<Rightarrow> bool" where
  "demo_matches t v \<longleftrightarrow> t = ''object'' \<and> is_map v"

theorem json_added_type_unnoticed_witness:
  "json_Compatible demo_texts demo_ranges None CompatibilityBackward (demo_json demo_typed demo_typed_document)
      [demo_json ''{}'' (AMap [])] = Inr (True, [])
    \<and> json_accepts demo_matches (demo_json ''{}'' (AMap [])) ANull
    \<and> \<not> json_accepts demo_matches (demo_json demo_typed demo_typed_document) ANull"
  by (rule json_added_type_unnoticed [of _ _ "''object''"])
    (simp_all add: demo_json_def json_document_def demo_typed_document_def demo_matches_def is_map_def)

section \<open>A checked registration\<close>

definition json_schema :: Schema where
  "json_schema = demo_schema\<lparr>sch_Type := SchemaTypeJSON, sch_Definition := demo_typed\<rparr>"

definition json_state :: State where
  "json_state = (demo_state False)\<lparr>snap_Schemas := fmupd 1 json_schema fmempty\<rparr>"

definition json_registration :: RegisterCommand where
  "json_registration = demo_registration\<lparr>rc_Identity := ''id2'', rc_Type := SchemaTypeJSON, rc_Definition := ''{}''\<rparr>"

definition json_machine :: "unit Machine" where
  "json_machine = NewMachine json_state None (Some (compatibilityChecker None (engines demo_lib))) ()"

lemma demo_typed_utf8: "valid_utf8 demo_typed"
  by code_simp

lemma json_state_inv: "registry_inv json_state"
proof -
  have "state_ok json_state"
    by (simp add: state_ok_def json_state_def json_schema_def demo_defs NewState_def CompatibilityLevel_Valid_def Mode_Valid_def
        fmpred_iff versions_ok_def)
  moreover have "ids_ok json_state"
    by (simp add: ids_ok_def json_state_def json_schema_def demo_defs NewState_def fmpred_iff)
  moreover have v: "versions_of json_state u = versions_of (demo_state False) u" for u
    by (simp add: json_state_def versions_of_def)
  have "sequences_ok json_state"
    by (auto simp: sequences_ok_def v, simp_all add: json_state_def demo_version_def split: if_splits)
  moreover have "snapshot_utf8 json_state"
    by (auto simp: snapshot_utf8_def json_state_def json_schema_def demo_defs NewState_def fmpred_iff coerce_Schema_def demo_typed_utf8
        valid_utf8_ascii_list split: if_splits)
  ultimately show ?thesis by (simp add: registry_inv_def)
qed

lemma json_state_fields [simp]:
  "versions_of json_state u = (if u = ''orders'' then [demo_version False] else [])"
  "EffectiveMode json_state u = ModeReadWrite" "EffectiveCompatibility json_state u = CompatibilityBackward"
  "retried json_state op = None" "snap_Sequence json_state = 1" "snap_NextSchemaID json_state = 2"
  "fmlookup (snap_IdentityToID json_state) ''id2'' = None" "fmlookup (snap_Schemas json_state) 2 = None"
  "fmlookup (snap_Schemas json_state) 1 = Some json_schema"
  "m_state json_machine = json_state" "m_store json_machine = ()"
  by (simp_all add: json_state_def versions_of_def demo_defs NewState_def EffectiveMode_def SubjectMode_def EffectiveCompatibility_def
      SubjectCompatibility_def retried_def ResultFor_def json_machine_def int64_eval)

lemma json_previous: "compatibilitySchemas json_state ''orders'' = [json_schema]"
proof -
  have "Versions json_state ''orders'' False = [1]"
    by (simp add: Versions_def demo_version_def visible_def)
  moreover have "Lookup json_state ''orders'' 1 False = (demo_version False, json_schema, True)"
    by (simp add: Lookup_def demo_version_def visible_def)
  ultimately show ?thesis by (simp add: compatibilitySchemas_def Transitive_def)
qed

text \<open>The registration is compatible: an open schema after one that asks for an object.\<close>

definition json_candidate :: Schema where
  "json_candidate = candidate_schema json_state json_registration 2"

lemma json_stored_requests:
  "stored_request json_candidate = demo_request ''{}''" "stored_request json_schema = demo_request demo_typed"
  "sch_Type json_candidate = SchemaTypeJSON"
  by (simp_all add: stored_request_def json_candidate_def candidate_schema_def json_registration_def json_schema_def demo_defs)

lemma json_parsed:
  "demo_Parse ctx (demo_request ''{}'') resolver = Inr (demo_json ''{}'' (AMap []))"
  "demo_Parse ctx (demo_request demo_typed) resolver = Inr (demo_json demo_typed demo_typed_document)"
proof -
  have "0 < length demo_typed" "length demo_typed \<le> 100" by (simp_all add: demo_typed_def quote_lit_def)
  from demo_json_parses [OF demo_documents(5,6) this]
  show "demo_Parse ctx (demo_request demo_typed) resolver = Inr (demo_json demo_typed demo_typed_document)" .
  show "demo_Parse ctx (demo_request ''{}'') resolver = Inr (demo_json ''{}'' (AMap []))"
    by (rule demo_json_parses [OF demo_documents(3,4)]) simp_all
qed

lemma json_checked:
  "compatibilityChecker None (engines demo_lib) json_state CompatibilityBackward json_candidate [json_schema] = (True, [])"
proof -
  have "compareDocuments demo_ranges (AMap []) demo_typed_document i path = []" for i path
    by (subst no_messages)
      (simp_all add: is_map_def typeSuperset_def any_get_def properties_def additional_def stringSet_def demo_typed_document_def)
  then have "json_Compatible demo_texts demo_ranges None CompatibilityBackward (demo_json ''{}'' (AMap []))
      [demo_json demo_typed demo_typed_document] = Inr (True, [])"
    unfolding json_Compatible_def
    by (subst engine_Compatible_agrees) (simp_all add: demo_json_def json_document_def)
  then show ?thesis
    by (simp add: compatibilityChecker_def json_stored_requests json_Engine_def json_parsed)
qed

definition json_result :: Result where
  "json_result = planned_result json_state json_registration 2"

definition json_envelope :: Envelope where
  "json_envelope = newEnvelope 2 ''op'' TransitionSchemaRegistered
     (enc_registration (planned_registration json_state json_registration 2)) json_result"

lemma json_registration_fields [simp]:
  "rc_Subject json_registration = ''orders''" "rc_Identity json_registration = ''id2''" "rc_Type json_registration = SchemaTypeJSON"
  "rc_Definition json_registration = ''{}''" "rc_References json_registration = []" "rc_RequestedID json_registration = 0"
  "rc_RequestedVersion json_registration = 0" "rc_OperationID json_registration = ''op''"
  by (simp_all add: json_registration_def demo_registration_def)

lemma json_next: "nextVersion [demo_version False] = 2" "sv_Version (demo_version False) = 1"
  by (simp_all add: nextVersion_def demo_version_def int64_eval)

lemma json_numbers: "(1::int64) \<noteq> 2" "(2::int64) \<noteq> 1" "(2::int64) \<noteq> 0"
  by (simp_all add: int64_eval)

lemma json_planned: "planRegister json_machine json_registration = Inr (json_envelope, json_result)"
proof -
  have "m_check json_machine json_state CompatibilityBackward (candidate_schema json_state json_registration 2) [json_schema] = (True, [])"
    using json_checked by (simp add: json_machine_def NewMachine_def json_candidate_def)
  then show ?thesis
    by (simp add: planRegister_def plan_new_def choose_id_def validSchemaType_def json_previous json_next json_envelope_def json_result_def
        planned_result_def planned_registration_def planned_version_def json_numbers Let_def)
qed

lemma json_issued: "issued json_state (CRegister json_registration) json_envelope json_result"
  using issued.register [of json_state json_registration 2]
  by (simp add: may_register_def validSchemaType_def choose_id_def planned_version_def json_next json_envelope_def
      json_result_def json_numbers)

lemma json_registers:
  obtains m where "Register None json_registration json_machine = (Inr json_result, m)" and "m_state m \<noteq> json_state"
proof -
  have "command_utf8 (CRegister json_registration)" by (simp add: valid_utf8_ascii_list)
  moreover have "applicable json_state (CRegister json_registration)"
    by (simp add: applicable_def planned_version_def json_next max_int64_def int64_of_def int64_eval valid_utf8_ascii_list)
  ultimately obtain s where s: "Apply json_state json_envelope = Inr s"
    using issued_applies [OF json_issued json_state_inv] by blast
  have "env_Kind json_envelope \<noteq> []" using issued_facts(4) [OF json_issued] by simp
  then have "Register None json_registration json_machine = (Inr json_result, json_machine\<lparr>m_state := s\<rparr>)"
    by (simp add: Register_def json_planned commitApply_def s) (simp add: json_machine_def NewMachine_def)
  with that Apply_sequence_less [OF s] show thesis by fastforce
qed

lemma json_demo_meaning:
  "json_shape False (demo_json ''{}'' (AMap []))" "json_shape True (demo_json demo_typed demo_typed_document)"
  "json_accepts demo_matches (demo_json demo_typed demo_typed_document) (AMap [])"
  by (auto simp: json_shape_def json_accepts_def demo_json_def json_document_def schema_shape.simps [of _ "AMap m" for m]
      accepts.simps [of _ "AMap m" for m] demo_typed_document_def properties_def any_get_def stringSet_def demo_matches_def is_map_def)

theorem registered_json_schema_compatible_witness:
  "json_accepts demo_matches (demo_json ''{}'' (AMap [])) (AMap [])"
proof -
  obtain m where m: "Register None json_registration json_machine = (Inr json_result, m)" "m_state m \<noteq> json_state"
    by (rule json_registers)
  have "m_check json_machine = compatibilityChecker None (engines demo_lib)" "res_SchemaID json_result = 2"
    by (simp_all add: json_machine_def NewMachine_def json_result_def planned_result_def)
  with registered_json_schema_compatible [OF m(1), of None demo_lib json_candidate json_schema CompatibilityBackward demo_matches "AMap []"]
  show ?thesis
    using m(2) json_stored_requests json_demo_meaning by (auto simp: json_candidate_def json_previous json_parsed)
qed

end
