(* ===== verification/App_Walkthrough.thy ===== *)
theory App_Walkthrough
  imports Commands Kafka_Walkthrough Engines_Walkthrough
begin

text \<open>
  The guarantees of the application on small runs: a Kafka configuration from the environment, the loop of
  an elected replica, and a server that is killed after a request and started again on its file.
\<close>

section \<open>Witnesses: Kafka\<close>

definition cluster_environment :: environment where
  "cluster_environment = [''RIQUET_STORAGE_BACKEND'' \<mapsto> ''kafka'', ''RIQUET_KAFKA_BROKERS'' \<mapsto> ''broker:9092'',
     ''RIQUET_INTERNAL_ADDRESS'' \<mapsto> '':8083'', ''RIQUET_INTERNAL_TOKEN'' \<mapsto> ''token'', ''RIQUET_REPLICA_ID'' \<mapsto> ''a'',
     ''RIQUET_INTERNAL_ADVERTISE_URL'' \<mapsto> ''http://a:8083'', ''RIQUET_KAFKA_SASL_MECHANISM'' \<mapsto> ''plain'',
     ''RIQUET_KAFKA_SASL_USERNAME'' \<mapsto> ''user'', ''RIQUET_KAFKA_SASL_PASSWORD'' \<mapsto> ''secret'']"

definition cluster_config :: Config where
  "cluster_config = Default
     \<lparr>cf_Listeners := (cf_Listeners Default)\<lparr>ls_Internal := '':8083''\<rparr>,
      cf_Auth := (cf_Auth Default)\<lparr>au_InternalToken := ''token''\<rparr>,
      cf_Storage := (cf_Storage Default)\<lparr>st_Backend := ''kafka'', st_Kafka := (st_Kafka (cf_Storage Default))
        \<lparr>kf_Brokers := [''broker:9092''], kf_ReplicaID := ''a'', kf_AdvertiseURL := ''http://a:8083'',
         kf_SASL := \<lparr>ks_Mechanism = ''plain'', ks_Username = ''user'', ks_Password = ''secret''\<rparr>\<rparr>\<rparr>\<rparr>"

lemma cluster_brokers: "splitNonEmpty ''broker:9092'' = [''broker:9092'']"
  by (simp add: splitNonEmpty_def TrimSpace_def trim_runes.simps space_runes_def HasPrefix_def char_of_eval upt_rec)

lemma cluster_loads:
  "Load (\<lambda>_. Inl EOF) (\<lambda>_ c. Inr c) [] '''' (Some cluster_environment) demo_overrides = Inr cluster_config"
proof -
  have "applyEnvironment cluster_environment Default = Inr cluster_config"
    by (simp add: applyEnvironment_def env_strings_def env_set_def env_parse_def cluster_environment_def cluster_config_def
        Let_def cluster_brokers Default_def)
  moreover have "Config_Validate cluster_config = None"
    by (simp add: Config_Validate_None cluster_config_def Default_def validate_auth_def validate_storage_def validate_kafka_def
        validate_limits_def second_def int64_of_def int64_eval)
  ultimately show ?thesis by (simp add: Load_def demo_overrides_def override_def)
qed

theorem loaded_kafka_starts_witness:
  "\<exists>co. NewCoordinator (Some waiting_store) (coordinator_options (st_Kafka (cf_Storage cluster_config))) = Inr co"
proof -
  have "st_Backend (cf_Storage cluster_config) = ''kafka''" by (simp add: cluster_config_def)
  from loaded_kafka_starts [OF cluster_loads this, of undefined waiting_store undefined] show ?thesis by blast
qed


section \<open>Witness: a restart\<close>

definition small_app :: app_config where
  "small_app = \<lparr>ap_ListenAddress = '''', ap_DataPath = ''registry.db'', ap_Listener = True, ap_Runtime = None\<rparr>"

definition small_world :: "arrival list \<Rightarrow> memdb \<Rightarrow> memdb run_world" where
  "small_world arrivals db =
     \<lparr>rw_mkdir = (\<lambda>_. None), rw_opened = (\<lambda>_. Inr db), rw_ctx = None, rw_polls = (\<lambda>_. None), rw_listen = (\<lambda>_. None),
      rw_duration = (\<lambda>_. 0), rw_elapsed = (\<lambda>_. 0), rw_arrivals = arrivals, rw_stop = Cancelled, rw_stop_ctx = None,
      rw_shutdown = None, rw_aux_shutdown = [], rw_aux_served = [], rw_served = Some (Sentinel ErrServerClosed),
      rw_snapshot_ctx = None\<rparr>"

definition small_run :: "arrival list \<Rightarrow> memdb \<Rightarrow> ((string, demo_message list, unit) native, memdb BoltStore) Server" where
  "small_run arrivals db = snd (projr (run_up demo_lib (\<lambda>_. '''') mem_api small_app (small_world arrivals db)))"

lemma mem_opens:
  assumes "file_holds mem_api db s"
  obtains st where "bolt_Open mem_api ''registry.db'' (Inr db) = Inr st"
proof -
  have "(\<forall>b k. bb_Get mem_api db b k = None) \<or> bb_Get mem_api db metaBucket formatKey = Some (uint64Key 1)"
    using assms by (auto simp: file_holds_def formatted_def)
  then have "\<exists>st. bolt_Open mem_api ''registry.db'' (Inr db) = Inr st"
    by (auto simp: bolt_Open_def update_def open_tx_def mem_api_def uint64Key_def readSequence_def be_value_be_bytes)
  with that show thesis by blast
qed

lemma small_run_up:
  assumes "file_holds mem_api db s" and "snap_Sequence s + 1 \<noteq> 0"
  shows "run_up demo_lib (\<lambda>_. '''') mem_api small_app (small_world arrivals db) = Inr (0, small_run arrivals db)"
proof -
  obtain st where st: "bolt_Open mem_api ''registry.db'' (Inr db) = Inr st" using assms(1) by (rule mem_opens)
  from mem.Open_holds [OF this assms(1)] assms(2) have "bolt_has mem_api st s" by (simp add: store_holds_def bolt_holds_def)
  from mem.recover_has [OF this] st show ?thesis
    by (simp add: small_run_def run_up_def small_app_def small_world_def run_config_def open_bolt_def data_path_def auxiliaries_def)
qed

text \<open>A request moves the sequence by at most one.\<close>

lemma Handler_sequence:
  "snap_Sequence (srv_state (snd (Handler s r))) \<in> {snap_Sequence (srv_state s), snap_Sequence (srv_state s) + 1}"
proof (cases "snd (Handler s r) = s")
  case False
  obtain rs s' where h: "Handler s r = (rs, s')" by fastforce
  with False have "s' \<noteq> s" by simp
  with h show ?thesis
  proof (rule Handler_step)
    fix c out m vals
    assume c: "exec (rq_Ctx r) c (srv_machine s) = (out, m)" "s' = s\<lparr>srv_machine := m\<rparr>"
    from c(1) show ?thesis
      by (cases rule: exec_state_cases) (use c(2) h Apply_Sequence in auto)
  qed
qed simp

lemma empty_file_holds: "file_holds mem_api empty_file NewState"
  by (simp add: file_holds_def mem_api_def empty_file_def)

definition killed_server :: "((string, demo_message list, unit) native, memdb BoltStore) Server" where
  "killed_server = small_run [AtPublic demo_post] empty_file"

lemma killed_sequence: "snap_Sequence (srv_state killed_server) + 1 \<noteq> 0"
proof -
  have "run_up demo_lib (\<lambda>_. '''') mem_api small_app (small_world [AtPublic demo_post] empty_file) = Inr (0, killed_server)"
    using small_run_up [OF empty_file_holds] by (simp add: killed_server_def NewState_def)
  then show ?thesis
  proof (cases rule: run_up_cases)
    case (served n st0 s st1)
    let ?s = "app_server demo_lib (bolt_Store mem_api) None s st1"
    have "store_holds mem_api st0 NewState"
      using served(2) mem.Open_holds [OF _ empty_file_holds] by (simp add: small_world_def small_app_def run_config_def data_path_def)
    from recoverState_holds [OF mem.bbolt_laws_axioms this _ served(3)] have "snap_Sequence (srv_state ?s) = 0"
      by (simp add: app_server_def NewServer_def NewMachine_def NewState_def)
    moreover have "killed_server \<in> {?s, snd (bolt_api (\<lambda>_. '''') mem_api ?s demo_post)}"
      using served(1) publicHandler_server [of None "\<lambda>_. 0" "\<lambda>_. 0" "bolt_api (\<lambda>_. '''') mem_api" "[]" NewHTTPMetrics ?s demo_post]
      by (simp add: small_world_def small_app_def run_config_def)
    ultimately show ?thesis
      using Handler_sequence [of "bolt_ready (\<lambda>_. '''') mem_api ?s" demo_post] by (auto simp: bolt_api_def bolt_ready_def)
  qed simp_all
qed

lemma killed_lifetime:
  "lifetimes demo_lib (\<lambda>_. '''') mem_api small_app (bs_db (m_store (srv_machine killed_server))) (srv_state killed_server)"
proof -
  have "lifetimes demo_lib (\<lambda>_. '''') mem_api small_app empty_file NewState"
    by (rule lifetimes.created) (simp add: mem_api_def empty_file_def)
  then show ?thesis
    using small_run_up [OF empty_file_holds, of "[AtPublic demo_post]"]
    by (intro lifetimes.killed [of _ _ _ _ empty_file NewState "small_world [AtPublic demo_post] empty_file" 0])
      (simp_all add: small_world_def killed_server_def NewState_def)
qed


section \<open>Witnesses: the commands\<close>

definition good_write :: write_answers where
  "good_write = \<lparr>wa_create = Inr ''.riquet-backup-1'', wa_chmod = None, wa_write = None, wa_sync = None, wa_close = None,
     wa_rename = None, wa_remove = False\<rparr>"

theorem write_is_atomic_witness:
  "writeAtomically good_write ''backup.json'' ''new'' (fmupd ''backup.json'' ''old'' fmempty) =
     (None, fmupd ''backup.json'' ''new'' (fmupd ''backup.json'' ''old'' fmempty))"
proof -
  obtain err trace where t: "write_trace good_write ''backup.json'' ''new'' (fmupd ''backup.json'' ''old'' fmempty) = (err, trace)"
    by fastforce
  then have "err = None"
    by (simp add: write_trace_def good_write_def remove_temporary_def Let_def)
  with write_is_atomic [OF t] t show ?thesis by (simp add: writeAtomically_def good_write_def)
qed

definition command_world_of :: "memdb \<Rightarrow> memdb command_world" where
  "command_world_of db =
     \<lparr>cw_opened = (\<lambda>_. Inr db), cw_mkdir = (\<lambda>_. None), cw_kafka = undefined, cw_ctx = None, cw_polls = (\<lambda>_. None),
      cw_now = ''2025-01-31T23:59:59Z'', cw_nanos = ''1'', cw_write = good_write, cw_stdout = None, cw_stdin = ''''\<rparr>"

definition small_backup :: backup_flags where
  "small_backup = \<lparr>bf_output = ''backup.json'', bf_backend = ''pvc'', bf_data = ''registry.db'', bf_brokers = '''',
     bf_topic = ''_riquet_state''\<rparr>"

definition small_restore :: restore_flags where
  "small_restore = \<lparr>rf_snapshot = ''backup.json'', rf_validate_only = False, rf_backend = ''pvc'', rf_data = ''registry.db'',
     rf_brokers = '''', rf_topic = ''_riquet_state'', rf_transactional_id = '''', rf_replication_factor = 1,
     rf_auto_create = False\<rparr>"

definition backup_fs :: "State \<Rightarrow> fs" where
  "backup_fs s = fmupd ''backup.json'' (Export s ''pvc'' ''2025-01-31T23:59:59Z'') fmempty"

lemma small_backup_runs:
  assumes "file_holds mem_api db s" and "snap_Sequence s + 1 \<noteq> 0"
  shows "backup_run mem_api (command_world_of db) (Some small_backup) fmempty =
    Some (succeeds (''backup written to backup.json'' @ nl), backup_fs s)"
proof -
  obtain st where st: "bolt_Open mem_api ''registry.db'' (Inr db) = Inr st" using assms(1) by (rule mem_opens)
  from mem.Open_holds [OF this assms(1)] assms(2) have "bolt_has mem_api st s" by (simp add: store_holds_def bolt_holds_def)
  from mem.recover_has [OF this]
  have "Capture (bolt_Store mem_api) None (\<lambda>_. None) ''pvc'' ''2025-01-31T23:59:59Z'' st = (Inr (Export s ''pvc'' ''2025-01-31T23:59:59Z''), st)"
    by (auto simp: Capture_def recoverState_def split: sum.splits prod.splits)
  moreover have "fmupd ''backup.json'' x (fmdrop ''.riquet-backup-1'' (fmupd ''.riquet-backup-1'' x (fmupd ''.riquet-backup-1'' y fmempty)))
      = fmupd ''backup.json'' x fmempty" for x y :: string
    by (auto intro!: fmap_ext)
  ultimately show ?thesis
    using st by (simp add: backup_run_def backup_open_def small_backup_def command_world_of_def deliver_def writeAtomically_def
        write_trace_def good_write_def remove_temporary_def backup_fs_def Let_def)
qed

lemma small_restore_runs:
  assumes "registry_inv s" and "snap_FormatVersion s = 1"
  shows "\<exists>r. restore_run mem_api mem_producer undefined (command_world_of empty_file) empty_broker (Some small_restore) (backup_fs s) =
    Some (r, Some (BoltTarget (snd (bolt_RestoreSnapshot mem_api None s demo_store)))) \<and> cr_Code r = 0"
proof -
  have s: "snapshot_utf8 s" "state_ok s" using assms(1) by (simp_all add: registry_inv_def)
  have "valid_utf8 ''pvc''" by (simp add: valid_utf8_ascii_list)
  from Decode_Export [OF s assms(2) demo_time this] obtain e where
    e: "Decode (Export s ''pvc'' ''2025-01-31T23:59:59Z'') = Inr e" "bk_Snapshot e = s" "bk_FormatVersion e = 1"
      "bk_Checksum e = snapshot_checksum s" by blast
  have "backup_Restore (bolt_Store mem_api) None e demo_store = (None, snd (bolt_RestoreSnapshot mem_api None s demo_store))"
    using e(2-4) mem_restores [OF s(2) assms(2)] by (simp add: backup_Restore_def bolt_Store_def)
  moreover have "\<not> (1 :: int64) < 1" "\<not> (32767 :: int64) < 1" by (simp_all add: int64_eval)
  ultimately show ?thesis
    using e(1) demo_store_open by (simp add: restore_run_def restore_text_def restore_open_def small_restore_def backup_fs_def
        command_world_of_def succeeds_def)
qed

theorem backup_restore_serves_same_registry_witness:
  "srv_state (small_run [] (bs_db (snd (bolt_RestoreSnapshot mem_api None (srv_state killed_server) demo_store)))) =
     srv_state killed_server"
proof -
  let ?db = "bs_db (m_store (srv_machine killed_server))" and ?s = "srv_state killed_server"
  let ?st = "snd (bolt_RestoreSnapshot mem_api None ?s demo_store)"
  have holds: "file_holds mem_api ?db ?s" and inv: "registry_inv ?s"
    using lifetimes_hold [OF killed_lifetime mem.bbolt_laws_axioms] by simp_all
  then have s: "snapshot_utf8 ?s" "state_ok ?s" by (simp_all add: registry_inv_def)
  obtain st where st: "bolt_Open mem_api ''registry.db'' (Inr ?db) = Inr st" using holds by (rule mem_opens)
  have f: "snap_FormatVersion ?s = 1"
    by (rule store_FormatVersion [OF mem.Open_holds [OF st holds] killed_sequence])
  obtain r where r: "restore_run mem_api mem_producer undefined (command_world_of empty_file) empty_broker (Some small_restore)
      (backup_fs ?s) = Some (r, Some (BoltTarget ?st))" "cr_Code r = 0"
    using small_restore_runs [OF inv f] by blast
  have restored: "file_holds mem_api (bs_db ?st) ?s"
    using mem.restored_file_holds [OF mem_restores [OF s(2) f] mem.Open_holds [OF demo_store_open empty_file_holds] s(1) killed_sequence] .
  show ?thesis
    by (rule backup_restore_serves_same_registry [OF mem.bbolt_laws_axioms killed_lifetime killed_sequence _ _ _ _ _ _ _
          small_backup_runs [OF holds killed_sequence] _ _ _ _ _ r _ _ small_run_up [OF restored killed_sequence]])
      (simp_all add: command_world_of_def small_backup_def small_restore_def demo_time good_write_def succeeds_def
        small_world_def mem_api_def empty_file_def)
qed

end
