(* ===== verification/Contract_Diff.thy ===== *)
theory Contract_Diff
  imports Any_Values Http
begin

text \<open>
  \<open>internal/contract/diff.go\<close>: the comparison of two traces of HTTP exchanges, of the reference registry
  and of this one. Values that may differ, such as schema IDs, are compared up to a renaming that is
  built up over the whole trace. A number is a float64 in Go; its type, its reading, equality and text
  are arguments.
\<close>

section \<open>Values\<close>

datatype 'f val =
    VNull
  | VBool bool
  | VNum 'f
  | VStr string
  | VList "'f val list"
  | VMap "(string \<times> 'f val) list"

record 'f floats =
  fl_parse :: "string \<Rightarrow> 'f option"
  fl_eq :: "'f \<Rightarrow> 'f \<Rightarrow> bool"
  fl_text :: "'f \<Rightarrow> string"

text \<open>\<open>json.Unmarshal\<close> into \<open>any\<close>: it fails where a number is out of range. Of the members of an object
  with the same key the last one counts; a map is kept in the order of its keys.\<close>

fun to_val :: "'f floats \<Rightarrow> json \<Rightarrow> 'f val option" where
  "to_val F JNull = Some VNull"
| "to_val F (JBool b) = Some (VBool b)"
| "to_val F (JNum s) = map_option VNum (fl_parse F s)"
| "to_val F (JStr r) = Some (VStr (unquote r))"
| "to_val F (JArr js) = map_option VList (those (map (to_val F) js))"
| "to_val F (JObj kvs) =
     map_option (\<lambda>ms. VMap (map_members ms))
       (those (map (\<lambda>(k, j). map_option (\<lambda>v. (unquote k, v)) (to_val F j)) kvs))"

definition unmarshal_val :: "'f floats \<Rightarrow> string \<Rightarrow> 'f val option" where
  "unmarshal_val F raw = Option.bind (parse_json raw) (to_val F)"

text \<open>\<open>scalar\<close>: the text of a value.\<close>

fun of_val :: "'f floats \<Rightarrow> 'f val \<Rightarrow> json" where
  "of_val F VNull = JNull"
| "of_val F (VBool b) = JBool b"
| "of_val F (VNum x) = JNum (fl_text F x)"
| "of_val F (VStr s) = enc_string s"
| "of_val F (VList xs) = JArr (map (of_val F) xs)"
| "of_val F (VMap m) = obj (map (\<lambda>(k, v). (k, of_val F v)) m)"

definition scalar :: "'f floats \<Rightarrow> 'f val \<Rightarrow> string" where
  "scalar F v = print_json (of_val F v)"

text \<open>\<open>reflect.DeepEqual\<close> of a value that is neither a map nor a list with any other.\<close>

fun scalar_equal :: "'f floats \<Rightarrow> 'f val \<Rightarrow> 'f val \<Rightarrow> bool" where
  "scalar_equal F VNull VNull = True"
| "scalar_equal F (VBool a) (VBool b) = (a = b)"
| "scalar_equal F (VNum x) (VNum y) = fl_eq F x y"
| "scalar_equal F (VStr s) (VStr t) = (s = t)"
| "scalar_equal F _ _ = False"

section \<open>Symbols\<close>

record symbolTable =
  sy_forward :: "(string \<times> string, string) fmap"
  sy_reverse :: "(string \<times> string, string) fmap"

definition newSymbolTable :: symbolTable where
  "newSymbolTable = \<lparr>sy_forward = fmempty, sy_reverse = fmempty\<rparr>"

definition symbol_match :: "string \<Rightarrow> string \<Rightarrow> string \<Rightarrow> symbolTable \<Rightarrow> bool \<times> symbolTable" where
  "symbol_match namespace left right t =
     (case fmlookup (sy_forward t) (namespace, left) of
        Some known \<Rightarrow> (known = right, t)
      | None \<Rightarrow>
          (case fmlookup (sy_reverse t) (namespace, right) of
             Some known \<Rightarrow> (known = left, t)
           | None \<Rightarrow> (True, \<lparr>sy_forward = fmupd (namespace, left) right (sy_forward t),
                            sy_reverse = fmupd (namespace, right) left (sy_reverse t)\<rparr>)))"

section \<open>Comparison\<close>

record CompareOptions =
  cm_RelevantHeaders :: "string list"
  cm_SymbolicFields :: "string \<Rightarrow> string option"
  cm_OpaqueFields :: "string \<Rightarrow> bool"
  cm_ExactPaths :: "string \<Rightarrow> bool"

text \<open>The text of the first difference, empty where there is none, and the table after it. The members
  of a map are visited in the order of their keys.\<close>

function compareSemantic :: "'f floats \<Rightarrow> CompareOptions \<Rightarrow> 'f val \<Rightarrow> 'f val \<Rightarrow> string \<Rightarrow> string \<Rightarrow> symbolTable \<Rightarrow> string \<times> symbolTable"
  and compare_members :: "'f floats \<Rightarrow> CompareOptions \<Rightarrow> (string \<times> 'f val) list \<Rightarrow> (string \<times> 'f val) list \<Rightarrow> string \<Rightarrow> symbolTable
    \<Rightarrow> string \<times> symbolTable"
  and compare_elements :: "'f floats \<Rightarrow> CompareOptions \<Rightarrow> 'f val list \<Rightarrow> 'f val list \<Rightarrow> nat \<Rightarrow> string \<Rightarrow> string \<Rightarrow> symbolTable
    \<Rightarrow> string \<times> symbolTable" where
  "compareSemantic F options left right path name t =
     (if cm_OpaqueFields options name \<and> \<not> cm_ExactPaths options path then ('''', t)
      else if cm_SymbolicFields options name \<noteq> None \<and> \<not> cm_ExactPaths options path
      then (case symbol_match (the (cm_SymbolicFields options name)) (scalar F left) (scalar F right) t of
              (ok, t') \<Rightarrow> (if \<not> ok then path @ '': symbolic values are inconsistent'' else '''', t'))
      else case left of
        VMap m \<Rightarrow>
          (case right of
             VMap n \<Rightarrow> if length m \<noteq> length n then (path @ '': object shapes differ'', t)
               else compare_members F options m n path t
           | _ \<Rightarrow> (path @ '': object shapes differ'', t))
      | VList xs \<Rightarrow>
          (case right of
             VList ys \<Rightarrow> if length xs \<noteq> length ys then (path @ '': array lengths differ'', t)
               else compare_elements F options xs ys 0 path name t
           | _ \<Rightarrow> (path @ '': array lengths differ'', t))
      | _ \<Rightarrow>
          (if \<not> scalar_equal F left right then path @ '': '' @ scalar F left @ '' != '' @ scalar F right else '''', t))"
| "compare_members F options [] n path t = ('''', t)"
| "compare_members F options ((key, v) # m) n path t =
     (case map_of n key of
        None \<Rightarrow> (path @ ''.'' @ key @ '': missing from candidate'', t)
      | Some w \<Rightarrow>
          (case compareSemantic F options v w (path @ ''.'' @ key) key t of
             (difference, t') \<Rightarrow> if difference \<noteq> '''' then (difference, t') else compare_members F options m n path t'))"
| "compare_elements F options [] ys i path name t = ('''', t)"
| "compare_elements F options (x # xs) ys i path name t =
     (case compareSemantic F options x (ys ! i) (path @ ''['' @ fmt_nat i @ '']'') name t of
        (difference, t') \<Rightarrow> if difference \<noteq> '''' then (difference, t') else compare_elements F options xs ys (Suc i) path name t')"
  by pat_completeness auto
termination
  by (relation "measure (case_sum (\<lambda>(_, _, v, _). size v)
    (case_sum (\<lambda>(_, _, m, _). size_list (size_prod (\<lambda>_. 0) size) m) (\<lambda>(_, _, xs, _). size_list size xs)))") simp_all

declare compareSemantic.simps [simp del]

section \<open>What it means to be the same\<close>

text \<open>Two values are the same under a renaming of symbols if they have the same shape and the same
  scalars, apart from opaque fields and with the values of symbolic fields renamed.\<close>

type_synonym renaming = "string \<times> string \<Rightarrow> string option"

definition one_to_one :: "renaming \<Rightarrow> bool" where
  "one_to_one S \<longleftrightarrow> (\<forall>ns l l' r. S (ns, l) = Some r \<and> S (ns, l') = Some r \<longrightarrow> l = l')"

definition plain_field :: "CompareOptions \<Rightarrow> string \<Rightarrow> string \<Rightarrow> bool" where
  "plain_field options path name \<longleftrightarrow>
     cm_ExactPaths options path \<or> \<not> cm_OpaqueFields options name \<and> cm_SymbolicFields options name = None"

inductive same :: "'f floats \<Rightarrow> CompareOptions \<Rightarrow> renaming \<Rightarrow> string \<Rightarrow> string \<Rightarrow> 'f val \<Rightarrow> 'f val \<Rightarrow> bool"
  for F :: "'f floats" and options :: CompareOptions and S :: renaming where
  opaque: "cm_OpaqueFields options name \<Longrightarrow> \<not> cm_ExactPaths options path \<Longrightarrow> same F options S path name v w"
| symbolic: "\<not> cm_OpaqueFields options name \<Longrightarrow> \<not> cm_ExactPaths options path \<Longrightarrow> cm_SymbolicFields options name = Some ns \<Longrightarrow>
    S (ns, scalar F v) = Some (scalar F w) \<Longrightarrow> same F options S path name v w"
| objects: "plain_field options path name \<Longrightarrow> length m = length n \<Longrightarrow>
    \<forall>(k, v) \<in> set m. \<exists>w. map_of n k = Some w \<and> same F options S (path @ ''.'' @ k) k v w \<Longrightarrow>
    same F options S path name (VMap m) (VMap n)"
| lists: "plain_field options path name \<Longrightarrow> length xs = length ys \<Longrightarrow>
    \<forall>i < length xs. same F options S (path @ ''['' @ fmt_nat i @ '']'') name (xs ! i) (ys ! i) \<Longrightarrow>
    same F options S path name (VList xs) (VList ys)"
| scalars: "plain_field options path name \<Longrightarrow> scalar_equal F v w \<Longrightarrow> same F options S path name v w"

inductive_cases same_map: "same F options S path name (VMap m) w"
inductive_cases same_list: "same F options S path name (VList xs) w"
inductive_cases sameE: "same F options S path name v w"

definition covers :: "renaming \<Rightarrow> symbolTable \<Rightarrow> bool" where
  "covers S t \<longleftrightarrow> (\<forall>k r. fmlookup (sy_forward t) k = Some r \<longrightarrow> S k = Some r)"

definition table_ok :: "symbolTable \<Rightarrow> bool" where
  "table_ok t \<longleftrightarrow> (\<forall>ns l r. fmlookup (sy_forward t) (ns, l) = Some r \<longleftrightarrow> fmlookup (sy_reverse t) (ns, r) = Some l)"

text \<open>A step of the comparison keeps the table one to one and only adds to it.\<close>

definition table_step :: "symbolTable \<Rightarrow> symbolTable \<Rightarrow> bool" where
  "table_step t t' \<longleftrightarrow> (table_ok t \<longrightarrow> table_ok t') \<and> (\<forall>S. covers S t' \<longrightarrow> covers S t)"

lemma table_step_refl [simp]: "table_step t t"
  by (simp add: table_step_def)

lemma table_step_trans: "table_step t t' \<Longrightarrow> table_step t' t'' \<Longrightarrow> table_step t t''"
  by (auto simp: table_step_def)

lemma table_ok_added:
  assumes "table_ok t" and "fmlookup (sy_forward t) (ns, l) = None" and "fmlookup (sy_reverse t) (ns, r) = None"
  shows "table_ok \<lparr>sy_forward = fmupd (ns, l) r (sy_forward t), sy_reverse = fmupd (ns, r) l (sy_reverse t)\<rparr>"
proof -
  have inverse: "fmlookup (sy_forward t) (n, a) = Some b \<longleftrightarrow> fmlookup (sy_reverse t) (n, b) = Some a" for n a b
    using assms(1) unfolding table_ok_def by blast
  show ?thesis
    unfolding table_ok_def
  proof (intro allI)
    fix n a b
    show "fmlookup (sy_forward \<lparr>sy_forward = fmupd (ns, l) r (sy_forward t), sy_reverse = fmupd (ns, r) l (sy_reverse t)\<rparr>) (n, a) = Some b
      \<longleftrightarrow> fmlookup (sy_reverse \<lparr>sy_forward = fmupd (ns, l) r (sy_forward t), sy_reverse = fmupd (ns, r) l (sy_reverse t)\<rparr>) (n, b) = Some a"
      using inverse [of n a b] inverse [of ns a r] inverse [of ns l b] assms(2,3) by auto
  qed
qed

lemma symbol_match_cases:
  assumes "symbol_match ns l r t = (ok, t')"
  obtains (known) "t' = t"
  | (added) "ok" and "fmlookup (sy_forward t) (ns, l) = None" and "fmlookup (sy_reverse t) (ns, r) = None"
      and "t' = \<lparr>sy_forward = fmupd (ns, l) r (sy_forward t), sy_reverse = fmupd (ns, r) l (sy_reverse t)\<rparr>"
  using assms by (auto simp: symbol_match_def split: option.splits)

lemma symbol_match_step:
  assumes "symbol_match ns l r t = (ok, t')"
  shows "table_step t t'"
  using assms
proof (cases rule: symbol_match_cases)
  case added
  have "covers S t" if "covers S t'" for S
    unfolding covers_def
  proof (intro allI impI)
    fix k x
    assume "fmlookup (sy_forward t) k = Some x"
    then have "fmlookup (sy_forward t') k = Some x" using added(2,4) by auto
    with that show "S k = Some x" unfolding covers_def by blast
  qed
  moreover have "table_ok t'" if "table_ok t" using table_ok_added [OF that added(2,3)] added(4) by simp
  ultimately show ?thesis by (simp add: table_step_def)
qed simp

lemma symbol_match_sound:
  assumes "symbol_match ns l r t = (True, t')" and "table_ok t" and "covers S t'"
  shows "S (ns, l) = Some r"
proof -
  have "fmlookup (sy_forward t') (ns, l) = Some r"
    using assms(1) assms(2) [unfolded table_ok_def, rule_format, of ns l r]
    by (auto simp: symbol_match_def split: option.splits)
  with assms(3) show ?thesis by (simp add: covers_def)
qed

lemma symbol_match_complete:
  assumes "S (ns, l) = Some r" and "covers S t" and "table_ok t" and "one_to_one S"
  obtains t' where "symbol_match ns l r t = (True, t')" and "covers S t'"
proof (cases "fmlookup (sy_forward t) (ns, l)")
  case (Some known)
  then have "known = r" using assms(1,2) by (fastforce simp: covers_def)
  with Some that assms(2) show thesis by (simp add: symbol_match_def)
next
  case None
  have "fmlookup (sy_reverse t) (ns, r) = None"
  proof (rule ccontr)
    assume "fmlookup (sy_reverse t) (ns, r) \<noteq> None"
    then obtain l' where "fmlookup (sy_forward t) (ns, l') = Some r" using assms(3) by (auto simp: table_ok_def)
    moreover from this have "S (ns, l') = Some r" using assms(2) unfolding covers_def by blast
    then have "l' = l" using assms(1,4) unfolding one_to_one_def by blast
    ultimately show False using None by simp
  qed
  with None that assms(1,2) show thesis by (auto simp: symbol_match_def covers_def)
qed

lemma compareSemantic_cases:
  assumes "compareSemantic F options v w path name t = (d, t')"
  obtains (opaque) "cm_OpaqueFields options name" and "\<not> cm_ExactPaths options path" and "t' = t"
  | (symbolic) ns ok where "\<not> cm_OpaqueFields options name" and "\<not> cm_ExactPaths options path"
      and "cm_SymbolicFields options name = Some ns"
      and "symbol_match ns (scalar F v) (scalar F w) t = (ok, t')" and "d = '''' \<longleftrightarrow> ok"
  | (objects) m n where "plain_field options path name" and "v = VMap m" and "w = VMap n" and "length m = length n"
      and "compare_members F options m n path t = (d, t')"
  | (lists) xs ys where "plain_field options path name" and "v = VList xs" and "w = VList ys" and "length xs = length ys"
      and "compare_elements F options xs ys 0 path name t = (d, t')"
  | (scalars) "plain_field options path name" and "scalar_equal F v w" and "t' = t"
  | (differ) "d \<noteq> ''''" and "t' = t"
proof (cases "plain_field options path name")
  case True
  with assms [unfolded compareSemantic.simps [of F options v w]] that(3-6) show thesis
    by (cases v; cases w) (auto simp: plain_field_def split: if_splits)
next
  case False
  with assms that(1,2) show thesis
    by (auto simp: compareSemantic.simps [of F options v w] plain_field_def split: if_splits prod.splits)
qed

text \<open>A comparison that finds no difference has found the values the same, under every renaming that
  agrees with the table it leaves.\<close>

lemma compare_sound:
  "compareSemantic F options v w path name t = (d, t') \<Longrightarrow>
     table_step t t' \<and> (table_ok t \<and> d = '''' \<longrightarrow> (\<forall>S. covers S t' \<longrightarrow> same F options S path name v w))"
  "compare_members F options m n path t = (d, t') \<Longrightarrow>
     table_step t t' \<and> (table_ok t \<and> d = '''' \<longrightarrow> (\<forall>S. covers S t' \<longrightarrow>
       (\<forall>(k, v) \<in> set m. \<exists>w. map_of n k = Some w \<and> same F options S (path @ ''.'' @ k) k v w)))"
  "compare_elements F options xs ys i path name t = (d, t') \<Longrightarrow>
     table_step t t' \<and> (table_ok t \<and> d = '''' \<longrightarrow> (\<forall>S. covers S t' \<longrightarrow>
       (\<forall>j < length xs. same F options S (path @ ''['' @ fmt_nat (i + j) @ '']'') name (xs ! j) (ys ! (i + j)))))"
proof (induction F options v w path name t and F options m n path t and F options xs ys i path name t
    arbitrary: d t' and d t' and d t' rule: compareSemantic_compare_members_compare_elements.induct)
  case (1 F options v w path name t)
  from "1.prems" show ?case
  proof (cases rule: compareSemantic_cases)
    case opaque
    then show ?thesis by (simp add: same.opaque)
  next
    case (symbolic ns ok)
    have "same F options S path name v w" if "ok" "table_ok t" "covers S t'" for S
      using symbol_match_sound [of ns _ _ t t' S] symbolic that by (auto intro: same.symbolic)
    with symbol_match_step [OF symbolic(4)] symbolic(5) show ?thesis by auto
  next
    case (objects m n)
    then have "table_step t t' \<and> (table_ok t \<and> d = '''' \<longrightarrow> (\<forall>S. covers S t' \<longrightarrow>
        (\<forall>(k, v) \<in> set m. \<exists>w. map_of n k = Some w \<and> same F options S (path @ ''.'' @ k) k v w)))"
      by (intro "1.IH"(2)) (auto simp: plain_field_def)
    with objects show ?thesis by (blast intro: same.objects)
  next
    case (lists xs ys)
    then have "table_step t t' \<and> (table_ok t \<and> d = '''' \<longrightarrow> (\<forall>S. covers S t' \<longrightarrow>
        (\<forall>j < length xs. same F options S (path @ ''['' @ fmt_nat (0 + j) @ '']'') name (xs ! j) (ys ! (0 + j)))))"
      by (intro "1.IH"(1)) (auto simp: plain_field_def)
    with lists show ?thesis by (simp add: same.lists)
  next
    case scalars
    then show ?thesis by (simp add: same.scalars)
  qed simp
next
  case (3 F options k v m n path t)
  show ?case
  proof (cases "map_of n k")
    case None
    with "3.prems" show ?thesis by auto
  next
    case (Some w)
    obtain d1 t1 where c: "compareSemantic F options v w (path @ ''.'' @ k) k t = (d1, t1)" by fastforce
    note head = "3.IH"(1) [OF Some c]
    show ?thesis
    proof (cases "d1 = ''''")
      case True
      then have rest: "compare_members F options m n path t1 = (d, t')" using "3.prems" Some c by simp
      note tail = "3.IH"(2) [OF Some c [symmetric] _ rest]
      show ?thesis using head tail True Some by (auto simp: table_step_def)
    next
      case False
      then show ?thesis using "3.prems" Some c head by simp
    qed
  qed
next
  case (5 F options x xs ys i path name t)
  obtain d1 t1 where c: "compareSemantic F options x (ys ! i) (path @ ''['' @ fmt_nat i @ '']'') name t = (d1, t1)" by fastforce
  note head = "5.IH"(1) [OF c]
  show ?case
  proof (cases "d1 = ''''")
    case True
    then have rest: "compare_elements F options xs ys (Suc i) path name t1 = (d, t')" using "5.prems" c by simp
    note tail = "5.IH"(2) [OF c [symmetric] _ rest]
    have "same F options S (path @ ''['' @ fmt_nat (i + j) @ '']'') name ((x # xs) ! j) (ys ! (i + j))"
      if "table_ok t" "d = ''''" "covers S t'" "j < length (x # xs)" for S j
      using head tail True that by (cases j) (auto simp: table_step_def)
    with head tail True show ?thesis by (auto simp: table_step_def)
  next
    case False
    then show ?thesis using "5.prems" c head by simp
  qed
qed auto

text \<open>Conversely a comparison of values that are the same under some renaming finds no difference, if the
  table agrees with that renaming, and it still does afterwards.\<close>

definition finds_same :: "renaming \<Rightarrow> (symbolTable \<Rightarrow> string \<times> symbolTable) \<Rightarrow> bool" where
  "finds_same S f \<longleftrightarrow> (\<forall>t. covers S t \<and> table_ok t \<longrightarrow> (\<exists>t'. f t = ('''', t') \<and> covers S t'))"

lemma finds_sameD: "finds_same S f \<Longrightarrow> covers S t \<Longrightarrow> table_ok t \<Longrightarrow> \<exists>t'. f t = ('''', t') \<and> covers S t'"
  by (simp add: finds_same_def)

lemma members_complete:
  assumes "\<forall>(k, v) \<in> set m. \<exists>w. map_of n k = Some w \<and> finds_same S (compareSemantic F options v w (path @ ''.'' @ k) k)"
  shows "finds_same S (compare_members F options m n path)"
  using assms
proof (induction m)
  case Nil
  then show ?case by (simp add: finds_same_def)
next
  case (Cons kv m)
  obtain k v where kv: "kv = (k, v)" by (cases kv)
  with Cons.prems obtain w where w: "map_of n k = Some w" and f: "finds_same S (compareSemantic F options v w (path @ ''.'' @ k) k)"
    by auto
  have rest: "finds_same S (compare_members F options m n path)" using Cons by simp
  show ?case
    unfolding finds_same_def
  proof (intro allI impI, elim conjE)
    fix t
    assume t: "covers S t" "table_ok t"
    from finds_sameD [OF f t] obtain t1 where t1: "compareSemantic F options v w (path @ ''.'' @ k) k t = ('''', t1)" "covers S t1" by blast
    moreover have "table_ok t1" using compare_sound(1) [OF t1(1)] t(2) by (simp add: table_step_def)
    ultimately show "\<exists>t'. compare_members F options (kv # m) n path t = ('''', t') \<and> covers S t'"
      using finds_sameD [OF rest, of t1] kv w by simp
  qed
qed

lemma elements_complete:
  assumes "\<forall>j < length xs. finds_same S (compareSemantic F options (xs ! j) (ys ! (i + j)) (path @ ''['' @ fmt_nat (i + j) @ '']'') name)"
  shows "finds_same S (compare_elements F options xs ys i path name)"
  using assms
proof (induction xs arbitrary: i)
  case Nil
  then show ?case by (simp add: finds_same_def)
next
  case (Cons x xs)
  have f: "finds_same S (compareSemantic F options x (ys ! i) (path @ ''['' @ fmt_nat i @ '']'') name)"
    using Cons.prems [rule_format, of 0] by simp
  have rest: "finds_same S (compare_elements F options xs ys (Suc i) path name)"
    using Cons.prems [rule_format, of "Suc _"] by (intro Cons.IH) simp
  show ?case
    unfolding finds_same_def
  proof (intro allI impI, elim conjE)
    fix t
    assume t: "covers S t" "table_ok t"
    from finds_sameD [OF f t] obtain t1 where
      t1: "compareSemantic F options x (ys ! i) (path @ ''['' @ fmt_nat i @ '']'') name t = ('''', t1)" "covers S t1" by blast
    moreover have "table_ok t1" using compare_sound(1) [OF t1(1)] t(2) by (simp add: table_step_def)
    ultimately show "\<exists>t'. compare_elements F options (x # xs) ys i path name t = ('''', t') \<and> covers S t'"
      using finds_sameD [OF rest, of t1] by simp
  qed
qed

lemma compare_plain:
  assumes "plain_field options path name"
  shows "compareSemantic F options (VMap m) (VMap n) path name t =
      (if length m \<noteq> length n then (path @ '': object shapes differ'', t) else compare_members F options m n path t)"
    and "compareSemantic F options (VList xs) (VList ys) path name t =
      (if length xs \<noteq> length ys then (path @ '': array lengths differ'', t) else compare_elements F options xs ys 0 path name t)"
    and "scalar_equal F v w \<Longrightarrow> compareSemantic F options v w path name t = ('''', t)"
proof -
  have p: "(cm_OpaqueFields options name \<and> \<not> cm_ExactPaths options path) = False"
    "(cm_SymbolicFields options name \<noteq> None \<and> \<not> cm_ExactPaths options path) = False"
    using assms by (auto simp: plain_field_def)
  show "compareSemantic F options (VMap m) (VMap n) path name t =
      (if length m \<noteq> length n then (path @ '': object shapes differ'', t) else compare_members F options m n path t)"
    and "compareSemantic F options (VList xs) (VList ys) path name t =
      (if length xs \<noteq> length ys then (path @ '': array lengths differ'', t) else compare_elements F options xs ys 0 path name t)"
    unfolding compareSemantic.simps p by simp_all
  show "compareSemantic F options v w path name t = ('''', t)" if "scalar_equal F v w"
    using that unfolding compareSemantic.simps [of F options v w] p by (cases v) simp_all
qed

lemma compare_complete:
  assumes "same F options S path name v w" and "one_to_one S"
  shows "finds_same S (compareSemantic F options v w path name)"
  using assms(1)
proof (induction rule: same.induct)
  case (opaque name path v w)
  then show ?case by (simp add: finds_same_def compareSemantic.simps [of F options v w])
next
  case (symbolic name path ns v w)
  show ?case
    unfolding finds_same_def
  proof (intro allI impI, elim conjE)
    fix t
    assume "covers S t" "table_ok t"
    from symbol_match_complete [OF symbolic(4) this assms(2)] obtain t' where
      "symbol_match ns (scalar F v) (scalar F w) t = (True, t')" "covers S t'" .
    with symbolic show "\<exists>t'. compareSemantic F options v w path name t = ('''', t') \<and> covers S t'"
      by (simp add: compareSemantic.simps [of F options v w])
  qed
next
  case (objects path name m n)
  have "finds_same S (compare_members F options m n path)"
    using objects.IH by (intro members_complete) blast
  with objects(2) show ?case by (simp add: finds_same_def compare_plain(1) [OF objects(1)])
next
  case (lists path name xs ys)
  have "finds_same S (compare_elements F options xs ys 0 path name)"
    using lists.IH by (intro elements_complete) auto
  with lists(2) show ?case by (simp add: finds_same_def compare_plain(2) [OF lists(1)])
next
  case (scalars path name v w)
  then show ?case by (simp add: finds_same_def compare_plain(3))
qed

end
