(* ===== verification/Contract_Trace.thy ===== *)
theory Contract_Trace
  imports Contract_Diff
begin

text \<open>
  \<open>internal/contract/trace.go\<close> and the rest of \<open>diff.go\<close>: the recording of HTTP exchanges with their
  credentials left out, and the comparison of two traces. A body is its bytes, or the error that reading its
  first part gives. Durations are left out, and the text of a difference that only formats values is
  kept as those values.
\<close>

section \<open>Exchanges\<close>

type_synonym headers = "(string, string list) fmap"

record Exchange =
  ex_Method :: string
  ex_URL :: string
  ex_RequestHeaders :: headers
  ex_RequestBody :: string
  ex_Status :: int64
  ex_ResponseHeaders :: headers
  ex_ResponseBody :: string
  ex_Error :: "go_error option"

definition defaultTraceBodyLimit :: nat where
  "defaultTraceBodyLimit = 2 ^ 20"

text \<open>\<open>http.CanonicalHeaderKey\<close>: upper case at the start and after a hyphen, lower case elsewhere; a name
  with a byte that is none of a header name is left as it is.\<close>

definition header_byte :: "char \<Rightarrow> bool" where
  "header_byte c \<longleftrightarrow> c \<in> set ''abcdefghijklmnopqrstuvwxyzABCDEFGHIJKLMNOPQRSTUVWXYZ0123456789!#$%&*+-.^_`|~'' \<or> c = CHR 0x27"

definition upper_byte :: "char \<Rightarrow> char" where
  "upper_byte c = (if 97 \<le> byte c \<and> byte c \<le> 122 then char_of (byte c - 32) else c)"

definition lower_byte :: "char \<Rightarrow> char" where
  "lower_byte c = (if 65 \<le> byte c \<and> byte c \<le> 90 then char_of (byte c + 32) else c)"

fun canonical_bytes :: "bool \<Rightarrow> string \<Rightarrow> string" where
  "canonical_bytes upper [] = []"
| "canonical_bytes upper (c # s) = (if upper then upper_byte c else lower_byte c) # canonical_bytes (c = CHR ''-'') s"

definition CanonicalHeaderKey :: "string \<Rightarrow> string" where
  "CanonicalHeaderKey key = (if list_all header_byte key then canonical_bytes True key else key)"

definition header_values :: "headers \<Rightarrow> string \<Rightarrow> string list" where
  "header_values h key = (case fmlookup h (CanonicalHeaderKey key) of None \<Rightarrow> [] | Some vs \<Rightarrow> vs)"

definition EqualFold :: "string \<Rightarrow> string \<Rightarrow> bool" where
  "EqualFold a b \<longleftrightarrow> fold_name a = fold_name b"

definition credential_header :: "string \<Rightarrow> bool" where
  "credential_header key \<longleftrightarrow> EqualFold key ''Authorization'' \<or> EqualFold key ''Proxy-Authorization'' \<or> EqualFold key ''Cookie''"

definition redactedHeaders :: "headers \<Rightarrow> headers" where
  "redactedHeaders h =
     foldl (\<lambda>m key. fmupd (CanonicalHeaderKey key) (if credential_header key then [''[REDACTED]''] else header_values h key) m)
       fmempty (sorted_list_of_fset (fmdom h))"

section \<open>The recorder\<close>

record message_in =
  mi_Method :: string
  mi_URL :: string
  mi_Headers :: headers
  mi_Body :: "(go_error + string) option"

record message_out =
  mo_Status :: int64
  mo_Headers :: headers
  mo_Body :: "(go_error + string) option"

text \<open>What is kept of a body; the one passed on is the same bytes.\<close>

definition copyBody :: "nat \<Rightarrow> (go_error + string) option \<Rightarrow> go_error + string" where
  "copyBody limit source = (case source of None \<Rightarrow> Inr '''' | Some (Inl err) \<Rightarrow> Inl err | Some (Inr s) \<Rightarrow> Inr (take limit s))"

definition RoundTrip :: "(message_in \<Rightarrow> 'w \<Rightarrow> (go_error + message_out) \<times> 'w) \<Rightarrow> message_in \<Rightarrow> 'w \<times> Exchange list
    \<Rightarrow> (go_error + message_out) \<times> 'w \<times> Exchange list" where
  "RoundTrip next r w = (case w of (v, log) \<Rightarrow>
     (let started = \<lparr>ex_Method = mi_Method r, ex_URL = mi_URL r, ex_RequestHeaders = redactedHeaders (mi_Headers r),
            ex_RequestBody = '''', ex_Status = 0, ex_ResponseHeaders = fmempty, ex_ResponseBody = '''', ex_Error = None\<rparr> in
      case copyBody defaultTraceBodyLimit (mi_Body r) of
        Inl err \<Rightarrow> (Inl (FmtErr ''capture request body: %w'' [] (Some err)), v, log)
      | Inr sent \<Rightarrow>
          (case next r v of
             (Inl err, v') \<Rightarrow> (Inl err, v', log @ [started\<lparr>ex_RequestBody := sent, ex_Error := Some err\<rparr>])
           | (Inr response, v') \<Rightarrow>
               (case copyBody defaultTraceBodyLimit (mo_Body response) of
                  Inl err \<Rightarrow> (Inl (FmtErr ''capture response body: %w'' [] (Some err)), v', log)
                | Inr received \<Rightarrow>
                    (Inr response, v', log @ [started\<lparr>ex_RequestBody := sent, ex_Status := mo_Status response,
                       ex_ResponseHeaders := redactedHeaders (mo_Headers response), ex_ResponseBody := received\<rparr>])))))"

section \<open>The comparison of traces\<close>

datatype difference_text = DText string | DNumbers int int | DLists "string list" "string list" | DBytes string string

record Difference =
  df_Exchange :: nat
  df_Path :: string
  df_Message :: difference_text

text \<open>\<open>strings.SplitN\<close> at the first colon with a blank.\<close>

fun split_colon :: "string \<Rightarrow> string \<times> string option" where
  "split_colon [] = ([], None)"
| "split_colon (c # s) =
     (if c = CHR '':'' \<and> (s \<noteq> [] \<and> hd s = CHR '' '') then ([], Some (tl s))
      else (case split_colon s of (a, b) \<Rightarrow> (c # a, b)))"

definition compareBodies :: "'f floats \<Rightarrow> string \<Rightarrow> string \<Rightarrow> CompareOptions \<Rightarrow> symbolTable \<Rightarrow> Difference option \<times> symbolTable" where
  "compareBodies F leftRaw rightRaw options t =
     (if TrimSpace leftRaw = '''' \<and> TrimSpace rightRaw = '''' then (None, t)
      else case (unmarshal_val F leftRaw, unmarshal_val F rightRaw) of
        (Some left, Some right) \<Rightarrow>
          (case compareSemantic F options left right ''$'' '''' t of
             (difference, t') \<Rightarrow>
               if difference \<noteq> '''' then
                 (case split_colon difference of
                    (path, rest) \<Rightarrow> (Some \<lparr>df_Exchange = 0, df_Path = path,
                      df_Message = DText (case rest of None \<Rightarrow> difference | Some s \<Rightarrow> s)\<rparr>, t'))
               else (None, t'))
      | _ \<Rightarrow>
          (if leftRaw \<noteq> rightRaw then Some \<lparr>df_Exchange = 0, df_Path = ''$.body'', df_Message = DBytes leftRaw rightRaw\<rparr>
           else None, t))"

definition canonicalHeader :: "headers \<Rightarrow> string \<Rightarrow> string list" where
  "canonicalHeader h key = sort (header_values h key)"

definition compare_headers :: "CompareOptions \<Rightarrow> Exchange \<Rightarrow> Exchange \<Rightarrow> nat \<Rightarrow> Difference option" where
  "compare_headers options l r i =
     (case find (\<lambda>header. canonicalHeader (ex_ResponseHeaders l) header \<noteq> canonicalHeader (ex_ResponseHeaders r) header)
             (cm_RelevantHeaders options) of
        None \<Rightarrow> None
      | Some header \<Rightarrow> Some \<lparr>df_Exchange = i, df_Path = ''$.headers.'' @ header,
          df_Message = DLists (canonicalHeader (ex_ResponseHeaders l) header) (canonicalHeader (ex_ResponseHeaders r) header)\<rparr>)"

fun compare_exchanges :: "'f floats \<Rightarrow> CompareOptions \<Rightarrow> nat \<Rightarrow> Exchange list \<Rightarrow> Exchange list \<Rightarrow> symbolTable \<Rightarrow> Difference option" where
  "compare_exchanges F options i (l # ls) (r # rs) t =
     (if ex_Method l \<noteq> ex_Method r
      then Some \<lparr>df_Exchange = i, df_Path = ''$.method'', df_Message = DText (ex_Method l @ '' != '' @ ex_Method r)\<rparr>
      else if ex_Status l \<noteq> ex_Status r
      then Some \<lparr>df_Exchange = i, df_Path = ''$.status'', df_Message = DNumbers (sint64 (ex_Status l)) (sint64 (ex_Status r))\<rparr>
      else case compare_headers options l r i of
        Some difference \<Rightarrow> Some difference
      | None \<Rightarrow>
          (case compareBodies F (ex_ResponseBody l) (ex_ResponseBody r) options t of
             (Some difference, _) \<Rightarrow> Some (difference\<lparr>df_Exchange := i\<rparr>)
           | (None, t') \<Rightarrow> compare_exchanges F options (Suc i) ls rs t'))"
| "compare_exchanges F options i _ _ t = None"

definition CompareTraces :: "'f floats \<Rightarrow> Exchange list \<Rightarrow> Exchange list \<Rightarrow> CompareOptions \<Rightarrow> Difference option" where
  "CompareTraces F reference candidate options =
     (if length reference \<noteq> length candidate
      then Some \<lparr>df_Exchange = 0, df_Path = ''$.exchanges'', df_Message = DNumbers (int (length reference)) (int (length candidate))\<rparr>
      else compare_exchanges F options 0 reference candidate newSymbolTable)"

definition compareJSONExact :: "'f floats \<Rightarrow> 'f val \<Rightarrow> 'f val \<Rightarrow> string \<Rightarrow> string" where
  "compareJSONExact F left right path =
     fst (compareSemantic F \<lparr>cm_RelevantHeaders = [], cm_SymbolicFields = (\<lambda>_. None), cm_OpaqueFields = (\<lambda>_. False),
       cm_ExactPaths = (\<lambda>_. False)\<rparr> left right path '''' newSymbolTable)"

section \<open>What the comparison decides\<close>

definition body_same :: "'f floats \<Rightarrow> CompareOptions \<Rightarrow> renaming \<Rightarrow> string \<Rightarrow> string \<Rightarrow> bool" where
  "body_same F options S leftRaw rightRaw \<longleftrightarrow>
     TrimSpace leftRaw = '''' \<and> TrimSpace rightRaw = ''''
     \<or> (case (unmarshal_val F leftRaw, unmarshal_val F rightRaw) of
          (Some left, Some right) \<Rightarrow> same F options S ''$'' '''' left right
        | _ \<Rightarrow> leftRaw = rightRaw)"

definition exchange_same :: "'f floats \<Rightarrow> CompareOptions \<Rightarrow> renaming \<Rightarrow> Exchange \<Rightarrow> Exchange \<Rightarrow> bool" where
  "exchange_same F options S l r \<longleftrightarrow> ex_Method l = ex_Method r \<and> ex_Status l = ex_Status r
     \<and> (\<forall>header \<in> set (cm_RelevantHeaders options).
          canonicalHeader (ex_ResponseHeaders l) header = canonicalHeader (ex_ResponseHeaders r) header)
     \<and> body_same F options S (ex_ResponseBody l) (ex_ResponseBody r)"

lemma compareBodies_sound:
  assumes "compareBodies F a b options t = (None, t')" and "table_ok t"
  shows "table_step t t' \<and> (\<forall>S. covers S t' \<longrightarrow> body_same F options S a b)"
  using assms compare_sound(1) [of F options _ _ "''$''" "''''" t]
  by (fastforce simp: compareBodies_def body_same_def split: if_splits option.splits prod.splits)

lemma compareBodies_complete:
  assumes "body_same F options S a b" and "one_to_one S" and "covers S t" and "table_ok t"
  obtains t' where "compareBodies F a b options t = (None, t')" and "covers S t'" and "table_ok t'"
proof -
  have "\<exists>t'. compareBodies F a b options t = (None, t') \<and> covers S t'"
    using assms compare_complete [of F options S "''$''" "''''"]
    by (fastforce simp: compareBodies_def body_same_def finds_same_def split: option.splits)
  then show thesis using that compareBodies_sound assms(4) by (meson table_step_def)
qed

lemma compare_headers_None:
  "compare_headers options l r i = None \<longleftrightarrow> (\<forall>header \<in> set (cm_RelevantHeaders options).
     canonicalHeader (ex_ResponseHeaders l) header = canonicalHeader (ex_ResponseHeaders r) header)"
proof -
  have "compare_headers options l r i = None \<longleftrightarrow>
      find (\<lambda>header. canonicalHeader (ex_ResponseHeaders l) header \<noteq> canonicalHeader (ex_ResponseHeaders r) header)
        (cm_RelevantHeaders options) = None"
    by (simp add: compare_headers_def split: option.split)
  then show ?thesis by (auto simp: find_None_iff)
qed

lemma compare_exchanges_sound:
  assumes "compare_exchanges F options i ls rs t = None" and "length ls = length rs" and "table_ok t"
  shows "\<exists>t'. table_ok t' \<and> (\<forall>S. covers S t' \<longrightarrow> covers S t \<and> list_all2 (exchange_same F options S) ls rs)"
  using assms
proof (induction ls rs arbitrary: i t rule: list_induct2')
  case (4 l ls r rs)
  then obtain t1 where b: "compareBodies F (ex_ResponseBody l) (ex_ResponseBody r) options t = (None, t1)"
    and rest: "compare_exchanges F options (Suc i) ls rs t1 = None"
    and head: "ex_Method l = ex_Method r" "ex_Status l = ex_Status r" "compare_headers options l r i = None"
    by (auto split: if_splits option.splits prod.splits)
  from compareBodies_sound [OF b 4(4)] have step: "table_step t t1"
    and body: "\<And>S. covers S t1 \<Longrightarrow> body_same F options S (ex_ResponseBody l) (ex_ResponseBody r)" by auto
  have "table_ok t1" using step 4(4) by (simp add: table_step_def)
  then obtain t' where t': "table_ok t'" "\<forall>S. covers S t' \<longrightarrow> covers S t1 \<and> list_all2 (exchange_same F options S) ls rs"
    using "4.IH" [OF rest] 4(3) by auto
  moreover have "exchange_same F options S l r" if "covers S t1" for S
    using head body [OF that] by (simp add: exchange_same_def compare_headers_None)
  moreover have "covers S t" if "covers S t1" for S using step that by (simp add: table_step_def)
  ultimately show ?case by (intro exI [of _ t']) auto
qed auto

lemma compare_exchanges_complete:
  assumes "list_all2 (exchange_same F options S) ls rs" and "one_to_one S" and "covers S t" and "table_ok t"
  shows "compare_exchanges F options i ls rs t = None"
  using assms(1,3,4)
proof (induction ls rs arbitrary: i t rule: list_induct2')
  case (4 l ls r rs)
  then have e: "exchange_same F options S l r" and rest: "list_all2 (exchange_same F options S) ls rs" by auto
  from e have "body_same F options S (ex_ResponseBody l) (ex_ResponseBody r)" by (simp add: exchange_same_def)
  then obtain t' where "compareBodies F (ex_ResponseBody l) (ex_ResponseBody r) options t = (None, t')" "covers S t'" "table_ok t'"
    using assms(2) 4(3,4) by (rule compareBodies_complete)
  with e "4.IH" [OF rest] compare_headers_None [of options l r i] show ?case by (simp add: exchange_same_def)
qed auto

text \<open>C40: Two traces are accepted exactly if they are the same up to names: there is a one-to-one
  renaming of the values of symbolic fields, one for the whole trace, under which all exchanges have the
  same methods, statuses, relevant headers and bodies, opaque fields aside.\<close>

theorem CompareTraces_iff:
  "CompareTraces F reference candidate options = None \<longleftrightarrow>
     (\<exists>S. one_to_one S \<and> list_all2 (exchange_same F options S) reference candidate)"
proof
  assume "CompareTraces F reference candidate options = None"
  then have len: "length reference = length candidate" and c: "compare_exchanges F options 0 reference candidate newSymbolTable = None"
    by (auto simp: CompareTraces_def split: if_splits)
  have "table_ok newSymbolTable" by (simp add: table_ok_def newSymbolTable_def)
  with compare_exchanges_sound [OF c len] obtain t where t: "table_ok t"
    "\<And>S. covers S t \<Longrightarrow> list_all2 (exchange_same F options S) reference candidate" by blast
  have "one_to_one (fmlookup (sy_forward t))"
    unfolding one_to_one_def
  proof (intro allI impI, elim conjE)
    fix ns l l' r
    assume "fmlookup (sy_forward t) (ns, l) = Some r" "fmlookup (sy_forward t) (ns, l') = Some r"
    then have "fmlookup (sy_reverse t) (ns, r) = Some l" "fmlookup (sy_reverse t) (ns, r) = Some l'"
      using t(1) unfolding table_ok_def by blast+
    then show "l = l'" by simp
  qed
  moreover have "covers (fmlookup (sy_forward t)) t" by (simp add: covers_def)
  ultimately show "\<exists>S. one_to_one S \<and> list_all2 (exchange_same F options S) reference candidate" using t(2) by blast
next
  assume "\<exists>S. one_to_one S \<and> list_all2 (exchange_same F options S) reference candidate"
  then obtain S where S: "one_to_one S" "list_all2 (exchange_same F options S) reference candidate" by blast
  have "covers S newSymbolTable" "table_ok newSymbolTable" by (simp_all add: covers_def table_ok_def newSymbolTable_def)
  from compare_exchanges_complete [OF S(2,1) this] S(2) show "CompareTraces F reference candidate options = None"
    by (simp add: CompareTraces_def list_all2_lengthD)
qed

section \<open>What is recorded\<close>

text \<open>Names of headers are folded as ASCII, and their canonical form folds to the same.\<close>

lemma header_byte_ascii: "header_byte c \<Longrightarrow> byte c < 128"
  by (auto simp: header_byte_def)

lemma fold_name_ascii: "list_all (\<lambda>c. byte c < 128) s \<Longrightarrow> fold_name s = map fold_char s"
proof (induction s)
  case (Cons c s)
  then have "c \<noteq> CHR 0xC5" "c \<noteq> CHR 0xE2" by auto
  with Cons show ?case by simp
qed simp

lemma fold_char_case: "byte c < 128 \<Longrightarrow> fold_char (upper_byte c) = fold_char c \<and> fold_char (lower_byte c) = fold_char c"
  by (auto simp: fold_char_def upper_byte_def lower_byte_def)

lemma case_ascii: "byte c < 128 \<Longrightarrow> byte (upper_byte c) < 128 \<and> byte (lower_byte c) < 128"
  by (auto simp: upper_byte_def lower_byte_def)

lemma canonical_bytes_fold:
  "list_all (\<lambda>c. byte c < 128) s \<Longrightarrow>
     list_all (\<lambda>c. byte c < 128) (canonical_bytes b s) \<and> map fold_char (canonical_bytes b s) = map fold_char s"
  by (induction s arbitrary: b) (auto simp: fold_char_case case_ascii)

lemma fold_name_canonical [simp]: "fold_name (CanonicalHeaderKey key) = fold_name key"
proof (cases "list_all header_byte key")
  case True
  then have "list_all (\<lambda>c. byte c < 128) key" using header_byte_ascii by (auto simp: list_all_iff)
  with canonical_bytes_fold [OF this, of True] True show ?thesis
    by (simp add: CanonicalHeaderKey_def fold_name_ascii)
qed (simp only: CanonicalHeaderKey_def if_False)

lemma credential_canonical [simp]: "credential_header (CanonicalHeaderKey key) = credential_header key"
  by (simp add: credential_header_def EqualFold_def)

lemma redacted_fold:
  "fmlookup (foldl (\<lambda>m key. fmupd (CanonicalHeaderKey key) (if credential_header key then [''[REDACTED]''] else header_values h key) m)
     m keys) name = Some vs \<Longrightarrow> credential_header name \<Longrightarrow>
   (\<forall>ws. fmlookup m name = Some ws \<longrightarrow> ws = [''[REDACTED]'']) \<Longrightarrow> vs = [''[REDACTED]'']"
proof (induction keys arbitrary: m)
  case (Cons key keys)
  show ?case
    by (rule Cons.IH [OF Cons.prems(1) [unfolded foldl.simps] Cons.prems(2)]) (use Cons.prems(2,3) in auto)
qed simp

lemma redacted: "fmlookup (redactedHeaders h) name = Some vs \<Longrightarrow> credential_header name \<Longrightarrow> vs = [''[REDACTED]'']"
  unfolding redactedHeaders_def by (erule redacted_fold) simp_all

definition safe_exchange :: "Exchange \<Rightarrow> bool" where
  "safe_exchange e \<longleftrightarrow>
     (\<forall>name vs. credential_header name \<and> (fmlookup (ex_RequestHeaders e) name = Some vs \<or> fmlookup (ex_ResponseHeaders e) name = Some vs)
        \<longrightarrow> vs = [''[REDACTED]''])
     \<and> length (ex_RequestBody e) \<le> defaultTraceBodyLimit \<and> length (ex_ResponseBody e) \<le> defaultTraceBodyLimit"

text \<open>The recorder changes nothing and keeps no credentials: whatever spelling a request uses, a recorded
  exchange has no value of an authorization or cookie header, and its bodies are bounded; at most one exchange
  is added; and a response that is returned is the one the transport gave.\<close>

theorem recorder_safe:
  assumes "RoundTrip next r (v, log) = (out, v', log')"
  shows "\<exists>new. log' = log @ new \<and> length new \<le> 1 \<and> (\<forall>e \<in> set new. safe_exchange e)
    \<and> (\<forall>response. out = Inr response \<longrightarrow> next r v = (Inr response, v') \<and> length new = 1)"
proof -
  have body: "copyBody limit b = Inr s \<Longrightarrow> length s \<le> limit" for limit b s
    by (auto simp: copyBody_def split: option.splits sum.splits)
  show ?thesis
    using assms redacted [of "mi_Headers r"] redacted
    by (fastforce simp: RoundTrip_def Let_def safe_exchange_def split: sum.splits prod.splits dest: body)
qed

lemma recorder_safe_witness:
  "\<exists>new. snd (snd (RoundTrip (\<lambda>r v. (Inl EOF, v)) \<lparr>mi_Method = ''GET'', mi_URL = ''/subjects'',
       mi_Headers = fmupd ''authorization'' [''secret''] fmempty, mi_Body = None\<rparr> ((), []))) = [] @ new
     \<and> (\<forall>e \<in> set new. safe_exchange e)"
proof -
  obtain out v log where "RoundTrip (\<lambda>r v. (Inl EOF, v)) \<lparr>mi_Method = ''GET'', mi_URL = ''/subjects'',
      mi_Headers = fmupd ''authorization'' [''secret''] fmempty, mi_Body = None\<rparr> ((), []) = (out, v, log)"
    by (metis prod.exhaust)
  from recorder_safe [OF this] this show ?thesis by auto
qed

end
