(* ===== verification/Spec2Isabelle.thy ===== *)
theory Spec2Isabelle
  imports App_Walkthrough Contract_Trace
begin

text \<open>
  Riquet, a standalone schema registry that speaks the Confluent REST API and keeps its state either
  in a bbolt file or in a Kafka topic.

  \<^bold>\<open>The program\<close>

  A request passes authentication and the protection of administrative requests
  (\<open>internal/security\<close>), then, on a replica of a Kafka cluster that is not the primary, the
  forwarder (\<open>internal/ha\<close>), and reaches the REST adapter (\<open>internal/transport/confluent\<close>). The
  adapter parses a submitted schema with the engine of its format (\<open>internal/formats\<close>) and calls a
  command of the machine (\<open>internal/domain/machine.go\<close>). A command checks the published state,
  builds one transition, commits it to the store and publishes the state after it. A store
  (\<open>internal/storage\<close>) keeps a snapshot and the transitions after it; a start recovers the state by
  restoring the one and replaying the other, and the replicas of a Kafka cluster follow the
  transitions of the primary. Backups (\<open>internal/backup\<close>) and exports from a Confluent registry
  (\<open>internal/migration\<close>) write a snapshot of their own. \<open>internal/app\<close> puts the parts together,
  \<open>internal/observability\<close> watches them, and the commands under \<open>cmd\<close> run them.

  \<^bold>\<open>The theories and the code\<close>

  \<^item> \<open>Prelude\<close>, \<open>Strconv\<close>, \<open>Hashes\<close>, \<open>Json\<close>, \<open>Json_Text\<close>, \<open>Json_Fields\<close>, \<open>Http\<close>: what the program uses
    of Go and its standard library. Signed 64-bit integers are a type \<open>int64\<close> with the signed order,
    unsigned ones are \<open>64 word\<close>, both with wrap-around; strings and byte slices are lists of
    characters; a fallible function returns a sum with a \<open>go_error\<close> on the left, where the text of
    an error is kept as its format and arguments; a map is a finite map and a mutated object is
    passed and returned. SHA-256 is computed, not assumed. Texts of JSON are parsed and written byte
    by byte, with the replacement of invalid UTF-8 and the case folding of field names.
  \<^item> \<open>Domain_Types\<close> (\<open>domain/types.go\<close>, \<open>errors.go\<close>), \<open>Transition\<close> (\<open>transition.go\<close>),
    \<open>Registry_State\<close> and \<open>Snapshot_Codec\<close> (\<open>state.go\<close>), \<open>Machine\<close> (\<open>machine.go\<close>): the domain. A
    struct is a record with its fields under a prefix, an operation has the name of its function, and
    the committer and the compatibility check are arguments as they are in the code.
    \<open>Machine_Invariants\<close> and \<open>Machine_Behaviour\<close> hold what is proved of it: the registry invariant
    is kept by every command, references never dangle, version numbers are fresh and never reused,
    history only grows, a retried operation answers as before, followers converge, and a transition
    built by a command applies, but for registrations with a negative version or a subject that is not
    UTF-8, which are refused late and reported as corruption. Where operation IDs have to be UTF-8 the
    statement says so; what happens otherwise is C32.
  \<^item> \<open>Storage\<close> (\<open>storage/store.go\<close> and \<open>recoverState\<close> of \<open>app/app.go\<close>): the Store interface, and the
    locale \<open>durable_committer\<close> with what a machine relies on. \<open>Transition_Log\<close> has the log both
    stores keep. \<open>Bolt_Store\<close> (\<open>storage/bolt/store.go\<close>) and \<open>Bolt_Recovery\<close>: the locale
    \<open>bbolt_laws\<close> states the documented behaviour of bbolt, every operation of the store is modelled
    over it, the store is proved a \<open>durable_committer\<close>, and a database in memory interprets both.
    \<open>Backup\<close> (\<open>backup/logical.go\<close>): a backup restores the state it was taken of.
  \<^item> \<open>Kafka_Layout\<close> (\<open>layout.go\<close>, \<open>config.go\<close>), \<open>Kafka_Topic\<close> (\<open>topic.go\<close>), \<open>Kafka_Store\<close> and
    \<open>Kafka_Operations\<close> (\<open>store.go\<close>), \<open>Kafka_Coordinator\<close> (\<open>coordinator.go\<close>), all of
    \<open>storage/kafka\<close>. What is consumed and what a transaction answers are arguments;
    \<open>kafka_transactions\<close> is the locale of the transactional producer. \<open>Kafka_Recovery\<close>: replicas
    that consumed the same records agree whatever the batches, and recover what was published.
    \<open>Kafka_Guarantees\<close>: commits are sequenced, a primary that was overtaken is fenced off, a commit
    whose answer was lost completes. \<open>Kafka_Coordinator\<close> models the goroutines of a replica by their
    critical sections, one step for what runs under the coordinator's mutex or under the store's commit
    mutex, as an inductive relation in which they interleave in any way. A lease that the coordinator
    has given up and the store has still to deactivate, and one that the store has and the coordinator
    has still to take over, are states of their own (\<open>rp_due\<close>, \<open>Activated\<close>, \<open>Withdrawing\<close>); the
    invariant is that a commit passes under the announced lease only, held by the coordinator or in one
    of these states.
  \<^item> \<open>Formats\<close> (\<open>formats/engine.go\<close> and \<open>compatibilityChecker\<close> of \<open>app.go\<close>), \<open>Engine_Common\<close> and
    \<open>Any_Values\<close> (what the engines share, values decoded into \<open>any\<close>), \<open>Jsonschema_Engine\<close> and
    \<open>Jsonschema_Compat\<close>, \<open>Protobuf_Engine\<close>, \<open>Avro_Engine\<close> and \<open>Avro_Canonical\<close>, \<open>Engines\<close> (the three
    together). References are loaded within their limits and without a cycle; stored texts read
    back; the comparison of JSON Schemas is sound for the keywords it reads against a semantics of
    those keywords where types are named, Protobuf compatibility is agreement on the wire; and where a comparison is
    weaker than it means to be, a theorem says so.
  \<^item> \<open>Server\<close> and \<open>Server_Guarantees\<close> (\<open>transport/confluent/server.go\<close>): every route and handler, behind the
    multiplexer of \<open>net/http\<close> with its redirection of paths that are not clean and its own answers 404
    and 405. A request is refused or run as a whole, reads change nothing, a registration can be read
    back, a repeated request ID is safe whatever is served in between, every answer is well formed.
    \<open>Security\<close> (\<open>security/http.go\<close>) and \<open>Config\<close> (\<open>config/config.go\<close>): what the public listener asks
    for; the internal listener asks for nothing. \<open>Forwarder\<close> and \<open>Forwarding\<close> (\<open>ha/forwarder.go\<close>):
    the registry changes at most once by a forwarded mutation, over a network that loses requests and
    answers and with other clients in between; and where the path survives the coding of the message
    the mutation is run like a direct one.
  \<^item> \<open>Migration\<close> and \<open>Migration_Faithful\<close> (\<open>migration/confluent.go\<close>): a replay that succeeds says
    nothing that its source does not, has every version whose schema no other version of the subject
    has, and loses one of two with the same schema.
  \<^item> \<open>Observability\<close> (\<open>observability/http.go\<close>): the health endpoints, the log, and the metrics as atomic
    steps of requests that overlap, with the invariant that they account for every request.
  \<^item> \<open>App\<close> and \<open>App_Guarantees\<close> (\<open>app/app.go\<close>): opening either store, the handlers, the coordination loop
    as an inductive relation, and \<open>Run\<close> on a bbolt file from the defaults to the closing of the store.
    The file as a committer that also keeps its format is a second instance of \<open>durable_committer\<close>, and
    with it the registry survives every sequence of runs, in order, failed or killed.
  \<^item> \<open>Commands\<close> (\<open>cmd\<close>): the four commands from their flags to their exit codes. Output files are replaced
    as a whole, and a backup that is restored is served as it was.
  \<^item> \<open>Contract_Diff\<close> and \<open>Contract_Trace\<close> (\<open>contract/diff.go\<close>, \<open>trace.go\<close>): the comparison of this registry with
    the reference one. It decides equality up to a one-to-one renaming, and its recorder keeps no
    credentials of the kinds it knows.
  \<^item> \<open>Walkthrough\<close>, \<open>Kafka_Walkthrough\<close>, \<open>Http_Walkthrough\<close>, \<open>Migration_Walkthrough\<close>,
    \<open>Engines_Walkthrough\<close>, \<open>App_Walkthrough\<close>: the guarantees applied to small concrete runs, with concrete
    instances of everything that is an argument.

  \<^bold>\<open>Code outside the repository\<close>

  bbolt, franz-go, the Avro parser of hamba, the Protobuf compiler, the JSON Schema validator, the
  YAML decoder, the file system and the HTTP transport are arguments of the definitions that use
  them. What a theorem asks of them is a hypothesis or a locale named after them, it is behaviour
  they document, and a walkthrough or an interpretation shows that it can hold. The order in which
  Go walks a map is an argument too, so that a theorem holds for every order.

  \<^bold>\<open>Bounds and fuel\<close>

  The JSON parser has fuel, twice the length of its input and one, which \<open>parse_value_fuel\<close> shows to
  be enough. Loading references recurses on the depth that the limits allow. The replay of an export
  goes over the remaining versions as long as one of them could be registered, so that the list gets
  shorter. A loop that waits for the Kafka client takes the list of what wakes it and is \<open>None\<close> where the
  list does not suffice. All other loops recurse on their data. Counters have the width of the code;
  where a theorem needs room in them it says so.

  \<^bold>\<open>Not modelled\<close>

  \<^item> \<open>Run\<close> with Kafka as one function: the follower, the coordination loop, the forwarder and the store are
    modelled each with its own steps, and their theorems hold for any sequence of them.
  \<^item> Requests in parallel on one server: a handler is one step, as the machine's lock makes a command one; the
    metrics alone are modelled below that. Timeouts and the options of clients and servers are left out.
  \<^item> The limit on the nesting of JSON values, the final text of an error, and the redirection of a path that
    differs from a pattern by its last slash, which no pattern of the program gives rise to. The status of a
    redirection is that of the Go release the module asks for, 307; earlier ones answer 301.
  \<^item> The scenarios and targets of \<open>internal/contract\<close>, \<open>internal/testkit\<close> and \<open>storage/storagetest\<close>, which
    start processes and call registries for tests and are no part of the served program; \<open>buildinfo\<close>,
    strings set by the linker; the flag package of the commands.
\<close>

end
